(* ===== verification/Rust_Prelude.thy ===== *)
theory Rust_Prelude
  imports Main "HOL-Library.Word"
begin

text \<open>
  Shared vocabulary of the development: the machine integers of the Rust sources as words,
  Rust's overflow-checked arithmetic (a panic is the value \<open>None\<close>), the byte encodings
  \<open>to_be_bytes\<close>, \<open>from_be_bytes\<close>, \<open>to_le_bytes\<close> and \<open>from_le_bytes\<close> of the standard
  library with their round trips, slices, and the three interfaces every wire format or
  stateful component of the program is an instance of: \<open>codec\<close> (what is encoded is decoded
  again), \<open>prefix_codec\<close> (the same with trailing bytes) and \<open>step_system\<close> (an invariant
  kept by every operation is kept by every run).
\<close>

unbundle bit_operations_syntax

named_theorems codec_simps \<open>unfolding rules and length facts of the wire formats\<close>
named_theorems panic_simps \<open>rules for overflow-checked arithmetic\<close>
named_theorems inv_intros \<open>preservation lemmas of component invariants\<close>

type_synonym u8 = "8 word"
type_synonym u16 = "16 word"
type_synonym u32 = "32 word"
type_synonym u64 = "64 word"
type_synonym u128 = "128 word"
type_synonym bytes = "8 word list"

section \<open>Results\<close>

text \<open>The operator \<open>?\<close> with the rest of the computation as a continuation.\<close>

definition result_bind :: "'e + 'a \<Rightarrow> ('a \<Rightarrow> 'e + 'b) \<Rightarrow> 'e + 'b" where
  "result_bind m k = (case m of Inl e \<Rightarrow> Inl e | Inr x \<Rightarrow> k x)"

text \<open>\<open>map_err\<close>.\<close>

definition map_err :: "('e \<Rightarrow> 'f) \<Rightarrow> 'e + 'a \<Rightarrow> 'f + 'a" where
  "map_err f m = (case m of Inl e \<Rightarrow> Inl (f e) | Inr x \<Rightarrow> Inr x)"

lemma result_bind_simps [simp]:
  "result_bind (Inl e) k = Inl e" "result_bind (Inr x) k = k x"
  by (simp_all add: result_bind_def)

lemma map_err_simps [simp]: "map_err f (Inl e) = Inl (f e)" "map_err f (Inr x) = Inr x"
  by (simp_all add: map_err_def)

lemma result_bind_eq_Inr: "result_bind m k = Inr y \<longleftrightarrow> (\<exists>x. m = Inr x \<and> k x = Inr y)"
  by (cases m) simp_all

lemma map_err_eq_Inr [simp]: "map_err f m = Inr x \<longleftrightarrow> m = Inr x"
  by (cases m) simp_all

section \<open>Chunks\<close>

text \<open>\<open>slice::chunks\<close>, where the chunk size is not zero.\<close>

fun chunk_list :: "nat \<Rightarrow> 'a list \<Rightarrow> 'a list list" where
  "chunk_list n xs = (if xs = [] \<or> n = 0 then [] else take n xs # chunk_list n (drop n xs))"

declare chunk_list.simps [simp del]

lemma chunk_list_empty [simp]: "chunk_list n [] = []"
  by (simp add: chunk_list.simps)

lemma chunk_list_concat: "0 < n \<Longrightarrow> concat (chunk_list n xs) = xs"
proof (induction n xs rule: chunk_list.induct)
  case (1 n xs)
  then show ?case by (cases "xs = []") (simp_all add: chunk_list.simps[of n xs])
qed

lemma chunk_list_sizes: "c \<in> set (chunk_list n xs) \<Longrightarrow> 0 < length c \<and> length c \<le> n"
proof (induction n xs rule: chunk_list.induct)
  case (1 n xs)
  then show ?case by (cases "xs = [] \<or> n = 0") (auto simp: chunk_list.simps[of n xs])
qed

lemma chunk_list_length: "0 < n \<Longrightarrow> length (chunk_list n xs) = (length xs + n - 1) div n"
proof (induction n xs rule: chunk_list.induct)
  case (1 n xs)
  show ?case
  proof (cases "xs = []")
    case True
    then show ?thesis using 1(2) by simp
  next
    case False
    then have step: "length (chunk_list n xs) = Suc (length (chunk_list n (drop n xs)))"
      using 1(2) by (simp add: chunk_list.simps[of n xs])
    obtain m where m: "length xs = Suc m" using False by (cases xs) auto
    have "length (chunk_list n (drop n xs)) = (length xs - n + n - 1) div n"
      using 1 False by simp
    also have "\<dots> = m div n" using m 1(2) by (cases "Suc m \<le> n") simp_all
    finally show ?thesis using step m 1(2) by (simp add: div_add_self2)
  qed
qed

section \<open>Checked arithmetic\<close>

text \<open>
  With overflow checks on (the development profile of the build), \<open>+\<close>, \<open>-\<close> and \<open>*\<close> on
  unsigned integers panic when the mathematical result is out of range.
\<close>

definition add_chk :: "'a::len word \<Rightarrow> 'a word \<Rightarrow> 'a word option" where
  "add_chk a b = (if unat a + unat b < 2 ^ LENGTH('a) then Some (a + b) else None)"

definition sub_chk :: "'a::len word \<Rightarrow> 'a word \<Rightarrow> 'a word option" where
  "sub_chk a b = (if b \<le> a then Some (a - b) else None)"

definition sat_sub :: "'a::len word \<Rightarrow> 'a word \<Rightarrow> 'a word" where
  "sat_sub a b = (if b \<le> a then a - b else 0)"

lemma add_chk_Some_iff [panic_simps]:
  "add_chk a b = Some c \<longleftrightarrow> unat a + unat b < 2 ^ LENGTH('a) \<and> c = a + b"
  for a b c :: "'a::len word"
  by (auto simp: add_chk_def)

lemma add_chk_None_iff [panic_simps]:
  "add_chk a b = None \<longleftrightarrow> 2 ^ LENGTH('a) \<le> unat a + unat b"
  for a b :: "'a::len word"
  by (auto simp: add_chk_def)

lemma sub_chk_Some_iff [panic_simps]: "sub_chk a b = Some c \<longleftrightarrow> b \<le> a \<and> c = a - b"
  by (auto simp: sub_chk_def)

lemma sub_chk_None_iff [panic_simps]: "sub_chk a b = None \<longleftrightarrow> a < b"
  by (auto simp: sub_chk_def not_le)

lemma add_chk_unat:
  "add_chk a b = Some c \<Longrightarrow> unat c = unat a + unat b"
  for a b c :: "'a::len word"
  by (auto simp: add_chk_def unat_word_ariths split: if_splits)

lemma add_chk_nat:
  "add_chk a b = (if unat a + unat b < 2 ^ LENGTH('a) then Some (word_of_nat (unat a + unat b)) else None)"
  for a b :: "'a::len word"
  by (simp add: add_chk_def)

lemma sub_chk_unat: "sub_chk a b = Some c \<Longrightarrow> unat c = unat a - unat b"
  by (auto simp: sub_chk_def unat_sub split: if_splits)

lemma unat_ucast_up:
  fixes w :: "'a::len word"
  assumes "LENGTH('a) \<le> LENGTH('b::len)"
  shows "unat (ucast w :: 'b word) = unat w"
proof -
  have "unat w < 2 ^ LENGTH('b)"
    using unsigned_less[of w] power_increasing[OF assms, of "2::nat"]
    by (meson less_le_trans one_le_numeral)
  then show ?thesis by (simp add: unsigned_ucast_eq take_bit_nat_eq_self_iff)
qed

lemma unat_push_bit:
  fixes w :: "'a::len word"
  assumes "unat w * 2 ^ n < 2 ^ LENGTH('a)"
  shows "unat (push_bit n w) = unat w * 2 ^ n"
  using assms unfolding unsigned_push_bit_eq by (simp add: push_bit_nat_def take_bit_nat_eq_self_iff)

lemma unat_add_small:
  fixes a b :: "'a::len word"
  shows "unat a + unat b < 2 ^ LENGTH('a) \<Longrightarrow> unat (a + b) = unat a + unat b"
  by (simp add: unat_word_ariths)

section \<open>Ring indices\<close>

lemma mod_lt: "(0 :: nat) < n \<Longrightarrow> x mod n < n"
  by simp

lemma ring_distinct:
  assumes "(r + i) mod n = (r + j) mod n" and "i < n" and "j < (n::nat)"
  shows "i = j"
proof (rule ccontr)
  assume "i \<noteq> j"
  then consider "i < j" | "j < i" by linarith
  then show False
  proof cases
    case 1
    then have "n dvd j - i" using assms(1) mod_eq_dvd_iff_nat[of "r + i" "r + j" n] by simp
    then show False using 1 assms(3) by (auto dest!: dvd_imp_le)
  next
    case 2
    then have "n dvd i - j" using assms(1) mod_eq_dvd_iff_nat[of "r + j" "r + i" n] by simp
    then show False using 2 assms(2) by (auto dest!: dvd_imp_le)
  qed
qed

section \<open>Slices\<close>

definition slice :: "'a list \<Rightarrow> nat \<Rightarrow> nat \<Rightarrow> 'a list" where
  "slice xs i j = take (j - i) (drop i xs)"

lemma length_slice [simp]: "j \<le> length xs \<Longrightarrow> length (slice xs i j) = j - i"
  by (simp add: slice_def)

lemma slice_append_right [simp]:
  "length xs \<le> i \<Longrightarrow> slice (xs @ ys) i j = slice ys (i - length xs) (j - length xs)"
  by (simp add: slice_def)

lemma slice_exact [simp]: "length xs = j \<Longrightarrow> slice (xs @ ys) 0 j = xs"
  by (simp add: slice_def)

lemma slice_Cons [simp]:
  "slice (x # xs) (Suc i) (Suc j) = slice xs i j"
  by (simp add: slice_def)

lemma slice_Cons_numeral [simp]:
  "slice (x # xs) (numeral i) (numeral j) = slice xs (pred_numeral i) (pred_numeral j)"
  by (simp add: slice_def numeral_eq_Suc)

lemma slice_Cons_1 [simp]:
  "slice (x # xs) 1 (numeral j) = slice xs 0 (pred_numeral j)"
  "slice (x # xs) (Suc 0) (numeral j) = slice xs 0 (pred_numeral j)"
  by (simp_all add: slice_def numeral_eq_Suc)

section \<open>Byte encodings of integers\<close>

fun be_nat :: "nat \<Rightarrow> nat \<Rightarrow> bytes" where
  "be_nat 0 v = []"
| "be_nat (Suc n) v = be_nat n (v div 256) @ [word_of_nat v]"

definition nat_be :: "bytes \<Rightarrow> nat" where
  "nat_be bs = foldl (\<lambda>a b. a * 256 + unat b) 0 bs"

lemma length_be_nat [simp]: "length (be_nat n v) = n"
  by (induction n arbitrary: v) auto

lemma nat_be_Nil [simp]: "nat_be [] = 0"
  by (simp add: nat_be_def)

lemma nat_be_snoc [simp]: "nat_be (bs @ [b]) = nat_be bs * 256 + unat b"
  by (simp add: nat_be_def)

lemma unat_of_nat_u8: "unat (word_of_nat v :: u8) = v mod 256"
  by (simp add: unat_of_nat)

lemma nat_be_be_nat: "nat_be (be_nat n v) = v mod 256 ^ n"
proof (induction n arbitrary: v)
  case 0
  then show ?case by simp
next
  case (Suc n)
  have "v mod 256 ^ Suc n = 256 * (v div 256 mod 256 ^ n) + v mod 256"
    by (simp add: mod_mult2_eq)
  with Suc show ?case by (simp add: unat_of_nat_u8 mult.commute)
qed

lemma nat_be_bound: "nat_be bs < 256 ^ length bs"
proof (induction bs rule: rev_induct)
  case Nil
  then show ?case by simp
next
  case (snoc b bs)
  have "unat b < 256" using unsigned_less[of b] by simp
  with snoc show ?case by simp
qed

lemma be_nat_nat_be: "be_nat (length bs) (nat_be bs) = bs"
proof (induction bs rule: rev_induct)
  case Nil
  then show ?case by simp
next
  case (snoc b bs)
  have b: "unat b < 256" using unsigned_less[of b] by simp
  then have "(nat_be bs * 256 + unat b) div 256 = nat_be bs" by simp
  moreover have "(word_of_nat (nat_be bs * 256 + unat b) :: u8) = b"
    using b by (intro word_unat_eq_iff[THEN iffD2]) (simp only: unat_of_nat_u8, simp)
  ultimately show ?case using snoc by simp
qed

definition to_be_bytes :: "nat \<Rightarrow> 'a::len word \<Rightarrow> bytes" where
  "to_be_bytes n w = be_nat n (unat w)"

definition from_be_bytes :: "bytes \<Rightarrow> 'a::len word" where
  "from_be_bytes bs = word_of_nat (nat_be bs)"

definition to_le_bytes :: "nat \<Rightarrow> 'a::len word \<Rightarrow> bytes" where
  "to_le_bytes n w = rev (to_be_bytes n w)"

definition from_le_bytes :: "bytes \<Rightarrow> 'a::len word" where
  "from_le_bytes bs = from_be_bytes (rev bs)"

lemma length_to_be_bytes [simp]: "length (to_be_bytes n w) = n"
  by (simp add: to_be_bytes_def)

lemma length_to_le_bytes [simp]: "length (to_le_bytes n w) = n"
  by (simp add: to_le_bytes_def)

lemma from_to_be_bytes [simp]:
  fixes w :: "'a::len word"
  assumes "LENGTH('a) = 8 * n"
  shows "from_be_bytes (to_be_bytes n w) = w"
proof -
  have "(256::nat) ^ n = 2 ^ LENGTH('a)"
    using assms by (simp add: power_mult)
  then have "unat w mod 256 ^ n = unat w" by simp
  then show ?thesis
    by (simp add: to_be_bytes_def from_be_bytes_def nat_be_be_nat)
qed

lemma from_to_le_bytes [simp]:
  fixes w :: "'a::len word"
  assumes "LENGTH('a) = 8 * n"
  shows "from_le_bytes (to_le_bytes n w) = w"
  using assms by (simp add: from_le_bytes_def to_le_bytes_def)

lemma to_from_be_bytes:
  assumes "LENGTH('a::len) = 8 * n" and "length bs = n"
  shows "to_be_bytes n (from_be_bytes bs :: 'a word) = bs"
proof -
  have "(256::nat) ^ n = 2 ^ LENGTH('a)"
    using assms by (simp add: power_mult)
  then have "unat (word_of_nat (nat_be bs) :: 'a word) = nat_be bs"
    using nat_be_bound[of bs] assms(2) by (simp add: unat_of_nat)
  then show ?thesis
    using be_nat_nat_be[of bs] assms(2) by (simp add: to_be_bytes_def from_be_bytes_def)
qed

lemma to_be_bytes_inject:
  fixes v w :: "'a::len word"
  assumes "LENGTH('a) = 8 * n" and "to_be_bytes n v = to_be_bytes n w"
  shows "v = w"
  using from_to_be_bytes[OF assms(1)] assms(2) by metis

section \<open>Byte strings\<close>

text \<open>A Rust \<open>String\<close> is its UTF-8 bytes; HOL's \<^typ>\<open>char\<close> is a byte.\<close>

definition byte_of_char :: "char \<Rightarrow> u8" where
  "byte_of_char c = word_of_nat (of_char c)"

definition char_of_byte :: "u8 \<Rightarrow> char" where
  "char_of_byte b = char_of (unat b)"

definition as_bytes :: "string \<Rightarrow> bytes" where
  "as_bytes s = map byte_of_char s"

definition chars_of_bytes :: "bytes \<Rightarrow> string" where
  "chars_of_bytes bs = map char_of_byte bs"

lemma char_of_byte_of_char [simp]: "char_of_byte (byte_of_char c) = c"
  by (simp add: char_of_byte_def byte_of_char_def unat_of_nat_u8)

lemma byte_of_char_of_byte [simp]: "byte_of_char (char_of_byte b) = b"
proof -
  have "unat b < 256" using unsigned_less[of b] by simp
  then show ?thesis by (simp add: char_of_byte_def byte_of_char_def)
qed

lemma byte_of_char_inject [simp]: "byte_of_char c = byte_of_char d \<longleftrightarrow> c = d"
  by (metis char_of_byte_of_char)

lemma length_as_bytes [simp]: "length (as_bytes s) = length s"
  by (simp add: as_bytes_def)

lemma as_bytes_append [simp]: "as_bytes (s @ t) = as_bytes s @ as_bytes t"
  by (simp add: as_bytes_def)

lemma chars_of_as_bytes [simp]: "chars_of_bytes (as_bytes s) = s"
  by (induction s) (simp_all add: as_bytes_def chars_of_bytes_def)

lemma as_bytes_chars_of [simp]: "as_bytes (chars_of_bytes bs) = bs"
  by (induction bs) (simp_all add: as_bytes_def chars_of_bytes_def)

lemma as_bytes_inject [simp]: "as_bytes s = as_bytes t \<longleftrightarrow> s = t"
  by (metis chars_of_as_bytes)

section \<open>Interfaces\<close>

text \<open>A wire format: on admissible values, decoding undoes encoding.\<close>

locale codec =
  fixes enc :: "'a \<Rightarrow> bytes"
    and dec :: "bytes \<Rightarrow> 'a option"
    and ok :: "'a \<Rightarrow> bool"
  assumes dec_enc: "ok x \<Longrightarrow> dec (enc x) = Some x"
begin

lemma enc_inj: "ok x \<Longrightarrow> ok y \<Longrightarrow> enc x = enc y \<longleftrightarrow> x = y"
  using dec_enc by (metis option.inject)

lemma enc_inj_on: "inj_on enc {x. ok x}"
  by (rule inj_onI) (simp add: enc_inj)

text \<open>A receiver that decodes every datagram sees what the sender encoded.\<close>

lemma dec_all: "(\<And>x. x \<in> set xs \<Longrightarrow> ok x) \<Longrightarrow> map (\<lambda>x. dec (enc x)) xs = map Some xs"
  by (simp add: dec_enc)

end

text \<open>
  A format whose decoder reads a prefix and ignores what follows, as the ones that are read
  out of an over-long receive buffer.
\<close>

locale prefix_codec = codec enc dec ok
  for enc :: "'a \<Rightarrow> bytes" and dec :: "bytes \<Rightarrow> 'a option" and ok :: "'a \<Rightarrow> bool" +
  assumes dec_enc_append: "ok x \<Longrightarrow> dec (enc x @ rest) = Some x"
begin

lemma enc_prefix_free: "ok x \<Longrightarrow> ok y \<Longrightarrow> enc x @ r = enc y @ s \<Longrightarrow> x = y"
  using dec_enc_append by (metis option.inject)

lemma dec_zero_padded: "ok x \<Longrightarrow> dec (enc x @ replicate n 0) = Some x"
  by (rule dec_enc_append)

end

text \<open>
  A component as a step function over its events, with an invariant that every step keeps.
\<close>

locale step_system =
  fixes step :: "'s \<Rightarrow> 'e \<Rightarrow> 's"
    and inv :: "'s \<Rightarrow> bool"
  assumes step_inv: "inv s \<Longrightarrow> inv (step s e)"
begin

lemma run_inv: "inv s \<Longrightarrow> inv (foldl step s es)"
  by (induction es arbitrary: s) (auto intro: step_inv)

end

end
