(* ===== verification/Rust_Str.thy ===== *)
theory Rust_Str
  imports Rust_Prelude
begin

text \<open>
  The part of Rust's \<open>str\<close> that the text protocols use. A \<open>str\<close> is the list of its UTF-8
  bytes. Modelled are UTF-8 validation (\<open>str::from_utf8\<close>), \<open>trim\<close> and \<open>split_whitespace\<close> for
  the whole Unicode \<open>White_Space\<close> set, \<open>split\<close>, \<open>split_once\<close>, \<open>join\<close>, \<open>to_ascii_lowercase\<close>,
  and printing and parsing of unsigned integers (\<open>to_string\<close>, \<open>parse\<close>, \<open>from_str_radix\<close>,
  the format \<open>{:02X}\<close>), each with the round trip the formats rely on.
\<close>

abbreviation ord_of :: "char \<Rightarrow> nat" where
  "ord_of c \<equiv> of_char c"

abbreviation newline :: char where
  "newline \<equiv> CHR 0x0A"

section \<open>UTF-8 validation\<close>

definition cont :: "char \<Rightarrow> bool" where
  "cont c = (0x80 \<le> ord_of c \<and> ord_of c \<le> 0xBF)"

text \<open>
  Length of the well-formed UTF-8 sequence at the head of a byte string, 0 if there is none;
  \<open>seq2\<close>, \<open>seq3\<close> and \<open>seq4\<close> check the bytes after the leading byte \<open>x\<close>.
\<close>

fun seq2 :: "string \<Rightarrow> nat" where
  "seq2 (b # r) = (if cont b then 2 else 0)"
| "seq2 [] = 0"

fun seq3 :: "nat \<Rightarrow> string \<Rightarrow> nat" where
  "seq3 x (b # c # r) =
     (if cont b \<and> cont c \<and> (x = 0xE0 \<longrightarrow> 0xA0 \<le> ord_of b) \<and> (x = 0xED \<longrightarrow> ord_of b \<le> 0x9F)
      then 3 else 0)"
| "seq3 x r = 0"

fun seq4 :: "nat \<Rightarrow> string \<Rightarrow> nat" where
  "seq4 x (b # c # d # r) =
     (if cont b \<and> cont c \<and> cont d \<and> (x = 0xF0 \<longrightarrow> 0x90 \<le> ord_of b)
        \<and> (x = 0xF4 \<longrightarrow> ord_of b \<le> 0x8F)
      then 4 else 0)"
| "seq4 x r = 0"

fun utf8_len :: "string \<Rightarrow> nat" where
  "utf8_len [] = 0"
| "utf8_len (a # r) =
     (let x = ord_of a in
      if x < 0x80 then 1
      else if 0xC2 \<le> x \<and> x \<le> 0xDF then seq2 r
      else if 0xE0 \<le> x \<and> x \<le> 0xEF then seq3 x r
      else if 0xF0 \<le> x \<and> x \<le> 0xF4 then seq4 x r
      else 0)"

function utf8_valid :: "string \<Rightarrow> bool" where
  "utf8_valid s =
     (if s = [] then True
      else if utf8_len s = 0 then False
      else utf8_valid (drop (utf8_len s) s))"
  by pat_completeness auto
termination
  by (relation "measure length") auto

declare utf8_valid.simps [simp del]

definition from_utf8 :: "bytes \<Rightarrow> string option" where
  "from_utf8 bs = (let s = chars_of_bytes bs in if utf8_valid s then Some s else None)"

lemma utf8_valid_Nil [simp]: "utf8_valid []"
  by (simp add: utf8_valid.simps)

lemma seq2_append: "seq2 r \<noteq> 0 \<Longrightarrow> seq2 (r @ t) = seq2 r \<and> seq2 r \<le> Suc (length r)"
  by (cases r) auto

lemma seq3_append: "seq3 x r \<noteq> 0 \<Longrightarrow> seq3 x (r @ t) = seq3 x r \<and> seq3 x r \<le> Suc (length r)"
  by (cases "(x, r)" rule: seq3.cases) (simp_all split: if_splits)

lemma seq4_append: "seq4 x r \<noteq> 0 \<Longrightarrow> seq4 x (r @ t) = seq4 x r \<and> seq4 x r \<le> Suc (length r)"
  by (cases "(x, r)" rule: seq4.cases) (simp_all split: if_splits)

lemma utf8_len_append: "utf8_len a \<noteq> 0 \<Longrightarrow> utf8_len (a @ b) = utf8_len a \<and> utf8_len a \<le> length a"
  by (cases a) (simp_all add: Let_def seq2_append seq3_append seq4_append split: if_splits)

lemma utf8_valid_append [intro]: "utf8_valid a \<Longrightarrow> utf8_valid b \<Longrightarrow> utf8_valid (a @ b)"
proof (induction a rule: utf8_valid.induct)
  case (1 a)
  show ?case
  proof (cases "a = []")
    case True
    with 1 show ?thesis by simp
  next
    case False
    with "1.prems"(1) have l: "utf8_len a \<noteq> 0" and v: "utf8_valid (drop (utf8_len a) a)"
      by (simp_all add: utf8_valid.simps[of a] split: if_splits)
    from utf8_len_append[OF l, of b] have ab: "utf8_len (a @ b) = utf8_len a" "utf8_len a \<le> length a"
      by simp_all
    have "utf8_valid (drop (utf8_len a) a @ b)"
      using "1.IH" False l v "1.prems"(2) by blast
    with False l ab show ?thesis by (simp add: utf8_valid.simps[of "a @ b"])
  qed
qed

lemma utf8_valid_ascii: "(\<forall>c \<in> set s. ord_of c < 128) \<Longrightarrow> utf8_valid s"
proof (induction s)
  case Nil
  then show ?case by simp
next
  case (Cons c s)
  then have "utf8_len (c # s) = 1" by simp
  with Cons show ?case by (simp add: utf8_valid.simps[of "c # s"])
qed

lemma from_utf8_as_bytes [simp]: "from_utf8 (as_bytes s) = (if utf8_valid s then Some s else None)"
  by (simp add: from_utf8_def)

section \<open>White space\<close>

text \<open>
  Length of the white-space character at the head of a string, 0 if there is none: ASCII
  9 to 13 and 32, U+0085, U+00A0, U+1680, U+2000 to U+200A, U+2028, U+2029, U+202F, U+205F,
  U+3000.
\<close>

definition ascii_ws :: "char \<Rightarrow> bool" where
  "ascii_ws c = ((9 \<le> ord_of c \<and> ord_of c \<le> 13) \<or> ord_of c = 32)"

definition ws2 :: "char \<Rightarrow> char \<Rightarrow> bool" where
  "ws2 a b = (ord_of a = 0xC2 \<and> (ord_of b = 0x85 \<or> ord_of b = 0xA0))"

definition ws3 :: "char \<Rightarrow> char \<Rightarrow> char \<Rightarrow> bool" where
  "ws3 a b c =
     ((ord_of a = 0xE1 \<and> ord_of b = 0x9A \<and> ord_of c = 0x80) \<or>
      (ord_of a = 0xE2 \<and> ord_of b = 0x80 \<and>
         (0x80 \<le> ord_of c \<and> ord_of c \<le> 0x8A \<or> ord_of c \<in> {0xA8, 0xA9, 0xAF})) \<or>
      (ord_of a = 0xE2 \<and> ord_of b = 0x81 \<and> ord_of c = 0x9F) \<or>
      (ord_of a = 0xE3 \<and> ord_of b = 0x80 \<and> ord_of c = 0x80))"

fun ws_len :: "string \<Rightarrow> nat" where
  "ws_len [] = 0"
| "ws_len [a] = (if ascii_ws a then 1 else 0)"
| "ws_len [a, b] = (if ascii_ws a then 1 else if ws2 a b then 2 else 0)"
| "ws_len (a # b # c # r) =
     (if ascii_ws a then 1 else if ws2 a b then 2 else if ws3 a b c then 3 else 0)"

text \<open>The same at the end of a string, on the reversed string.\<close>

fun ws_len_rev :: "string \<Rightarrow> nat" where
  "ws_len_rev [] = 0"
| "ws_len_rev [a] = (if ascii_ws a then 1 else 0)"
| "ws_len_rev [b, a] = (if ascii_ws b then 1 else if ws2 a b then 2 else 0)"
| "ws_len_rev (c # b # a # r) =
     (if ascii_ws c then 1 else if ws2 b c then 2 else if ws3 a b c then 3 else 0)"

lemma ws_len_pos: "0 < ws_len s \<Longrightarrow> length s - ws_len s < length s"
  by (cases s) auto

lemma ws_len_rev_pos: "0 < ws_len_rev s \<Longrightarrow> length s - ws_len_rev s < length s"
  by (cases s) auto

function trim_start :: "string \<Rightarrow> string" where
  "trim_start s = (if ws_len s = 0 then s else trim_start (drop (ws_len s) s))"
  by pat_completeness auto
termination
  by (relation "measure length") (simp_all add: ws_len_pos)

function trim_rev :: "string \<Rightarrow> string" where
  "trim_rev s = (if ws_len_rev s = 0 then s else trim_rev (drop (ws_len_rev s) s))"
  by pat_completeness auto
termination
  by (relation "measure length") (simp_all add: ws_len_rev_pos)

declare trim_start.simps [simp del] trim_rev.simps [simp del]

definition trim_end :: "string \<Rightarrow> string" where
  "trim_end s = rev (trim_rev (rev s))"

definition trim :: "string \<Rightarrow> string" where
  "trim s = trim_end (trim_start s)"

lemma ws_len_ascii: "ord_of c < 128 \<Longrightarrow> ws_len (c # s) = (if ascii_ws c then 1 else 0)"
  by (cases s; cases "tl s") (auto simp: ws2_def ws3_def neq_Nil_conv)

lemma ws_len_rev_ascii: "ord_of c < 128 \<Longrightarrow> ws_len_rev (c # s) = (if ascii_ws c then 1 else 0)"
  by (cases s; cases "tl s") (auto simp: ws2_def ws3_def neq_Nil_conv)

lemma trim_start_ascii [simp]:
  "ord_of c < 128 \<Longrightarrow> \<not> ascii_ws c \<Longrightarrow> trim_start (c # s) = c # s"
  by (simp add: trim_start.simps[of "c # s"] ws_len_ascii)

lemma trim_start_Nil [simp]: "trim_start [] = []"
  by (simp add: trim_start.simps)

lemma trim_end_Nil [simp]: "trim_end [] = []"
  by (simp add: trim_end_def trim_rev.simps)

lemma trim_end_newline [simp]: "trim_end (s @ [newline]) = trim_end s"
  by (simp add: trim_end_def trim_rev.simps[of "newline # rev s"] ws_len_rev_ascii ascii_ws_def)

lemma trim_end_ascii: "ord_of c < 128 \<Longrightarrow> \<not> ascii_ws c \<Longrightarrow> trim_end (s @ [c]) = s @ [c]"
  by (simp add: trim_end_def trim_rev.simps[of "c # rev s"] ws_len_rev_ascii)

function split_ws :: "string \<Rightarrow> string list" where
  "split_ws s =
     (if s = [] then [[]]
      else if ws_len s \<noteq> 0 then [] # split_ws (drop (ws_len s) s)
      else (case split_ws (tl s) of [] \<Rightarrow> [[hd s]] | t # ts \<Rightarrow> (hd s # t) # ts))"
  by pat_completeness auto
termination
  by (relation "measure length") (simp_all add: ws_len_pos)

declare split_ws.simps [simp del]

definition split_whitespace :: "string \<Rightarrow> string list" where
  "split_whitespace s = filter (\<lambda>t. t \<noteq> []) (split_ws s)"

section \<open>Splitting at a character\<close>

fun split_on :: "char \<Rightarrow> string \<Rightarrow> string list" where
  "split_on d [] = [[]]"
| "split_on d (c # s) =
     (if c = d then [] # split_on d s
      else (case split_on d s of [] \<Rightarrow> [[c]] | t # ts \<Rightarrow> (c # t) # ts))"

fun split_once :: "char \<Rightarrow> string \<Rightarrow> (string \<times> string) option" where
  "split_once d [] = None"
| "split_once d (c # s) =
     (if c = d then Some ([], s)
      else map_option (\<lambda>(a, b). (c # a, b)) (split_once d s))"

fun join :: "string \<Rightarrow> string list \<Rightarrow> string" where
  "join sep [] = []"
| "join sep [x] = x"
| "join sep (x # y # ys) = x @ sep @ join sep (y # ys)"

lemma split_on_nonempty [simp]: "split_on d s \<noteq> []"
  by (induction s) (auto split: list.splits)

lemma split_on_free [simp]: "d \<notin> set s \<Longrightarrow> split_on d s = [s]"
  by (induction s) auto

lemma split_on_append [simp]: "d \<notin> set a \<Longrightarrow> split_on d (a @ d # s) = a # split_on d s"
  by (induction a) auto

lemma split_once_append [simp]: "d \<notin> set a \<Longrightarrow> split_once d (a @ d # s) = Some (a, s)"
  by (induction a) auto

lemma split_once_free [simp]: "d \<notin> set a \<Longrightarrow> split_once d a = None"
  by (induction a) auto

lemma split_on_join:
  "xs \<noteq> [] \<Longrightarrow> (\<forall>x \<in> set xs. d \<notin> set x) \<Longrightarrow> split_on d (join [d] xs) = xs"
  by (induction "[d]" xs rule: join.induct) auto

lemma join_split_on: "join [d] (split_on d s) = s"
proof (induction s)
  case Nil
  then show ?case by simp
next
  case (Cons c s)
  obtain t ts where "split_on d s = t # ts" by (cases "split_on d s") auto
  with Cons show ?case by (cases ts) auto
qed

lemma utf8_valid_join:
  "utf8_valid sep \<Longrightarrow> (\<forall>x \<in> set xs. utf8_valid x) \<Longrightarrow> utf8_valid (join sep xs)"
  by (induction sep xs rule: join.induct) auto

section \<open>Unsigned integers\<close>

definition digit_char :: "nat \<Rightarrow> char" where
  "digit_char d = char_of (if d < 10 then 48 + d else 55 + d)"

lemma digit_char_values [simp]:
  "digit_char 0 = CHR ''0''"
  "digit_char (Suc 0) = CHR ''1''"
  "digit_char 2 = CHR ''2''"
  "digit_char 3 = CHR ''3''"
  "digit_char 4 = CHR ''4''"
  "digit_char 5 = CHR ''5''"
  "digit_char 6 = CHR ''6''"
  "digit_char 7 = CHR ''7''"
  "digit_char 8 = CHR ''8''"
  "digit_char 9 = CHR ''9''"
  "digit_char 1 = CHR ''1''"
  by code_simp+

fun show_nat :: "nat \<Rightarrow> string" where
  "show_nat n = (if n < 10 then [digit_char n] else show_nat (n div 10) @ [digit_char (n mod 10)])"

declare show_nat.simps [simp del]

text \<open>\<open>char::to_digit\<close> for a radix of at most 36.\<close>

definition to_digit :: "nat \<Rightarrow> char \<Rightarrow> nat option" where
  "to_digit radix c =
     (let x = ord_of c;
          v = (if 48 \<le> x \<and> x \<le> 57 then Some (x - 48)
               else if 97 \<le> x \<and> x \<le> 122 then Some (x - 87)
               else if 65 \<le> x \<and> x \<le> 90 then Some (x - 55)
               else None)
      in case v of None \<Rightarrow> None | Some d \<Rightarrow> if d < radix then Some d else None)"

fun digits_val :: "nat \<Rightarrow> nat \<Rightarrow> nat \<Rightarrow> string \<Rightarrow> nat option" where
  "digits_val radix bound acc [] = Some acc"
| "digits_val radix bound acc (c # s) =
     (case to_digit radix c of
        None \<Rightarrow> None
      | Some d \<Rightarrow>
          if acc * radix + d < bound then digits_val radix bound (acc * radix + d) s else None)"

text \<open>
  \<open>from_str_radix\<close> of the unsigned type with \<open>bound\<close> values: an empty string and a lone sign
  are errors, a leading plus is skipped, a minus is no digit, a value that does not fit is an
  error.
\<close>

definition parse_uint :: "nat \<Rightarrow> nat \<Rightarrow> string \<Rightarrow> nat option" where
  "parse_uint radix bound s =
     (case s of
        [] \<Rightarrow> None
      | c # r \<Rightarrow>
          if r = [] \<and> (c = CHR ''+'' \<or> c = CHR ''-'') then None
          else if c = CHR ''+'' then digits_val radix bound 0 r
          else digits_val radix bound 0 s)"

lemma digits_val_append:
  "digits_val radix bound acc (s @ t) =
     (case digits_val radix bound acc s of None \<Rightarrow> None | Some a \<Rightarrow> digits_val radix bound a t)"
  by (induction s arbitrary: acc) (auto split: option.splits)

lemma to_digit_digit_char: "d < 10 \<Longrightarrow> 10 \<le> radix \<Longrightarrow> to_digit radix (digit_char d) = Some d"
  by (simp add: to_digit_def digit_char_def Let_def)

lemma digits_val_show_nat: "n < bound \<Longrightarrow> digits_val 10 bound 0 (show_nat n) = Some n"
proof (induction n rule: show_nat.induct)
  case (1 n)
  show ?case
  proof (cases "n < 10")
    case True
    with 1 show ?thesis by (simp add: show_nat.simps[of n] to_digit_digit_char)
  next
    case False
    with 1 have "digits_val 10 bound 0 (show_nat (n div 10)) = Some (n div 10)" by simp
    with False 1 show ?thesis
      by (simp add: show_nat.simps[of n] digits_val_append to_digit_digit_char)
  qed
qed

lemma digit_char_ord: "d < 10 \<Longrightarrow> ord_of (digit_char d) = 48 + d"
  by (simp add: digit_char_def)

lemma show_nat_digits: "c \<in> set (show_nat n) \<Longrightarrow> 48 \<le> ord_of c \<and> ord_of c \<le> 57"
proof (induction n rule: show_nat.induct)
  case (1 n)
  then show ?case
    by (cases "n < 10") (auto simp: show_nat.simps[of n] digit_char_ord)
qed

lemma show_nat_nonempty [simp]: "show_nat n \<noteq> []"
  by (subst show_nat.simps) simp

lemma show_nat_hd: "show_nat n = c # r \<Longrightarrow> c \<noteq> CHR ''+'' \<and> c \<noteq> CHR ''-''"
  using show_nat_digits[of c n] by auto

lemma parse_show_nat: "n < bound \<Longrightarrow> parse_uint 10 bound (show_nat n) = Some n"
  using show_nat_hd[of n] digits_val_show_nat[of n bound]
  by (cases "show_nat n") (auto simp: parse_uint_def)

lemma parse_uint_bound: "parse_uint radix bound s = Some n \<Longrightarrow> 0 < bound \<Longrightarrow> n < bound"
proof -
  have "digits_val radix bound acc t = Some n \<Longrightarrow> acc < bound \<Longrightarrow> n < bound" for acc t
    by (induction t arbitrary: acc) (auto split: option.splits if_splits)
  then show "parse_uint radix bound s = Some n \<Longrightarrow> 0 < bound \<Longrightarrow> n < bound"
    unfolding parse_uint_def by (auto split: list.splits if_splits simp del: digits_val.simps)
qed

section \<open>Hexadecimal bytes\<close>

definition hex_byte :: "u8 \<Rightarrow> string" where
  "hex_byte b = [digit_char (unat b div 16), digit_char (unat b mod 16)]"

lemma to_digit_hex: "d < 16 \<Longrightarrow> to_digit 16 (digit_char d) = Some d"
  by (simp add: to_digit_def digit_char_def Let_def)

lemma digit_char_ord_hex: "d < 16 \<Longrightarrow> ord_of (digit_char d) = (if d < 10 then 48 + d else 55 + d)"
  by (simp add: digit_char_def)

lemma parse_hex_byte: "parse_uint 16 256 (hex_byte b) = Some (unat b)"
proof -
  have "unat b < 256" using unsigned_less[of b] by simp
  moreover from this have "unat b div 16 < 16" by simp
  moreover have "digit_char (unat b div 16) \<noteq> CHR ''+''"
    using digit_char_ord_hex[of "unat b div 16"] calculation(2) by (auto split: if_splits)
  ultimately show ?thesis
    by (simp add: parse_uint_def hex_byte_def to_digit_hex)
qed

section \<open>ASCII lower case\<close>

definition to_ascii_lowercase :: "string \<Rightarrow> string" where
  "to_ascii_lowercase s =
     map (\<lambda>c. if 65 \<le> ord_of c \<and> ord_of c \<le> 90 then char_of (ord_of c + 32) else c) s"

section \<open>ASCII tokens\<close>

text \<open>Words without white space, the fields of the textual formats.\<close>

definition visible :: "char \<Rightarrow> bool" where
  "visible c = (ord_of c < 128 \<and> \<not> ascii_ws c)"

definition token :: "string \<Rightarrow> bool" where
  "token t = (t \<noteq> [] \<and> list_all visible t)"

lemma ws_len_visible [simp]: "visible c \<Longrightarrow> ws_len (c # s) = 0"
  by (simp add: visible_def ws_len_ascii)

lemma split_ws_Nil [simp]: "split_ws [] = [[]]"
  by (simp add: split_ws.simps)

lemma split_ws_space [simp]: "split_ws (CHR '' '' # s) = [] # split_ws s"
  by (simp add: split_ws.simps[of "CHR '' '' # s"] ws_len_ascii ascii_ws_def)

lemma split_ws_visible [simp]:
  "visible c \<Longrightarrow> split_ws (c # s) = (case split_ws s of [] \<Rightarrow> [[c]] | t # ts \<Rightarrow> (c # t) # ts)"
  by (subst split_ws.simps) (simp split: list.splits)

lemma split_ws_word: "list_all visible t \<Longrightarrow> split_ws t = [t]"
  by (induction t) simp_all

lemma split_ws_word_space: "list_all visible t \<Longrightarrow> split_ws (t @ CHR '' '' # s) = t # split_ws s"
  by (induction t) simp_all

lemma split_whitespace_token [simp]: "token t \<Longrightarrow> split_whitespace t = [t]"
  by (simp add: token_def split_whitespace_def split_ws_word)

lemma split_whitespace_token_space [simp]:
  "token t \<Longrightarrow> split_whitespace (t @ CHR '' '' # s) = t # split_whitespace s"
  by (simp add: token_def split_whitespace_def split_ws_word_space)

lemma split_whitespace_join:
  "ts \<noteq> [] \<Longrightarrow> list_all token ts \<Longrightarrow> split_whitespace (join '' '' ts) = ts"
  by (induction "'' ''" ts rule: join.induct) simp_all

lemma trim_start_space [simp]: "trim_start (CHR '' '' # s) = trim_start s"
  by (simp add: trim_start.simps[of "CHR '' '' # s"] ws_len_ascii ascii_ws_def)

lemma trim_start_visible [simp]: "visible c \<Longrightarrow> trim_start (c # s) = c # s"
  by (simp add: visible_def)

lemma ws_len_rev_append_visible:
  "visible c \<Longrightarrow> ws_len_rev (s @ c # r) = ws_len_rev s"
  by (cases s rule: ws_len_rev.cases; cases r)
    (auto simp: visible_def ws_len_rev_ascii ws3_def ws2_def)

lemma ws_len_rev_le: "ws_len_rev s \<le> length s"
  by (cases s rule: ws_len_rev.cases) auto

lemma trim_rev_append_visible: "visible c \<Longrightarrow> trim_rev (s @ c # r) = trim_rev s @ c # r"
proof (induction s rule: trim_rev.induct)
  case (1 s)
  show ?case
  proof (cases "ws_len_rev s = 0")
    case True
    then show ?thesis using 1
      by (simp add: trim_rev.simps[of "s @ c # r"] trim_rev.simps[of s] ws_len_rev_append_visible)
  next
    case False
    then show ?thesis using 1
      by (simp add: trim_rev.simps[of "s @ c # r"] trim_rev.simps[of s] ws_len_rev_append_visible
          ws_len_rev_le)
  qed
qed

lemma trim_end_append_visible: "visible c \<Longrightarrow> trim_end (r @ c # s) = r @ c # trim_end s"
  by (simp add: trim_end_def trim_rev_append_visible)

lemma trim_end_token: "token t \<Longrightarrow> trim_end (r @ t) = r @ t"
  by (cases t rule: rev_cases)
    (simp_all add: token_def trim_end_append_visible[of _ "_ @ _" "[]", simplified])

lemma trim_token [simp]: "token t \<Longrightarrow> trim t = t"
  using trim_end_token[of t "[]"] by (cases t) (simp_all add: trim_def token_def)

lemma token_Cons [simp]: "token (c # s) \<longleftrightarrow> visible c \<and> (s = [] \<or> token s)"
  by (auto simp: token_def)

lemma token_append [simp]: "a \<noteq> [] \<Longrightarrow> b \<noteq> [] \<Longrightarrow> token (a @ b) \<longleftrightarrow> token a \<and> token b"
  by (auto simp: token_def)

lemma visible_digit_range: "48 \<le> ord_of c \<and> ord_of c \<le> 57 \<Longrightarrow> visible c"
  by (simp add: visible_def ascii_ws_def)

lemma token_show_nat [simp]: "token (show_nat n)"
  by (simp add: token_def list_all_iff visible_digit_range show_nat_digits)

lemma visible_digit [simp]: "d < 16 \<Longrightarrow> visible (digit_char d)"
  by (simp add: visible_def ascii_ws_def digit_char_ord_hex)

lemma token_hex_byte [simp]: "token (hex_byte b)"
proof -
  have "unat b < 256" using unsigned_less[of b] by simp
  then show ?thesis by (simp add: hex_byte_def)
qed

end
