(* ===== verification/Ice.thy ===== *)
theory Ice
  imports Rust_Str "HOL-Library.Multiset"
begin

text \<open>
  ICE, \<^verbatim>\<open>src/session/ice\<close>: candidate types, candidates with the RFC 8445 priority, candidate
  pairs, and the agent that gathers candidates, forms pairs and runs the connectivity checks.
  The network is the environment of the agent's operations: the interface list, the local
  socket address, the outcome of the STUN request and, per checked pair, the script of what
  the socket does in each iteration of the ping loop. A panic is \<open>None\<close>.
\<close>

datatype ice_error =
    NetworkInterfaceError
  | NoNetworkInterfaceFound
  | InvalidCandidateAddress
  | InvalidCandidatePort
  | InvalidCandidateType
  | NoLocalCandidates
  | NoRemoteCandidates
  | CandidatePairCreationFailed
  | NoCandidatePairs
  | InvalidConnectivityState
  | UnsupportedCandidateType
  | InternalError
  | NoSelectedPair

section \<open>Candidate types and candidates\<close>

datatype candidate_type = Host | ServerReflexive

fun candidate_type_priority :: "candidate_type \<Rightarrow> u32" where
  "candidate_type_priority Host = 126"
| "candidate_type_priority ServerReflexive = 100"

fun show_candidate_type :: "candidate_type \<Rightarrow> string" where
  "show_candidate_type Host = ''host''"
| "show_candidate_type ServerReflexive = ''srflx''"

definition candidate_type_from_str :: "string \<Rightarrow> ice_error + candidate_type" where
  "candidate_type_from_str s =
     (if s = ''host'' then Inr Host
      else if s = ''srflx'' then Inr ServerReflexive
      else Inl InvalidCandidateType)"

record candidate =
  cand_type :: candidate_type
  priority :: u32
  address :: string
  cand_port :: u16
  component_id :: u8
  foundation :: string
  cand_transport :: string

record ice_config =
  cfg_foundation :: string
  cfg_transport :: string
  cfg_component_id :: u8
  host_priority_preference :: u32
  srflx_priority_preference :: u32
  host_local_preference :: u16

definition candidate_new ::
  "candidate_type \<Rightarrow> u32 \<Rightarrow> string \<Rightarrow> u16 \<Rightarrow> u8 \<Rightarrow> string \<Rightarrow> string \<Rightarrow> candidate" where
  "candidate_new ty prio addr prt cid found tran =
     \<lparr>cand_type = ty, priority = prio, address = addr, cand_port = prt, component_id = cid,
      foundation = found, cand_transport = tran\<rparr>"

definition calculate_priority :: "candidate_type \<Rightarrow> u16 \<Rightarrow> ice_config \<Rightarrow> u32" where
  "calculate_priority ty local_preference cfg =
     (let type_preference =
            (case ty of
               Host \<Rightarrow> host_priority_preference cfg
             | ServerReflexive \<Rightarrow> srflx_priority_preference cfg)
      in push_bit 24 type_preference OR push_bit 8 (ucast local_preference) OR (256 - 1))"

definition new_host :: "string \<Rightarrow> u8 \<Rightarrow> ice_config \<Rightarrow> candidate" where
  "new_host addr cid cfg =
     \<lparr>cand_type = Host,
      priority = calculate_priority Host (host_local_preference cfg) cfg,
      address = addr, cand_port = 0, component_id = cid,
      foundation = cfg_foundation cfg, cand_transport = cfg_transport cfg\<rparr>"

section \<open>Candidate pairs\<close>

datatype connectivity_state = Waiting | InProgress | Succeeded | Failed

record candidate_pair =
  pair_local :: candidate
  pair_remote :: candidate
  pair_priority :: u64
  pair_state :: connectivity_state

text \<open>The sum is computed in \<open>u64\<close> and panics when it does not fit.\<close>

definition calculate_pair_priority :: "candidate \<Rightarrow> candidate \<Rightarrow> u64 option" where
  "calculate_pair_priority l r =
     (let g = ucast (min (priority l) (priority r)) :: u64;
          h = ucast (max (priority l) (priority r)) :: u64
      in case add_chk (push_bit 32 1 * g) (2 * h) of
           None \<Rightarrow> None
         | Some s \<Rightarrow> add_chk s (of_bool (priority l > priority r)))"

definition pair_new :: "candidate \<Rightarrow> candidate \<Rightarrow> candidate_pair option" where
  "pair_new l r =
     (case calculate_pair_priority l r of
        None \<Rightarrow> None
      | Some prio \<Rightarrow>
          Some \<lparr>pair_local = l, pair_remote = r, pair_priority = prio, pair_state = Waiting\<rparr>)"

section \<open>The agent\<close>

record ice_agent =
  local_candidates :: "candidate list"
  remote_candidates :: "candidate list"
  candidate_pairs :: "candidate_pair list"
  selected_pair :: "candidate_pair option"

definition ice_agent_new :: ice_agent where
  "ice_agent_new =
     \<lparr>local_candidates = [], remote_candidates = [], candidate_pairs = [], selected_pair = None\<rparr>"

text \<open>An interface as \<open>if_addrs\<close> reports it: loopback flag and, for IPv4, the address text.\<close>

type_synonym interface = "bool \<times> string option"

fun first_ipv4 :: "interface list \<Rightarrow> ice_error + string" where
  "first_ipv4 [] = Inl NoNetworkInterfaceFound"
| "first_ipv4 ((is_loopback, ipv4) # is) =
     (case ipv4 of
        Some ip \<Rightarrow> if \<not> is_loopback then Inr ip else first_ipv4 is
      | None \<Rightarrow> first_ipv4 is)"

definition get_local_ip :: "interface list option \<Rightarrow> ice_error + string" where
  "get_local_ip ifs =
     (case ifs of None \<Rightarrow> Inl NetworkInterfaceError | Some is \<Rightarrow> first_ipv4 is)"

text \<open>
  Gathering never returns an error; it panics only when the server-reflexive priority
  \<open>srflx_priority_preference * 1000\<close> overflows.
\<close>

definition gather_candidates ::
  "ice_agent \<Rightarrow> interface list option \<Rightarrow> u16 option \<Rightarrow> (string + string) \<Rightarrow> ice_config \<Rightarrow>
     ice_agent option" where
  "gather_candidates ag ifs local_port stun cfg =
     (let ag1 = (case get_local_ip ifs of
                   Inl _ \<Rightarrow> ag
                 | Inr local_ip \<Rightarrow>
                     let port = (case local_port of Some p \<Rightarrow> p | None \<Rightarrow> 0);
                         host = (new_host local_ip (cfg_component_id cfg) cfg)\<lparr>cand_port := port\<rparr>
                     in ag\<lparr>local_candidates := local_candidates ag @ [host]\<rparr>)
      in case stun of
           Inl _ \<Rightarrow> Some ag1
         | Inr addr \<Rightarrow>
             (case split_once (CHR '':'') addr of
                None \<Rightarrow> Some ag1
              | Some (ip, port_str) \<Rightarrow>
                  (case parse_uint 10 65536 port_str of
                     None \<Rightarrow> Some ag1
                   | Some stun_port \<Rightarrow>
                       if unat (srflx_priority_preference cfg) * 1000 < 2 ^ 32 then
                         Some (ag1\<lparr>local_candidates := local_candidates ag1 @
                           [candidate_new ServerReflexive (srflx_priority_preference cfg * 1000) ip
                              (word_of_nat stun_port) (cfg_component_id cfg) (cfg_foundation cfg)
                              (cfg_transport cfg)]\<rparr>)
                       else None)))"

fun pairs_with :: "candidate \<Rightarrow> candidate list \<Rightarrow> candidate_pair list option" where
  "pairs_with l [] = Some []"
| "pairs_with l (r # rs) =
     (case pair_new l r of
        None \<Rightarrow> None
      | Some p \<Rightarrow> map_option (\<lambda>ps. p # ps) (pairs_with l rs))"

fun all_pairs :: "candidate list \<Rightarrow> candidate list \<Rightarrow> candidate_pair list option" where
  "all_pairs [] rs = Some []"
| "all_pairs (l # ls) rs =
     (case pairs_with l rs of
        None \<Rightarrow> None
      | Some ps \<Rightarrow> map_option (\<lambda>qs. ps @ qs) (all_pairs ls rs))"

definition create_candidate_pair :: "ice_agent \<Rightarrow> (ice_agent \<times> (ice_error + unit)) option" where
  "create_candidate_pair ag =
     (if local_candidates ag = [] then Some (ag, Inl NoLocalCandidates)
      else if remote_candidates ag = [] then Some (ag, Inl NoRemoteCandidates)
      else
        (case all_pairs (local_candidates ag) (remote_candidates ag) of
           None \<Rightarrow> None
         | Some ps \<Rightarrow>
             let ag' = ag\<lparr>candidate_pairs := candidate_pairs ag @ ps\<rparr>
             in if candidate_pairs ag' = [] then Some (ag', Inl NoCandidatePairs)
                else Some (ag', Inr ())))"

definition add_remote_candidate ::
  "ice_agent \<Rightarrow> candidate \<Rightarrow> (ice_agent \<times> (ice_error + unit)) option" where
  "add_remote_candidate ag c =
     create_candidate_pair (ag\<lparr>remote_candidates := remote_candidates ag @ [c]\<rparr>)"

definition add_remote_candidates ::
  "ice_agent \<Rightarrow> candidate list \<Rightarrow> (ice_agent \<times> (ice_error + unit)) option" where
  "add_remote_candidates ag cs =
     create_candidate_pair (ag\<lparr>remote_candidates := remote_candidates ag @ cs\<rparr>)"

text \<open>
  One iteration of the ping loop: the \<open>send_to\<close> of the ping fails, or the following
  \<open>recv_from\<close> fails (the read timeout), or it delivers a datagram with its source address.
  The loop stops when two seconds have passed: the script then ends.
\<close>

datatype ping_event =
    SendError
  | RecvError
  | Datagram string bytes

definition contains_sub :: "string \<Rightarrow> string \<Rightarrow> bool" where
  "contains_sub hay needle =
     list_ex (\<lambda>i. take (length needle) (drop i hay) = needle) [0..<Suc (length hay)]"

text \<open>Result of the check and the datagrams sent to the target.\<close>

fun verify_candidate_pair :: "string \<Rightarrow> ping_event list \<Rightarrow> bool \<times> bytes list" where
  "verify_candidate_pair target [] = (False, [])"
| "verify_candidate_pair target (SendError # es) = verify_candidate_pair target es"
| "verify_candidate_pair target (RecvError # es) =
     apsnd (\<lambda>out. as_bytes ''PING'' # out) (verify_candidate_pair target es)"
| "verify_candidate_pair target (Datagram src msg # es) =
     apsnd (\<lambda>out. as_bytes ''PING'' # out)
       (if \<not> contains_sub target src then verify_candidate_pair target es
        else if msg = as_bytes ''PONG'' then (True, [])
        else if msg = as_bytes ''PING'' then
          apsnd (\<lambda>out. as_bytes ''PONG'' # out) (verify_candidate_pair target es)
        else verify_candidate_pair target es)"

definition is_host_pair :: "candidate_pair \<Rightarrow> bool" where
  "is_host_pair p =
     (\<not> (cand_type (pair_local p) = ServerReflexive \<or> cand_type (pair_remote p) = ServerReflexive))"

definition pair_target :: "candidate_pair \<Rightarrow> string" where
  "pair_target p =
     address (pair_remote p) @ '':'' @ show_nat (unat (cand_port (pair_remote p)))"

text \<open>
  The loop over the sorted pairs: \<open>env i\<close> is the script of the check of the pair with index
  \<open>i\<close>. Returns the updated pairs and the selected pair.
\<close>

fun check_pairs ::
  "(nat \<Rightarrow> ping_event list) \<Rightarrow> nat \<Rightarrow> candidate_pair list \<Rightarrow>
     candidate_pair list \<times> candidate_pair option" where
  "check_pairs env i [] = ([], None)"
| "check_pairs env i (p # ps) =
     (if \<not> is_host_pair p then
        (let (qs, sel) = check_pairs env (Suc i) ps in (p # qs, sel))
      else if fst (verify_candidate_pair (pair_target p) (env i)) then
        (let q = p\<lparr>pair_state := Succeeded\<rparr> in (q # ps, Some q))
      else
        (let (qs, sel) = check_pairs env (Suc i) ps in (p\<lparr>pair_state := Failed\<rparr> # qs, sel)))"

definition sort_pairs :: "candidate_pair list \<Rightarrow> candidate_pair list" where
  "sort_pairs ps = sort_key (\<lambda>p. - int (unat (pair_priority p))) ps"

text \<open>\<open>timeout_ok\<close>: whether setting the read timeout of the socket succeeds.\<close>

definition start_connectivity_checks ::
  "ice_agent \<Rightarrow> bool \<Rightarrow> (nat \<Rightarrow> ping_event list) \<Rightarrow> ice_agent \<times> (ice_error + unit)" where
  "start_connectivity_checks ag timeout_ok env =
     (if candidate_pairs ag = [] then (ag, Inl NoCandidatePairs)
      else
        let ag1 = ag\<lparr>candidate_pairs := sort_pairs (candidate_pairs ag)\<rparr>
        in if \<not> timeout_ok then (ag1, Inl NetworkInterfaceError)
           else
             let (ps, sel) = check_pairs env 0 (candidate_pairs ag1);
                 ag2 = ag1\<lparr>candidate_pairs := ps\<rparr>
             in case sel of
                  Some p \<Rightarrow> (ag2\<lparr>selected_pair := Some p\<rparr>, Inr ())
                | None \<Rightarrow> (ag2, Inl NoSelectedPair))"

definition get_selected_pair :: "ice_agent \<Rightarrow> ice_error + candidate_pair" where
  "get_selected_pair ag =
     (case selected_pair ag of Some p \<Rightarrow> Inr p | None \<Rightarrow> Inl NoSelectedPair)"

definition clean_remote_candidates :: "ice_agent \<Rightarrow> ice_agent" where
  "clean_remote_candidates ag =
     ag\<lparr>remote_candidates := [], candidate_pairs := [], selected_pair := None\<rparr>"

section \<open>Priorities\<close>

lemma calculate_priority_value:
  assumes "unat (case ty of Host \<Rightarrow> host_priority_preference cfg
                 | ServerReflexive \<Rightarrow> srflx_priority_preference cfg) < 256"
  shows "unat (calculate_priority ty lp cfg) =
     2 ^ 24 * unat (case ty of Host \<Rightarrow> host_priority_preference cfg
                    | ServerReflexive \<Rightarrow> srflx_priority_preference cfg) + 2 ^ 8 * unat lp + 255"
proof -
  define t where "t = (case ty of Host \<Rightarrow> host_priority_preference cfg
                       | ServerReflexive \<Rightarrow> srflx_priority_preference cfg)"
  let ?a = "push_bit 24 t" and ?b = "push_bit 8 (ucast lp :: u32)"
  have lp: "unat lp < 65536" using unsigned_less[of lp] by simp
  have ua: "unat ?a = unat t * 2 ^ 24"
    using assms by (intro unat_push_bit) (simp add: t_def)
  have ub: "unat ?b = unat lp * 2 ^ 8"
    using lp unat_ucast_up[of lp, where 'b = 32] unat_push_bit[of "ucast lp :: u32" 8] by simp
  have m: "(255::u32) = mask 8" by (simp add: mask_numeral)
  have disj1: "?b AND 255 = 0"
    unfolding m by (rule bit_word_eqI) (auto simp: bit_simps)
  have disj2: "?a AND (?b OR 255) = 0"
    unfolding m by (rule bit_word_eqI) (auto simp: bit_simps dest: bit_imp_le_length)
  have "calculate_priority ty lp cfg = ?a OR (?b OR 255)"
    unfolding calculate_priority_def t_def Let_def by (simp add: or.assoc)
  also have "\<dots> = ?a + (?b + 255)"
    using disjunctive_add_eq_or[OF disj1] disjunctive_add_eq_or[OF disj2] by simp
  finally have "calculate_priority ty lp cfg = ?a + (?b + 255)" .
  moreover have "unat (?b + 255) = unat lp * 2 ^ 8 + 255"
    using lp ub by (subst unat_add_small) simp_all
  ultimately show ?thesis
    using assms lp ua unfolding t_def[symmetric] by (simp add: unat_add_small)
qed

definition pair_value :: "nat \<Rightarrow> nat \<Rightarrow> nat" where
  "pair_value a b = 2 ^ 32 * min a b + 2 * max a b + of_bool (b < a)"

lemma unat_min_u32: "unat (min a b) = min (unat a) (unat b)" for a b :: u32
  by (simp add: min_def word_le_nat_alt)

lemma unat_max_u32: "unat (max a b) = max (unat a) (unat b)" for a b :: u32
  by (simp add: max_def word_le_nat_alt)

lemma calculate_pair_priority_value:
  "calculate_pair_priority l r =
     (let v = pair_value (unat (priority l)) (unat (priority r))
      in if v < 2 ^ 64 then Some (word_of_nat v) else None)"
proof -
  let ?a = "unat (priority l)" and ?b = "unat (priority r)"
  let ?g = "ucast (min (priority l) (priority r)) :: u64"
  let ?h = "ucast (max (priority l) (priority r)) :: u64"
  have ab: "?a < 2 ^ 32" "?b < 2 ^ 32"
    using unsigned_less[of "priority l"] unsigned_less[of "priority r"] by simp_all
  have g: "unat ?g = min ?a ?b" and h: "unat ?h = max ?a ?b"
    by (simp_all add: unat_ucast_up unat_min_u32 unat_max_u32)
  have one: "(push_bit 32 1 :: u64) = 2 ^ 32" by simp
  have x: "unat (push_bit 32 1 * ?g) = 2 ^ 32 * min ?a ?b"
    unfolding one using ab g by (subst unat_word_ariths) (auto simp: min_def)
  have y: "unat (2 * ?h) = 2 * max ?a ?b"
    using ab h by (subst unat_word_ariths) (auto simp: max_def)
  have z: "unat (of_bool (priority r < priority l) :: u64) = of_bool (?b < ?a)"
    by (simp add: word_less_nat_alt)
  have sum: "add_chk (push_bit 32 1 * ?g) (2 * ?h) =
      (if 2 ^ 32 * min ?a ?b + 2 * max ?a ?b < 2 ^ 64
       then Some (word_of_nat (2 ^ 32 * min ?a ?b + 2 * max ?a ?b)) else None)"
    by (simp only: add_chk_nat x y) simp
  have unat_back: "unat (word_of_nat n :: u64) = n" if "n < 2 ^ 64" for n
    using that by (simp add: unat_of_nat)
  show ?thesis
    unfolding calculate_pair_priority_def Let_def pair_value_def sum
    by (auto simp only: add_chk_nat z unat_back option.case if_True if_False split: if_splits)
      (simp_all add: unat_back)
qed

text \<open>
  The candidate priority computed with shifts and ors is the RFC 8445 value for component
  1 whenever the type preference fits the eight bits the formula gives it.
\<close>

theorem calculate_priority_rfc8445:
  assumes "unat (case ty of Host \<Rightarrow> host_priority_preference cfg
                 | ServerReflexive \<Rightarrow> srflx_priority_preference cfg) < 256"
  shows "unat (calculate_priority ty lp cfg) =
     2 ^ 24 * unat (case ty of Host \<Rightarrow> host_priority_preference cfg
                    | ServerReflexive \<Rightarrow> srflx_priority_preference cfg)
       + 2 ^ 8 * unat lp + (256 - 1)"
  using calculate_priority_value[OF assms] by simp

lemma pair_value_bound:
  assumes "a < 2 ^ 32" and "b < 2 ^ 32"
  shows "(pair_value a b < 2 ^ 64) = (\<not> (a = 2 ^ 32 - 1 \<and> b = 2 ^ 32 - 1))"
  using assms by (auto simp: pair_value_def min_def max_def)

text \<open>
  C40. The pair priority panics exactly when both candidate priorities are the largest \<open>u32\<close>
  value; otherwise it is the ICE value, and the two peers, who see the pair
  with the roles swapped, compute values that differ by at most the tie-breaking bit.
\<close>

theorem pair_priority_no_overflow:
  "(calculate_pair_priority l r = None) =
     (unat (priority l) = 2 ^ 32 - 1 \<and> unat (priority r) = 2 ^ 32 - 1) \<and>
   (case calculate_pair_priority l r of
      None \<Rightarrow> calculate_pair_priority r l = None
    | Some p \<Rightarrow>
        unat p = 2 ^ 32 * min (unat (priority l)) (unat (priority r))
          + 2 * max (unat (priority l)) (unat (priority r))
          + of_bool (priority r < priority l) \<and>
        (\<exists>q. calculate_pair_priority r l = Some q \<and> \<bar>int (unat p) - int (unat q)\<bar> \<le> 1))"
proof -
  let ?a = "unat (priority l)" and ?b = "unat (priority r)"
  have ab: "?a < 2 ^ 32" "?b < 2 ^ 32"
    using unsigned_less[of "priority l"] unsigned_less[of "priority r"] by simp_all
  note val = calculate_pair_priority_value[of l r] calculate_pair_priority_value[of r l]
  have panic: "(calculate_pair_priority l r = None) = (?a = 2 ^ 32 - 1 \<and> ?b = 2 ^ 32 - 1)"
    unfolding val Let_def using pair_value_bound[OF ab] by simp
  show ?thesis
  proof (cases "calculate_pair_priority l r")
    case None
    then have "calculate_pair_priority r l = None"
      using panic pair_value_bound[OF ab(2) ab(1)] unfolding val Let_def by auto
    with None panic show ?thesis by simp
  next
    case (Some p)
    then have v: "pair_value ?a ?b < 2 ^ 64" "p = word_of_nat (pair_value ?a ?b)"
      unfolding val Let_def by (simp_all split: if_splits)
    then have v': "pair_value ?b ?a < 2 ^ 64"
      using pair_value_bound[OF ab] pair_value_bound[OF ab(2) ab(1)] by blast
    have "unat p = pair_value ?a ?b" using v by (simp add: unat_of_nat)
    moreover have "\<bar>int (pair_value ?a ?b) - int (pair_value ?b ?a)\<bar> \<le> 1"
      by (simp add: pair_value_def min.commute max.commute)
    moreover have "unat (word_of_nat (pair_value ?b ?a) :: u64) = pair_value ?b ?a"
      using v' by (simp add: unat_of_nat)
    moreover have "calculate_pair_priority r l = Some (word_of_nat (pair_value ?b ?a))"
      unfolding val(2) Let_def using v' by simp
    ultimately have "\<exists>q. calculate_pair_priority r l = Some q \<and> \<bar>int (unat p) - int (unat q)\<bar> \<le> 1"
      by metis
    with Some panic \<open>unat p = _\<close> show ?thesis
      by (simp add: pair_value_def word_less_nat_alt)
  qed
qed

theorem calculate_priority_rfc8445_witness:
  "unat (calculate_priority Host 65535
      \<lparr>cfg_foundation = ''1'', cfg_transport = ''UDP'', cfg_component_id = 1,
       host_priority_preference = 126, srflx_priority_preference = 100,
       host_local_preference = 65535\<rparr>) = 2130706431"
  using calculate_priority_rfc8445[where ty = Host and lp = 65535 and
      cfg = "\<lparr>cfg_foundation = ''1'', cfg_transport = ''UDP'',
       cfg_component_id = 1, host_priority_preference = 126, srflx_priority_preference = 100,
       host_local_preference = 65535\<rparr>"] by simp

section \<open>Connectivity checks\<close>

definition passes :: "(nat \<Rightarrow> ping_event list) \<Rightarrow> nat \<Rightarrow> candidate_pair \<Rightarrow> bool" where
  "passes env i p = (is_host_pair p \<and> fst (verify_candidate_pair (pair_target p) (env i)))"

lemma check_pairs_None:
  "snd (check_pairs env i ps) = None \<longleftrightarrow> (\<forall>k < length ps. \<not> passes env (i + k) (ps ! k))"
proof (induction ps arbitrary: i)
  case Nil
  then show ?case by simp
next
  case (Cons p ps)
  have "(\<forall>k < length (p # ps). \<not> passes env (i + k) ((p # ps) ! k)) \<longleftrightarrow>
      \<not> passes env i p \<and> (\<forall>k < length ps. \<not> passes env (Suc i + k) (ps ! k))"
    by (auto simp: less_Suc_eq_0_disj)
  with Cons[of "Suc i"] show ?case
    by (auto simp: passes_def Let_def split: prod.splits)
qed

lemma check_pairs_Some:
  "snd (check_pairs env i ps) = Some q \<Longrightarrow>
     \<exists>k < length ps. q = (ps ! k)\<lparr>pair_state := Succeeded\<rparr> \<and> passes env (i + k) (ps ! k) \<and>
       fst (check_pairs env i ps) ! k = q \<and> (\<forall>j < k. \<not> passes env (i + j) (ps ! j))"
proof (induction ps arbitrary: i)
  case Nil
  then show ?case by simp
next
  case (Cons p ps)
  show ?case
  proof (cases "passes env i p")
    case True
    with Cons.prems show ?thesis by (intro exI[of _ 0]) (simp add: passes_def Let_def)
  next
    case False
    then have "snd (check_pairs env (Suc i) ps) = Some q"
      and ex: "\<exists>p'. fst (check_pairs env i (p # ps)) = p' # fst (check_pairs env (Suc i) ps)"
      using Cons.prems by (auto simp: passes_def Let_def split: prod.splits if_splits)
    from Cons.IH[OF this(1)] obtain k where k: "k < length ps"
      "q = (ps ! k)\<lparr>pair_state := Succeeded\<rparr>" "passes env (Suc i + k) (ps ! k)"
      "fst (check_pairs env (Suc i) ps) ! k = q" "\<forall>j < k. \<not> passes env (Suc i + j) (ps ! j)"
      by blast
    have "\<not> passes env (i + j) ((p # ps) ! j)" if "j < Suc k" for j
      using that False k(5) by (cases j) auto
    then show ?thesis using k ex by (intro exI[of _ "Suc k"]) auto
  qed
qed

lemma check_pairs_same:
  "map (\<lambda>p. p\<lparr>pair_state := Waiting\<rparr>) (fst (check_pairs env i ps)) =
   map (\<lambda>p. p\<lparr>pair_state := Waiting\<rparr>) ps"
  by (induction ps arbitrary: i) (simp_all add: Let_def split_beta)

lemma sort_pairs_mset [simp]: "mset (sort_pairs ps) = mset ps"
  by (simp add: sort_pairs_def)

lemma sort_pairs_descending:
  "j \<le> k \<Longrightarrow> k < length ps \<Longrightarrow>
     pair_priority (sort_pairs ps ! k) \<le> pair_priority (sort_pairs ps ! j)"
proof -
  assume jk: "j \<le> k" "k < length ps"
  have "sorted (map (\<lambda>p. - int (unat (pair_priority p))) (sort_pairs ps))"
    by (simp add: sort_pairs_def)
  then have "map (\<lambda>p. - int (unat (pair_priority p))) (sort_pairs ps) ! j \<le>
      map (\<lambda>p. - int (unat (pair_priority p))) (sort_pairs ps) ! k"
    using jk by (intro sorted_nth_mono) (simp_all add: sort_pairs_def)
  then show ?thesis using jk by (simp add: sort_pairs_def word_le_def)
qed

text \<open>
  C22. Connectivity checks succeed exactly when some host-host pair answers its check; the
  selected pair is then the first answering host-host pair in the order of descending
  priority: it is one of the agent's pairs, now marked \<open>Succeeded\<close>, and every pair of
  higher priority failed its check or involves a server-reflexive candidate.
\<close>

theorem connectivity_checks_select:
  assumes "candidate_pairs ag \<noteq> []"
  shows "let ps = sort_pairs (candidate_pairs ag) in
    mset ps = mset (candidate_pairs ag) \<and>
    (case start_connectivity_checks ag True env of
       (ag', Inl e) \<Rightarrow> e = NoSelectedPair \<and> selected_pair ag' = selected_pair ag \<and>
         (\<forall>k < length ps. \<not> passes env k (ps ! k))
     | (ag', Inr _) \<Rightarrow>
         (\<exists>k < length ps. selected_pair ag' = Some ((ps ! k)\<lparr>pair_state := Succeeded\<rparr>) \<and>
            passes env k (ps ! k) \<and>
            candidate_pairs ag' ! k = (ps ! k)\<lparr>pair_state := Succeeded\<rparr> \<and>
            (\<forall>j < length ps. pair_priority (ps ! k) < pair_priority (ps ! j) \<longrightarrow>
               \<not> passes env j (ps ! j))))"
proof -
  define ps where "ps = sort_pairs (candidate_pairs ag)"
  have ms: "mset ps = mset (candidate_pairs ag)" by (simp add: ps_def)
  show ?thesis
  proof (cases "snd (check_pairs env 0 ps)")
    case None
    then show ?thesis
      using assms check_pairs_None[of env 0 ps]
      by (auto simp: start_connectivity_checks_def Let_def ps_def[symmetric] ms split: prod.splits)
  next
    case (Some q)
    obtain k where k: "k < length ps" "q = (ps ! k)\<lparr>pair_state := Succeeded\<rparr>"
      "passes env k (ps ! k)" "fst (check_pairs env 0 ps) ! k = q"
      "\<forall>j < k. \<not> passes env j (ps ! j)"
      using check_pairs_Some[OF Some] by auto
    have "\<not> passes env j (ps ! j)"
      if "j < length ps" "pair_priority (ps ! k) < pair_priority (ps ! j)" for j
    proof (cases "j < k")
      case False
      then have "pair_priority (ps ! j) \<le> pair_priority (ps ! k)"
        using that(1) sort_pairs_descending[of k j "candidate_pairs ag"]
        by (simp add: ps_def sort_pairs_def)
      with that(2) show ?thesis by simp
    qed (use k(5) in simp)
    with assms(1) Some k ms show ?thesis
      by (auto simp: start_connectivity_checks_def Let_def ps_def[symmetric] split: prod.splits
          intro!: exI[of _ k])
  qed
qed

definition sample_cand :: "string \<Rightarrow> u32 \<Rightarrow> candidate" where
  "sample_cand addr prio = candidate_new Host prio addr 5000 1 ''1'' ''UDP''"

definition sample_pair :: "string \<Rightarrow> u64 \<Rightarrow> candidate_pair" where
  "sample_pair addr prio =
     \<lparr>pair_local = sample_cand ''10.0.0.2'' 7, pair_remote = sample_cand addr 7,
      pair_priority = prio, pair_state = Waiting\<rparr>"

definition sample_agent :: "string \<Rightarrow> ice_agent" where
  "sample_agent addr =
     \<lparr>local_candidates = [sample_cand ''10.0.0.2'' 7], remote_candidates = [sample_cand addr 7],
      candidate_pairs = [sample_pair addr 30064771086], selected_pair = None\<rparr>"

lemmas sample_ice = sample_cand_def sample_pair_def sample_agent_def candidate_new_def

lemma sample_check:
  "start_connectivity_checks (sample_agent ''10.0.0.11'') True
     (\<lambda>_. [RecvError, Datagram src (as_bytes ''PONG'')]) =
   (if contains_sub ''10.0.0.11:5000'' src then
      ((sample_agent ''10.0.0.11'')
         \<lparr>candidate_pairs := [(sample_pair ''10.0.0.11'' 30064771086)\<lparr>pair_state := Succeeded\<rparr>],
          selected_pair := Some ((sample_pair ''10.0.0.11'' 30064771086)\<lparr>pair_state := Succeeded\<rparr>)\<rparr>, Inr ())
    else
      ((sample_agent ''10.0.0.11'')
         \<lparr>candidate_pairs := [(sample_pair ''10.0.0.11'' 30064771086)\<lparr>pair_state := Failed\<rparr>]\<rparr>,
       Inl NoSelectedPair))"
proof -
  have "show_nat 5000 = ''5000''"
    by (simp add: show_nat.simps)
  then show ?thesis
    by (simp add: start_connectivity_checks_def sample_ice sort_pairs_def is_host_pair_def
        pair_target_def Let_def)
qed

theorem connectivity_checks_select_witness:
  "selected_pair (fst (start_connectivity_checks (sample_agent ''10.0.0.11'') True
      (\<lambda>_. [RecvError, Datagram ''10.0.0.11'' (as_bytes ''PONG'')]))) =
   Some ((sample_pair ''10.0.0.11'' 30064771086)\<lparr>pair_state := Succeeded\<rparr>)"
proof -
  have ne: "candidate_pairs (sample_agent ''10.0.0.11'') \<noteq> []" by (simp add: sample_agent_def)
  have c: "contains_sub ''10.0.0.11:5000'' ''10.0.0.11''" by code_simp
  have sp: "sort_pairs (candidate_pairs (sample_agent ''10.0.0.11'')) =
      [sample_pair ''10.0.0.11'' 30064771086]"
    by (simp add: sample_agent_def sort_pairs_def)
  show ?thesis
    using connectivity_checks_select[OF ne,
        of "\<lambda>_. [RecvError, Datagram ''10.0.0.11'' (as_bytes ''PONG'')]"]
    by (simp add: sample_check c sp Let_def)
qed

text \<open>
  The source check of the ping loop is a substring test: a \<open>PONG\<close> that comes from
  10.0.0.1 validates the pair whose remote candidate is 10.0.0.11, an address from which
  nothing was ever received.
\<close>

theorem pong_from_other_host_accepted:
  "snd (start_connectivity_checks (sample_agent ''10.0.0.11'') True
      (\<lambda>_. [RecvError, Datagram ''10.0.0.1'' (as_bytes ''PONG'')])) = Inr () \<and>
   address (pair_remote (sample_pair ''10.0.0.11'' 30064771086)) \<noteq> ''10.0.0.1''"
proof -
  have "contains_sub ''10.0.0.11:5000'' ''10.0.0.1''" by code_simp
  then show ?thesis by (simp add: sample_check, simp add: sample_ice)
qed

section \<open>The agent's invariant\<close>

definition pair_wf :: "ice_agent \<Rightarrow> candidate_pair \<Rightarrow> bool" where
  "pair_wf ag p \<longleftrightarrow>
     pair_local p \<in> set (local_candidates ag) \<and> pair_remote p \<in> set (remote_candidates ag) \<and>
     calculate_pair_priority (pair_local p) (pair_remote p) = Some (pair_priority p)"

definition agent_wf :: "ice_agent \<Rightarrow> bool" where
  "agent_wf ag \<longleftrightarrow>
     (\<forall>p \<in> set (candidate_pairs ag). pair_wf ag p) \<and>
     (\<forall>p. selected_pair ag = Some p \<longrightarrow>
        pair_wf ag p \<and> is_host_pair p \<and> pair_state p = Succeeded)"

text \<open>The operations of an agent as events; a panic leaves the state as it was.\<close>

datatype ice_op =
    Gather "interface list option" "u16 option" "string + string" ice_config
  | AddRemote candidate
  | AddRemotes "candidate list"
  | Check bool "nat \<Rightarrow> ping_event list"
  | Clean

fun ice_step :: "ice_agent \<Rightarrow> ice_op \<Rightarrow> ice_agent" where
  "ice_step ag (Gather ifs prt stun cfg) =
     (case gather_candidates ag ifs prt stun cfg of None \<Rightarrow> ag | Some ag' \<Rightarrow> ag')"
| "ice_step ag (AddRemote c) =
     (case add_remote_candidate ag c of None \<Rightarrow> ag | Some (ag', _) \<Rightarrow> ag')"
| "ice_step ag (AddRemotes cs) =
     (case add_remote_candidates ag cs of None \<Rightarrow> ag | Some (ag', _) \<Rightarrow> ag')"
| "ice_step ag (Check t env) = fst (start_connectivity_checks ag t env)"
| "ice_step ag Clean = clean_remote_candidates ag"

lemma pairs_with_wf:
  "pairs_with l rs = Some ps \<Longrightarrow>
     map pair_remote ps = rs \<and> (\<forall>p \<in> set ps. pair_local p = l \<and> pair_state p = Waiting \<and>
        calculate_pair_priority (pair_local p) (pair_remote p) = Some (pair_priority p))"
  by (induction rs arbitrary: ps) (auto simp: pair_new_def split: option.splits)

lemma all_pairs_wf:
  "all_pairs ls rs = Some ps \<Longrightarrow>
     map (\<lambda>p. (pair_local p, pair_remote p)) ps = List.product ls rs \<and>
     (\<forall>p \<in> set ps. pair_state p = Waiting \<and>
        calculate_pair_priority (pair_local p) (pair_remote p) = Some (pair_priority p))"
proof (induction ls arbitrary: ps)
  case Nil
  then show ?case by simp
next
  case (Cons l ls)
  then obtain qs ts where q: "pairs_with l rs = Some qs" and t: "all_pairs ls rs = Some ts"
    and ps: "ps = qs @ ts"
    by (auto split: option.splits)
  have "map (\<lambda>p. (pair_local p, pair_remote p)) qs = map (Pair l) rs"
    using pairs_with_wf[OF q] by (auto intro!: nth_equalityI simp: list_eq_iff_nth_eq)
  with Cons.IH[OF t] pairs_with_wf[OF q] ps show ?case by auto
qed

lemma all_pairs_members:
  "all_pairs ls rs = Some ps \<Longrightarrow> p \<in> set ps \<Longrightarrow>
     pair_local p \<in> set ls \<and> pair_remote p \<in> set rs \<and>
     calculate_pair_priority (pair_local p) (pair_remote p) = Some (pair_priority p)"
proof -
  assume a: "all_pairs ls rs = Some ps" and p: "p \<in> set ps"
  have "(pair_local p, pair_remote p) \<in> set (map (\<lambda>p. (pair_local p, pair_remote p)) ps)"
    using p by force
  then show ?thesis using all_pairs_wf[OF a] p by auto
qed

lemma create_candidate_pair_wf [inv_intros]:
  assumes "agent_wf ag" and "create_candidate_pair ag = Some (ag', r)"
  shows "agent_wf ag'"
  using assms
  by (auto simp: create_candidate_pair_def agent_wf_def pair_wf_def Let_def
      dest: all_pairs_members split: if_splits option.splits)

lemma agent_wf_more_remote [inv_intros]:
  "agent_wf ag \<Longrightarrow> agent_wf (ag\<lparr>remote_candidates := remote_candidates ag @ cs\<rparr>)"
  by (auto simp: agent_wf_def pair_wf_def)

lemma gather_candidates_wf [inv_intros]:
  "agent_wf ag \<Longrightarrow> gather_candidates ag ifs prt stun cfg = Some ag' \<Longrightarrow> agent_wf ag'"
  by (auto simp: gather_candidates_def agent_wf_def pair_wf_def Let_def
      split: sum.splits option.splits if_splits prod.splits)

lemma check_pairs_members:
  "p \<in> set (fst (check_pairs env i ps)) \<Longrightarrow>
     \<exists>p' \<in> set ps. p\<lparr>pair_state := Waiting\<rparr> = p'\<lparr>pair_state := Waiting\<rparr>"
proof -
  assume "p \<in> set (fst (check_pairs env i ps))"
  then have "p\<lparr>pair_state := Waiting\<rparr> \<in>
      set (map (\<lambda>p. p\<lparr>pair_state := Waiting\<rparr>) (fst (check_pairs env i ps)))"
    by force
  then show ?thesis unfolding check_pairs_same by auto
qed

lemma pair_wf_state: "pair_wf ag (p\<lparr>pair_state := s\<rparr>) = pair_wf ag p"
  by (simp add: pair_wf_def)

lemma connectivity_checks_wf [inv_intros]:
  assumes "agent_wf ag"
  shows "agent_wf (fst (start_connectivity_checks ag t env))"
proof -
  define ps where "ps = sort_pairs (candidate_pairs ag)"
  have set_ps: "set ps = set (candidate_pairs ag)"
    using sort_pairs_mset[of "candidate_pairs ag"] unfolding ps_def by (metis set_mset_mset)
  have wf_qs: "pair_wf ag p" if "p \<in> set (fst (check_pairs env 0 ps))" for p
    using check_pairs_members[OF that] assms set_ps
    by (metis agent_wf_def pair_wf_state)
  have wf_sel: "pair_wf ag q \<and> is_host_pair q \<and> pair_state q = Succeeded"
    if sel: "snd (check_pairs env 0 ps) = Some q" for q
  proof -
    obtain k where k: "k < length ps" "q = (ps ! k)\<lparr>pair_state := Succeeded\<rparr>"
      "passes env k (ps ! k)"
      using check_pairs_Some[OF sel] by auto
    then have "pair_wf ag (ps ! k)" using assms set_ps nth_mem by (auto simp: agent_wf_def)
    with k show ?thesis by (simp add: pair_wf_state passes_def is_host_pair_def)
  qed
  have same: "pair_wf (ag\<lparr>candidate_pairs := xs\<rparr>) p = pair_wf ag p"
    "pair_wf (ag\<lparr>candidate_pairs := xs, selected_pair := y\<rparr>) p = pair_wf ag p" for xs y p
    by (simp_all add: pair_wf_def)
  consider "fst (start_connectivity_checks ag t env) = ag"
    | "fst (start_connectivity_checks ag t env) = ag\<lparr>candidate_pairs := ps\<rparr>"
    | "fst (start_connectivity_checks ag t env) =
         ag\<lparr>candidate_pairs := fst (check_pairs env 0 ps)\<rparr>"
    | q where "fst (start_connectivity_checks ag t env) =
         ag\<lparr>candidate_pairs := fst (check_pairs env 0 ps), selected_pair := Some q\<rparr>"
        "snd (check_pairs env 0 ps) = Some q"
    unfolding start_connectivity_checks_def Let_def ps_def
    by (cases "snd (check_pairs env 0 (sort_pairs (candidate_pairs ag)))")
      (fastforce simp: split_beta split: if_splits)+
  then show ?thesis
    using assms wf_qs wf_sel by cases (simp_all add: agent_wf_def same set_ps)
qed

lemma clean_wf [inv_intros]: "agent_wf (clean_remote_candidates ag)"
  by (simp add: agent_wf_def clean_remote_candidates_def)

interpretation ice: step_system ice_step agent_wf
proof
  fix ag e
  assume wf: "agent_wf ag"
  show "agent_wf (ice_step ag e)"
  proof (cases e)
    case (AddRemote c)
    then show ?thesis
      using wf create_candidate_pair_wf[OF agent_wf_more_remote[OF wf, of "[c]"]]
      by (auto simp: add_remote_candidate_def split: option.splits)
  next
    case (AddRemotes cs)
    then show ?thesis
      using wf create_candidate_pair_wf[OF agent_wf_more_remote[OF wf, of cs]]
      by (auto simp: add_remote_candidates_def split: option.splits)
  qed (use wf in \<open>auto intro: inv_intros split: option.splits\<close>)
qed

lemma ice_new_wf: "agent_wf ice_agent_new"
  by (simp add: agent_wf_def ice_agent_new_def)

text \<open>
  C24. In every state an ICE agent can reach, each candidate pair joins one of its local with
  one of its remote candidates and carries the priority computed from them, and the selected
  pair, if there is one, is a host-host pair of that kind in state \<open>Succeeded\<close>.
\<close>

theorem ice_agent_invariant: "agent_wf (foldl ice_step ice_agent_new ops)"
  by (rule ice.run_inv) (rule ice_new_wf)

end
