(* ===== verification/Sdp.thy ===== *)
theory Sdp
  imports Ice
begin

text \<open>
  SDP, \<^verbatim>\<open>src/session/sdp\<close>: DTLS setup roles, fingerprints, attributes, media descriptions
  and session descriptions, with the parser (\<open>FromStr\<close>), the printer (\<open>Display\<close>) and the
  offer/answer negotiation. The format set of a media description is a \<open>HashSet<u8>\<close>; its
  iteration order is the parameter \<open>ord\<close> of the printer, any enumeration of the set.
\<close>

datatype sdp_error =
    InvalidPriorityError
  | InvalidPortError
  | InvalidComponentIdError
  | InvalidLineFormatError
  | InvalidCandidateFormatError
  | InvalidAttributeFormatError
  | InvalidCandidateTypeError
  | InvalidRtpMapFormatError
  | MissingEncodingNameError
  | MissingClockRateError
  | InvalidClockRateParsingError
  | ExtraRtpFieldsError
  | InvalidCandidateParsingError
  | MissingFingerprintValueError
  | InvalidFingerprintFormatError
  | InvalidSetupRoleError
  | MissingMediaDescriptionError
  | InvalidMediaDescriptionFormatError
  | InvalidMediaDescriptionAttributeFormat
  | InvalidFmtError
  | UnmatchingMediaDescriptionAndAttributeError

section \<open>Attributes\<close>

datatype dtls_setup_role = ActPass | Active | Passive | HoldConn

fun show_setup_role :: "dtls_setup_role \<Rightarrow> string" where
  "show_setup_role ActPass = ''actpass''"
| "show_setup_role Active = ''active''"
| "show_setup_role Passive = ''passive''"
| "show_setup_role HoldConn = ''holdconn''"

definition setup_role_from_str :: "string \<Rightarrow> sdp_error + dtls_setup_role" where
  "setup_role_from_str s =
     (let t = to_ascii_lowercase (trim s)
      in if t = ''actpass'' then Inr ActPass
         else if t = ''active'' then Inr Active
         else if t = ''passive'' then Inr Passive
         else if t = ''holdconn'' then Inr HoldConn
         else Inl InvalidSetupRoleError)"

record fingerprint =
  algorithm :: string
  fp_bytes :: bytes

fun parse_hash_parts :: "string list \<Rightarrow> bytes \<Rightarrow> sdp_error + bytes" where
  "parse_hash_parts [] parsed = Inr parsed"
| "parse_hash_parts (part # parts) parsed =
     (let cleaned = trim part
      in if cleaned = [] then Inl InvalidFingerprintFormatError
         else case parse_uint 16 256 cleaned of
                None \<Rightarrow> Inl InvalidFingerprintFormatError
              | Some b \<Rightarrow> parse_hash_parts parts (parsed @ [word_of_nat b]))"

definition from_hash_string :: "string \<Rightarrow> string \<Rightarrow> sdp_error + fingerprint" where
  "from_hash_string alg hash =
     (let trimmed_hash = trim hash
      in if trimmed_hash = [] then Inl MissingFingerprintValueError
         else case parse_hash_parts (split_on (CHR '':'') trimmed_hash) [] of
                Inl e \<Rightarrow> Inl e
              | Inr parsed \<Rightarrow>
                  if parsed = [] then Inl MissingFingerprintValueError
                  else Inr \<lparr>algorithm = alg, fp_bytes = parsed\<rparr>)"

definition hex_value :: "fingerprint \<Rightarrow> string" where
  "hex_value fp = join '':'' (map hex_byte (fp_bytes fp))"

datatype attribute =
    CandidateAttr candidate
  | RTPMap u8 string u32 "string option"
  | FingerprintAttr fingerprint
  | Setup dtls_setup_role

definition show_candidate_fields :: "candidate \<Rightarrow> string list" where
  "show_candidate_fields c =
     [foundation c, show_nat (unat (component_id c)), cand_transport c,
      show_nat (unat (priority c)), address c, show_nat (unat (cand_port c)), ''typ'',
      show_candidate_type (cand_type c)]"

text \<open>The attribute line without the leading \<open>a=\<close>, and with it.\<close>

fun show_attribute_body :: "attribute \<Rightarrow> string" where
  "show_attribute_body (CandidateAttr c) = ''candidate:'' @ join '' '' (show_candidate_fields c)"
| "show_attribute_body (RTPMap fmt enc_name clock_rate encoding_params) =
     ''rtpmap:'' @ show_nat (unat fmt) @ '' '' @ enc_name @ ''/'' @ show_nat (unat clock_rate) @
       (case encoding_params of Some params \<Rightarrow> ''/'' @ params | None \<Rightarrow> [])"
| "show_attribute_body (FingerprintAttr fp) =
     ''fingerprint:'' @ algorithm fp @ '' '' @ hex_value fp"
| "show_attribute_body (Setup role) = ''setup:'' @ show_setup_role role"

definition show_attribute :: "attribute \<Rightarrow> string" where
  "show_attribute a = ''a='' @ show_attribute_body a"

definition parse_rptmap_attr_values :: "string \<Rightarrow> sdp_error + attribute" where
  "parse_rptmap_attr_values values =
     (let parts = split_whitespace values
      in if length parts < 2 then Inl InvalidRtpMapFormatError
         else case parse_uint 10 256 (parts ! 0) of
                None \<Rightarrow> Inl InvalidRtpMapFormatError
              | Some fmt \<Rightarrow>
                  let fields = split_on (CHR ''/'') (parts ! 1);
                      encoding_name = fields ! 0
                  in if encoding_name = [] then Inl MissingEncodingNameError
                     else if length fields < 2 then Inl MissingClockRateError
                     else case parse_uint 10 (2 ^ 32) (fields ! 1) of
                            None \<Rightarrow> Inl InvalidClockRateParsingError
                          | Some clock_rate \<Rightarrow>
                              if length fields > 3 then Inl ExtraRtpFieldsError
                              else Inr (RTPMap (word_of_nat fmt) encoding_name
                                (word_of_nat clock_rate)
                                (if length fields = 3 then Some (fields ! 2) else None)))"

text \<open>The fields of the candidate are parsed in the order of the constructor's arguments.\<close>

definition parse_candidate_attr_values :: "string \<Rightarrow> sdp_error + attribute" where
  "parse_candidate_attr_values values =
     (let parts = split_whitespace values
      in if length parts < 8 then Inl InvalidLineFormatError
         else if parts ! 6 \<noteq> ''typ'' then Inl InvalidCandidateFormatError
         else case candidate_type_from_str (parts ! 7) of
                Inl _ \<Rightarrow> Inl InvalidCandidateTypeError
              | Inr ty \<Rightarrow>
           (case parse_uint 10 (2 ^ 32) (parts ! 3) of
                None \<Rightarrow> Inl InvalidPriorityError
              | Some prio \<Rightarrow>
           (case parse_uint 10 65536 (parts ! 5) of
                None \<Rightarrow> Inl InvalidPortError
              | Some prt \<Rightarrow>
           (case parse_uint 10 256 (parts ! 1) of
                None \<Rightarrow> Inl InvalidComponentIdError
              | Some cid \<Rightarrow>
                  Inr (CandidateAttr (candidate_new ty (word_of_nat prio) (parts ! 4)
                    (word_of_nat prt) (word_of_nat cid) (parts ! 0) (parts ! 2)))))))"

definition parse_fingerprint_attr_values :: "string \<Rightarrow> sdp_error + attribute" where
  "parse_fingerprint_attr_values values =
     (case split_whitespace values of
        [] \<Rightarrow> Inl InvalidAttributeFormatError
      | [_] \<Rightarrow> Inl MissingFingerprintValueError
      | alg # hash # _ \<Rightarrow>
          (case from_hash_string (trim alg) (trim hash) of
             Inl e \<Rightarrow> Inl e
           | Inr fp \<Rightarrow> Inr (FingerprintAttr fp)))"

definition parse_setup_attr_values :: "string \<Rightarrow> sdp_error + attribute" where
  "parse_setup_attr_values value =
     (case setup_role_from_str (trim value) of Inl e \<Rightarrow> Inl e | Inr role \<Rightarrow> Inr (Setup role))"

definition attribute_from_str :: "string \<Rightarrow> sdp_error + attribute" where
  "attribute_from_str s =
     (case split_once (CHR '':'') s of
        None \<Rightarrow> Inl InvalidAttributeFormatError
      | Some (key, value) \<Rightarrow>
          if key = ''candidate'' then parse_candidate_attr_values value
          else if key = ''rtpmap'' then parse_rptmap_attr_values value
          else if key = ''fingerprint'' then parse_fingerprint_attr_values value
          else if key = ''setup'' then parse_setup_attr_values value
          else Inl InvalidAttributeFormatError)"

section \<open>Media descriptions\<close>

record media_description =
  media_type :: string
  md_port :: u16
  protocol :: string
  fmts :: "u8 set"
  attributes :: "attribute list"

definition media_new :: "string \<Rightarrow> u16 \<Rightarrow> string \<Rightarrow> u8 set \<Rightarrow> media_description" where
  "media_new ty prt proto fs =
     \<lparr>media_type = ty, md_port = prt, protocol = proto, fmts = fs, attributes = []\<rparr>"

fun parse_fmts :: "string list \<Rightarrow> u8 set \<Rightarrow> sdp_error + u8 set" where
  "parse_fmts [] acc = Inr acc"
| "parse_fmts (f # fs) acc =
     (case parse_uint 10 256 f of
        None \<Rightarrow> Inl InvalidFmtError
      | Some n \<Rightarrow> parse_fmts fs (insert (word_of_nat n) acc))"

definition media_from_str :: "string \<Rightarrow> sdp_error + media_description" where
  "media_from_str s =
     (let s_vec = split_whitespace s
      in if length s_vec < 4 then Inl InvalidMediaDescriptionFormatError
         else case parse_uint 10 65536 (s_vec ! 1) of
                None \<Rightarrow> Inl InvalidPortError
              | Some prt \<Rightarrow>
                  (case parse_fmts (drop 3 s_vec) {} of
                     Inl e \<Rightarrow> Inl e
                   | Inr fs \<Rightarrow> Inr (media_new (s_vec ! 0) (word_of_nat prt) (s_vec ! 2) fs)))"

text \<open>The lines the printer writes for a media description, without the line breaks.\<close>

definition media_line :: "(u8 set \<Rightarrow> u8 list) \<Rightarrow> media_description \<Rightarrow> string" where
  "media_line ord md =
     ''m='' @ media_type md @ '' '' @ show_nat (unat (md_port md)) @ '' '' @ protocol md @
       concat (map (\<lambda>fmt. '' '' @ show_nat (unat fmt)) (ord (fmts md)))"

definition media_lines :: "(u8 set \<Rightarrow> u8 list) \<Rightarrow> media_description \<Rightarrow> string list" where
  "media_lines ord md = media_line ord md # map (\<lambda>a. '' '' @ show_attribute a) (attributes md)"

definition show_media :: "(u8 set \<Rightarrow> u8 list) \<Rightarrow> media_description \<Rightarrow> string" where
  "show_media ord md =
     media_line ord md @ concat (map (\<lambda>a. newline # '' '' @ show_attribute a) (attributes md))"

definition add_attribute :: "media_description \<Rightarrow> attribute \<Rightarrow> sdp_error + media_description" where
  "add_attribute md attr =
     (if (case attr of RTPMap fmt _ _ _ \<Rightarrow> fmt \<notin> fmts md | _ \<Rightarrow> False)
      then Inl UnmatchingMediaDescriptionAndAttributeError
      else Inr (md\<lparr>attributes := attributes md @ [attr]\<rparr>))"

fun get_candidates_of :: "attribute list \<Rightarrow> candidate list" where
  "get_candidates_of [] = []"
| "get_candidates_of (CandidateAttr c # as) = c # get_candidates_of as"
| "get_candidates_of (a # as) = get_candidates_of as"

definition get_candidates :: "media_description \<Rightarrow> candidate list" where
  "get_candidates md = get_candidates_of (attributes md)"

fun first_fingerprint :: "attribute list \<Rightarrow> fingerprint option" where
  "first_fingerprint [] = None"
| "first_fingerprint (FingerprintAttr fp # as) = Some fp"
| "first_fingerprint (a # as) = first_fingerprint as"

definition get_fingerprint :: "media_description \<Rightarrow> fingerprint option" where
  "get_fingerprint md = first_fingerprint (attributes md)"

fun first_setup_role :: "attribute list \<Rightarrow> dtls_setup_role option" where
  "first_setup_role [] = None"
| "first_setup_role (Setup role # as) = Some role"
| "first_setup_role (a # as) = first_setup_role as"

definition get_setup_role :: "media_description \<Rightarrow> dtls_setup_role option" where
  "get_setup_role md = first_setup_role (attributes md)"

section \<open>Session descriptions\<close>

record sdp_config =
  sc_version :: u8
  sc_origin_id :: nat
  sc_session_name :: string
  sc_timing :: string
  connection_data_net_type :: string
  connection_data_addr_type :: string
  connection_data_address :: string

definition sdp_config_default :: sdp_config where
  "sdp_config_default =
     \<lparr>sc_version = 0, sc_origin_id = 0, sc_session_name = ''-'', sc_timing = ''0 0'',
      connection_data_net_type = ''IN'', connection_data_addr_type = ''IP4'',
      connection_data_address = ''0.0.0.0''\<rparr>"

record session_description =
  sdp_version :: u8
  origin_id :: nat
  session_name :: string
  timing :: string
  media_descriptions :: "media_description list"
  connection_data :: string

definition sdp_new :: "media_description list \<Rightarrow> sdp_config \<Rightarrow> session_description" where
  "sdp_new mds cfg =
     \<lparr>sdp_version = sc_version cfg, origin_id = sc_origin_id cfg,
      session_name = sc_session_name cfg, timing = sc_timing cfg, media_descriptions = mds,
      connection_data = connection_data_net_type cfg @ '' '' @ connection_data_addr_type cfg @ '' ''
        @ connection_data_address cfg\<rparr>"

definition handle_media_description_line ::
  "string \<Rightarrow> media_description list \<Rightarrow> sdp_error + media_description list" where
  "handle_media_description_line line mds =
     (case media_from_str line of Inl e \<Rightarrow> Inl e | Inr md \<Rightarrow> Inr (mds @ [md]))"

definition handle_attribute_line ::
  "string \<Rightarrow> media_description list \<Rightarrow> sdp_error + media_description list" where
  "handle_attribute_line line mds =
     (case attribute_from_str line of
        Inl e \<Rightarrow> Inl e
      | Inr attr \<Rightarrow>
          if mds = [] then Inl MissingMediaDescriptionError
          else case add_attribute (last mds) attr of
                 Inl e \<Rightarrow> Inl e
               | Inr md \<Rightarrow> Inr (butlast mds @ [md]))"

fun parse_lines ::
  "string list \<Rightarrow> media_description list \<Rightarrow> sdp_error + media_description list" where
  "parse_lines [] mds = Inr mds"
| "parse_lines (l # ls) mds =
     (let line = trim l
      in if line = [] then parse_lines ls mds
         else case split_once (CHR ''='') line of
                None \<Rightarrow> Inl InvalidMediaDescriptionFormatError
              | Some (key, value) \<Rightarrow>
                  (case (if key = ''m'' then handle_media_description_line value mds
                         else if key = ''a'' then handle_attribute_line value mds
                         else Inr mds) of
                     Inl e \<Rightarrow> Inl e
                   | Inr mds' \<Rightarrow> parse_lines ls mds'))"

definition sdp_from_str :: "string \<Rightarrow> sdp_error + session_description" where
  "sdp_from_str s =
     (case parse_lines (split_on newline s) [] of
        Inl e \<Rightarrow> Inl e
      | Inr mds \<Rightarrow> Inr (sdp_new mds sdp_config_default))"

definition show_sdp :: "(u8 set \<Rightarrow> u8 list) \<Rightarrow> session_description \<Rightarrow> string" where
  "show_sdp ord d =
     ''v='' @ show_nat (unat (sdp_version d)) @ [newline] @ ''o='' @ show_nat (origin_id d)
       @ [newline] @ ''s='' @ session_name d @ [newline] @ ''t='' @ timing d
       @ [newline] @ ''c='' @ connection_data d
       @ concat (map (\<lambda>md. newline # show_media ord md) (media_descriptions d))"

definition set_connection_data ::
  "session_description \<Rightarrow> string \<Rightarrow> string \<Rightarrow> string \<Rightarrow> session_description" where
  "set_connection_data d net_type addr_type addr =
     d\<lparr>connection_data := net_type @ '' '' @ addr_type @ '' '' @ addr\<rparr>"

section \<open>Offer and answer\<close>

fun matching_codec :: "string \<Rightarrow> attribute \<Rightarrow> bool" where
  "matching_codec name (RTPMap _ offer_name _ _) = (name = offer_name)"
| "matching_codec name _ = False"

text \<open>
  A local \<open>rtpmap\<close> is copied once for every \<open>rtpmap\<close> of the offer with the same encoding
  name; the other local attributes are copied as they are.
\<close>

fun compatible_attributes ::
  "attribute list \<Rightarrow> attribute list \<Rightarrow> u8 set \<times> attribute list \<Rightarrow> u8 set \<times> attribute list" where
  "compatible_attributes [] offer acc = acc"
| "compatible_attributes (RTPMap fmt name rate params # as) offer (fs, out) =
     (let n = length (filter (matching_codec name) offer)
      in compatible_attributes as offer
           (if n = 0 then fs else insert fmt fs, out @ replicate n (RTPMap fmt name rate params)))"
| "compatible_attributes (a # as) offer (fs, out) =
     compatible_attributes as offer (fs, out @ [a])"

definition compatible_attributes_data ::
  "media_description \<Rightarrow> media_description \<Rightarrow> u8 set \<times> attribute list" where
  "compatible_attributes_data local_md offer_md =
     compatible_attributes (attributes local_md) (attributes offer_md) ({}, [])"

fun add_attributes ::
  "media_description \<Rightarrow> attribute list \<Rightarrow> sdp_error + media_description" where
  "add_attributes md [] = Inr md"
| "add_attributes md (a # as) =
     (case add_attribute md a of Inl e \<Rightarrow> Inl e | Inr md' \<Rightarrow> add_attributes md' as)"

definition create_answer_md ::
  "media_description \<Rightarrow> u8 set \<Rightarrow> attribute list \<Rightarrow> sdp_error + media_description" where
  "create_answer_md local_md fs as =
     add_attributes
       (media_new (media_type local_md) (if as = [] then 0 else md_port local_md)
          (protocol local_md) fs) as"

fun answer_media ::
  "media_description list \<Rightarrow> media_description list \<Rightarrow> sdp_error + media_description list" where
  "answer_media [] offer = Inr []"
| "answer_media (l # ls) offer =
     (case find (\<lambda>m. media_type m = media_type l \<and> protocol m = protocol l) offer of
        None \<Rightarrow> answer_media ls offer
      | Some o_md \<Rightarrow>
          (let (fs, as) = compatible_attributes_data l o_md
           in case create_answer_md l fs as of
                Inl e \<Rightarrow> Inl e
              | Inr md \<Rightarrow>
                  (case answer_media ls offer of Inl e \<Rightarrow> Inl e | Inr mds \<Rightarrow> Inr (md # mds))))"

definition create_answer ::
  "session_description \<Rightarrow> session_description \<Rightarrow> sdp_error + session_description" where
  "create_answer d offer_sdp =
     (case answer_media (media_descriptions d) (media_descriptions offer_sdp) of
        Inl e \<Rightarrow> Inl e
      | Inr mds \<Rightarrow>
          Inr (sdp_new mds
            \<lparr>sc_version = sdp_version d, sc_origin_id = origin_id d,
             sc_session_name = session_name d, sc_timing = timing d,
             connection_data_net_type = ''IN'', connection_data_addr_type = ''IP4'',
             connection_data_address = ''0.0.0.0''\<rparr>))"

section \<open>Printing and parsing\<close>

fun attribute_wf :: "attribute \<Rightarrow> bool" where
  "attribute_wf (CandidateAttr c) =
     (token (foundation c) \<and> token (cand_transport c) \<and> token (address c))"
| "attribute_wf (RTPMap fmt name rate params) =
     (token name \<and> CHR ''/'' \<notin> set name \<and>
      (case params of None \<Rightarrow> True | Some p \<Rightarrow> list_all visible p \<and> CHR ''/'' \<notin> set p))"
| "attribute_wf (FingerprintAttr fp) = (token (algorithm fp) \<and> fp_bytes fp \<noteq> [])"
| "attribute_wf (Setup role) = True"

lemma visible_chars [simp]:
  "visible (CHR '':'')" "visible (CHR ''/'')" "visible (CHR ''='')"
  "visible (CHR ''a'')" "visible (CHR ''m'')" "visible (CHR ''t'')" "visible (CHR ''y'')"
  "visible (CHR ''p'')"
  by code_simp+

lemma token_literals [simp]:
  "token ''typ''" "token ''candidate:''" "token ''fingerprint:''" "token ''setup:''"
  "token ''rtpmap:''"
  by code_simp+

lemma token_candidate_type [simp]: "token (show_candidate_type ty)"
  by (cases ty; hypsubst; code_simp)

lemma token_setup_role [simp]: "token (show_setup_role role)"
  by (cases role; hypsubst; code_simp)

lemma candidate_type_roundtrip [simp]: "candidate_type_from_str (show_candidate_type ty) = Inr ty"
  by (cases ty) (simp_all add: candidate_type_from_str_def)

lemma setup_role_roundtrip [simp]: "setup_role_from_str (show_setup_role role) = Inr role"
  by (cases role; hypsubst; code_simp)

lemma token_parts: "token t \<Longrightarrow> t \<noteq> []" "token t \<Longrightarrow> list_all visible t"
  by (simp_all add: token_def)

lemma show_nat_free [simp]:
  "CHR ''/'' \<notin> set (show_nat n)" "CHR '':'' \<notin> set (show_nat n)" "CHR '' '' \<notin> set (show_nat n)"
  "CHR ''='' \<notin> set (show_nat n)" "newline \<notin> set (show_nat n)"
  using show_nat_digits[of _ n] by force+

lemma candidate_roundtrip:
  assumes "attribute_wf (CandidateAttr c)"
  shows "parse_candidate_attr_values (join '' '' (show_candidate_fields c)) = Inr (CandidateAttr c)"
proof -
  have "split_whitespace (join '' '' (show_candidate_fields c)) = show_candidate_fields c"
    using assms by (intro split_whitespace_join) (simp_all add: show_candidate_fields_def)
  moreover have "unat (component_id c) < 256" "unat (priority c) < 2 ^ 32" "unat (cand_port c) < 65536"
    using unsigned_less[of "component_id c"] unsigned_less[of "priority c"]
      unsigned_less[of "cand_port c"] by simp_all
  ultimately show ?thesis
    by (simp add: parse_candidate_attr_values_def show_candidate_fields_def parse_show_nat
        candidate_new_def)
qed

lemma rtpmap_roundtrip:
  assumes "attribute_wf (RTPMap fmt name rate params)"
  shows "parse_rptmap_attr_values (show_nat (unat fmt) @ '' '' @ name @ ''/'' @ show_nat (unat rate) @
    (case params of Some p \<Rightarrow> ''/'' @ p | None \<Rightarrow> [])) = Inr (RTPMap fmt name rate params)"
proof -
  let ?w = "name @ ''/'' @ show_nat (unat rate) @ (case params of Some p \<Rightarrow> ''/'' @ p | None \<Rightarrow> [])"
  have "token ?w" using assms by (auto simp: token_def split: option.splits)
       (use token_show_nat in \<open>auto simp: token_def\<close>)
  then have "split_whitespace (show_nat (unat fmt) @ CHR '' '' # ?w) = [show_nat (unat fmt), ?w]"
    by simp
  moreover have "split_on (CHR ''/'') ?w =
      [name, show_nat (unat rate)] @ (case params of Some p \<Rightarrow> [p] | None \<Rightarrow> [])"
    using assms by (cases params) simp_all
  moreover have "unat fmt < 256" "unat rate < 2 ^ 32"
    using unsigned_less[of fmt] unsigned_less[of rate] by simp_all
  ultimately show ?thesis
    using assms
    by (cases params) (simp_all add: parse_rptmap_attr_values_def parse_show_nat token_parts)
qed

lemma digit_char_not_colon: "d < 16 \<Longrightarrow> CHR '':'' \<noteq> digit_char d"
  by (rule notI, drule arg_cong[where f = ord_of]) (auto simp: digit_char_ord_hex split: if_splits)

lemma hex_byte_free [simp]: "CHR '':'' \<notin> set (hex_byte b)"
proof -
  have "unat b < 256" using unsigned_less[of b] by simp
  then show ?thesis
    by (simp add: hex_byte_def digit_char_not_colon)
qed

lemma parse_hash_parts_hex:
  "parse_hash_parts (map hex_byte bs) acc = Inr (acc @ bs)"
  by (induction bs arbitrary: acc) (simp_all add: parse_hex_byte token_parts Let_def)

lemma token_join: "xs \<noteq> [] \<Longrightarrow> list_all token xs \<Longrightarrow> token (join '':'' xs)"
  by (induction "'':''" xs rule: join.induct) (auto simp: token_def)

lemma hash_roundtrip:
  assumes "fp_bytes fp \<noteq> []"
  shows "from_hash_string (algorithm fp) (hex_value fp) = Inr fp" and "token (hex_value fp)"
proof -
  show t: "token (hex_value fp)"
    using assms by (simp add: hex_value_def token_join list_all_iff)
  have "split_on (CHR '':'') (hex_value fp) = map hex_byte (fp_bytes fp)"
    unfolding hex_value_def using assms by (intro split_on_join) auto
  then show "from_hash_string (algorithm fp) (hex_value fp) = Inr fp"
    using t assms by (simp add: from_hash_string_def token_parts parse_hash_parts_hex)
qed

lemma fingerprint_roundtrip:
  assumes "attribute_wf (FingerprintAttr fp)"
  shows "parse_fingerprint_attr_values (algorithm fp @ '' '' @ hex_value fp) = Inr (FingerprintAttr fp)"
  using assms by (simp add: parse_fingerprint_attr_values_def hash_roundtrip)

lemma attribute_roundtrip:
  "attribute_wf a \<Longrightarrow> attribute_from_str (show_attribute_body a) = Inr a"
proof (induction a)
  case (CandidateAttr c)
  then show ?case using candidate_roundtrip[of c] by (simp add: attribute_from_str_def)
next
  case (RTPMap fmt name rate params)
  then show ?case using rtpmap_roundtrip[of fmt name rate params] by (simp add: attribute_from_str_def)
next
  case (FingerprintAttr fp)
  then show ?case using fingerprint_roundtrip[of fp] by (simp add: attribute_from_str_def)
next
  case (Setup role)
  then show ?case by (simp add: attribute_from_str_def parse_setup_attr_values_def)
qed

text \<open>
  Descriptions whose text can be read back: the words are ASCII tokens, at least one format is
  listed and every \<open>rtpmap\<close> is for a listed format. \<open>ord\<close> enumerates format sets.
\<close>

definition listed :: "u8 set \<Rightarrow> attribute \<Rightarrow> bool" where
  "listed fs a = (case a of RTPMap fmt _ _ _ \<Rightarrow> fmt \<in> fs | _ \<Rightarrow> True)"

definition media_wf :: "media_description \<Rightarrow> bool" where
  "media_wf md =
     (token (media_type md) \<and> token (protocol md) \<and> fmts md \<noteq> {} \<and>
      list_all (\<lambda>a. attribute_wf a \<and> listed (fmts md) a) (attributes md))"

definition sdp_wf :: "session_description \<Rightarrow> bool" where
  "sdp_wf d =
     (newline \<notin> set (session_name d) \<and> newline \<notin> set (timing d) \<and>
      newline \<notin> set (connection_data d) \<and> list_all media_wf (media_descriptions d))"

definition enumerates :: "(u8 set \<Rightarrow> u8 list) \<Rightarrow> bool" where
  "enumerates ord = (\<forall>A. set (ord A) = A)"

abbreviation fmt_words :: "u8 list \<Rightarrow> string" where
  "fmt_words fs \<equiv> concat (map (\<lambda>fmt. CHR '' '' # show_nat (unat fmt)) fs)"

lemma split_fmt_words:
  "token p \<Longrightarrow> split_whitespace (p @ fmt_words fs) = p # map (show_nat \<circ> unat) fs"
  by (induction fs arbitrary: p) simp_all

lemma trim_fmt_words: "token p \<Longrightarrow> trim_end (r @ p @ fmt_words fs) = r @ p @ fmt_words fs"
proof (induction fs arbitrary: p r)
  case Nil
  then show ?case by (simp add: trim_end_token)
next
  case (Cons f fs)
  show ?case using Cons.IH[of "show_nat (unat f)" "r @ p @ '' ''"] by simp
qed

lemma parse_fmts_show: "parse_fmts (map (show_nat \<circ> unat) fs) acc = Inr (acc \<union> set fs)"
proof (induction fs arbitrary: acc)
  case (Cons f fs)
  have "unat f < 256" using unsigned_less[of f] by simp
  then show ?case using Cons by (simp add: parse_show_nat)
qed simp

lemma media_line_roundtrip:
  assumes "media_wf md" and "enumerates ord"
  shows "media_from_str (drop 2 (media_line ord md)) = Inr (md\<lparr>attributes := []\<rparr>)"
proof -
  have "unat (md_port md) < 65536" using unsigned_less[of "md_port md"] by simp
  moreover have "set (ord (fmts md)) = fmts md" "ord (fmts md) \<noteq> []"
    using assms unfolding enumerates_def media_wf_def by (metis list.set(1))+
  ultimately show ?thesis using assms
    by (simp add: media_from_str_def media_line_def media_wf_def split_fmt_words parse_fmts_show
        parse_show_nat media_new_def Suc_le_eq)
qed

lemma trim_media_line:
  "media_wf md \<Longrightarrow> trim (media_line ord md) = media_line ord md"
  using trim_fmt_words[of "protocol md"
      "''m='' @ media_type md @ '' '' @ show_nat (unat (md_port md)) @ '' ''" "ord (fmts md)"]
  by (simp add: media_line_def trim_def media_wf_def)

lemma parse_media_line:
  assumes "media_wf md" and "enumerates ord"
  shows "parse_lines (media_line ord md # ls) mds = parse_lines ls (mds @ [md\<lparr>attributes := []\<rparr>])"
proof -
  obtain v where v: "media_line ord md = ''m='' @ v" by (simp add: media_line_def)
  with media_line_roundtrip[OF assms] have "media_from_str v = Inr (md\<lparr>attributes := []\<rparr>)" by simp
  then show ?thesis using trim_media_line[OF assms(1), of ord]
    by (simp add: v handle_media_description_line_def)
qed

lemma show_attribute_last:
  "attribute_wf a \<Longrightarrow> \<exists>r t. show_attribute_body a = r @ t \<and> token t"
proof (induction a)
  case (CandidateAttr c)
  then show ?case
    by (intro exI[of _ "''candidate:'' @ join '' '' (butlast (show_candidate_fields c)) @ '' ''"]
        exI[of _ "show_candidate_type (cand_type c)"]) (simp add: show_candidate_fields_def)
next
  case (RTPMap fmt name rate params)
  have "token (''/'' @ show_nat (unat rate) @ (case params of Some p \<Rightarrow> ''/'' @ p | None \<Rightarrow> []))"
    using RTPMap token_show_nat[of "unat rate"] by (auto simp: token_def split: option.splits)
  then show ?case
    by (intro exI[of _ "''rtpmap:'' @ show_nat (unat fmt) @ '' '' @ name"] exI) auto
next
  case (FingerprintAttr fp)
  then show ?case using hash_roundtrip(2)[of fp]
    by (intro exI[of _ "''fingerprint:'' @ algorithm fp @ '' ''"] exI) auto
next
  case (Setup role)
  then show ?case by (intro exI[of _ "''setup:''"] exI) auto
qed

lemma trim_attribute_line:
  assumes "attribute_wf a"
  shows "trim ('' '' @ show_attribute a) = show_attribute a"
proof -
  obtain r t where "show_attribute_body a = r @ t" "token t"
    using show_attribute_last[OF assms] by auto
  then show ?thesis using trim_end_token[of t "''a='' @ r"] by (simp add: trim_def show_attribute_def)
qed

lemma parse_attribute_lines:
  "list_all (\<lambda>a. attribute_wf a \<and> listed (fmts md) a) as \<Longrightarrow>
   parse_lines (map (\<lambda>a. '' '' @ show_attribute a) as @ ls) (mds @ [md]) =
     parse_lines ls (mds @ [md\<lparr>attributes := attributes md @ as\<rparr>])"
proof (induction as arbitrary: md)
  case (Cons a as)
  have "add_attribute md a = Inr (md\<lparr>attributes := attributes md @ [a]\<rparr>)"
    using Cons.prems by (auto simp: add_attribute_def listed_def split: attribute.splits)
  moreover have "trim ('' '' @ show_attribute a) = ''a='' @ show_attribute_body a"
    using Cons.prems trim_attribute_line[of a] by (simp add: show_attribute_def)
  ultimately show ?case
    using Cons.IH[of "md\<lparr>attributes := attributes md @ [a]\<rparr>"] Cons.prems
    by (simp add: handle_attribute_line_def attribute_roundtrip)
qed simp

lemma parse_media_descriptions:
  "list_all media_wf mds' \<Longrightarrow> enumerates ord \<Longrightarrow>
   parse_lines (concat (map (media_lines ord) mds') @ ls) mds = parse_lines ls (mds @ mds')"
proof (induction mds' arbitrary: mds)
  case (Cons md mds')
  then show ?case
    using parse_attribute_lines[of "md\<lparr>attributes := []\<rparr>" "attributes md"]
    by (simp add: media_lines_def parse_media_line del: parse_lines.simps) (simp add: media_wf_def)
qed simp

lemma parse_header_line:
  assumes "visible k" and "k \<noteq> CHR ''m''" and "k \<noteq> CHR ''a''" and "k \<noteq> CHR ''=''"
  shows "parse_lines ((k # CHR ''='' # v) # ls) mds = parse_lines ls mds"
  using assms trim_end_append_visible[of "CHR ''=''" "[k]" v] by (simp add: trim_def)

definition header_lines :: "session_description \<Rightarrow> string list" where
  "header_lines d =
     [''v='' @ show_nat (unat (sdp_version d)), ''o='' @ show_nat (origin_id d),
      ''s='' @ session_name d, ''t='' @ timing d, ''c='' @ connection_data d]"

lemma join_append:
  "xs \<noteq> [] \<Longrightarrow> join sep xs @ concat (map (\<lambda>y. sep @ y) ys) = join sep (xs @ ys)"
proof (induction sep xs rule: join.induct)
  case (2 sep x)
  have "concat (map (\<lambda>y. sep @ y) ys) = (if ys = [] then [] else sep @ join sep ys)"
    by (induction sep ys rule: join.induct) simp_all
  then show ?case by (cases ys) simp_all
qed simp_all

lemma show_media_lines:
  "newline # show_media ord md = concat (map (\<lambda>l. newline # l) (media_lines ord md))"
  by (simp add: show_media_def media_lines_def comp_def)

lemma show_all_media_lines:
  "concat (map (\<lambda>md. newline # show_media ord md) mds) =
     concat (map (\<lambda>l. newline # l) (concat (map (media_lines ord) mds)))"
proof (induction mds)
  case (Cons md mds)
  then show ?case using show_media_lines[of ord md] by simp
qed simp

lemma show_sdp_lines:
  "show_sdp ord d =
     join [newline] (header_lines d @ concat (map (media_lines ord) (media_descriptions d)))"
proof -
  have "show_sdp ord d = join [newline] (header_lines d) @
      concat (map (\<lambda>l. [newline] @ l) (concat (map (media_lines ord) (media_descriptions d))))"
    unfolding show_sdp_def show_all_media_lines by (simp add: header_lines_def)
  then show ?thesis by (subst (asm) join_append) (simp_all add: header_lines_def)
qed

lemma visible_not_newline: "visible c \<Longrightarrow> c \<noteq> newline"
  by (auto simp: visible_def ascii_ws_def)

lemma token_no_newline: "token t \<Longrightarrow> newline \<notin> set t"
  by (auto simp: token_def list_all_iff visible_not_newline dest: visible_not_newline)

lemma show_attribute_no_newline: "attribute_wf a \<Longrightarrow> newline \<notin> set (show_attribute_body a)"
proof (induction a)
  case (RTPMap fmt name rate params)
  then show ?case
    by (auto simp: token_no_newline list_all_iff dest: visible_not_newline split: option.splits)
next
  case (FingerprintAttr fp)
  then show ?case using hash_roundtrip(2)[of fp] by (auto simp: token_no_newline)
qed (auto simp: show_candidate_fields_def token_no_newline)

lemma media_lines_no_newline:
  "media_wf md \<Longrightarrow> l \<in> set (media_lines ord md) \<Longrightarrow> newline \<notin> set l"
  by (auto simp: media_lines_def media_line_def media_wf_def token_no_newline list_all_iff
      show_attribute_def show_attribute_no_newline split: if_splits)

lemma sdp_lines:
  assumes "sdp_wf d"
  shows "split_on newline (show_sdp ord d) =
    header_lines d @ concat (map (media_lines ord) (media_descriptions d))"
  unfolding show_sdp_lines
proof (rule split_on_join)
  show "\<forall>l \<in> set (header_lines d @ concat (map (media_lines ord) (media_descriptions d))).
      newline \<notin> set l"
    using assms media_lines_no_newline[of _ _ ord]
    by (auto simp: header_lines_def sdp_wf_def list_all_iff)
qed (simp add: header_lines_def)

lemma sdp_roundtrip_gen:
  assumes "sdp_wf d" and "enumerates ord"
  shows "sdp_from_str (show_sdp ord d) = Inr (sdp_new (media_descriptions d) sdp_config_default)"
proof -
  let ?ms = "concat (map (media_lines ord) (media_descriptions d))"
  have vis: "visible (CHR ''v'')" "visible (CHR ''o'')" "visible (CHR ''s'')" "visible (CHR ''c'')"
    by code_simp+
  have "parse_lines (header_lines d @ ?ms) [] = parse_lines ?ms []"
    by (simp add: header_lines_def parse_header_line vis del: parse_lines.simps)
  also have "\<dots> = Inr (media_descriptions d)"
    using parse_media_descriptions[of "media_descriptions d" ord "[]" "[]"] assms
    by (simp add: sdp_wf_def)
  finally show ?thesis by (simp add: sdp_from_str_def sdp_lines[OF assms(1)])
qed

text \<open>
  C25. Reading back a printed session description: for every well-formed description and every
  iteration order of the format sets, the parser accepts the printed text and recovers all
  media descriptions with all their attributes, in order. The session-level fields are replaced
  by the defaults, because the parser skips every line but the media and attribute lines.
\<close>

theorem sdp_roundtrip:
  assumes "sdp_wf d" and "enumerates ord"
  shows "sdp_from_str (show_sdp ord d) = Inr (sdp_new (media_descriptions d) sdp_config_default)"
  by (rule sdp_roundtrip_gen[OF assms])

definition sample_order :: "u8 set \<Rightarrow> u8 list" where
  "sample_order A = sorted_list_of_set A"

lemma sample_order_enumerates: "enumerates sample_order"
  by (simp add: enumerates_def sample_order_def)

definition sample_media :: "string \<Rightarrow> media_description" where
  "sample_media name =
     \<lparr>media_type = ''video'', md_port = 5000, protocol = ''UDP/TLS/RTP/SAVPF'', fmts = {96},
      attributes = [RTPMap 96 name 90000 None, Setup ActPass,
        FingerprintAttr \<lparr>algorithm = ''sha-256'', fp_bytes = [171, 5]\<rparr>]\<rparr>"

definition sample_sdp :: "string \<Rightarrow> session_description" where
  "sample_sdp name = sdp_new [sample_media name] sdp_config_default"

lemma sample_sdp_wf: "sdp_wf (sample_sdp ''H264'')"
proof -
  have "token ''video''" "token ''UDP/TLS/RTP/SAVPF''" "token ''H264''" "token ''sha-256''"
    by code_simp+
  then show ?thesis
    by (simp add: sdp_wf_def sample_sdp_def sample_media_def sdp_new_def sdp_config_default_def
        media_wf_def listed_def)
qed

theorem sdp_roundtrip_witness:
  "sdp_from_str (show_sdp sample_order (sample_sdp ''H264'')) = Inr (sample_sdp ''H264'')"
  using sdp_roundtrip[OF sample_sdp_wf sample_order_enumerates]
  by (simp add: sample_sdp_def sdp_new_def)

section \<open>Negotiation\<close>

definition codec_offered :: "media_description \<Rightarrow> attribute \<Rightarrow> bool" where
  "codec_offered off a =
     (case a of RTPMap _ name _ _ \<Rightarrow> list_ex (matching_codec name) (attributes off) | _ \<Rightarrow> True)"

definition same_media :: "media_description \<Rightarrow> media_description \<Rightarrow> bool" where
  "same_media l m = (media_type m = media_type l \<and> protocol m = protocol l)"

fun rtpmap_format :: "attribute \<Rightarrow> u8 option" where
  "rtpmap_format (RTPMap fmt _ _ _) = Some fmt"
| "rtpmap_format _ = None"

definition formats_of :: "attribute list \<Rightarrow> u8 set" where
  "formats_of as = {fmt. Some fmt \<in> rtpmap_format ` set as}"

text \<open>What the answer to the offered media description \<open>off\<close> says about the local \<open>l\<close>.\<close>

definition answers :: "media_description \<Rightarrow> media_description \<Rightarrow> media_description \<Rightarrow> bool" where
  "answers l off md =
     (media_type md = media_type l \<and> protocol md = protocol l \<and>
      md_port md = (if attributes md = [] then 0 else md_port l) \<and>
      set (attributes md) = set (filter (codec_offered off) (attributes l)) \<and>
      fmts md = formats_of (attributes md))"

definition copies :: "media_description \<Rightarrow> attribute \<Rightarrow> attribute list" where
  "copies off a =
     (case a of
        RTPMap _ name _ _ \<Rightarrow> replicate (length (filter (matching_codec name) (attributes off))) a
      | _ \<Rightarrow> [a])"

lemma set_copies: "set (copies off a) = (if codec_offered off a then {a} else {})"
  by (auto simp: copies_def codec_offered_def list_ex_iff filter_empty_conv split: attribute.splits)

lemma set_all_copies: "set (concat (map (copies off) as)) = set (filter (codec_offered off) as)"
  by (induction as) (auto simp: set_copies)

lemma formats_of_simps [simp]:
  "formats_of [] = {}"
  "formats_of (a # as) = (case rtpmap_format a of Some f \<Rightarrow> insert f (formats_of as) | None \<Rightarrow> formats_of as)"
  "formats_of (as @ bs) = formats_of as \<union> formats_of bs"
  by (auto simp: formats_of_def split: option.splits)

lemma formats_of_replicate [simp]:
  "formats_of (replicate n a) = (if n = 0 then {} else formats_of [a])"
  by (induction n) (auto split: option.splits)

lemma compatible_attributes_result:
  "compatible_attributes as (attributes off) (fs, out) =
     (fs \<union> formats_of (concat (map (copies off) as)), out @ concat (map (copies off) as))"
proof (induction as arbitrary: fs out)
  case (Cons a as)
  show ?case
    by (cases a) (simp_all add: Cons.IH copies_def Let_def)
qed simp

lemma add_attributes_listed:
  "list_all (listed (fmts md)) as \<Longrightarrow>
   add_attributes md as = Inr (md\<lparr>attributes := attributes md @ as\<rparr>)"
proof (induction as arbitrary: md)
  case (Cons a as)
  then have "add_attribute md a = Inr (md\<lparr>attributes := attributes md @ [a]\<rparr>)"
    by (auto simp: add_attribute_def listed_def split: attribute.splits)
  then show ?case using Cons.IH[of "md\<lparr>attributes := attributes md @ [a]\<rparr>"] Cons.prems by simp
qed simp

lemma listed_formats: "list_all (listed (formats_of as)) as"
proof -
  have "listed (formats_of as) a" if "a \<in> set as" for a
  proof (cases a)
    case (RTPMap fmt name rate params)
    then show ?thesis using that by (force simp: listed_def formats_of_def)
  qed (simp_all add: listed_def)
  then show ?thesis by (simp add: list_all_iff)
qed

lemma create_answer_md_answers:
  assumes "compatible_attributes_data l off = (fs, as)"
  shows "\<exists>md. create_answer_md l fs as = Inr md \<and> answers l off md"
proof -
  have "as = concat (map (copies off) (attributes l))" "fs = formats_of as"
    using assms compatible_attributes_result[of "attributes l" off "{}" "[]"]
    by (auto simp: compatible_attributes_data_def)
  moreover from this have "set as = set (filter (codec_offered off) (attributes l))"
    by (simp only: set_all_copies)
  ultimately show ?thesis
    by (simp add: create_answer_md_def add_attributes_listed listed_formats media_new_def
        answers_def del: set_filter)
qed

text \<open>The first media description of the offer for the same media, and the answered local ones.\<close>

definition offered :: "media_description list \<Rightarrow> media_description \<Rightarrow> media_description option" where
  "offered offer l = find (same_media l) offer"

lemma answer_media_result:
  "\<exists>mds. answer_media ls offer = Inr mds \<and>
     list_all2 (\<lambda>l md. answers l (the (offered offer l)) md)
       (filter (\<lambda>l. offered offer l \<noteq> None) ls) mds"
proof (induction ls)
  case (Cons l ls)
  then obtain mds where mds: "answer_media ls offer = Inr mds"
    "list_all2 (\<lambda>l md. answers l (the (offered offer l)) md)
       (filter (\<lambda>l. offered offer l \<noteq> None) ls) mds" by auto
  have find: "find (\<lambda>m. media_type m = media_type l \<and> protocol m = protocol l) offer = offered offer l"
    by (simp add: offered_def same_media_def[abs_def])
  show ?case
  proof (cases "offered offer l")
    case None
    then show ?thesis using mds by (simp add: find)
  next
    case (Some off)
    obtain fs as where c: "compatible_attributes_data l off = (fs, as)" by force
    obtain md where "create_answer_md l fs as = Inr md" "answers l off md"
      using create_answer_md_answers[OF c] by auto
    then show ?thesis using Some mds c by (simp add: find)
  qed
qed simp

text \<open>
  C26. Answering an offer never fails. The answer keeps the session-level fields and has one media
  description for each local one whose media type and protocol are offered, in the local order:
  its attributes are the local ones without the \<open>rtpmap\<close>s whose codec name the offer does not
  list, and its formats are exactly those of the remaining \<open>rtpmap\<close>s.
\<close>

theorem create_answer_negotiates:
  "\<exists>mds. create_answer d offer =
      Inr (d\<lparr>media_descriptions := mds, connection_data := ''IN IP4 0.0.0.0''\<rparr>) \<and>
    list_all2 (\<lambda>l md. answers l (the (offered (media_descriptions offer) l)) md)
      (filter (\<lambda>l. offered (media_descriptions offer) l \<noteq> None) (media_descriptions d)) mds"
  using answer_media_result[of "media_descriptions d" "media_descriptions offer"]
  by (cases d) (fastforce simp: create_answer_def sdp_new_def)

lemma media_line_no_formats:
  assumes "token (media_type md)" and "token (protocol md)" and "fmts md = {}" and "enumerates ord"
  shows "parse_lines (media_line ord md # ls) mds = Inl InvalidMediaDescriptionFormatError"
proof -
  have ord: "ord {} = []" using assms(4) unfolding enumerates_def by (metis set_empty2)
  have "trim (media_line ord md) = media_line ord md"
    using assms trim_fmt_words[of "protocol md"
      "''m='' @ media_type md @ '' '' @ show_nat (unat (md_port md)) @ '' ''" "[]"]
    by (simp add: media_line_def trim_def ord)
  moreover have "media_from_str (drop 2 (media_line ord md)) = Inl InvalidMediaDescriptionFormatError"
    using assms by (simp add: media_line_def ord media_from_str_def)
  ultimately show ?thesis
    by (simp add: media_line_def handle_media_description_line_def)
qed

text \<open>
  An answer without a common codec cannot be read by the peer: it lists no format, so its media
  line has three words and the parser rejects it.
\<close>

theorem no_common_codec_answer_unreadable:
  "\<exists>ans. create_answer (sample_sdp ''VP8'') (sample_sdp ''H264'') = Inr ans \<and>
    sdp_from_str (show_sdp sample_order ans) = Inl InvalidMediaDescriptionFormatError"
proof -
  let ?l = "sample_media ''VP8''" and ?o = "sample_media ''H264''"
  have tok: "token ''video''" "token ''UDP/TLS/RTP/SAVPF''" "token ''sha-256''" by code_simp+
  define md where "md = ?l\<lparr>fmts := {}, attributes := tl (attributes ?l)\<rparr>"
  have "create_answer (sample_sdp ''VP8'') (sample_sdp ''H264'') = Inr (sdp_new [md] sdp_config_default)"
    by (simp add: create_answer_def sample_sdp_def sdp_new_def sdp_config_default_def sample_media_def
        compatible_attributes_data_def create_answer_md_def add_attribute_def media_new_def md_def)
  moreover have "sdp_from_str (show_sdp sample_order (sdp_new [md] sdp_config_default)) =
      Inl InvalidMediaDescriptionFormatError"
  proof -
    let ?d = "sdp_new [md] sdp_config_default"
    have "split_on newline (show_sdp sample_order ?d) =
        header_lines ?d @ concat (map (media_lines sample_order) (media_descriptions ?d))"
      unfolding show_sdp_lines
    proof (rule split_on_join)
      show "\<forall>l \<in> set (header_lines ?d @ concat (map (media_lines sample_order) (media_descriptions ?d))).
          newline \<notin> set l"
        using tok by (auto simp: header_lines_def sdp_new_def sdp_config_default_def media_lines_def
            media_line_def md_def sample_media_def sample_order_def show_attribute_def hex_value_def
            token_no_newline)
    qed (simp add: header_lines_def)
    moreover have "media_lines sample_order md =
        media_line sample_order md # map (\<lambda>a. '' '' @ show_attribute a) (attributes md)"
      by (simp add: media_lines_def)
    moreover have "visible (CHR ''v'')" "visible (CHR ''o'')" "visible (CHR ''s'')" "visible (CHR ''c'')"
      by code_simp+
    ultimately show ?thesis
      using media_line_no_formats[of md sample_order] tok sample_order_enumerates
      by (simp add: sdp_from_str_def sdp_new_def header_lines_def parse_header_line md_def
          sample_media_def del: parse_lines.simps)
  qed
  ultimately show ?thesis by blast
qed

end
