(* ===== verification/Protocol.thy ===== *)
theory Protocol
  imports Sdp "HOL-Library.AList"
begin

text \<open>
  The text protocol between clients and the central server,
  \<^verbatim>\<open>src/client_server_protocol\<close> and \<^verbatim>\<open>src/user/user_status.rs\<close>: fields joined by a bar, one trailing
  line feed, decoded from a byte buffer after a UTF-8 check and a trim. \<open>ord\<close> is the iteration
  order of the format sets of a printed session description; a \<open>HashMap\<close> is the association
  list of its entries in its iteration order.
\<close>

datatype user_status = Available | Occupied string | Offline

fun show_user_status :: "user_status \<Rightarrow> string" where
  "show_user_status Available = ''Available''"
| "show_user_status (Occupied some) = ''Occupied:'' @ some"
| "show_user_status Offline = ''Offline''"

definition user_status_from_bytes :: "bytes \<Rightarrow> user_status option" where
  "user_status_from_bytes bs =
     (case from_utf8 bs of
        None \<Rightarrow> None
      | Some text \<Rightarrow>
          let parts = split_on (CHR '':'') (trim text)
          in if parts ! 0 = ''Available'' \<and> length parts = 1 then Some Available
             else if parts ! 0 = ''Occupied'' \<and> length parts = 2 then Some (Occupied (parts ! 1))
             else if parts ! 0 = ''Offline'' \<and> length parts = 1 then Some Offline
             else None)"

text \<open>
  A \<open>SocketAddr\<close>. The text form of an IPv4 address is modelled; that of IPv6 is the pair of
  functions \<open>v6\<close> (print and parse) on an opaque type.
\<close>

datatype 'v6 socket_addr = V4 u8 u8 u8 u8 u16 | V6 'v6

type_synonym 'v6 v6_text = "('v6 \<Rightarrow> string) \<times> (string \<Rightarrow> 'v6 option)"

fun show_socket_addr :: "'v6 v6_text \<Rightarrow> 'v6 socket_addr \<Rightarrow> string" where
  "show_socket_addr v6 (V4 a b c d prt) =
     show_nat (unat a) @ ''.'' @ show_nat (unat b) @ ''.'' @ show_nat (unat c) @ ''.'' @
       show_nat (unat d) @ '':'' @ show_nat (unat prt)"
| "show_socket_addr v6 (V6 x) = fst v6 x"

text \<open>An octet has at most three digits and no superfluous leading zero; signs are no digits.\<close>

definition parse_octet :: "string \<Rightarrow> u8 option" where
  "parse_octet s =
     (if s = [] \<or> length s > 3 \<or> (hd s = CHR ''0'' \<and> length s > 1) then None
      else map_option word_of_nat (digits_val 10 256 0 s))"

definition parse_port :: "string \<Rightarrow> u16 option" where
  "parse_port s = (if s = [] then None else map_option word_of_nat (digits_val 10 65536 0 s))"

definition parse_v4 :: "string \<Rightarrow> 'v6 socket_addr option" where
  "parse_v4 s =
     (case split_on (CHR ''.'') s of
        [a, b, c, r] \<Rightarrow>
          (case split_once (CHR '':'') r of
             None \<Rightarrow> None
           | Some (d, p) \<Rightarrow>
               (case (parse_octet a, parse_octet b, parse_octet c, parse_octet d, parse_port p) of
                  (Some a, Some b, Some c, Some d, Some prt) \<Rightarrow> Some (V4 a b c d prt)
                | _ \<Rightarrow> None))
      | _ \<Rightarrow> None)"

definition socket_addr_from_str :: "'v6 v6_text \<Rightarrow> string \<Rightarrow> 'v6 socket_addr option" where
  "socket_addr_from_str v6 s =
     (case parse_v4 s of Some a \<Rightarrow> Some a | None \<Rightarrow> map_option V6 (snd v6 s))"

section \<open>Client messages and responses\<close>

text \<open>The parts of a message: the trimmed text of the buffer, split at the bars.\<close>

definition message_parts :: "bytes \<Rightarrow> string list option" where
  "message_parts bs = map_option (\<lambda>text. split_on (CHR ''|'') (trim text)) (from_utf8 bs)"

datatype client_message =
    Hello
  | LogIn string string
  | SignUp string string
  | LogOut string
  | CallRequest string session_description string
  | CallAccept string string session_description
  | CallReject string string
  | CallHangup string

text \<open>Parsing a session description, the error dropped.\<close>

definition parse_sdp :: "string \<Rightarrow> session_description option" where
  "parse_sdp s = (case sdp_from_str s of Inl _ \<Rightarrow> None | Inr d \<Rightarrow> Some d)"

fun client_message_text :: "(u8 set \<Rightarrow> u8 list) \<Rightarrow> client_message \<Rightarrow> string" where
  "client_message_text ord Hello = ''HELLO''"
| "client_message_text ord (LogIn username password) = ''LOGIN|'' @ username @ ''|'' @ password"
| "client_message_text ord (SignUp username password) = ''SIGNUP|'' @ username @ ''|'' @ password"
| "client_message_text ord (LogOut token_str) = ''LOGOUT|'' @ token_str"
| "client_message_text ord (CallRequest token_str offer_sdp to) =
     ''CALLREQUEST|'' @ token_str @ ''|'' @ show_sdp ord offer_sdp @ ''|'' @ to"
| "client_message_text ord (CallAccept from_usr to_usr sdp_answer) =
     ''CALLACCEPT|'' @ from_usr @ ''|'' @ to_usr @ ''|'' @ show_sdp ord sdp_answer"
| "client_message_text ord (CallReject from_usr to_usr) =
     ''CALLREJECT|'' @ from_usr @ ''|'' @ to_usr"
| "client_message_text ord (CallHangup token_str) = ''CALLHANG|'' @ token_str"

definition client_message_to_bytes :: "(u8 set \<Rightarrow> u8 list) \<Rightarrow> client_message \<Rightarrow> bytes" where
  "client_message_to_bytes ord m = as_bytes (client_message_text ord m @ [newline])"

definition client_message_from_bytes :: "bytes \<Rightarrow> client_message option" where
  "client_message_from_bytes bs =
     (case message_parts bs of
        None \<Rightarrow> None
      | Some parts \<Rightarrow>
          let n = length parts
          in if parts ! 0 = ''HELLO'' \<and> n = 1 then Some Hello
             else if parts ! 0 = ''LOGIN'' \<and> n = 3 then Some (LogIn (parts ! 1) (parts ! 2))
             else if parts ! 0 = ''SIGNUP'' \<and> n = 3 then Some (SignUp (parts ! 1) (parts ! 2))
             else if parts ! 0 = ''LOGOUT'' \<and> n = 2 then Some (LogOut (parts ! 1))
             else if parts ! 0 = ''CALLREQUEST'' \<and> n = 4 then
               map_option (\<lambda>d. CallRequest (parts ! 1) d (parts ! 3)) (parse_sdp (parts ! 2))
             else if parts ! 0 = ''CALLACCEPT'' \<and> n = 4 then
               map_option (CallAccept (parts ! 1) (parts ! 2)) (parse_sdp (parts ! 3))
             else if parts ! 0 = ''CALLREJECT'' \<and> n = 3 then
               Some (CallReject (parts ! 1) (parts ! 2))
             else if parts ! 0 = ''CALLHANG'' \<and> n = 2 then Some (CallHangup (parts ! 1))
             else None)"

datatype client_response = Username string

fun client_response_to_bytes :: "client_response \<Rightarrow> bytes" where
  "client_response_to_bytes (Username s) = as_bytes (''USERNAME|'' @ s @ [newline])"

definition client_response_from_bytes :: "bytes \<Rightarrow> client_response option" where
  "client_response_from_bytes bs =
     (case message_parts bs of
        None \<Rightarrow> None
      | Some parts \<Rightarrow>
          if parts ! 0 = ''USERNAME'' \<and> length parts = 2 then Some (Username (parts ! 1)) else None)"

section \<open>Server messages and responses\<close>

datatype server_message =
    UsernameRequest
  | CallIncoming string session_description
  | CallAccepted string session_description
  | CallRejected
  | UserStatusUpdate string user_status
  | MessageError string

fun server_message_text :: "(u8 set \<Rightarrow> u8 list) \<Rightarrow> server_message \<Rightarrow> string" where
  "server_message_text ord UsernameRequest = ''USERNAMEREQUEST''"
| "server_message_text ord (CallIncoming from_usr offer_sdp) =
     ''CALLINCOMING|'' @ from_usr @ ''|'' @ show_sdp ord offer_sdp"
| "server_message_text ord (CallAccepted from_usr sdp_answer) =
     ''CALLACCEPTED|'' @ from_usr @ ''|'' @ show_sdp ord sdp_answer"
| "server_message_text ord CallRejected = ''CALLREJECTED''"
| "server_message_text ord (UserStatusUpdate user status) =
     ''USERSTATE|'' @ user @ ''|'' @ show_user_status status"
| "server_message_text ord (MessageError msg) = ''ERROR|'' @ msg"

definition server_message_to_bytes :: "(u8 set \<Rightarrow> u8 list) \<Rightarrow> server_message \<Rightarrow> bytes" where
  "server_message_to_bytes ord m = as_bytes (server_message_text ord m @ [newline])"

definition server_message_from_bytes :: "bytes \<Rightarrow> server_message option" where
  "server_message_from_bytes bs =
     (case message_parts bs of
        None \<Rightarrow> None
      | Some parts \<Rightarrow>
          let n = length parts
          in if parts ! 0 = ''USERNAMEREQUEST'' \<and> n = 1 then Some UsernameRequest
             else if parts ! 0 = ''CALLINCOMING'' \<and> n = 3 then
               map_option (CallIncoming (parts ! 1)) (parse_sdp (parts ! 2))
             else if parts ! 0 = ''CALLACCEPTED'' \<and> n = 3 then
               map_option (CallAccepted (parts ! 1)) (parse_sdp (parts ! 2))
             else if parts ! 0 = ''CALLREJECTED'' \<and> n = 1 then Some CallRejected
             else if parts ! 0 = ''USERSTATE'' \<and> n = 3 then
               map_option (UserStatusUpdate (parts ! 1)) (user_status_from_bytes (as_bytes (parts ! 2)))
             else if parts ! 0 = ''ERROR'' \<and> n = 2 then Some (MessageError (parts ! 1))
             else None)"

datatype 'v6 server_response =
    Welcome
  | ServerFull
  | LoginOk string "'v6 socket_addr" "(string \<times> user_status) list"
  | LoginError string
  | SignupOk
  | SignupError string
  | LogoutOk
  | LogoutError string
  | CallHangUpOk
  | CallHangUpError string
  | CallRequestOk
  | CallRequestError string
  | CallAcceptOk
  | CallAcceptError string
  | CallRejectOk
  | CallRejectError string
  | BadMessage
  | Error string

definition show_users_status :: "(string \<times> user_status) list \<Rightarrow> string" where
  "show_users_status us = join '';'' (map (\<lambda>(k, v). k @ '','' @ show_user_status v) us)"

fun server_response_text :: "'v6 v6_text \<Rightarrow> 'v6 server_response \<Rightarrow> string" where
  "server_response_text v6 Welcome = ''WELCOME''"
| "server_response_text v6 ServerFull = ''SERVERFULL''"
| "server_response_text v6 (LoginOk token_str addr us) =
     ''LOGINOK|'' @ token_str @ ''|'' @ show_socket_addr v6 addr @ ''|'' @ show_users_status us"
| "server_response_text v6 (LoginError msg) = ''LOGINERROR|'' @ msg"
| "server_response_text v6 SignupOk = ''SIGNUPOK''"
| "server_response_text v6 (SignupError msg) = ''SIGNUPERROR|'' @ msg"
| "server_response_text v6 LogoutOk = ''LOGOUTOK''"
| "server_response_text v6 (LogoutError msg) = ''LOGOUTERROR|'' @ msg"
| "server_response_text v6 CallHangUpOk = ''CALLHANGUPOK''"
| "server_response_text v6 (CallHangUpError msg) = ''CALLHANGUPERROR|'' @ msg"
| "server_response_text v6 CallRequestOk = ''CALLREQUESTOK''"
| "server_response_text v6 (CallRequestError msg) = ''CALLREQUESTERROR|'' @ msg"
| "server_response_text v6 CallAcceptOk = ''CALLACCEPTOK''"
| "server_response_text v6 (CallAcceptError msg) = ''CALLACCEPTERROR|'' @ msg"
| "server_response_text v6 CallRejectOk = ''CALLREJECTOK''"
| "server_response_text v6 (CallRejectError msg) = ''CALLREJECTERROR|'' @ msg"
| "server_response_text v6 BadMessage = ''BADMSG''"
| "server_response_text v6 (Error msg) = ''ERROR|'' @ msg"

definition server_response_to_bytes :: "'v6 v6_text \<Rightarrow> 'v6 server_response \<Rightarrow> bytes" where
  "server_response_to_bytes v6 r = as_bytes (server_response_text v6 r @ [newline])"

text \<open>The user list of a login: empty entries are skipped, fields after the second ignored.\<close>

fun parse_entries ::
  "string list \<Rightarrow> (string \<times> user_status) list \<Rightarrow> (string \<times> user_status) list option" where
  "parse_entries [] us = Some us"
| "parse_entries (entry # es) us =
     (if entry = [] then parse_entries es us
      else case split_on (CHR '','') entry of
             username # status_str # _ \<Rightarrow>
               (case user_status_from_bytes (as_bytes status_str) of
                  None \<Rightarrow> None
                | Some status \<Rightarrow> parse_entries es (AList.update username status us))
           | _ \<Rightarrow> None)"

definition parse_users_status :: "string \<Rightarrow> (string \<times> user_status) list option" where
  "parse_users_status s = (if s = [] then Some [] else parse_entries (split_on (CHR '';'') s) [])"

definition server_response_from_bytes :: "'v6 v6_text \<Rightarrow> bytes \<Rightarrow> 'v6 server_response option" where
  "server_response_from_bytes v6 bs =
     (case message_parts bs of
        None \<Rightarrow> None
      | Some parts \<Rightarrow>
          let n = length parts; tag = parts ! 0
          in if tag = ''WELCOME'' then Some Welcome
             else if tag = ''SERVERFULL'' then Some ServerFull
             else if tag = ''LOGINOK'' \<and> 4 \<le> n then
               (case socket_addr_from_str v6 (parts ! 2) of
                  None \<Rightarrow> None
                | Some addr \<Rightarrow> map_option (LoginOk (parts ! 1) addr) (parse_users_status (parts ! 3)))
             else if tag = ''LOGINERROR'' \<and> n = 2 then Some (LoginError (parts ! 1))
             else if tag = ''SIGNUPOK'' \<and> n = 1 then Some SignupOk
             else if tag = ''SIGNUPERROR'' \<and> n = 2 then Some (SignupError (parts ! 1))
             else if tag = ''LOGOUTOK'' \<and> n = 1 then Some LogoutOk
             else if tag = ''LOGOUTERROR'' \<and> n = 2 then Some (LogoutError (parts ! 1))
             else if tag = ''CALLHANGUPOK'' \<and> n = 1 then Some CallHangUpOk
             else if tag = ''CALLHANGUPERROR'' \<and> n = 2 then Some (CallHangUpError (parts ! 1))
             else if tag = ''CALLREQUESTOK'' \<and> n = 1 then Some CallRequestOk
             else if tag = ''CALLREQUESTERROR'' \<and> n = 2 then Some (CallRequestError (parts ! 1))
             else if tag = ''CALLACCEPTOK'' \<and> n = 1 then Some CallAcceptOk
             else if tag = ''CALLACCEPTERROR'' \<and> n = 2 then Some (CallAcceptError (parts ! 1))
             else if tag = ''CALLREJECTOK'' \<and> n = 1 then Some CallRejectOk
             else if tag = ''CALLREJECTERROR'' \<and> n = 2 then Some (CallRejectError (parts ! 1))
             else if tag = ''BADMSG'' \<and> n = 1 then Some BadMessage
             else if tag = ''ERROR'' \<and> n = 2 then Some (Error (parts ! 1))
             else None)"

section \<open>Round trips\<close>

definition field :: "string \<Rightarrow> bool" where
  "field s = (CHR ''|'' \<notin> set s \<and> utf8_valid s)"

definition last_field :: "string \<Rightarrow> bool" where
  "last_field s = (field s \<and> trim_end s = s)"

lemma visible_separators [simp]: "visible (CHR ''|'')" "visible (CHR '','')" "visible (CHR '';'')"
  by code_simp+

lemma utf8_valid_singletons [simp]:
  "utf8_valid ''|''" "utf8_valid [newline]" "utf8_valid '';''" "utf8_valid '',''" "utf8_valid '':''"
  by (rule utf8_valid_ascii, simp)+

lemma utf8_valid_visible: "list_all visible t \<Longrightarrow> utf8_valid t"
  by (rule utf8_valid_ascii) (simp add: list_all_iff visible_def)

lemma trim_end_join_bar:
  "fs \<noteq> [] \<Longrightarrow> trim_end (last fs) = last fs \<Longrightarrow> trim_end (join ''|'' fs) = join ''|'' fs"
proof (induction "''|''" fs rule: join.induct)
  case (3 x y ys)
  then show ?case using trim_end_append_visible[of "CHR ''|''" x "join ''|'' (y # ys)"] by simp
qed simp_all

lemma utf8_join_bar: "list_all field fs \<Longrightarrow> utf8_valid (join ''|'' fs)"
  by (rule utf8_valid_join) (auto simp: field_def list_all_iff)

text \<open>Every message is a tag and fields joined by bars; decoding recovers them.\<close>

lemma decode_fields:
  assumes "token tag" and "CHR ''|'' \<notin> set tag" and "list_all field rest"
    and "rest \<noteq> [] \<Longrightarrow> last_field (last rest)"
  shows "from_utf8 (as_bytes (join ''|'' (tag # rest) @ [newline])) = Some (join ''|'' (tag # rest) @ [newline])"
    and "split_on (CHR ''|'') (trim (join ''|'' (tag # rest) @ [newline])) = tag # rest"
proof -
  have tag: "field tag" "trim_end tag = tag"
    using assms trim_end_token[of tag "[]"] by (simp_all add: field_def utf8_valid_visible token_parts)
  have "utf8_valid (join ''|'' (tag # rest))" by (rule utf8_join_bar) (simp add: tag assms(3))
  then have "utf8_valid (join ''|'' (tag # rest) @ [newline])" by (rule utf8_valid_append) simp
  then show "from_utf8 (as_bytes (join ''|'' (tag # rest) @ [newline])) =
      Some (join ''|'' (tag # rest) @ [newline])" by (simp del: as_bytes_append)
  obtain c t where c: "tag = c # t" "visible c" using assms(1) by (cases tag) (auto simp: token_def)
  then have j: "join ''|'' (tag # rest) @ [newline] = c # tl (join ''|'' (tag # rest) @ [newline])"
    by (cases rest) simp_all
  have "trim_end (join ''|'' (tag # rest)) = join ''|'' (tag # rest)"
    using assms(4) tag(2) by (intro trim_end_join_bar) (auto simp: last_field_def)
  moreover have "trim_start (join ''|'' (tag # rest) @ [newline]) = join ''|'' (tag # rest) @ [newline]"
    by (subst j, subst j) (simp add: c(2))
  ultimately have "trim (join ''|'' (tag # rest) @ [newline]) = join ''|'' (tag # rest)"
    by (simp add: trim_def)
  moreover have "split_on (CHR ''|'') (join ''|'' (tag # rest)) = tag # rest"
    using assms(3) tag by (intro split_on_join) (auto simp: field_def list_all_iff)
  ultimately show "split_on (CHR ''|'') (trim (join ''|'' (tag # rest) @ [newline])) = tag # rest"
    by simp
qed

text \<open>The tag and the fields of a message that is decoded as it was encoded.\<close>

definition fields_ok :: "string \<times> string list \<Rightarrow> bool" where
  "fields_ok m =
     (token (fst m) \<and> CHR ''|'' \<notin> set (fst m) \<and> list_all field (snd m) \<and>
      (snd m = [] \<or> last_field (last (snd m))))"

definition fields_bytes :: "string \<times> string list \<Rightarrow> bytes" where
  "fields_bytes m = as_bytes (join ''|'' (fst m # snd m) @ [newline])"

lemma message_parts_fields:
  assumes "fields_ok m"
  shows "message_parts (fields_bytes m) = Some (fst m # snd m)"
proof -
  have l: "snd m \<noteq> [] \<Longrightarrow> last_field (last (snd m))" using assms by (auto simp: fields_ok_def)
  show ?thesis
    using assms decode_fields[of "fst m" "snd m", OF _ _ _ l]
    unfolding message_parts_def fields_bytes_def fields_ok_def by (metis option.map(2))
qed

lemma last_field_field: "last_field s \<Longrightarrow> field s"
  by (simp add: last_field_def)

lemmas literal_simps = visible_def ascii_ws_def fields_ok_def fields_bytes_def last_field_field

subsection \<open>Session descriptions inside messages\<close>

text \<open>A description that survives as a field of a message, and what the receiver gets.\<close>

definition sdp_field :: "(u8 set \<Rightarrow> u8 list) \<Rightarrow> session_description \<Rightarrow> bool" where
  "sdp_field ord d = (sdp_wf d \<and> media_descriptions d \<noteq> [] \<and> field (show_sdp ord d))"

definition received :: "session_description \<Rightarrow> session_description" where
  "received d = sdp_new (media_descriptions d) sdp_config_default"

lemma parse_sdp_show: "sdp_field ord d \<Longrightarrow> enumerates ord \<Longrightarrow> parse_sdp (show_sdp ord d) = Some (received d)"
  by (simp add: parse_sdp_def sdp_field_def sdp_roundtrip_gen received_def)

lemma show_media_last:
  assumes "media_wf md" and "enumerates ord"
  shows "\<exists>r t. show_media ord md = r @ t \<and> token t"
proof (cases "attributes md" rule: rev_cases)
  case Nil
  have "set (ord (fmts md)) = fmts md" using assms(2) by (simp add: enumerates_def)
  then obtain fs f where "ord (fmts md) = fs @ [f]"
    using assms(1) by (cases "ord (fmts md)" rule: rev_cases) (auto simp: media_wf_def)
  then have "show_media ord md = (''m='' @ media_type md @ '' '' @ show_nat (unat (md_port md)) @ '' ''
      @ protocol md @ fmt_words fs @ '' '') @ show_nat (unat f)"
    using Nil by (simp add: show_media_def media_line_def)
  moreover have "token (show_nat (unat f))" by simp
  ultimately show ?thesis by blast
next
  case (snoc as a)
  then have "attribute_wf a" using assms(1) by (simp add: media_wf_def)
  then obtain r t where rt: "show_attribute_body a = r @ t" "token t"
    using show_attribute_last by blast
  have "show_media ord md = (media_line ord md @ concat (map (\<lambda>a. newline # '' '' @ show_attribute a) as)
      @ newline # '' a='' @ r) @ t"
    using snoc rt by (simp add: show_media_def show_attribute_def)
  with rt show ?thesis by blast
qed

lemma sdp_last_field:
  assumes "sdp_field ord d" and "enumerates ord"
  shows "last_field (show_sdp ord d)"
proof -
  obtain mds md where mds: "media_descriptions d = mds @ [md]"
    using assms by (cases "media_descriptions d" rule: rev_cases) (auto simp: sdp_field_def)
  then have "media_wf md" using assms by (simp add: sdp_field_def sdp_wf_def)
  then obtain r t where "show_media ord md = r @ t" "token t" using show_media_last assms(2) by blast
  moreover from this mds obtain r' where "show_sdp ord d = r' @ t"
    by (auto simp: show_sdp_def)
  ultimately show ?thesis using assms by (simp add: last_field_def sdp_field_def trim_end_token)
qed

subsection \<open>Client messages\<close>

fun client_message_ok :: "(u8 set \<Rightarrow> u8 list) \<Rightarrow> client_message \<Rightarrow> bool" where
  "client_message_ok ord Hello = True"
| "client_message_ok ord (LogIn username password) = (field username \<and> last_field password)"
| "client_message_ok ord (SignUp username password) = (field username \<and> last_field password)"
| "client_message_ok ord (LogOut token_str) = last_field token_str"
| "client_message_ok ord (CallRequest token_str d to) =
     (field token_str \<and> sdp_field ord d \<and> last_field to)"
| "client_message_ok ord (CallAccept from_usr to_usr d) =
     (field from_usr \<and> field to_usr \<and> sdp_field ord d)"
| "client_message_ok ord (CallReject from_usr to_usr) = (field from_usr \<and> last_field to_usr)"
| "client_message_ok ord (CallHangup token_str) = last_field token_str"

fun client_received :: "client_message \<Rightarrow> client_message" where
  "client_received (CallRequest token_str d to) = CallRequest token_str (received d) to"
| "client_received (CallAccept from_usr to_usr d) = CallAccept from_usr to_usr (received d)"
| "client_received m = m"

fun client_fields :: "(u8 set \<Rightarrow> u8 list) \<Rightarrow> client_message \<Rightarrow> string \<times> string list" where
  "client_fields ord Hello = (''HELLO'', [])"
| "client_fields ord (LogIn username password) = (''LOGIN'', [username, password])"
| "client_fields ord (SignUp username password) = (''SIGNUP'', [username, password])"
| "client_fields ord (LogOut token_str) = (''LOGOUT'', [token_str])"
| "client_fields ord (CallRequest token_str d to) = (''CALLREQUEST'', [token_str, show_sdp ord d, to])"
| "client_fields ord (CallAccept from_usr to_usr d) = (''CALLACCEPT'', [from_usr, to_usr, show_sdp ord d])"
| "client_fields ord (CallReject from_usr to_usr) = (''CALLREJECT'', [from_usr, to_usr])"
| "client_fields ord (CallHangup token_str) = (''CALLHANG'', [token_str])"

lemma client_message_decode:
  assumes "client_message_ok ord m" and "enumerates ord"
  shows "client_message_from_bytes (client_message_to_bytes ord m) = Some (client_received m)"
proof -
  have bytes: "client_message_to_bytes ord m = fields_bytes (client_fields ord m)"
    by (cases m) (simp_all add: client_message_to_bytes_def fields_bytes_def)
  have "fields_ok (client_fields ord m)"
    using assms sdp_last_field[OF _ assms(2)]
    by (cases m) (auto simp: literal_simps sdp_field_def)
  then have "message_parts (client_message_to_bytes ord m) =
      Some (fst (client_fields ord m) # snd (client_fields ord m))"
    by (simp add: bytes message_parts_fields)
  then show ?thesis
    using assms by (cases m) (simp_all add: client_message_from_bytes_def parse_sdp_show)
qed

subsection \<open>User states\<close>

definition status_ok :: "user_status \<Rightarrow> bool" where
  "status_ok st =
     (case st of Occupied some \<Rightarrow> CHR '':'' \<notin> set some \<and> last_field some | _ \<Rightarrow> True)"

lemma show_status_last_field:
  assumes "status_ok st"
  shows "last_field (show_user_status st)"
proof (cases st)
  case (Occupied some)
  have "utf8_valid ''Occupied:''" by (rule utf8_valid_ascii) simp
  then have "utf8_valid (''Occupied:'' @ some)"
    using assms Occupied by (intro utf8_valid_append) (auto simp: status_ok_def last_field_def field_def)
  moreover have "trim_end (''Occupied'' @ CHR '':'' # some) = ''Occupied'' @ CHR '':'' # trim_end some"
    by (rule trim_end_append_visible) simp
  ultimately show ?thesis
    using assms Occupied by (simp add: status_ok_def last_field_def field_def)
qed (use trim_end_token[of "''Available''" "[]"] trim_end_token[of "''Offline''" "[]"] in
    \<open>simp_all add: last_field_def field_def visible_def ascii_ws_def utf8_valid_ascii\<close>)

lemma status_roundtrip:
  assumes "status_ok st"
  shows "user_status_from_bytes (as_bytes (show_user_status st)) = Some st"
proof -
  have l: "last_field (show_user_status st)" using show_status_last_field[OF assms] .
  then have "utf8_valid (show_user_status st)" by (simp add: last_field_def field_def)
  moreover have "trim_start (show_user_status st) = show_user_status st"
    by (cases st) (simp_all add: visible_def ascii_ws_def)
  moreover have "split_on (CHR '':'') (show_user_status st) =
      (case st of Available \<Rightarrow> [''Available''] | Occupied some \<Rightarrow> [''Occupied'', some] | Offline \<Rightarrow> [''Offline''])"
    using assms split_on_append[of "CHR '':''" "''Occupied''"]
    by (auto simp: status_ok_def split: user_status.splits)
  ultimately show ?thesis
    using l by (simp add: user_status_from_bytes_def trim_def last_field_def split: user_status.splits)
qed

subsection \<open>Server messages\<close>

fun server_message_ok :: "(u8 set \<Rightarrow> u8 list) \<Rightarrow> server_message \<Rightarrow> bool" where
  "server_message_ok ord (CallIncoming u d) = (field u \<and> sdp_field ord d)"
| "server_message_ok ord (CallAccepted u d) = (field u \<and> sdp_field ord d)"
| "server_message_ok ord (UserStatusUpdate u st) = (field u \<and> status_ok st)"
| "server_message_ok ord (MessageError msg) = last_field msg"
| "server_message_ok ord _ = True"

fun server_received :: "server_message \<Rightarrow> server_message" where
  "server_received (CallIncoming u d) = CallIncoming u (received d)"
| "server_received (CallAccepted u d) = CallAccepted u (received d)"
| "server_received m = m"

fun server_fields :: "(u8 set \<Rightarrow> u8 list) \<Rightarrow> server_message \<Rightarrow> string \<times> string list" where
  "server_fields ord UsernameRequest = (''USERNAMEREQUEST'', [])"
| "server_fields ord (CallIncoming u d) = (''CALLINCOMING'', [u, show_sdp ord d])"
| "server_fields ord (CallAccepted u d) = (''CALLACCEPTED'', [u, show_sdp ord d])"
| "server_fields ord CallRejected = (''CALLREJECTED'', [])"
| "server_fields ord (UserStatusUpdate u st) = (''USERSTATE'', [u, show_user_status st])"
| "server_fields ord (MessageError msg) = (''ERROR'', [msg])"

lemma server_message_decode:
  assumes "server_message_ok ord m" and "enumerates ord"
  shows "server_message_from_bytes (server_message_to_bytes ord m) = Some (server_received m)"
proof -
  have bytes: "server_message_to_bytes ord m = fields_bytes (server_fields ord m)"
    by (cases m) (simp_all add: server_message_to_bytes_def fields_bytes_def)
  have "fields_ok (server_fields ord m)"
    using assms sdp_last_field[OF _ assms(2)] show_status_last_field
    by (cases m) (auto simp: literal_simps sdp_field_def)
  then have "message_parts (server_message_to_bytes ord m) =
      Some (fst (server_fields ord m) # snd (server_fields ord m))"
    by (simp add: bytes message_parts_fields)
  then show ?thesis
    using assms
    by (cases m) (simp_all add: server_message_from_bytes_def parse_sdp_show status_roundtrip)
qed

lemma client_response_decode:
  assumes "last_field u"
  shows "client_response_from_bytes (client_response_to_bytes (Username u)) = Some (Username u)"
proof -
  have "client_response_to_bytes (Username u) = fields_bytes (''USERNAME'', [u])"
    by (simp add: fields_bytes_def)
  moreover have "fields_ok (''USERNAME'', [u])" using assms by (simp add: literal_simps)
  ultimately show ?thesis
    by (simp add: client_response_from_bytes_def message_parts_fields
        del: client_response_to_bytes.simps)
qed

subsection \<open>Server responses\<close>

lemma show_nat_no_zero: "0 < n \<Longrightarrow> hd (show_nat n) \<noteq> CHR ''0''"
proof (induction n rule: show_nat.induct)
  case (1 n)
  show ?case
  proof (cases "n < 10")
    case True
    have "digit_char n \<noteq> CHR ''0''"
      using True 1(2) digit_char_ord[of n] by (intro notI) simp
    then show ?thesis using True by (simp add: show_nat.simps[of n])
  next
    case False
    then show ?thesis using 1 by (simp add: show_nat.simps[of n])
  qed
qed

lemma show_nat_length: "n < 1000 \<Longrightarrow> length (show_nat n) \<le> 3" "n < 10 \<Longrightarrow> length (show_nat n) = 1"
  by (simp_all add: show_nat.simps[of n] show_nat.simps[of "n div 10"] show_nat.simps[of "n div 10 div 10"])

lemma parse_octet_show: "parse_octet (show_nat (unat a)) = Some a"
proof -
  have b: "unat a < 256" using unsigned_less[of a] by simp
  then have "\<not> (hd (show_nat (unat a)) = CHR ''0'' \<and> 1 < length (show_nat (unat a)))"
    using show_nat_no_zero[of "unat a"] show_nat_length(2)[of "unat a"] by (cases "unat a = 0") auto
  then show ?thesis
    using b show_nat_length(1)[of "unat a"] by (simp add: parse_octet_def digits_val_show_nat)
qed

lemma parse_port_show: "parse_port (show_nat (unat p)) = Some p"
proof -
  have "unat p < 65536" using unsigned_less[of p] by simp
  then show ?thesis by (simp add: parse_port_def digits_val_show_nat)
qed

lemma show_nat_no_dot [simp]: "CHR ''.'' \<notin> set (show_nat n)" "CHR ''|'' \<notin> set (show_nat n)"
  using show_nat_digits[of _ n] by force+

text \<open>
  What the standard library documents of the text form of an IPv6 socket address: printing
  and parsing are inverse, and the text is a word that starts with a bracket.
\<close>

definition v6_ok :: "'v6 v6_text \<Rightarrow> bool" where
  "v6_ok v6 =
     (\<forall>x. snd v6 (fst v6 x) = Some x \<and> token (fst v6 x) \<and> hd (fst v6 x) = CHR ''['' \<and>
       CHR ''|'' \<notin> set (fst v6 x))"

lemma parse_v4_show:
  "parse_v4 (show_socket_addr v6 (V4 a b c d p)) = Some (V4 a b c d p)"
  using split_once_append[of "CHR '':''" "show_nat (unat d)"]
  by (simp add: parse_v4_def parse_octet_show parse_port_show)

lemma parse_octet_bracket: "s \<noteq> [] \<Longrightarrow> hd s = CHR ''['' \<Longrightarrow> parse_octet s = None"
  by (cases s) (simp_all add: parse_octet_def to_digit_def Let_def)

lemma hd_split_on: "s \<noteq> [] \<Longrightarrow> hd s \<noteq> d \<Longrightarrow> hd (split_on d s) \<noteq> [] \<and> hd (hd (split_on d s)) = hd s"
  by (cases s) (auto split: list.splits)

lemma parse_v4_bracket:
  assumes "s \<noteq> []" and "hd s = CHR ''[''"
  shows "parse_v4 s = None"
proof -
  have "parse_octet (hd (split_on (CHR ''.'') s)) = None"
    using hd_split_on[of s "CHR ''.''"] assms by (intro parse_octet_bracket) auto
  then show ?thesis by (auto simp: parse_v4_def split: list.splits option.splits prod.splits)
qed

lemma socket_addr_roundtrip:
  "v6_ok v6 \<Longrightarrow> socket_addr_from_str v6 (show_socket_addr v6 addr) = Some addr"
  by (cases addr)
    (auto simp: socket_addr_from_str_def parse_v4_show v6_ok_def token_parts parse_v4_bracket
      simp del: show_socket_addr.simps(1))

lemma socket_addr_field:
  assumes "v6_ok v6"
  shows "field (show_socket_addr v6 addr)"
proof (cases addr)
  case (V4 a b c d p)
  have "visible (CHR ''.'')" by code_simp
  then have "list_all visible (show_socket_addr v6 addr)"
    using token_parts(2)[OF token_show_nat] by (simp add: V4)
  then show ?thesis by (simp add: field_def utf8_valid_visible) (simp add: V4)
next
  case (V6 x)
  then show ?thesis using assms by (simp add: v6_ok_def field_def utf8_valid_visible token_parts)
qed

definition entry_ok :: "string \<times> user_status \<Rightarrow> bool" where
  "entry_ok e =
     (field (fst e) \<and> CHR '','' \<notin> set (fst e) \<and> CHR '';'' \<notin> set (fst e) \<and> status_ok (snd e) \<and>
      CHR '','' \<notin> set (show_user_status (snd e)) \<and> CHR '';'' \<notin> set (show_user_status (snd e)))"

definition users_ok :: "(string \<times> user_status) list \<Rightarrow> bool" where
  "users_ok us = (list_all entry_ok us \<and> distinct (map fst us))"

abbreviation show_entry :: "string \<times> user_status \<Rightarrow> string" where
  "show_entry e \<equiv> fst e @ '','' @ show_user_status (snd e)"

lemma show_users_status_join: "show_users_status us = join '';'' (map show_entry us)"
  by (simp add: show_users_status_def case_prod_beta')

lemma update_new: "k \<notin> set (map fst al) \<Longrightarrow> AList.update k v al = al @ [(k, v)]"
  by (induction al) auto

lemma parse_entries_show:
  "list_all entry_ok us \<Longrightarrow> distinct (map fst (acc @ us)) \<Longrightarrow>
   parse_entries (map show_entry us) acc = Some (acc @ us)"
proof (induction us arbitrary: acc)
  case (Cons e us)
  have e: "entry_ok e" using Cons.prems by simp
  then have "split_on (CHR '','') (show_entry e) = [fst e, show_user_status (snd e)]"
    by (simp add: entry_ok_def)
  moreover have "user_status_from_bytes (as_bytes (show_user_status (snd e))) = Some (snd e)"
    using e by (simp add: entry_ok_def status_roundtrip)
  moreover have "AList.update (fst e) (snd e) acc = acc @ [e]"
    using Cons.prems by (subst update_new) auto
  ultimately show ?case using Cons by (simp del: as_bytes_append)
qed simp

lemma parse_users_status_show:
  assumes "users_ok us"
  shows "parse_users_status (show_users_status us) = Some us"
proof (cases "us = []")
  case True
  then show ?thesis by (simp add: parse_users_status_def show_users_status_def)
next
  case False
  have "split_on (CHR '';'') (join '';'' (map show_entry us)) = map show_entry us"
    using assms False by (intro split_on_join) (auto simp: users_ok_def entry_ok_def list_all_iff)
  moreover have "join '';'' (map show_entry us) \<noteq> []" using False by (cases us; cases "tl us") auto
  ultimately show ?thesis
    using assms parse_entries_show[of us "[]"]
    by (simp add: parse_users_status_def show_users_status_join users_ok_def)
qed

lemma show_users_last_field:
  assumes "users_ok us"
  shows "last_field (show_users_status us)"
proof -
  have st: "last_field (show_user_status (snd e))" if "e \<in> set us" for e
    using assms that by (auto simp: users_ok_def entry_ok_def list_all_iff show_status_last_field)
  have entry: "field (show_entry e)" if "e \<in> set us" for e
  proof -
    have "utf8_valid (fst e @ '','' @ show_user_status (snd e))"
      using assms that st[OF that]
      by (intro utf8_valid_append) (auto simp: users_ok_def entry_ok_def list_all_iff last_field_def field_def)
    then show ?thesis
      using assms that st[OF that]
      by (auto simp: users_ok_def entry_ok_def list_all_iff last_field_def field_def)
  qed
  have "utf8_valid (join '';'' (map show_entry us))"
    by (rule utf8_valid_join) (use entry in \<open>auto simp: field_def\<close>)
  moreover have "CHR ''|'' \<notin> set (join '';'' (map show_entry us))"
    using entry by (induction us rule: induct_list012) (auto simp: field_def)
  moreover have "trim_end (join '';'' (map show_entry us)) = join '';'' (map show_entry us)"
    using st
  proof (induction us rule: induct_list012)
    case (2 e)
    then show ?case using trim_end_append_visible[of "CHR '',''" "fst e" "show_user_status (snd e)"]
      by (simp add: last_field_def)
  next
    case (3 e e' us)
    then show ?case
      using trim_end_append_visible[of "CHR '';''" "show_entry e" "join '';'' (map show_entry (e' # us))"]
      by simp
  qed simp
  ultimately show ?thesis by (simp add: show_users_status_join last_field_def field_def)
qed

fun server_response_ok :: "'v6 server_response \<Rightarrow> bool" where
  "server_response_ok (LoginOk token_str addr us) = (field token_str \<and> users_ok us)"
| "server_response_ok (LoginError msg) = last_field msg"
| "server_response_ok (SignupError msg) = last_field msg"
| "server_response_ok (LogoutError msg) = last_field msg"
| "server_response_ok (CallHangUpError msg) = last_field msg"
| "server_response_ok (CallRequestError msg) = last_field msg"
| "server_response_ok (CallAcceptError msg) = last_field msg"
| "server_response_ok (CallRejectError msg) = last_field msg"
| "server_response_ok (Error msg) = last_field msg"
| "server_response_ok _ = True"

fun response_fields :: "'v6 v6_text \<Rightarrow> 'v6 server_response \<Rightarrow> string \<times> string list" where
  "response_fields v6 Welcome = (''WELCOME'', [])"
| "response_fields v6 ServerFull = (''SERVERFULL'', [])"
| "response_fields v6 (LoginOk token_str addr us) =
     (''LOGINOK'', [token_str, show_socket_addr v6 addr, show_users_status us])"
| "response_fields v6 (LoginError msg) = (''LOGINERROR'', [msg])"
| "response_fields v6 SignupOk = (''SIGNUPOK'', [])"
| "response_fields v6 (SignupError msg) = (''SIGNUPERROR'', [msg])"
| "response_fields v6 LogoutOk = (''LOGOUTOK'', [])"
| "response_fields v6 (LogoutError msg) = (''LOGOUTERROR'', [msg])"
| "response_fields v6 CallHangUpOk = (''CALLHANGUPOK'', [])"
| "response_fields v6 (CallHangUpError msg) = (''CALLHANGUPERROR'', [msg])"
| "response_fields v6 CallRequestOk = (''CALLREQUESTOK'', [])"
| "response_fields v6 (CallRequestError msg) = (''CALLREQUESTERROR'', [msg])"
| "response_fields v6 CallAcceptOk = (''CALLACCEPTOK'', [])"
| "response_fields v6 (CallAcceptError msg) = (''CALLACCEPTERROR'', [msg])"
| "response_fields v6 CallRejectOk = (''CALLREJECTOK'', [])"
| "response_fields v6 (CallRejectError msg) = (''CALLREJECTERROR'', [msg])"
| "response_fields v6 BadMessage = (''BADMSG'', [])"
| "response_fields v6 (Error msg) = (''ERROR'', [msg])"

lemma server_response_decode:
  assumes "server_response_ok r" and "v6_ok v6"
  shows "server_response_from_bytes v6 (server_response_to_bytes v6 r) = Some r"
proof -
  have bytes: "server_response_to_bytes v6 r = fields_bytes (response_fields v6 r)"
    by (cases r) (simp_all add: server_response_to_bytes_def fields_bytes_def)
  have "fields_ok (response_fields v6 r)"
    using assms socket_addr_field[OF assms(2)] show_users_last_field
    by (cases r) (simp_all add: literal_simps)
  then have "message_parts (server_response_to_bytes v6 r) =
      Some (fst (response_fields v6 r) # snd (response_fields v6 r))"
    by (simp add: bytes message_parts_fields)
  then show ?thesis
    using assms
    by (cases r) (simp_all add: server_response_from_bytes_def parse_users_status_show socket_addr_roundtrip)
qed

subsection \<open>The codecs\<close>

interpretation client_msg: codec "client_message_to_bytes ord" client_message_from_bytes
  "\<lambda>m. enumerates ord \<and> client_message_ok ord m \<and> client_received m = m" for ord
  by unfold_locales (auto simp: client_message_decode)

interpretation server_msg: codec "server_message_to_bytes ord" server_message_from_bytes
  "\<lambda>m. enumerates ord \<and> server_message_ok ord m \<and> server_received m = m" for ord
  by unfold_locales (auto simp: server_message_decode)

interpretation client_resp: codec client_response_to_bytes client_response_from_bytes
  "\<lambda>r. case r of Username u \<Rightarrow> last_field u"
  by unfold_locales (auto simp: client_response_decode simp del: client_response_to_bytes.simps
      split: client_response.splits)

interpretation server_resp: codec "server_response_to_bytes v6" "server_response_from_bytes v6"
  "\<lambda>r. v6_ok v6 \<and> server_response_ok r" for v6
  by unfold_locales (auto simp: server_response_decode)


text \<open>
  The same for the messages the server pushes to its clients: calls, answers, rejections and
  state changes of users.
\<close>

theorem server_message_roundtrip:
  assumes "server_message_ok ord m" and "enumerates ord"
  shows "server_message_from_bytes (server_message_to_bytes ord m) = Some (server_received m)"
  using server_message_decode[OF assms] .

text \<open>
  The same for the server's responses, the login response with the address of the event
  channel and the state of every user included: the client decodes it to the same table,
  whatever the order in which the entries were printed. Different responses have different
  encodings.
\<close>

theorem server_response_roundtrip:
  assumes "server_response_ok r" and "server_response_ok r'" and "v6_ok v6"
  shows "server_response_from_bytes v6 (server_response_to_bytes v6 r) = Some r \<and>
    (server_response_to_bytes v6 r = server_response_to_bytes v6 r') = (r = r')"
  using assms server_resp.dec_enc server_resp.enc_inj by blast

lemma field_ascii: "(\<forall>c \<in> set s. ord_of c < 128 \<and> c \<noteq> CHR ''|'') \<Longrightarrow> field s"
  by (auto simp: field_def intro: utf8_valid_ascii)

lemma last_field_token: "token s \<Longrightarrow> CHR ''|'' \<notin> set s \<Longrightarrow> last_field s"
  using trim_end_token[of s "[]"]
  by (auto simp: last_field_def field_def token_def intro: utf8_valid_visible)

definition sample_v6 :: "unit v6_text" where
  "sample_v6 = (\<lambda>_. ''[::1]:8081'', \<lambda>s. if s = ''[::1]:8081'' then Some () else None)"

lemma sample_v6_ok: "v6_ok sample_v6"
proof -
  have "token ''[::1]:8081''" by code_simp
  then show ?thesis by (simp add: v6_ok_def sample_v6_def)
qed

theorem server_response_roundtrip_witness:
  "server_response_from_bytes sample_v6 (server_response_to_bytes sample_v6
      (LoginOk ''alice'' (V4 127 0 0 1 8081) [(''bob'', Occupied ''carol''), (''dave'', Offline)])) =
    Some (LoginOk ''alice'' (V4 127 0 0 1 8081) [(''bob'', Occupied ''carol''), (''dave'', Offline)])"
proof -
  have "token ''alice''" "token ''bob''" "token ''carol''" "token ''dave''" by code_simp+
  then have "server_response_ok
      (LoginOk ''alice'' (V4 127 0 0 1 8081 :: unit socket_addr) [(''bob'', Occupied ''carol''), (''dave'', Offline)])"
    by (simp add: users_ok_def entry_ok_def status_ok_def last_field_token last_field_field
        del: token_Cons)
  from server_response_roundtrip[OF this this sample_v6_ok] show ?thesis by blast
qed

lemma sample_sdp_field: "sdp_field sample_order (sample_sdp ''H264'')"
proof -
  have hex: "hex_byte 171 = ''AB''" "hex_byte 5 = ''05''" by code_simp+
  have digits: "ord_of c < 128" if "c \<in> set (show_nat n)" for c n
    using show_nat_digits[OF that] by simp
  have "set (show_sdp sample_order (sample_sdp ''H264'')) \<subseteq>
      {c. ord_of c < 128 \<and> c \<noteq> CHR ''|''}"
    by (auto simp: hex dest: digits simp: show_sdp_def sample_sdp_def sdp_new_def sdp_config_default_def show_media_def
        media_line_def sample_media_def show_attribute_def hex_value_def sample_order_def)
  then have "field (show_sdp sample_order (sample_sdp ''H264''))" by (intro field_ascii) blast
  then show ?thesis using sample_sdp_wf by (simp add: sdp_field_def sample_sdp_def sdp_new_def)
qed


theorem server_message_roundtrip_witness:
  "server_message_from_bytes (server_message_to_bytes sample_order
      (UserStatusUpdate ''alice'' (Occupied ''bob''))) =
    Some (UserStatusUpdate ''alice'' (Occupied ''bob''))"
proof -
  have "token ''alice''" "token ''bob''" by code_simp+
  then have "server_message_ok sample_order (UserStatusUpdate ''alice'' (Occupied ''bob''))"
    by (simp add: status_ok_def last_field_token last_field_field del: token_Cons)
  from server_message_roundtrip[OF this sample_order_enumerates] show ?thesis by simp
qed

end
