(* ===== verification/Call_Session.thy ===== *)
theory Call_Session
  imports Sdp
begin

text \<open>
  The call session, \<^verbatim>\<open>src/session/call_session.rs\<close>: the local description built from the configuration,
  the local candidates and the certificate's fingerprint; the offer/answer exchange with the
  negotiation of the DTLS setup role; the remote candidates handed to the ICE agent. The result
  \<open>None\<close> is the panic of the pair priority (debug overflow check); an error leaves the session
  in the state reached so far. The texts the errors carry are the modelled causes.
\<close>

datatype session_cause = FromSdp sdp_error | FromIce ice_error | FromIo | FromCert

datatype call_session_error =
    SdpCreationError session_cause
  | IceConnectionError session_cause
  | BadAddress
  | SecurityInitializationError session_cause
  | MapError session_cause

text \<open>The fields of the media configuration a session reads.\<close>

record media_config =
  video_payload_type :: u8
  video_codec_name :: string
  clock_rate :: u32
  video_media_type :: string
  audio_media_type :: string
  media_protocol :: string
  audio_channels :: u8
  audio_sample_rate :: u32
  audio_payload_type :: u8
  audio_codec_name :: string

record call_session =
  cs_sdp :: session_description
  cs_ice :: ice_agent
  local_fingerprint :: string
  remote_fingerprint :: "fingerprint option"
  remote_setup_role :: "dtls_setup_role option"
  local_setup_role :: dtls_setup_role

datatype remote_sdp_type = Offer | Answer

definition generate_video_md :: "media_config \<Rightarrow> u16 \<Rightarrow> call_session_error + media_description" where
  "generate_video_md cfg local_port =
     (case add_attribute
             (media_new (video_media_type cfg) local_port (media_protocol cfg)
                {video_payload_type cfg})
             (RTPMap (video_payload_type cfg) (video_codec_name cfg) (clock_rate cfg) None) of
        Inl e \<Rightarrow> Inl (SdpCreationError (FromSdp e))
      | Inr md \<Rightarrow> Inr md)"

definition generate_audio_md :: "media_config \<Rightarrow> u16 \<Rightarrow> call_session_error + media_description" where
  "generate_audio_md cfg local_port =
     (case add_attribute
             (media_new (audio_media_type cfg) local_port (media_protocol cfg)
                {audio_payload_type cfg})
             (RTPMap (audio_payload_type cfg) (audio_codec_name cfg) (audio_sample_rate cfg)
                (Some (show_nat (unat (audio_channels cfg))))) of
        Inl e \<Rightarrow> Inl (SdpCreationError (FromSdp e))
      | Inr md \<Rightarrow> Inr md)"

definition apply_common_attributes ::
  "media_description \<Rightarrow> fingerprint \<Rightarrow> dtls_setup_role \<Rightarrow> candidate list \<Rightarrow>
     call_session_error + media_description" where
  "apply_common_attributes md fp role candidates =
     (case add_attributes md (FingerprintAttr fp # Setup role # map CandidateAttr candidates) of
        Inl e \<Rightarrow> Inl (SdpCreationError (FromSdp e))
      | Inr md' \<Rightarrow> Inr md')"

text \<open>
  \<open>CallSession::new\<close>. The environment: the network interfaces, the local port of the socket,
  the address the STUN server reported, and the fingerprint of the generated certificate
  (\<open>None\<close> when generating it fails).
\<close>

definition call_session_new ::
  "media_config \<Rightarrow> ice_config \<Rightarrow> sdp_config \<Rightarrow> interface list option \<Rightarrow> u16 option \<Rightarrow>
     (string + string) \<Rightarrow> string option \<Rightarrow> (call_session_error + call_session) option" where
  "call_session_new mcfg icfg scfg ifs local_addr_port stun cert =
     (case gather_candidates ice_agent_new ifs local_addr_port stun icfg of
        None \<Rightarrow> None
      | Some ag \<Rightarrow> Some (
     case local_addr_port of
       None \<Rightarrow> Inl (IceConnectionError FromIo)
     | Some local_port \<Rightarrow>
     (case generate_video_md mcfg local_port of
        Inl (SdpCreationError c) \<Rightarrow> Inl (MapError c) | Inl e \<Rightarrow> Inl e
      | Inr video_md \<Rightarrow>
     (case generate_audio_md mcfg local_port of
        Inl (SdpCreationError c) \<Rightarrow> Inl (MapError c) | Inl e \<Rightarrow> Inl e
      | Inr audio_md \<Rightarrow>
     (case cert of
        None \<Rightarrow> Inl (SecurityInitializationError FromCert)
      | Some cert_fp \<Rightarrow>
     (case from_hash_string ''sha-256'' cert_fp of
        Inl e \<Rightarrow> Inl (MapError (FromSdp e))
      | Inr fp \<Rightarrow>
     (case apply_common_attributes video_md fp ActPass (local_candidates ag) of
        Inl e \<Rightarrow> Inl e
      | Inr video_md' \<Rightarrow>
     (case apply_common_attributes audio_md fp ActPass (local_candidates ag) of
        Inl e \<Rightarrow> Inl e
      | Inr audio_md' \<Rightarrow>
          let sdp = sdp_new [video_md', audio_md'] scfg;
              sdp' = (case local_candidates ag of
                        [] \<Rightarrow> sdp
                      | c # _ \<Rightarrow> set_connection_data sdp ''IN'' ''IP4'' (address c))
          in Inr \<lparr>cs_sdp = sdp', cs_ice = ag, local_fingerprint = cert_fp,
                  remote_fingerprint = None, remote_setup_role = None,
                  local_setup_role = ActPass\<rparr>))))))))"

fun determine_complementary_role :: "dtls_setup_role \<Rightarrow> remote_sdp_type \<Rightarrow> dtls_setup_role" where
  "determine_complementary_role Active _ = Passive"
| "determine_complementary_role Passive _ = Active"
| "determine_complementary_role HoldConn _ = Passive"
| "determine_complementary_role ActPass ty = (if ty = Offer then Active else Passive)"

definition determine_local_role ::
  "call_session \<Rightarrow> session_description \<Rightarrow> remote_sdp_type \<Rightarrow> dtls_setup_role" where
  "determine_local_role s remote_sdp ty =
     (case (case media_descriptions remote_sdp of [] \<Rightarrow> None | md # _ \<Rightarrow> get_setup_role md) of
        Some role \<Rightarrow> determine_complementary_role role ty
      | None \<Rightarrow> if ty = Offer then Active else local_setup_role s)"

text \<open>
  The loop of \<open>set_local_setup_role\<close>: in each media description the setup attributes are
  dropped and the new one is appended.
\<close>

fun is_setup :: "attribute \<Rightarrow> bool" where
  "is_setup (Setup _) = True"
| "is_setup _ = False"

fun update_setup_attrs ::
  "dtls_setup_role \<Rightarrow> media_description list \<Rightarrow> sdp_error + media_description list" where
  "update_setup_attrs role [] = Inr []"
| "update_setup_attrs role (md # mds) =
     (case add_attribute (md\<lparr>attributes := filter (\<lambda>a. \<not> is_setup a) (attributes md)\<rparr>) (Setup role) of
        Inl e \<Rightarrow> Inl e
      | Inr md' \<Rightarrow>
          (case update_setup_attrs role mds of Inl e \<Rightarrow> Inl e | Inr mds' \<Rightarrow> Inr (md' # mds')))"

definition set_local_setup_role ::
  "call_session \<Rightarrow> dtls_setup_role \<Rightarrow> call_session_error + call_session" where
  "set_local_setup_role s role =
     (if local_setup_role s = role then Inr s
      else case update_setup_attrs role (media_descriptions (cs_sdp s)) of
             Inl e \<Rightarrow> Inl (SdpCreationError (FromSdp e))
           | Inr mds \<Rightarrow>
               Inr (s\<lparr>cs_sdp := (cs_sdp s)\<lparr>media_descriptions := mds\<rparr>, local_setup_role := role\<rparr>))"

fun add_candidates ::
  "ice_agent \<Rightarrow> candidate list \<Rightarrow> (ice_agent \<times> (ice_error + unit)) option" where
  "add_candidates ag [] = Some (ag, Inr ())"
| "add_candidates ag (c # cs) =
     (case add_remote_candidate ag c of
        None \<Rightarrow> None
      | Some (ag', Inl e) \<Rightarrow> Some (ag', Inl e)
      | Some (ag', Inr _) \<Rightarrow> add_candidates ag' cs)"

fun process_remote_media ::
  "call_session \<Rightarrow> media_description list \<Rightarrow> remote_sdp_type \<Rightarrow>
     (call_session \<times> (call_session_error + unit)) option" where
  "process_remote_media s [] ty = Some (s, Inr ())"
| "process_remote_media s (md # mds) ty =
     (case add_candidates (cs_ice s) (get_candidates md) of
        None \<Rightarrow> None
      | Some (ag, Inl e) \<Rightarrow> Some (s\<lparr>cs_ice := ag\<rparr>, Inl (IceConnectionError (FromIce e)))
      | Some (ag, Inr _) \<Rightarrow>
          (let s1 = s\<lparr>cs_ice := ag\<rparr>;
               s2 = (case get_fingerprint md of
                       Some fp \<Rightarrow> s1\<lparr>remote_fingerprint := Some fp\<rparr>
                     | None \<Rightarrow> s1)
           in case get_setup_role md of
                None \<Rightarrow> process_remote_media s2 mds ty
              | Some role \<Rightarrow>
                  (let s3 = s2\<lparr>remote_setup_role := Some role\<rparr>
                   in case set_local_setup_role s3 (determine_complementary_role role ty) of
                        Inl e \<Rightarrow> Some (s3, Inl e)
                      | Inr s4 \<Rightarrow> process_remote_media s4 mds ty)))"

definition process_remote_sdp ::
  "call_session \<Rightarrow> session_description \<Rightarrow> remote_sdp_type \<Rightarrow>
     (call_session \<times> (call_session_error + unit)) option" where
  "process_remote_sdp s d ty = process_remote_media s (media_descriptions d) ty"

definition process_offer ::
  "call_session \<Rightarrow> session_description \<Rightarrow>
     (call_session \<times> (call_session_error + session_description)) option" where
  "process_offer s offer_sdp =
     (case set_local_setup_role s (determine_local_role s offer_sdp Offer) of
        Inl e \<Rightarrow> Some (s, Inl e)
      | Inr s1 \<Rightarrow>
          (case create_answer (cs_sdp s1) offer_sdp of
             Inl e \<Rightarrow> Some (s1, Inl (SdpCreationError (FromSdp e)))
           | Inr answer_sdp \<Rightarrow>
               (case process_remote_sdp s1 offer_sdp Offer of
                  None \<Rightarrow> None
                | Some (s2, Inl e) \<Rightarrow> Some (s2, Inl e)
                | Some (s2, Inr _) \<Rightarrow> Some (s2, Inr answer_sdp))))"

definition process_answer ::
  "call_session \<Rightarrow> session_description \<Rightarrow> (call_session \<times> (call_session_error + unit)) option" where
  "process_answer s answer_sdp = process_remote_sdp s answer_sdp Answer"

definition get_offer :: "call_session \<Rightarrow> session_description" where
  "get_offer s = cs_sdp s"

definition start_ice_checks ::
  "call_session \<Rightarrow> bool \<Rightarrow> (nat \<Rightarrow> ping_event list) \<Rightarrow> call_session \<times> (call_session_error + unit)" where
  "start_ice_checks s timeout_ok env =
     (case start_connectivity_checks (cs_ice s) timeout_ok env of
        (ag, Inl e) \<Rightarrow> (s\<lparr>cs_ice := ag\<rparr>, Inl (IceConnectionError (FromIce e)))
      | (ag, Inr _) \<Rightarrow> (s\<lparr>cs_ice := ag\<rparr>, Inr ()))"

section \<open>Remote candidates\<close>

definition pair_fits :: "candidate \<Rightarrow> candidate \<Rightarrow> bool" where
  "pair_fits l r = (\<not> (priority l = - 1 \<and> priority r = - 1))"

definition pairs_fit :: "candidate list \<Rightarrow> candidate list \<Rightarrow> bool" where
  "pairs_fit ls rs = list_all (\<lambda>l. list_all (pair_fits l) rs) ls"

lemma unat_max_u32_iff: "unat p = 2 ^ 32 - 1 \<longleftrightarrow> p = - 1" for p :: u32
proof -
  have "unat (- 1 :: u32) = 2 ^ 32 - 1" by (simp add: unsigned_minus_1_eq_mask mask_eq_exp_minus_1)
  then show ?thesis by (metis word_unat_eq_iff)
qed

lemma pair_new_defined: "pair_fits l r \<Longrightarrow> \<exists>p. pair_new l r = Some p"
proof -
  assume "pair_fits l r"
  then have "pair_value (unat (priority l)) (unat (priority r)) < 2 ^ 64"
    using pair_value_bound[of "unat (priority l)" "unat (priority r)"] unsigned_less[of "priority l"]
      unsigned_less[of "priority r"] by (simp add: pair_fits_def unat_max_u32_iff[simplified])
  then show ?thesis by (simp add: pair_new_def calculate_pair_priority_value Let_def)
qed

lemma pairs_with_defined:
  "list_all (pair_fits l) rs \<Longrightarrow> \<exists>ps. pairs_with l rs = Some ps"
  by (induction rs) (auto dest!: pair_new_defined)

lemma all_pairs_defined: "pairs_fit ls rs \<Longrightarrow> \<exists>ps. all_pairs ls rs = Some ps"
  by (induction ls) (auto simp: pairs_fit_def dest!: pairs_with_defined)

lemma all_pairs_length: "all_pairs ls rs = Some ps \<Longrightarrow> length ps = length ls * length rs"
  using all_pairs_wf[of ls rs ps] by (metis length_map length_product)

lemma pairs_fit_append [simp]: "pairs_fit ls (rs @ rs') \<longleftrightarrow> pairs_fit ls rs \<and> pairs_fit ls rs'"
  by (auto simp: pairs_fit_def list_all_iff)

text \<open>
  Candidates are added one at a time, and each addition pairs all local with all remote
  candidates again.
\<close>

lemma add_candidates_ok:
  assumes "local_candidates ag \<noteq> []" and "pairs_fit (local_candidates ag) (remote_candidates ag @ cs)"
  shows "\<exists>ps. add_candidates ag cs =
      Some (ag\<lparr>remote_candidates := remote_candidates ag @ cs,
               candidate_pairs := candidate_pairs ag @ ps\<rparr>, Inr ()) \<and>
    length ps = (\<Sum>k<length cs. length (local_candidates ag) * (length (remote_candidates ag) + k + 1))"
  using assms
proof (induction cs arbitrary: ag)
  case (Cons c cs)
  obtain ps where ps: "all_pairs (local_candidates ag) (remote_candidates ag @ [c]) = Some ps"
    using all_pairs_defined[of "local_candidates ag" "remote_candidates ag @ [c]"] Cons.prems
    by (auto simp: pairs_fit_def list_all_iff)
  then have len: "length ps = length (local_candidates ag) * (length (remote_candidates ag) + 1)"
    by (auto dest: all_pairs_length)
  let ?ag = "ag\<lparr>remote_candidates := remote_candidates ag @ [c],
                 candidate_pairs := candidate_pairs ag @ ps\<rparr>"
  have add: "add_remote_candidate ag c = Some (?ag, Inr ())"
    using Cons.prems ps len by (auto simp: add_remote_candidate_def create_candidate_pair_def Let_def)
  obtain qs where qs: "add_candidates ?ag cs =
      Some (?ag\<lparr>remote_candidates := remote_candidates ?ag @ cs,
                candidate_pairs := candidate_pairs ?ag @ qs\<rparr>, Inr ())"
    "length qs = (\<Sum>k<length cs. length (local_candidates ag) * (length (remote_candidates ag) + 1 + k + 1))"
    using Cons.IH[of ?ag] Cons.prems by (auto simp: pairs_fit_def list_all_iff)
  show ?case
    using add qs len
    by (intro exI[of _ "ps @ qs"])
      (simp add: sum.lessThan_Suc_shift algebra_simps del: sum.lessThan_Suc)
qed simp

section \<open>Roles and fingerprints\<close>

abbreviation set_setup :: "dtls_setup_role \<Rightarrow> media_description \<Rightarrow> media_description" where
  "set_setup role md \<equiv>
     md\<lparr>attributes := filter (\<lambda>a. \<not> is_setup a) (attributes md) @ [Setup role]\<rparr>"

lemma update_setup_attrs_eq: "update_setup_attrs role mds = Inr (map (set_setup role) mds)"
  by (induction mds) (simp_all add: add_attribute_def)

lemma first_setup_role_append [simp]:
  "first_setup_role (as @ bs) =
     (case first_setup_role as of Some r \<Rightarrow> Some r | None \<Rightarrow> first_setup_role bs)"
  by (induction as rule: first_setup_role.induct) simp_all

lemma first_setup_role_filter [simp]: "first_setup_role (filter (\<lambda>a. \<not> is_setup a) as) = None"
proof (induction as)
  case (Cons a as)
  then show ?case by (cases a) simp_all
qed simp

lemma first_fingerprint_append [simp]:
  "first_fingerprint (as @ bs) =
     (case first_fingerprint as of Some r \<Rightarrow> Some r | None \<Rightarrow> first_fingerprint bs)"
  by (induction as rule: first_fingerprint.induct) simp_all

lemma first_fingerprint_filter [simp]:
  "first_fingerprint (filter (\<lambda>a. \<not> is_setup a) as) = first_fingerprint as"
  by (induction as rule: first_fingerprint.induct) simp_all

lemma candidates_append [simp]:
  "get_candidates_of (as @ bs) = get_candidates_of as @ get_candidates_of bs"
  by (induction as rule: get_candidates_of.induct) simp_all

lemma candidates_filter [simp]:
  "get_candidates_of (filter (\<lambda>a. \<not> is_setup a) as) = get_candidates_of as"
  by (induction as rule: get_candidates_of.induct) simp_all

lemma candidates_map [simp]: "get_candidates_of (map CandidateAttr cs) = cs"
  by (induction cs) simp_all

text \<open>What a description advertises: role, fingerprint and candidates in every media description.\<close>

definition advertises ::
  "dtls_setup_role \<Rightarrow> fingerprint \<Rightarrow> candidate list \<Rightarrow> media_description \<Rightarrow> bool" where
  "advertises role fp cs md =
     (get_setup_role md = Some role \<and> get_fingerprint md = Some fp \<and> get_candidates md = cs)"

lemma set_setup_advertises:
  "advertises r fp cs md \<Longrightarrow> advertises role fp cs (set_setup role md)"
  by (simp add: advertises_def get_setup_role_def get_fingerprint_def get_candidates_def)

definition session_advertises :: "fingerprint \<Rightarrow> call_session \<Rightarrow> bool" where
  "session_advertises fp s =
     list_all (advertises (local_setup_role s) fp (local_candidates (cs_ice s)))
       (media_descriptions (cs_sdp s))"

lemma set_local_setup_role_ok:
  assumes "session_advertises fp s"
  shows "\<exists>s'. set_local_setup_role s role = Inr s' \<and> session_advertises fp s' \<and>
    local_setup_role s' = role \<and> cs_ice s' = cs_ice s \<and>
    remote_fingerprint s' = remote_fingerprint s \<and> remote_setup_role s' = remote_setup_role s \<and>
    media_descriptions (cs_sdp s') =
      (if local_setup_role s = role then media_descriptions (cs_sdp s)
       else map (set_setup role) (media_descriptions (cs_sdp s)))"
  using assms
  by (auto simp: set_local_setup_role_def update_setup_attrs_eq session_advertises_def list_all_iff
      set_setup_advertises)

text \<open>
  Walking a remote description: every candidate reaches the agent, and the session ends with
  the remote fingerprint and the role that complements the remote one.
\<close>

lemma process_remote_media_ok:
  assumes "list_all (advertises role rfp rcs) mds" and "session_advertises fp s"
    and "local_candidates (cs_ice s) \<noteq> []"
    and "pairs_fit (local_candidates (cs_ice s)) (remote_candidates (cs_ice s) @ rcs)"
  shows "\<exists>s'. process_remote_media s mds ty = Some (s', Inr ()) \<and> session_advertises fp s' \<and>
    local_candidates (cs_ice s') = local_candidates (cs_ice s) \<and>
    remote_candidates (cs_ice s') =
      remote_candidates (cs_ice s) @ concat (replicate (length mds) rcs) \<and>
    (mds \<noteq> [] \<longrightarrow> remote_fingerprint s' = Some rfp \<and> remote_setup_role s' = Some role \<and>
       local_setup_role s' = determine_complementary_role role ty)"
  using assms
proof (induction mds arbitrary: s)
  case (Cons md mds)
  have md: "get_candidates md = rcs" "get_fingerprint md = Some rfp" "get_setup_role md = Some role"
    using Cons.prems by (simp_all add: advertises_def)
  obtain ps where ag: "add_candidates (cs_ice s) rcs =
      Some ((cs_ice s)\<lparr>remote_candidates := remote_candidates (cs_ice s) @ rcs,
               candidate_pairs := candidate_pairs (cs_ice s) @ ps\<rparr>, Inr ())"
    using add_candidates_ok[of "cs_ice s" rcs] Cons.prems by blast
  let ?s3 = "s\<lparr>cs_ice := (cs_ice s)\<lparr>remote_candidates := remote_candidates (cs_ice s) @ rcs,
               candidate_pairs := candidate_pairs (cs_ice s) @ ps\<rparr>,
      remote_fingerprint := Some rfp, remote_setup_role := Some role\<rparr>"
  have "session_advertises fp ?s3" using Cons.prems by (simp add: session_advertises_def)
  then obtain s4 where s4: "set_local_setup_role ?s3 (determine_complementary_role role ty) = Inr s4"
    "session_advertises fp s4" "local_setup_role s4 = determine_complementary_role role ty"
    "cs_ice s4 = cs_ice ?s3" "remote_fingerprint s4 = Some rfp" "remote_setup_role s4 = Some role"
    using set_local_setup_role_ok[of fp ?s3 "determine_complementary_role role ty"] by auto
  then have step: "process_remote_media s (md # mds) ty = process_remote_media s4 mds ty"
    using ag by (simp add: md)
  have "list_all (advertises role rfp rcs) mds"
    "pairs_fit (local_candidates (cs_ice s4)) (remote_candidates (cs_ice s4) @ rcs)"
    "local_candidates (cs_ice s4) \<noteq> []"
    using Cons.prems s4 by simp_all
  from Cons.IH[OF this(1) s4(2) this(3) this(2)] show ?case
    unfolding step using s4 by (cases mds) auto
qed simp

section \<open>Fresh sessions\<close>

definition local_md ::
  "string \<Rightarrow> string \<Rightarrow> attribute \<Rightarrow> u16 \<Rightarrow> fingerprint \<Rightarrow> dtls_setup_role \<Rightarrow> candidate list \<Rightarrow>
     media_description" where
  "local_md ty proto rmap prt fp role cs =
     \<lparr>media_type = ty, md_port = prt, protocol = proto, fmts = formats_of [rmap],
      attributes = rmap # FingerprintAttr fp # Setup role # map CandidateAttr cs\<rparr>"

abbreviation video_codec :: "media_config \<Rightarrow> attribute" where
  "video_codec cfg \<equiv> RTPMap (video_payload_type cfg) (video_codec_name cfg) (clock_rate cfg) None"

abbreviation audio_codec :: "media_config \<Rightarrow> attribute" where
  "audio_codec cfg \<equiv> RTPMap (audio_payload_type cfg) (audio_codec_name cfg) (audio_sample_rate cfg)
     (Some (show_nat (unat (audio_channels cfg))))"

definition local_mds ::
  "media_config \<Rightarrow> u16 \<Rightarrow> fingerprint \<Rightarrow> dtls_setup_role \<Rightarrow> candidate list \<Rightarrow> media_description list" where
  "local_mds cfg prt fp role cs =
     [local_md (video_media_type cfg) (media_protocol cfg) (video_codec cfg) prt fp role cs,
      local_md (audio_media_type cfg) (media_protocol cfg) (audio_codec cfg) prt fp role cs]"

lemma listed_candidates: "list_all (listed fs) (map CandidateAttr cs)"
  by (simp add: list_all_iff listed_def)

lemma apply_common_eq:
  "apply_common_attributes md fp role cs =
     Inr (md\<lparr>attributes := attributes md @ FingerprintAttr fp # Setup role # map CandidateAttr cs\<rparr>)"
  unfolding apply_common_attributes_def
  by (subst add_attributes_listed) (simp_all add: listed_candidates, simp_all add: listed_def)

lemma call_session_new_result:
  assumes "call_session_new mcfg icfg scfg ifs (Some prt) stun (Some cert_fp) = Some (Inr s)"
  shows "\<exists>fp cd ag. from_hash_string ''sha-256'' cert_fp = Inr fp \<and>
    gather_candidates ice_agent_new ifs (Some prt) stun icfg = Some ag \<and>
    s = \<lparr>cs_sdp = (sdp_new (local_mds mcfg prt fp ActPass (local_candidates ag)) scfg)
           \<lparr>connection_data := cd\<rparr>,
         cs_ice = ag, local_fingerprint = cert_fp, remote_fingerprint = None,
         remote_setup_role = None, local_setup_role = ActPass\<rparr> \<and>
    (case local_candidates ag of
       [] \<Rightarrow> cd = connection_data (sdp_new [] scfg)
     | c # _ \<Rightarrow> cd = ''IN IP4 '' @ address c)"
proof -
  obtain ag where ag: "gather_candidates ice_agent_new ifs (Some prt) stun icfg = Some ag"
    using assms by (auto simp: call_session_new_def split: option.splits)
  obtain fp where fp: "from_hash_string ''sha-256'' cert_fp = Inr fp"
    using assms ag
    by (auto simp: call_session_new_def generate_video_md_def generate_audio_md_def add_attribute_def
        media_new_def split: sum.splits)
  have v: "generate_video_md mcfg prt = Inr ((local_md (video_media_type mcfg) (media_protocol mcfg)
      (video_codec mcfg) prt fp ActPass (local_candidates ag))\<lparr>attributes := [video_codec mcfg]\<rparr>)"
    and a: "generate_audio_md mcfg prt = Inr ((local_md (audio_media_type mcfg) (media_protocol mcfg)
      (audio_codec mcfg) prt fp ActPass (local_candidates ag))\<lparr>attributes := [audio_codec mcfg]\<rparr>)"
    by (simp_all add: generate_video_md_def generate_audio_md_def add_attribute_def media_new_def
        local_md_def)
  show ?thesis
    using assms fp
    by (auto simp: call_session_new_def ag v a apply_common_eq local_mds_def local_md_def sdp_new_def
        set_connection_data_def Let_def split: list.splits)
qed

lemma gather_candidates_config:
  assumes "gather_candidates ice_agent_new ifs prt stun icfg = Some ag"
  shows "remote_candidates ag = [] \<and>
    list_all (\<lambda>c. foundation c = cfg_foundation icfg \<and> cand_transport c = cfg_transport icfg)
      (local_candidates ag)"
  using assms
  by (auto simp: gather_candidates_def ice_agent_new_def new_host_def candidate_new_def Let_def
      split: sum.splits option.splits if_splits)

text \<open>A configuration whose strings can stand in a session description.\<close>

definition config_wf :: "media_config \<Rightarrow> ice_config \<Rightarrow> sdp_config \<Rightarrow> bool" where
  "config_wf mcfg icfg scfg =
     (token (video_media_type mcfg) \<and> token (audio_media_type mcfg) \<and>
      video_media_type mcfg \<noteq> audio_media_type mcfg \<and> token (media_protocol mcfg) \<and>
      token (video_codec_name mcfg) \<and> CHR ''/'' \<notin> set (video_codec_name mcfg) \<and>
      token (audio_codec_name mcfg) \<and> CHR ''/'' \<notin> set (audio_codec_name mcfg) \<and>
      token (cfg_foundation icfg) \<and> token (cfg_transport icfg) \<and>
      newline \<notin> set (sc_session_name scfg) \<and> newline \<notin> set (sc_timing scfg))"

text \<open>The session gathered at least one candidate and its addresses are words.\<close>

definition gathered :: "call_session \<Rightarrow> bool" where
  "gathered s =
     (local_candidates (cs_ice s) \<noteq> [] \<and>
      list_all (\<lambda>c. token (address c)) (local_candidates (cs_ice s)))"

lemma from_hash_string_wf: "from_hash_string alg h = Inr fp \<Longrightarrow> algorithm fp = alg \<and> fp_bytes fp \<noteq> []"
  by (auto simp: from_hash_string_def Let_def split: if_splits sum.splits)

lemma local_md_wf:
  assumes "token ty" and "token proto" and "attribute_wf rmap" and "formats_of [rmap] \<noteq> {}"
    and "token (algorithm fp)" and "fp_bytes fp \<noteq> []"
    and "list_all (\<lambda>c. attribute_wf (CandidateAttr c)) cs"
  shows "media_wf (local_md ty proto rmap prt fp role cs)"
  using assms listed_formats[of "[rmap]"]
  by (simp add: media_wf_def local_md_def list_all_iff) (simp add: listed_def)

lemma local_mds_wf:
  assumes "config_wf mcfg icfg scfg" and "algorithm fp = ''sha-256''" and "fp_bytes fp \<noteq> []"
    and "list_all (\<lambda>c. attribute_wf (CandidateAttr c)) cs"
  shows "list_all media_wf (local_mds mcfg prt fp role cs)"
proof -
  have "token ''sha-256''" by code_simp
  moreover have "list_all visible (show_nat n)" for n using token_show_nat[of n] by (simp add: token_def)
  ultimately show ?thesis
    using assms by (simp add: local_mds_def local_md_wf config_wf_def)
qed

lemma local_mds_advertise: "list_all (advertises role fp cs) (local_mds mcfg prt fp role cs)"
  by (simp add: local_mds_def local_md_def advertises_def get_setup_role_def get_fingerprint_def
      get_candidates_def)

section \<open>The exchange\<close>

lemma answer_media_same:
  assumes "list_all (\<lambda>l. \<exists>off. offered offer l = Some off \<and> attributes l \<noteq> [] \<and>
    concat (map (copies off) (attributes l)) = attributes l \<and> fmts l = formats_of (attributes l)) ls"
  shows "answer_media ls offer = Inr ls"
  using assms
proof (induction ls)
  case (Cons l ls)
  then obtain off where off: "find (\<lambda>m. media_type m = media_type l \<and> protocol m = protocol l) offer = Some off"
    "attributes l \<noteq> []" "concat (map (copies off) (attributes l)) = attributes l"
    "fmts l = formats_of (attributes l)"
    by (auto simp: offered_def same_media_def[abs_def])
  have "compatible_attributes_data l off = (fmts l, attributes l)"
    using off by (simp add: compatible_attributes_data_def compatible_attributes_result)
  moreover have "create_answer_md l (fmts l) (attributes l) = Inr l"
    using off listed_formats[of "attributes l"]
    by (simp add: create_answer_md_def add_attributes_listed media_new_def)
  ultimately show ?case using Cons off by simp
qed simp

lemma copies_candidates:
  "concat (map (copies off) (map CandidateAttr cs)) = map CandidateAttr cs"
  by (induction cs) (simp_all add: copies_def)

lemma formats_candidates [simp]: "formats_of (map CandidateAttr cs) = {}"
  by (auto simp: formats_of_def)

lemma no_codec_candidates [simp]: "filter (matching_codec name) (map CandidateAttr cs) = []"
  by (simp add: filter_empty_conv)

text \<open>Between peers with the same media configuration every local description is kept.\<close>

lemma answer_same_config:
  assumes "config_wf mcfg icfg scfg"
  shows "answer_media (map (set_setup r) (local_mds mcfg prt fp ActPass cs)) (local_mds mcfg prt' fp' r' cs') =
    Inr (map (set_setup r) (local_mds mcfg prt fp ActPass cs))"
proof (rule answer_media_same)
  have "filter (\<lambda>a. \<not> is_setup a) (map CandidateAttr cs) = map CandidateAttr cs"
    by (simp add: filter_id_conv)
  then show "list_all (\<lambda>l. \<exists>off. offered (local_mds mcfg prt' fp' r' cs') l = Some off \<and> attributes l \<noteq> [] \<and>
    concat (map (copies off) (attributes l)) = attributes l \<and> fmts l = formats_of (attributes l))
    (map (set_setup r) (local_mds mcfg prt fp ActPass cs))"
    using assms copies_candidates
    by (simp add: local_mds_def local_md_def offered_def same_media_def config_wf_def copies_def)
qed

lemma fresh_session:
  assumes "call_session_new mcfg icfg scfg ifs (Some prt) stun (Some cert_fp) = Some (Inr s)"
    and "config_wf mcfg icfg scfg" and "gathered s"
  obtains fp where "from_hash_string ''sha-256'' cert_fp = Inr fp"
    and "media_descriptions (cs_sdp s) = local_mds mcfg prt fp ActPass (local_candidates (cs_ice s))"
    and "sdp_wf (cs_sdp s)" and "remote_candidates (cs_ice s) = []"
    and "local_setup_role s = ActPass" and "session_advertises fp s"
    and "list_all (\<lambda>c. attribute_wf (CandidateAttr c)) (local_candidates (cs_ice s))"
proof -
  obtain fp cd ag where r: "from_hash_string ''sha-256'' cert_fp = Inr fp"
    "gather_candidates ice_agent_new ifs (Some prt) stun icfg = Some ag"
    "s = \<lparr>cs_sdp = (sdp_new (local_mds mcfg prt fp ActPass (local_candidates ag)) scfg)
           \<lparr>connection_data := cd\<rparr>,
         cs_ice = ag, local_fingerprint = cert_fp, remote_fingerprint = None,
         remote_setup_role = None, local_setup_role = ActPass\<rparr>"
    "case local_candidates ag of [] \<Rightarrow> cd = connection_data (sdp_new [] scfg)
     | c # _ \<Rightarrow> cd = ''IN IP4 '' @ address c"
    using call_session_new_result[OF assms(1)] by blast
  have cs: "list_all (\<lambda>c. attribute_wf (CandidateAttr c)) (local_candidates ag)"
    using gather_candidates_config[OF r(2)] assms(2,3) r(3)
    by (simp add: gathered_def config_wf_def list_all_iff)
  have "newline \<notin> set cd"
    using r(3,4) assms(3) by (cases "local_candidates ag") (auto simp: gathered_def token_no_newline)
  then have "sdp_wf (cs_sdp s)"
    using r local_mds_wf[OF assms(2) _ _ cs] from_hash_string_wf[OF r(1)] assms(2)
    by (simp add: sdp_wf_def sdp_new_def config_wf_def)
  then show ?thesis
    using that[of fp] r cs gather_candidates_config[OF r(2)]
    by (simp add: sdp_new_def session_advertises_def local_mds_advertise)
qed

lemma pairs_fit_swap: "pairs_fit ls rs \<Longrightarrow> pairs_fit rs ls"
  by (auto simp: pairs_fit_def pair_fits_def list_all_iff)

lemma set_setup_local_mds:
  "map (set_setup role) (local_mds mcfg prt fp r cs) =
     map (\<lambda>md. md\<lparr>attributes := hd (attributes md) # FingerprintAttr fp # map CandidateAttr cs @ [Setup role]\<rparr>)
       (local_mds mcfg prt fp r cs)"
  by (simp add: local_mds_def local_md_def filter_id_conv)

lemma set_setup_wf: "media_wf md \<Longrightarrow> media_wf (set_setup role md)"
  by (auto simp: media_wf_def list_all_iff listed_def)

lemma set_setup_all_wf: "list_all media_wf mds \<Longrightarrow> list_all media_wf (map (set_setup role) mds)"
  by (simp add: list_all_iff set_setup_wf)

text \<open>The callee's side of the exchange.\<close>

lemma process_offer_ok:
  assumes B: "media_descriptions (cs_sdp B) = local_mds mcfg prt fp ActPass (local_candidates (cs_ice B))"
      "sdp_wf (cs_sdp B)" "remote_candidates (cs_ice B) = []" "local_setup_role B = ActPass"
      "session_advertises fp B" "local_candidates (cs_ice B) \<noteq> []"
    and cfg: "config_wf mcfg icfg scfg"
    and offer: "media_descriptions offer = local_mds mcfg rprt rfp ActPass rcs"
    and fit: "pairs_fit (local_candidates (cs_ice B)) rcs"
  shows "\<exists>B' ans. process_offer B offer = Some (B', Inr ans) \<and> sdp_wf ans \<and>
    list_all (advertises Active fp (local_candidates (cs_ice B))) (media_descriptions ans) \<and>
    length (media_descriptions ans) = 2 \<and> local_setup_role B' = Active \<and>
    remote_fingerprint B' = Some rfp \<and> remote_candidates (cs_ice B') = rcs @ rcs"
proof -
  have adv: "list_all (advertises ActPass rfp rcs) (media_descriptions offer)"
    by (simp add: offer local_mds_advertise)
  have role: "determine_local_role B offer Offer = Active"
    by (simp add: determine_local_role_def offer local_mds_def local_md_def get_setup_role_def)
  obtain B1 where B1: "set_local_setup_role B Active = Inr B1" "session_advertises fp B1"
    "local_setup_role B1 = Active" "cs_ice B1 = cs_ice B"
    using set_local_setup_role_ok[OF B(5), of Active] by auto
  let ?mds = "map (set_setup Active) (local_mds mcfg prt fp ActPass (local_candidates (cs_ice B)))"
  have sdp1: "cs_sdp B1 = (cs_sdp B)\<lparr>media_descriptions := ?mds\<rparr>"
    using B1(1) B by (auto simp: set_local_setup_role_def update_setup_attrs_eq)
  let ?ans = "(cs_sdp B1)\<lparr>connection_data := ''IN IP4 0.0.0.0''\<rparr>"
  have ans: "create_answer (cs_sdp B1) offer = Inr ?ans"
    using answer_same_config[OF cfg, of Active prt fp "local_candidates (cs_ice B)" rprt rfp ActPass rcs]
    by (simp add: create_answer_def sdp1 offer sdp_new_def)
  obtain B2 where B2: "process_remote_sdp B1 offer Offer = Some (B2, Inr ())"
    "remote_candidates (cs_ice B2) = concat (replicate 2 rcs)"
    "remote_fingerprint B2 = Some rfp" "local_setup_role B2 = Active"
    using process_remote_media_ok[OF adv B1(2), of Offer] B B1(4) fit
    by (auto simp: process_remote_sdp_def offer local_mds_def numeral_2_eq_2)
  have "process_offer B offer = Some (B2, Inr ?ans)"
    by (simp add: process_offer_def role B1(1) ans B2(1))
  moreover have "sdp_wf ?ans"
    using B(1,2) set_setup_all_wf by (simp add: sdp_wf_def sdp1)
  moreover have "list_all (advertises Active fp (local_candidates (cs_ice B))) (media_descriptions ?ans)"
    using B1(2,3,4) by (simp add: session_advertises_def)
  moreover have "length (media_descriptions ?ans) = 2" by (simp add: sdp1 local_mds_def)
  ultimately show ?thesis using B2 by (simp add: numeral_2_eq_2)
qed

text \<open>The whole exchange, both sides; the claims about it rest on this lemma.\<close>

lemma offer_answer_ok:
  assumes cfg: "config_wf mcfg icfg scfg" and "enumerates ordA" and "enumerates ordB"
    and A: "call_session_new mcfg icfg scfg ifsA (Some prtA) stunA (Some certA) = Some (Inr A)"
    and B: "call_session_new mcfg icfg scfg ifsB (Some prtB) stunB (Some certB) = Some (Inr B)"
    and "gathered A" and "gathered B"
    and fit: "pairs_fit (local_candidates (cs_ice A)) (local_candidates (cs_ice B))"
  shows "\<exists>offer B' ans ans' A' fpA fpB.
    sdp_from_str (show_sdp ordA (get_offer A)) = Inr offer \<and>
    process_offer B offer = Some (B', Inr ans) \<and>
    sdp_from_str (show_sdp ordB ans) = Inr ans' \<and>
    process_answer A ans' = Some (A', Inr ()) \<and>
    local_setup_role A' = Passive \<and> local_setup_role B' = Active \<and>
    from_hash_string ''sha-256'' certA = Inr fpA \<and> remote_fingerprint B' = Some fpA \<and>
    from_hash_string ''sha-256'' certB = Inr fpB \<and> remote_fingerprint A' = Some fpB \<and>
    remote_candidates (cs_ice A') = local_candidates (cs_ice B) @ local_candidates (cs_ice B) \<and>
    remote_candidates (cs_ice B') = local_candidates (cs_ice A) @ local_candidates (cs_ice A)"
proof -
  obtain fpA where a: "from_hash_string ''sha-256'' certA = Inr fpA"
    "media_descriptions (cs_sdp A) = local_mds mcfg prtA fpA ActPass (local_candidates (cs_ice A))"
    "sdp_wf (cs_sdp A)" "remote_candidates (cs_ice A) = []" "session_advertises fpA A"
    using fresh_session[OF A cfg \<open>gathered A\<close>] by metis
  obtain fpB where b: "from_hash_string ''sha-256'' certB = Inr fpB"
    "media_descriptions (cs_sdp B) = local_mds mcfg prtB fpB ActPass (local_candidates (cs_ice B))"
    "sdp_wf (cs_sdp B)" "remote_candidates (cs_ice B) = []" "local_setup_role B = ActPass"
    "session_advertises fpB B"
    using fresh_session[OF B cfg \<open>gathered B\<close>] by metis
  let ?offer = "sdp_new (media_descriptions (cs_sdp A)) sdp_config_default"
  have offer: "sdp_from_str (show_sdp ordA (get_offer A)) = Inr ?offer"
    using sdp_roundtrip_gen[OF a(3) \<open>enumerates ordA\<close>] by (simp add: get_offer_def)
  have ne: "local_candidates (cs_ice A) \<noteq> []" "local_candidates (cs_ice B) \<noteq> []"
    using assms by (simp_all add: gathered_def)
  have offer_mds: "media_descriptions ?offer =
      local_mds mcfg prtA fpA ActPass (local_candidates (cs_ice A))"
    by (simp add: sdp_new_def a(2))
  obtain B' ans where B': "process_offer B ?offer = Some (B', Inr ans)" "sdp_wf ans"
    "list_all (advertises Active fpB (local_candidates (cs_ice B))) (media_descriptions ans)"
    "length (media_descriptions ans) = 2" "local_setup_role B' = Active"
    "remote_fingerprint B' = Some fpA"
    "remote_candidates (cs_ice B') = local_candidates (cs_ice A) @ local_candidates (cs_ice A)"
    using process_offer_ok[OF b(2-6) ne(2) cfg offer_mds pairs_fit_swap[OF fit]] by metis
  let ?ans = "sdp_new (media_descriptions ans) sdp_config_default"
  have ans: "sdp_from_str (show_sdp ordB ans) = Inr ?ans"
    using sdp_roundtrip_gen[OF B'(2) \<open>enumerates ordB\<close>] .
  have "length (media_descriptions ?ans) = Suc (Suc 0)" "media_descriptions ?ans \<noteq> []"
    using B'(4) by (auto simp: sdp_new_def)
  then obtain A' where "process_answer A ?ans = Some (A', Inr ())" "local_setup_role A' = Passive"
    "remote_fingerprint A' = Some fpB"
    "remote_candidates (cs_ice A') = local_candidates (cs_ice B) @ local_candidates (cs_ice B)"
    using process_remote_media_ok[of Active fpB "local_candidates (cs_ice B)" "media_descriptions ?ans"
        fpA A Answer] B'(3) a ne fit
    by (auto simp: process_answer_def process_remote_sdp_def sdp_new_def)
  then show ?thesis using offer B' ans a(1) b(1) by blast
qed

text \<open>
  C14. The offer/answer exchange between two fresh sessions with the same configuration: the caller's
  printed offer is parsed by the callee, the callee's printed answer is parsed by the caller, and
  nothing fails. The caller ends with the passive and the callee with the active DTLS role, each
  holds the fingerprint of the other's certificate, and each agent has the other's candidates
  (once per media description).
\<close>

theorem offer_answer_exchange:
  assumes cfg: "config_wf mcfg icfg scfg" and "enumerates ordA" and "enumerates ordB"
    and A: "call_session_new mcfg icfg scfg ifsA (Some prtA) stunA (Some certA) = Some (Inr A)"
    and B: "call_session_new mcfg icfg scfg ifsB (Some prtB) stunB (Some certB) = Some (Inr B)"
    and "gathered A" and "gathered B"
    and fit: "pairs_fit (local_candidates (cs_ice A)) (local_candidates (cs_ice B))"
  shows "\<exists>offer B' ans ans' A' fpA fpB.
    sdp_from_str (show_sdp ordA (get_offer A)) = Inr offer \<and>
    process_offer B offer = Some (B', Inr ans) \<and>
    sdp_from_str (show_sdp ordB ans) = Inr ans' \<and>
    process_answer A ans' = Some (A', Inr ()) \<and>
    local_setup_role A' = Passive \<and> local_setup_role B' = Active \<and>
    from_hash_string ''sha-256'' certA = Inr fpA \<and> remote_fingerprint B' = Some fpA \<and>
    from_hash_string ''sha-256'' certB = Inr fpB \<and> remote_fingerprint A' = Some fpB \<and>
    remote_candidates (cs_ice A') = local_candidates (cs_ice B) @ local_candidates (cs_ice B) \<and>
    remote_candidates (cs_ice B') = local_candidates (cs_ice A) @ local_candidates (cs_ice A)"
  using assms by (rule offer_answer_ok)

definition sample_mcfg :: media_config where
  "sample_mcfg =
     \<lparr>video_payload_type = 96, video_codec_name = ''H264'', clock_rate = 90000,
      video_media_type = ''video'', audio_media_type = ''audio'', media_protocol = ''RTP/AVP'',
      audio_channels = 1, audio_sample_rate = 48000, audio_payload_type = 111,
      audio_codec_name = ''opus''\<rparr>"

definition sample_icfg :: ice_config where
  "sample_icfg =
     \<lparr>cfg_foundation = ''1'', cfg_transport = ''UDP'', cfg_component_id = 1,
      host_priority_preference = 126, srflx_priority_preference = 100,
      host_local_preference = 65535\<rparr>"

lemma sample_config_wf: "config_wf sample_mcfg sample_icfg sdp_config_default"
proof -
  have "token ''video''" "token ''audio''" "token ''RTP/AVP''" "token ''H264''" "token ''opus''"
    "token ''1''" "token ''UDP''" by code_simp+
  then show ?thesis
    by (simp add: config_wf_def sample_mcfg_def sample_icfg_def sdp_config_default_def)
qed

lemma sample_host_fits: "pair_fits (c\<lparr>priority := calculate_priority Host 65535 sample_icfg\<rparr>) d"
proof -
  have "unat (calculate_priority Host 65535 sample_icfg) \<noteq> unat (- 1 :: u32)"
    by (subst calculate_priority_value) (simp_all add: sample_icfg_def unsigned_minus_1_eq_mask mask_eq_exp_minus_1)
  then show ?thesis by (auto simp: pair_fits_def)
qed

lemma sample_session_cert:
  assumes "token ip" and fp: "from_hash_string ''sha-256'' cert = Inr fp"
  shows "\<exists>s. call_session_new sample_mcfg sample_icfg sdp_config_default
      (Some [(True, Some ''127.0.0.1''), (False, Some ip)]) (Some 5000) (Inl ''timeout'')
      (Some cert) = Some (Inr s) \<and> gathered s \<and>
    (\<exists>c. local_candidates (cs_ice s) = [c\<lparr>priority := calculate_priority Host 65535 sample_icfg\<rparr>])"
proof -
  let ?host = "(new_host ip 1 sample_icfg)\<lparr>cand_port := 5000\<rparr>"
  have "gather_candidates ice_agent_new (Some [(True, Some ''127.0.0.1''), (False, Some ip)])
      (Some 5000) (Inl ''timeout'') sample_icfg = Some (ice_agent_new\<lparr>local_candidates := [?host]\<rparr>)"
    by (simp add: gather_candidates_def get_local_ip_def ice_agent_new_def sample_icfg_def)
  moreover have "?host = ?host\<lparr>priority := calculate_priority Host 65535 sample_icfg\<rparr>"
    by (simp add: new_host_def sample_icfg_def)
  moreover have "address ?host = ip" by (simp add: new_host_def)
  ultimately show ?thesis
    using assms
    by (simp add: call_session_new_def generate_video_md_def generate_audio_md_def add_attribute_def
        media_new_def fp apply_common_eq gathered_def Let_def set_connection_data_def
        ice_agent_new_def) metis
qed

text \<open>Two sample sessions whose candidates can be paired, for any two certificates.\<close>

lemma sample_sessions:
  assumes "from_hash_string ''sha-256'' certA = Inr fpA" "from_hash_string ''sha-256'' certB = Inr fpB"
  obtains A B where
    "call_session_new sample_mcfg sample_icfg sdp_config_default
      (Some [(True, Some ''127.0.0.1''), (False, Some ''10.0.0.1'')]) (Some 5000) (Inl ''timeout'') (Some certA) = Some (Inr A)"
    "call_session_new sample_mcfg sample_icfg sdp_config_default
      (Some [(True, Some ''127.0.0.1''), (False, Some ''10.0.0.2'')]) (Some 5000) (Inl ''timeout'') (Some certB) = Some (Inr B)"
    "gathered A" "gathered B" "pairs_fit (local_candidates (cs_ice A)) (local_candidates (cs_ice B))"
proof -
  have ip: "token ''10.0.0.1''" "token ''10.0.0.2''" by code_simp+
  obtain A c where A: "call_session_new sample_mcfg sample_icfg sdp_config_default
      (Some [(True, Some ''127.0.0.1''), (False, Some ''10.0.0.1'')]) (Some 5000) (Inl ''timeout'')
      (Some certA) = Some (Inr A)" "gathered A"
    "local_candidates (cs_ice A) = [c\<lparr>priority := calculate_priority Host 65535 sample_icfg\<rparr>]"
    using sample_session_cert[OF ip(1) assms(1)] by blast
  obtain B where B: "call_session_new sample_mcfg sample_icfg sdp_config_default
      (Some [(True, Some ''127.0.0.1''), (False, Some ''10.0.0.2'')]) (Some 5000) (Inl ''timeout'')
      (Some certB) = Some (Inr B)" "gathered B"
    using sample_session_cert[OF ip(2) assms(2)] by blast
  have "pairs_fit (local_candidates (cs_ice A)) (local_candidates (cs_ice B))"
    by (simp add: A(3) pairs_fit_def list_all_iff sample_host_fits)
  then show ?thesis using that A(1,2) B by blast
qed

theorem offer_answer_exchange_witness:
  "\<exists>A B offer B' ans ans' A'.
    sdp_from_str (show_sdp sample_order (get_offer A)) = Inr offer \<and>
    process_offer B offer = Some (B', Inr ans) \<and>
    sdp_from_str (show_sdp sample_order ans) = Inr ans' \<and>
    process_answer A ans' = Some (A', Inr ()) \<and>
    local_setup_role A' = Passive \<and> local_setup_role B' = Active"
proof -
  have "from_hash_string ''sha-256'' ''AB:05'' = Inr \<lparr>algorithm = ''sha-256'', fp_bytes = [171, 5]\<rparr>"
    by code_simp
  then obtain A B where AB: "call_session_new sample_mcfg sample_icfg sdp_config_default
      (Some [(True, Some ''127.0.0.1''), (False, Some ''10.0.0.1'')]) (Some 5000) (Inl ''timeout'')
      (Some ''AB:05'') = Some (Inr A)"
    "call_session_new sample_mcfg sample_icfg sdp_config_default
      (Some [(True, Some ''127.0.0.1''), (False, Some ''10.0.0.2'')]) (Some 5000) (Inl ''timeout'')
      (Some ''AB:05'') = Some (Inr B)"
    "gathered A" "gathered B" "pairs_fit (local_candidates (cs_ice A)) (local_candidates (cs_ice B))"
    using sample_sessions by blast
  from offer_answer_exchange[OF sample_config_wf sample_order_enumerates sample_order_enumerates AB]
  show ?thesis by blast
qed

text \<open>
  Candidates are added one by one and every addition pairs all local with all remote candidates
  again: an agent with \<open>n\<close> local and no remote candidates holds \<open>n * k * (k + 1) / 2\<close> pairs after
  \<open>k\<close> additions, where there are only \<open>n * k\<close> combinations.
\<close>

theorem candidate_pairs_repeated:
  assumes "local_candidates ag \<noteq> []" and "remote_candidates ag = []" and "candidate_pairs ag = []"
    and "pairs_fit (local_candidates ag) cs"
  shows "\<exists>ag'. add_candidates ag cs = Some (ag', Inr ()) \<and>
    2 * length (candidate_pairs ag') = length (local_candidates ag) * (length cs * (length cs + 1))"
proof -
  have "2 * (\<Sum>k<m. n * (k + 1)) = n * (m * (m + 1))" for n m :: nat
    by (induction m) (simp_all add: algebra_simps)
  then show ?thesis using add_candidates_ok[of ag cs] assms by auto
qed

end
