(* ===== verification/Rtp_Packet.thy ===== *)
theory Rtp_Packet
  imports Rust_Prelude
begin

text \<open>
  The RTP packet of \<^verbatim>\<open>src/transport/rtp/rtp_packet.rs\<close>: a 33-byte header (version in the
  two top bits of the first byte, marker, chunk count, I-frame flag, payload type, 64-bit
  sequence number, 128-bit timestamp, 32-bit SSRC, all big-endian) followed by the payload;
  and the demultiplexing test \<open>is_rtp_packet\<close> of \<^verbatim>\<open>src/transport/media_transport.rs\<close>.
\<close>

record rtp_packet =
  version :: u8
  marker :: u8
  total_chunks :: u8
  is_i_frame :: bool
  payload_type :: u8
  sequence_number :: u64
  timestamp :: u128
  ssrc :: u32
  payload :: bytes

definition array_from_slice :: "nat \<Rightarrow> bytes \<Rightarrow> bytes" where
  "array_from_slice n sl = take n sl"

definition rtp_header :: "rtp_packet \<Rightarrow> bytes" where
  "rtp_header p =
     [push_bit 6 (version p), marker p] @ to_be_bytes 1 (total_chunks p)
       @ [of_bool (is_i_frame p), payload_type p]
       @ to_be_bytes 8 (sequence_number p)
       @ to_be_bytes 16 (timestamp p)
       @ to_be_bytes 4 (ssrc p)"

definition rtp_to_bytes :: "rtp_packet \<Rightarrow> bytes" where
  "rtp_to_bytes p = rtp_header p @ payload p"

definition rtp_from_bytes :: "bytes \<Rightarrow> rtp_packet option" where
  "rtp_from_bytes data =
     (if length data < 33 then None
      else Some
        \<lparr>version = drop_bit 6 (data ! 0),
         marker = data ! 1,
         total_chunks = data ! 2,
         is_i_frame = (data ! 3 \<noteq> 0),
         payload_type = data ! 4,
         sequence_number = from_be_bytes (array_from_slice 8 (slice data 5 13)),
         timestamp = from_be_bytes (array_from_slice 16 (slice data 13 29)),
         ssrc = from_be_bytes (array_from_slice 4 (slice data 29 33)),
         payload = drop 33 data\<rparr>)"

definition is_rtp_packet :: "u8 \<Rightarrow> bool" where
  "is_rtp_packet first_byte = (128 \<le> first_byte \<and> first_byte \<le> 191)"

section \<open>Lengths and field positions\<close>

lemma to_be_bytes_1_u8 [simp]: "to_be_bytes 1 (w :: u8) = [w]" "to_be_bytes (Suc 0) (w :: u8) = [w]"
  by (simp_all add: to_be_bytes_def)

lemma length_rtp_header [simp]: "length (rtp_header p) = 33"
  by (simp add: rtp_header_def)

lemma length_rtp_to_bytes [simp]: "length (rtp_to_bytes p) = 33 + length (payload p)"
  by (simp add: rtp_to_bytes_def)

lemma slice_mid:
  assumes "length a = i" and "length b = j - i"
  shows "slice (a @ b @ c) i j = b"
  using assms by (simp add: slice_def)

lemma rtp_seq_bytes:
  "slice (rtp_header p @ rest) 5 13 = to_be_bytes 8 (sequence_number p)"
  using slice_mid[of "take 5 (rtp_header p)" 5 "to_be_bytes 8 (sequence_number p)" 13
      "to_be_bytes 16 (timestamp p) @ to_be_bytes 4 (ssrc p) @ rest"]
  by (simp add: rtp_header_def)

lemma rtp_ts_bytes:
  "slice (rtp_header p @ rest) 13 29 = to_be_bytes 16 (timestamp p)"
  using slice_mid[of "take 13 (rtp_header p)" 13 "to_be_bytes 16 (timestamp p)" 29
      "to_be_bytes 4 (ssrc p) @ rest"]
  by (simp add: rtp_header_def)

lemma rtp_ssrc_bytes:
  "slice (rtp_header p @ rest) 29 33 = to_be_bytes 4 (ssrc p)"
  using slice_mid[of "take 29 (rtp_header p)" 29 "to_be_bytes 4 (ssrc p)" 33 rest]
  by (simp add: rtp_header_def)

lemma rtp_first_bytes [simp]:
  "(rtp_header p @ rest) ! 0 = push_bit 6 (version p)"
  "(rtp_header p @ rest) ! Suc 0 = marker p"
  "(rtp_header p @ rest) ! 2 = total_chunks p"
  "(rtp_header p @ rest) ! 3 = of_bool (is_i_frame p)"
  "(rtp_header p @ rest) ! 4 = payload_type p"
  by (simp_all add: rtp_header_def)

lemma take_2_and_3: "take_bit 2 v = v AND 3" for v :: u8
  by (simp add: take_bit_eq_mask mask_numeral)

lemma drop_push_6: "drop_bit 6 (push_bit 6 v) = v AND 3" for v :: u8
  unfolding take_2_and_3[symmetric] by (rule bit_word_eqI) (auto simp: bit_simps)

lemma push_6_and_3: "push_bit 6 (v AND 3) = push_bit 6 v" for v :: u8
  unfolding take_2_and_3[symmetric] by (rule bit_word_eqI) (auto simp: bit_simps)

lemmas rtp_fields = rtp_seq_bytes rtp_ts_bytes rtp_ssrc_bytes array_from_slice_def

section \<open>Round trip\<close>

text \<open>Decoding the header followed by any payload: the version survives modulo 4.\<close>

lemma rtp_from_header:
  "rtp_from_bytes (rtp_header p @ rest) =
     Some (p\<lparr>version := version p AND 3, payload := rest\<rparr>)"
  by (simp add: rtp_from_bytes_def rtp_fields drop_push_6)

lemma and_3_small: "v < 4 \<Longrightarrow> v AND 3 = v" for v :: u8
proof -
  assume "v < 4"
  then have "unat (take_bit 2 v) = unat v"
    by (simp add: take_bit_eq_mod word_less_nat_alt unat_mod)
  then show ?thesis by (simp add: word_unat_eq_iff take_2_and_3)
qed

interpretation rtp: codec rtp_to_bytes rtp_from_bytes "\<lambda>p. version p < 4"
  by unfold_locales (simp add: rtp_to_bytes_def rtp_from_header and_3_small)

text \<open>
  C30. Encoding an RTP packet and decoding the datagram gives the packet back, field by
  field, with its version reduced to the two bits the format carries.
\<close>

theorem rtp_roundtrip:
  "rtp_from_bytes (rtp_to_bytes p) = Some (p\<lparr>version := version p AND 3\<rparr>)"
  by (simp add: rtp_to_bytes_def rtp_from_header)

text \<open>
  What a decoded packet re-encodes to: the decoder accepts exactly the datagrams of at least
  33 bytes, and re-encoding normalises the unused bits and decodes to the same packet.
\<close>

lemma drop_6_small: "drop_bit 6 b < 4" for b :: u8
proof -
  have "unat (drop_bit 6 b) = unat b div 64"
    by (simp add: drop_bit_eq_div unat_div)
  moreover have "unat b < 256" using unsigned_less[of b] by simp
  ultimately show ?thesis by (simp add: word_less_nat_alt)
qed

text \<open>
  The RTP decoder accepts a datagram exactly when it has the 33 header bytes; the packet
  it returns has a two-bit version, re-encodes to a datagram of the same length, and decoding
  that again returns the same packet.
\<close>

lemma rtp_decode_normal:
  "(rtp_from_bytes data \<noteq> None) = (33 \<le> length data) \<and>
   (case rtp_from_bytes data of
      None \<Rightarrow> True
    | Some p \<Rightarrow> version p < 4 \<and> length (rtp_to_bytes p) = length data \<and>
        rtp_from_bytes (rtp_to_bytes p) = Some p)"
proof (cases "rtp_from_bytes data")
  case None
  then show ?thesis by (simp add: rtp_from_bytes_def split: if_splits)
next
  case (Some p)
  then have len: "33 \<le> length data" and v: "version p = drop_bit 6 (data ! 0)"
    and pl: "payload p = drop 33 data"
    by (auto simp: rtp_from_bytes_def split: if_splits)
  have small: "version p < 4" by (simp add: v drop_6_small)
  show ?thesis using Some len pl small rtp.dec_enc[OF small] by simp
qed

lemma is_rtp_packet_top_bits:
  assumes "unat (w :: u8) \<le> 3"
  shows "is_rtp_packet (push_bit 6 w) = (w = 2)"
proof -
  obtain k where w: "w = word_of_nat k" and k: "k = 0 \<or> k = 1 \<or> k = 2 \<or> k = 3"
  proof
    show "w = word_of_nat (unat w)" by simp
    show "unat w = 0 \<or> unat w = 1 \<or> unat w = 2 \<or> unat w = 3" using assms by linarith
  qed
  show ?thesis using k unfolding w is_rtp_packet_def by (elim disjE) simp_all
qed

lemma rtp_first_byte_version:
  "is_rtp_packet (rtp_to_bytes p ! 0) = (version p AND 3 = 2)"
proof -
  let ?v = "version p"
  have "?v AND 3 \<le> 3" by (rule word_and_le1)
  then have "unat (?v AND 3) \<le> 3" by (simp add: word_le_nat_alt)
  then have "is_rtp_packet (push_bit 6 (?v AND 3)) = (?v AND 3 = 2)"
    by (rule is_rtp_packet_top_bits)
  then show ?thesis unfolding push_6_and_3 by (simp add: rtp_to_bytes_def)
qed

text \<open>
  The demultiplexer of the unprotection layer: the first byte of an encoded packet is
  taken for RTP exactly when the packet's version is 2 modulo 4, whatever its other fields.
\<close>

lemma is_rtp_packet_version:
  "is_rtp_packet (rtp_to_bytes p ! 0) = (version p AND 3 = 2)"
  by (rule rtp_first_byte_version)

end
