(* ===== verification/Srtp.thy ===== *)
theory Srtp
  imports Rtp_Packet
begin

text \<open>
  The SRTP context of \<^verbatim>\<open>src/srtp/context.rs\<close>: splitting of the DTLS keying material,
  selection of the write and read keys by role, the initialisation vector, and protection and
  unprotection of RTP packets. AES-128-CTR and HMAC-SHA1 come from the \<open>openssl\<close> crate and are
  the parameter \<open>ssl\<close> of the definitions; what the code relies on is \<open>openssl_ok\<close>.
\<close>

record srtp_context =
  client_write_key :: bytes
  server_write_key :: bytes
  client_write_salt :: bytes
  server_write_salt :: bytes

datatype 'e srtp_error =
    KeyDerivationFailed
  | EncryptionFailed
  | DecryptionFailed
  | AuthenticationFailed
  | PacketTooShort
  | OpenSslError 'e

text \<open>
  The three library calls: \<open>encrypt\<close> and \<open>decrypt\<close> with the cipher \<open>aes_128_ctr\<close> on key,
  initialisation vector and data, and the HMAC-SHA1 signature of data under a key.
\<close>

record 'e openssl =
  encrypt_ctr :: "bytes \<Rightarrow> bytes \<Rightarrow> bytes \<Rightarrow> 'e + bytes"
  decrypt_ctr :: "bytes \<Rightarrow> bytes \<Rightarrow> bytes \<Rightarrow> 'e + bytes"
  hmac_sha1 :: "bytes \<Rightarrow> bytes \<Rightarrow> 'e + bytes"

definition openssl_ok :: "'e openssl \<Rightarrow> bool" where
  "openssl_ok ssl \<longleftrightarrow>
     (\<forall>key iv d. length key = 16 \<and> length iv = 16 \<longrightarrow>
        (\<exists>c. encrypt_ctr ssl key iv d = Inr c \<and> decrypt_ctr ssl key iv c = Inr d)) \<and>
     (\<forall>key d. \<exists>h. hmac_sha1 ssl key d = Inr h \<and> length h = 20)"

definition srtp_new :: "bytes \<Rightarrow> 'e srtp_error + srtp_context" where
  "srtp_new keying_material =
     (if length keying_material < 60 then Inl KeyDerivationFailed
      else Inr
        \<lparr>client_write_key = slice keying_material 0 16,
         server_write_key = slice keying_material 16 32,
         client_write_salt = slice keying_material 32 46,
         server_write_salt = slice keying_material 46 60\<rparr>)"

definition get_write_keys :: "srtp_context \<Rightarrow> bool \<Rightarrow> bytes \<times> bytes" where
  "get_write_keys ctx is_client =
     (if is_client then (client_write_key ctx, client_write_salt ctx)
      else (server_write_key ctx, server_write_salt ctx))"

definition get_read_keys :: "srtp_context \<Rightarrow> bool \<Rightarrow> bytes \<times> bytes" where
  "get_read_keys ctx is_client =
     (if is_client then (server_write_key ctx, server_write_salt ctx)
      else (client_write_key ctx, client_write_salt ctx))"

definition apply_aes_ctr ::
  "'e openssl \<Rightarrow> bytes \<Rightarrow> bytes \<Rightarrow> bytes \<Rightarrow> bool \<Rightarrow> 'e srtp_error + bytes" where
  "apply_aes_ctr ssl key iv data encrypting =
     (case (if encrypting then encrypt_ctr ssl key iv data else decrypt_ctr ssl key iv data) of
        Inl e \<Rightarrow> Inl (OpenSslError e)
      | Inr r \<Rightarrow> Inr r)"

text \<open>The slice \<open>[0..10]\<close> of the signature; an HMAC-SHA1 value has 20 bytes.\<close>

definition calculate_hmac :: "'e openssl \<Rightarrow> bytes \<Rightarrow> bytes \<Rightarrow> 'e srtp_error + bytes" where
  "calculate_hmac ssl key data =
     (case hmac_sha1 ssl key data of
        Inl e \<Rightarrow> Inl (OpenSslError e)
      | Inr full_hmac \<Rightarrow> Inr (slice full_hmac 0 10))"

definition get_iv :: "bytes \<Rightarrow> u32 \<Rightarrow> u64 \<Rightarrow> bytes" where
  "get_iv salt src seq =
     (let salt_len = min (length salt) 14;
          iv = slice salt 0 salt_len @ replicate (16 - salt_len) 0;
          block = replicate 4 0 @ to_be_bytes 4 src @ to_be_bytes 8 seq
      in map2 (XOR) iv block)"

definition protect :: "'e openssl \<Rightarrow> srtp_context \<Rightarrow> rtp_packet \<Rightarrow> bool \<Rightarrow> 'e srtp_error + bytes" where
  "protect ssl ctx packet is_client =
     (let (key, salt) = get_write_keys ctx is_client;
          packet_bytes = rtp_to_bytes packet
      in if length packet_bytes < 33 then Inl PacketTooShort
         else
           let iv = get_iv salt (ssrc packet) (sequence_number packet)
           in case apply_aes_ctr ssl key iv (drop 33 packet_bytes) True of
                Inl e \<Rightarrow> Inl e
              | Inr encrypted_payload \<Rightarrow>
                  let out_packet = take 33 packet_bytes @ encrypted_payload
                  in case calculate_hmac ssl key out_packet of
                       Inl e \<Rightarrow> Inl e
                     | Inr tag \<Rightarrow> Inr (out_packet @ tag))"

definition unprotect ::
  "'e openssl \<Rightarrow> srtp_context \<Rightarrow> bytes \<Rightarrow> bool \<Rightarrow> 'e srtp_error + rtp_packet" where
  "unprotect ssl ctx packet_bytes is_client =
     (if length packet_bytes < 33 + 10 then Inl PacketTooShort
      else
        let (key, salt) = get_read_keys ctx is_client;
            content_len = length packet_bytes - 10;
            content = take content_len packet_bytes;
            tag = drop content_len packet_bytes
        in case calculate_hmac ssl key content of
             Inl e \<Rightarrow> Inl e
           | Inr calculated_tag \<Rightarrow>
               if calculated_tag \<noteq> tag then Inl AuthenticationFailed
               else
                 let seq = from_be_bytes (slice packet_bytes 5 13);
                     src = from_be_bytes (slice packet_bytes 29 33);
                     iv = get_iv salt src seq
                 in case apply_aes_ctr ssl key iv (drop 33 content) False of
                      Inl e \<Rightarrow> Inl e
                    | Inr decrypted_payload \<Rightarrow>
                        (case rtp_from_bytes (take 33 content @ decrypted_payload) of
                           None \<Rightarrow> Inl PacketTooShort
                         | Some p \<Rightarrow> Inr p))"

section \<open>Keys and initialisation vectors\<close>

lemma read_keys_of_peer: "get_read_keys ctx (\<not> c) = get_write_keys ctx c"
  by (simp add: get_read_keys_def get_write_keys_def)

definition keys_wf :: "srtp_context \<Rightarrow> bool" where
  "keys_wf ctx \<longleftrightarrow>
     length (client_write_key ctx) = 16 \<and> length (server_write_key ctx) = 16 \<and>
     length (client_write_salt ctx) = 14 \<and> length (server_write_salt ctx) = 14"

lemma srtp_new_wf: "srtp_new km = Inr ctx \<Longrightarrow> keys_wf ctx"
  by (auto simp: srtp_new_def keys_wf_def split: if_splits)

lemma write_keys_wf:
  "keys_wf ctx \<Longrightarrow> get_write_keys ctx c = (key, salt) \<Longrightarrow> length key = 16 \<and> length salt = 14"
  by (auto simp: keys_wf_def get_write_keys_def split: if_splits)

lemma length_get_iv [simp]: "length (get_iv salt s q) = 16"
  by (simp add: get_iv_def Let_def)

lemma map2_xor_cancel:
  assumes "length a = length b" and "length a = length c"
    and "map2 (XOR) a b = map2 (XOR) a c"
  shows "b = (c :: bytes)"
  using assms
proof (induction a arbitrary: b c)
  case Nil
  then show ?case by simp
next
  case (Cons x xs)
  from Cons.prems(1,2) obtain y ys z zs where [simp]: "b = y # ys" "c = z # zs"
    by (cases b; cases c) auto
  have cancel: "x XOR (x XOR w) = w" for w :: u8
    by (rule bit_word_eqI) (auto simp: bit_simps)
  have "x XOR y = x XOR z" using Cons.prems(3) by simp
  then have "y = z" by (metis cancel)
  moreover have "ys = zs" by (rule Cons.IH) (use Cons.prems in simp_all)
  ultimately show ?case by simp
qed

text \<open>
  Under one salt, two packets get the same initialisation vector only if they have the
  same SSRC and the same sequence number, so no keystream is used twice within a stream.
\<close>

theorem get_iv_injective:
  "(get_iv salt s1 q1 = get_iv salt s2 q2) = (s1 = s2 \<and> q1 = q2)"
proof
  assume eq: "get_iv salt s1 q1 = get_iv salt s2 q2"
  let ?iv = "slice salt 0 (min (length salt) 14) @ replicate (16 - min (length salt) 14) (0::u8)"
  let ?block = "\<lambda>s q. replicate 4 (0::u8) @ to_be_bytes 4 s @ to_be_bytes 8 q"
  have "length ?iv = length (?block s q)" for s q by simp
  moreover have "map2 (XOR) ?iv (?block s1 q1) = map2 (XOR) ?iv (?block s2 q2)"
    using eq unfolding get_iv_def Let_def .
  ultimately have "?block s1 q1 = ?block s2 q2" by (metis map2_xor_cancel)
  then have "to_be_bytes 4 s1 = to_be_bytes 4 s2" and "to_be_bytes 8 q1 = to_be_bytes 8 q2"
    by simp_all
  then show "s1 = s2 \<and> q1 = q2"
    using to_be_bytes_inject[of 4 s1 s2] to_be_bytes_inject[of 8 q1 q2] by simp
qed simp

section \<open>Protection and unprotection\<close>

lemma openssl_encrypt:
  assumes "openssl_ok ssl" and "length key = 16" and "length iv = 16"
  obtains c where "apply_aes_ctr ssl key iv d True = Inr c"
    and "apply_aes_ctr ssl key iv c False = Inr d"
  using assms unfolding openssl_ok_def apply_aes_ctr_def by (metis old.sum.simps(6))

lemma openssl_hmac:
  assumes "openssl_ok ssl"
  obtains t where "calculate_hmac ssl key d = Inr t" and "length t = 10"
proof -
  obtain h where "hmac_sha1 ssl key d = Inr h" "length h = 20"
    using assms unfolding openssl_ok_def by blast
  then show thesis using that[of "slice h 0 10"] by (simp add: calculate_hmac_def)
qed

lemma unprotect_authentic:
  assumes "get_read_keys ctx c = (key, salt)"
    and "calculate_hmac ssl key (rtp_header p @ body) = Inr tag" and "length tag = 10"
    and "apply_aes_ctr ssl key (get_iv salt (ssrc p) (sequence_number p)) body False = Inr pl"
  shows "unprotect ssl ctx ((rtp_header p @ body) @ tag) c =
     Inr (p\<lparr>version := version p AND 3, payload := pl\<rparr>)"
proof -
  have fields: "from_be_bytes (slice (rtp_header p @ body @ tag) 5 13) = sequence_number p"
    "from_be_bytes (slice (rtp_header p @ body @ tag) 29 33) = ssrc p"
    by (simp_all add: rtp_fields)
  show ?thesis
    using assms fields by (simp add: unprotect_def Let_def rtp_from_header)
qed

lemma srtp_path:
  assumes "openssl_ok ssl" and "srtp_new km = (Inr ctx :: 'e srtp_error + srtp_context)"
    and "version p < 4"
  shows "\<exists>d. protect ssl ctx p is_client = Inr d \<and>
     length d \<ge> 43 \<and> take 33 d = rtp_header p \<and>
     unprotect ssl ctx d (\<not> is_client) = Inr p"
proof -
  obtain key salt where k: "get_write_keys ctx is_client = (key, salt)" by fastforce
  with assms(2) have "length key = 16" using srtp_new_wf write_keys_wf by blast
  then obtain c where c: "apply_aes_ctr ssl key (get_iv salt (ssrc p) (sequence_number p))
        (payload p) True = Inr c"
      "apply_aes_ctr ssl key (get_iv salt (ssrc p) (sequence_number p)) c False = Inr (payload p)"
    using openssl_encrypt[OF assms(1), of key "get_iv salt (ssrc p) (sequence_number p)"]
    by (metis length_get_iv)
  obtain tag where t: "calculate_hmac ssl key (rtp_header p @ c) = Inr tag" "length tag = 10"
    by (rule openssl_hmac[OF assms(1)])
  have "protect ssl ctx p is_client = Inr ((rtp_header p @ c) @ tag)"
    using k c(1) t by (simp add: protect_def rtp_to_bytes_def)
  moreover have "unprotect ssl ctx ((rtp_header p @ c) @ tag) (\<not> is_client) = Inr p"
    using unprotect_authentic[OF _ t c(2)] k assms(3) by (simp add: read_keys_of_peer and_3_small)
  ultimately show ?thesis using t(2) by (intro exI[of _ "(rtp_header p @ c) @ tag"]) simp
qed

text \<open>
  With contexts derived from the same keying material, a packet protected by one side is
  unprotected by the other side to the same packet: no error, every field and the payload
  restored (the version as the two bits the header carries).
\<close>

theorem srtp_roundtrip:
  assumes "openssl_ok ssl" and "srtp_new km = (Inr ctx :: 'e srtp_error + srtp_context)"
    and "version p < 4"
  shows "\<exists>d. protect ssl ctx p is_client = Inr d \<and>
     length d \<ge> 43 \<and> take 33 d = rtp_header p \<and>
     unprotect ssl ctx d (\<not> is_client) = Inr p"
  using assms by (rule srtp_path)

text \<open>A concrete library value that satisfies \<open>openssl_ok\<close>: a stream cipher and a checksum.\<close>

definition xor_ssl :: "unit openssl" where
  "xor_ssl =
     \<lparr>encrypt_ctr = (\<lambda>key iv d. Inr (map (\<lambda>b. b XOR (foldl (+) 0 (key @ iv))) d)),
      decrypt_ctr = (\<lambda>key iv d. Inr (map (\<lambda>b. b XOR (foldl (+) 0 (key @ iv))) d)),
      hmac_sha1 = (\<lambda>key d. Inr (replicate 20 (foldl (+) 0 (key @ d))))\<rparr>"

lemma xor_ssl_ok: "openssl_ok xor_ssl"
proof -
  have "(b XOR k) XOR k = b" for b k :: u8
    by (rule bit_word_eqI) (auto simp: bit_simps)
  then show ?thesis by (simp add: openssl_ok_def xor_ssl_def comp_def)
qed

definition sample_ctx :: srtp_context where
  "sample_ctx =
     \<lparr>client_write_key = replicate 16 1, server_write_key = replicate 16 2,
      client_write_salt = replicate 14 3, server_write_salt = replicate 14 4\<rparr>"

definition sample_packet :: rtp_packet where
  "sample_packet =
     \<lparr>version = 2, marker = 1, total_chunks = 1, is_i_frame = True, payload_type = 96,
      sequence_number = 7, timestamp = 12345, ssrc = 42, payload = [1, 2, 3, 4]\<rparr>"

theorem srtp_roundtrip_witness:
  "\<exists>d. protect xor_ssl sample_ctx sample_packet True = Inr d \<and>
     length d \<ge> 43 \<and> take 33 d = rtp_header sample_packet \<and>
     unprotect xor_ssl sample_ctx d False = Inr sample_packet"
proof -
  let ?km = "replicate 16 1 @ replicate 16 2 @ replicate 14 3 @ replicate 14 (4::u8)"
  have "srtp_new ?km = (Inr sample_ctx :: unit srtp_error + srtp_context)"
    by (simp add: srtp_new_def sample_ctx_def slice_def)
  moreover have "version sample_packet < 4" by (simp add: sample_packet_def)
  ultimately show ?thesis
    using srtp_roundtrip[OF xor_ssl_ok, of ?km sample_ctx sample_packet True] by simp
qed

text \<open>
  C29. Unprotection accepts a datagram only if its last ten bytes are the authentication tag
  of everything before them under the peer's write key; otherwise the result is an error, and
  with a working HMAC a datagram of at least 43 bytes and a wrong tag is reported as
  \<open>AuthenticationFailed\<close> before anything is decrypted.
\<close>

theorem unprotect_authenticates:
  "(case unprotect ssl ctx d is_client of
      Inl _ \<Rightarrow> True
    | Inr p \<Rightarrow> 43 \<le> length d \<and>
        calculate_hmac ssl (fst (get_write_keys ctx (\<not> is_client))) (take (length d - 10) d) =
          Inr (drop (length d - 10) d)) \<and>
   (if 43 \<le> length d then
      (case calculate_hmac ssl (fst (get_write_keys ctx (\<not> is_client))) (take (length d - 10) d) of
         Inl e \<Rightarrow> unprotect ssl ctx d is_client = Inl e
       | Inr t \<Rightarrow> if t \<noteq> drop (length d - 10) d
           then unprotect ssl ctx d is_client = Inl AuthenticationFailed else True)
    else unprotect ssl ctx d is_client = Inl PacketTooShort)"
proof -
  obtain key salt where k: "get_read_keys ctx is_client = (key, salt)" by fastforce
  then have w: "fst (get_write_keys ctx (\<not> is_client)) = key"
    using read_keys_of_peer[of ctx "\<not> is_client"] by (metis fst_conv)
  show ?thesis
    unfolding w by (auto simp: unprotect_def k Let_def split: sum.splits option.splits)
qed

end
