(* ===== verification/File_Transfer.thy ===== *)
theory File_Transfer
  imports Rust_Str
begin

text \<open>
  File transfer over data channels: the metadata and the messages of
  \<^verbatim>\<open>src/file/file_metadata/metadata.rs\<close> and \<^verbatim>\<open>src/file/file_transferer/ftp_message.rs\<close>, and the
  offer, sending and receiving loops of \<^verbatim>\<open>src/file/file_transferer/transferer.rs\<close>. A loop takes the
  list of what it observes in each round (the connection flag, what the file or the channel
  returned, whether a write succeeded); \<open>None\<close> means that it is still running when the
  observations end. Data channels are identified by a number. Sleeping and logging are left out.
\<close>

section \<open>Metadata and messages\<close>

record file_metadata =
  file_size :: u64
  file_name :: string

datatype file_metadata_error = MetadataError | NameError

text \<open>\<open>name\<close> and \<open>len\<close>: the last component of the path as UTF-8, the length from the file system.\<close>

definition file_metadata_from :: "string option \<Rightarrow> u64 option \<Rightarrow> file_metadata_error + file_metadata" where
  "file_metadata_from name len =
     (case name of
        None \<Rightarrow> Inl NameError
      | Some n \<Rightarrow>
          (case len of
             None \<Rightarrow> Inl MetadataError
           | Some s \<Rightarrow> Inr \<lparr>file_size = s, file_name = n\<rparr>))"

definition file_metadata_to_bytes :: "file_metadata \<Rightarrow> bytes" where
  "file_metadata_to_bytes m =
     to_be_bytes 8 (file_size m) @ [word_of_nat (length (file_name m))] @ as_bytes (file_name m)"

definition file_metadata_from_bytes :: "bytes \<Rightarrow> file_metadata option" where
  "file_metadata_from_bytes bs =
     (if 9 \<le> length bs then
        (let end_name = 9 + unat (bs ! 8)
         in if length bs < end_name then None
            else map_option (\<lambda>n. \<lparr>file_size = from_be_bytes (slice bs 0 8), file_name = n\<rparr>)
                   (from_utf8 (slice bs 9 end_name)))
      else None)"

datatype ftp_message =
    FileOffer u32 file_metadata
  | AcceptFile
  | RejectFile
  | FileChunk bytes
  | EndOfFile

fun ftp_to_bytes :: "ftp_message \<Rightarrow> bytes" where
  "ftp_to_bytes (FileOffer offer_id metadata) =
     0x01 # to_be_bytes 4 offer_id @ file_metadata_to_bytes metadata"
| "ftp_to_bytes AcceptFile = [0x02]"
| "ftp_to_bytes RejectFile = [0x03]"
| "ftp_to_bytes (FileChunk p) = 0x04 # to_be_bytes 4 (word_of_nat (length p) :: u32) @ p"
| "ftp_to_bytes EndOfFile = [0x05]"

definition ftp_from_bytes :: "bytes \<Rightarrow> ftp_message option" where
  "ftp_from_bytes bs =
     (case bs of
        [] \<Rightarrow> None
      | tag # _ \<Rightarrow>
          if tag = 0x01 \<and> 14 \<le> length bs then
            map_option (FileOffer (from_be_bytes (slice bs 1 5))) (file_metadata_from_bytes (drop 5 bs))
          else if tag = 0x02 then Some AcceptFile
          else if tag = 0x03 then Some RejectFile
          else if tag = 0x04 \<and> 5 \<le> length bs then
            (let payload_len = unat (from_be_bytes (slice bs 1 5) :: u32)
             in if length bs < 5 + payload_len then None
                else Some (FileChunk (slice bs 5 (5 + payload_len))))
          else if tag = 0x05 then Some EndOfFile
          else None)"

section \<open>The sending side\<close>

definition FILE_CHUNK_SIZE :: nat where
  "FILE_CHUNK_SIZE = 512"

datatype file_transferer_error =
    MapError string
  | FileReadError string
  | FileCreateError string
  | UnexpectedIncomingMessage
  | FileWriteError string
  | ChannelSendError string
  | UnknownIncomingMessage
  | LockError string
  | UnknownOfferId u32

text \<open>What \<open>recv\<close> returns: an error or the bytes it put into the buffer.\<close>

type_synonym received_bytes = "string + bytes"

fun await_answer :: "received_bytes list \<Rightarrow> (file_transferer_error + bool) option" where
  "await_answer [] = None"
| "await_answer (Inl e # rest) = Some (Inl (MapError e))"
| "await_answer (Inr bs # rest) =
     (case ftp_from_bytes bs of
        Some RejectFile \<Rightarrow> Some (Inr False)
      | Some AcceptFile \<Rightarrow> Some (Inr True)
      | _ \<Rightarrow> await_answer rest)"

definition file_offer_accepted ::
  "u32 \<Rightarrow> file_metadata \<Rightarrow> string + unit \<Rightarrow> received_bytes list \<Rightarrow>
     (bytes list \<times> (file_transferer_error + bool)) option" where
  "file_offer_accepted offer_id metadata sent answers =
     (case sent of
        Inl e \<Rightarrow> Some ([], Inl (ChannelSendError e))
      | Inr _ \<Rightarrow> map_option (Pair [ftp_to_bytes (FileOffer offer_id metadata)]) (await_answer answers))"

text \<open>One round of the sending loop: the flag, what \<open>file.read\<close> returned, whether the send worked.\<close>

type_synonym send_round = "bool \<times> (string + bytes) \<times> bool"

fun send_chunks :: "send_round list \<Rightarrow> bytes list \<Rightarrow> bytes list option" where
  "send_chunks [] sent = None"
| "send_chunks ((connected, chunk, ok) # rounds) sent =
     (if \<not> connected then Some sent
      else case chunk of
             Inl e \<Rightarrow> Some sent
           | Inr d \<Rightarrow>
               if d = [] then Some sent
               else if ok then send_chunks rounds (sent @ [ftp_to_bytes (FileChunk d)])
               else Some sent)"

text \<open>The worker thread of \<open>send_file\<close>: the messages that reach the channel.\<close>

definition send_worker ::
  "u32 \<Rightarrow> file_metadata \<Rightarrow> string + unit \<Rightarrow> received_bytes list \<Rightarrow> send_round list \<Rightarrow> bool \<Rightarrow> bytes list option" where
  "send_worker offer_id metadata offer_sent answers rounds end_ok =
     (case file_offer_accepted offer_id metadata offer_sent answers of
        None \<Rightarrow> None
      | Some (sent, Inr True) \<Rightarrow>
          map_option (\<lambda>out. if end_ok then out @ [ftp_to_bytes EndOfFile] else out)
            (send_chunks rounds sent)
      | Some (sent, _) \<Rightarrow> Some sent)"

section \<open>Offers\<close>

text \<open>
  The shared state: the channels of the offers that await an answer, and the next offer id.
  \<open>poisoned_pending\<close> is a poisoned mutex.
\<close>

record file_transferer =
  pending_data_channels :: "u32 \<rightharpoonup> nat"
  next_offer_id :: u32
  poisoned_pending :: bool

text \<open>
  \<open>opened\<close>: the result of opening the file, its metadata and of opening the data channel. The
  addition to the offer id is checked; \<open>None\<close> is its overflow. The result names the worker's
  channel, offer and metadata.
\<close>

definition send_file ::
  "file_transferer \<Rightarrow> string + unit \<Rightarrow> string option \<Rightarrow> u64 option \<Rightarrow> string + nat \<Rightarrow>
     ((file_transferer_error + nat \<times> u32 \<times> file_metadata) \<times> file_transferer) option" where
  "send_file t opened name len channel =
     (case opened of
        Inl e \<Rightarrow> Some (Inl (MapError e), t)
      | Inr _ \<Rightarrow>
          (case file_metadata_from name len of
             Inl NameError \<Rightarrow>
               Some (Inl (MapError ''Error: \"Failed to obtain file name or invalid UTF-8\"''), t)
           | Inl MetadataError \<Rightarrow>
               Some (Inl (MapError ''Error: \"Failed to obtain metadata from file\"''), t)
           | Inr metadata \<Rightarrow>
               (case channel of
                  Inl e \<Rightarrow> Some (Inl (MapError e), t)
                | Inr dc \<Rightarrow>
                    (case add_chk (next_offer_id t) 1 of
                       None \<Rightarrow> None
                     | Some next \<Rightarrow>
                         Some (Inr (dc, next_offer_id t, metadata), t\<lparr>next_offer_id := next\<rparr>)))))"

definition take_pending ::
  "file_transferer \<Rightarrow> u32 \<Rightarrow> (file_transferer_error + nat) \<times> file_transferer" where
  "take_pending t offer_id =
     (if poisoned_pending t then (Inl (LockError ''poisoned lock: another task failed inside''), t)
      else case pending_data_channels t offer_id of
             None \<Rightarrow> (Inl (UnknownOfferId offer_id), t)
           | Some dc \<Rightarrow> (Inr dc, t\<lparr>pending_data_channels := (pending_data_channels t)(offer_id := None)\<rparr>))"

text \<open>\<open>sent\<close> is the outcome of sending the answer; the result holds what was sent on which channel.\<close>

definition reject_file_offer ::
  "file_transferer \<Rightarrow> u32 \<Rightarrow> string + unit \<Rightarrow>
     (file_transferer_error + nat \<times> bytes) \<times> file_transferer" where
  "reject_file_offer t offer_id sent =
     (case take_pending t offer_id of
        (Inl e, t1) \<Rightarrow> (Inl e, t1)
      | (Inr dc, t1) \<Rightarrow>
          (case sent of
             Inl e \<Rightarrow> (Inl (MapError e), t1)
           | Inr _ \<Rightarrow> (Inr (dc, ftp_to_bytes RejectFile), t1)))"

definition accept_file_offer ::
  "file_transferer \<Rightarrow> u32 \<Rightarrow> string + unit \<Rightarrow> string + unit \<Rightarrow>
     (file_transferer_error + nat \<times> bytes) \<times> file_transferer" where
  "accept_file_offer t offer_id sent created =
     (case take_pending t offer_id of
        (Inl e, t1) \<Rightarrow> (Inl e, t1)
      | (Inr dc, t1) \<Rightarrow>
          (case sent of
             Inl e \<Rightarrow> (Inl (MapError e), t1)
           | Inr _ \<Rightarrow>
               (case created of
                  Inl e \<Rightarrow> (Inl (FileCreateError e), t1)
                | Inr _ \<Rightarrow> (Inr (dc, ftp_to_bytes AcceptFile), t1))))"

text \<open>The listener on a newly accepted channel; the event announces the offer to the interface.\<close>

fun handle_incoming ::
  "file_transferer \<Rightarrow> nat \<Rightarrow> string + unit \<Rightarrow> received_bytes list \<Rightarrow>
     ((file_transferer_error + u32 \<times> file_metadata) \<times> file_transferer) option" where
  "handle_incoming t dc event [] = None"
| "handle_incoming t dc event (Inl e # rest) = Some (Inl (FileReadError e), t)"
| "handle_incoming t dc event (Inr bs # rest) =
     (case ftp_from_bytes bs of
        Some (FileOffer offer_id metadata) \<Rightarrow>
          if poisoned_pending t then Some (Inl (LockError ''poisoned lock: another task failed inside''), t)
          else
            (let t1 = t\<lparr>pending_data_channels := (pending_data_channels t)(offer_id \<mapsto> dc)\<rparr>
             in case event of
                  Inl e \<Rightarrow> Some (Inl (ChannelSendError e), t1)
                | Inr _ \<Rightarrow> Some (Inr (offer_id, metadata), t1))
      | _ \<Rightarrow> handle_incoming t dc event rest)"

section \<open>The receiving side\<close>

text \<open>
  One round of the download loop: the flag, what \<open>recv\<close> returned, and the outcome of
  \<open>write_all\<close> (\<open>Some k\<close>: it failed after \<open>k\<close> bytes). The result is the file and whether the
  completion event was sent.
\<close>

type_synonym recv_round = "bool \<times> received_bytes \<times> nat option"

fun recv_file :: "recv_round list \<Rightarrow> bytes \<Rightarrow> (bytes \<times> bool) option" where
  "recv_file [] file = None"
| "recv_file ((connected, got, write_all) # rounds) file =
     (if \<not> connected then Some (file, False)
      else case got of
             Inl e \<Rightarrow> Some (file, False)
           | Inr bs \<Rightarrow>
               if bs = [] then Some (file, False)
               else case ftp_from_bytes bs of
                      Some (FileChunk p) \<Rightarrow>
                        (case write_all of
                           Some k \<Rightarrow> Some (file @ take k p, False)
                         | None \<Rightarrow> recv_file rounds (file @ p))
                    | Some EndOfFile \<Rightarrow> Some (file, True)
                    | _ \<Rightarrow> recv_file rounds file)"

section \<open>The formats\<close>

definition metadata_ok :: "file_metadata \<Rightarrow> bool" where
  "metadata_ok m = (length (file_name m) < 256 \<and> utf8_valid (file_name m))"

fun ftp_ok :: "ftp_message \<Rightarrow> bool" where
  "ftp_ok (FileOffer offer_id m) = metadata_ok m"
| "ftp_ok (FileChunk p) = (length p < 2 ^ 32)"
| "ftp_ok _ = True"

lemma metadata_decode:
  assumes "metadata_ok m"
  shows "file_metadata_from_bytes (file_metadata_to_bytes m @ rest) = Some m"
proof -
  have n: "unat (word_of_nat (length (file_name m)) :: u8) = length (file_name m)"
    using assms by (simp add: metadata_ok_def unat_of_nat_u8)
  let ?bs = "file_metadata_to_bytes m @ rest"
  have at8: "?bs ! 8 = word_of_nat (length (file_name m))"
    by (simp add: file_metadata_to_bytes_def nth_append)
  have "slice ?bs 0 8 = to_be_bytes 8 (file_size m)"
    "slice ?bs 9 (9 + length (file_name m)) = as_bytes (file_name m)"
    by (simp_all add: file_metadata_to_bytes_def)
  then show ?thesis
    using assms n
    by (simp add: file_metadata_from_bytes_def at8 Let_def metadata_ok_def)
      (simp add: file_metadata_to_bytes_def)
qed

lemma length_metadata_bytes [simp]: "length (file_metadata_to_bytes m) = 9 + length (file_name m)"
  by (simp add: file_metadata_to_bytes_def)

lemma ftp_decode: "ftp_ok m \<Longrightarrow> ftp_from_bytes (ftp_to_bytes m @ rest) = Some m"
proof (cases m)
  case (FileOffer offer_id metadata)
  assume "ftp_ok m"
  then show ?thesis
    using FileOffer metadata_decode[of metadata rest] by (simp add: ftp_from_bytes_def)
next
  case (FileChunk p)
  assume "ftp_ok m"
  then have "unat (word_of_nat (length p) :: u32) = length p"
    using FileChunk by (simp add: unat_of_nat)
  moreover have "slice (4 # to_be_bytes 4 (word_of_nat (length p) :: u32) @ p @ rest) 5 (5 + length p) = p"
    by (simp add: slice_def)
  ultimately show ?thesis using FileChunk by (simp add: ftp_from_bytes_def Let_def)
qed (simp_all add: ftp_from_bytes_def)

interpretation ftp: prefix_codec ftp_to_bytes ftp_from_bytes ftp_ok
proof (unfold_locales, goal_cases)
  case (1 x)
  then show ?case using ftp_decode[of x "[]"] by simp
next
  case (2 x rest)
  then show ?case by (rule ftp_decode)
qed

text \<open>
  Every file-transfer message survives the channel, also when the receive buffer is longer
  than the message: decoding the encoding gives the message back, for names of at most 255
  UTF-8 bytes and chunks below four gigabytes.
\<close>
lemma ftp_roundtrip:
  assumes "ftp_ok m"
  shows "ftp_from_bytes (ftp_to_bytes m @ rest) = Some m"
  by (rule ftp.dec_enc_append[OF assms])

theorem ftp_roundtrip_witness:
  "ftp_from_bytes (ftp_to_bytes (FileOffer 7 \<lparr>file_size = 3, file_name = ''a.b''\<rparr>) @ [0]) =
     Some (FileOffer 7 \<lparr>file_size = 3, file_name = ''a.b''\<rparr>)"
proof (rule ftp_roundtrip)
  show "ftp_ok (FileOffer 7 \<lparr>file_size = 3, file_name = ''a.b''\<rparr>)" by code_simp
qed

section \<open>A whole transfer\<close>

definition chunk_msgs :: "bytes list \<Rightarrow> bytes list" where
  "chunk_msgs pieces = map (\<lambda>p. ftp_to_bytes (FileChunk p)) pieces"

definition good_rounds :: "bytes list \<Rightarrow> send_round list" where
  "good_rounds pieces = map (\<lambda>p. (True, Inr p, True)) pieces"

definition arrivals :: "bytes list \<Rightarrow> recv_round list" where
  "arrivals msgs = map (\<lambda>m. (True, Inr m, None)) msgs"

lemma send_chunks_pieces:
  "\<forall>p\<in>set pieces. p \<noteq> [] \<Longrightarrow>
     send_chunks (good_rounds pieces @ rounds) sent = send_chunks rounds (sent @ chunk_msgs pieces)"
  by (induction pieces arbitrary: sent) (simp_all add: good_rounds_def chunk_msgs_def)

lemma recv_file_chunks:
  "\<forall>p\<in>set pieces. length p < 2 ^ 32 \<Longrightarrow>
     recv_file (arrivals (chunk_msgs pieces) @ rounds) out = recv_file rounds (out @ concat pieces)"
proof (induction pieces arbitrary: out)
  case (Cons p pieces)
  then have "ftp_from_bytes (ftp_to_bytes (FileChunk p)) = Some (FileChunk p)"
    by (intro ftp.dec_enc) simp
  then show ?case using Cons by (simp add: arrivals_def chunk_msgs_def)
qed (simp add: arrivals_def chunk_msgs_def)

lemma recv_file_end: "recv_file (arrivals [ftp_to_bytes EndOfFile] @ rounds) file = Some (file, True)"
  using ftp.dec_enc[of EndOfFile] by (simp add: arrivals_def)

lemma length_chunk_msgs: "m \<in> set (chunk_msgs pieces) \<Longrightarrow> \<exists>p\<in>set pieces. length m = 5 + length p"
  by (auto simp: chunk_msgs_def)

text \<open>
  C20. An accepted transfer delivers the file: however \<open>read\<close> cuts it into pieces of at most the
  chunk size, the worker offers it, sends one message per piece and the end mark, every message
  fits the receiver's buffer, and the receiver, reading these messages in order after its answer,
  ends with exactly the file's bytes and reports completion.
\<close>
theorem transfer_delivers_file:
  assumes "\<forall>p\<in>set pieces. p \<noteq> [] \<and> length p \<le> FILE_CHUNK_SIZE" and "metadata_ok metadata"
  shows "\<exists>msgs. send_worker offer_id metadata (Inr ()) [Inr (ftp_to_bytes AcceptFile)]
       (good_rounds pieces @ [(True, Inr [], True)]) True =
         Some (ftp_to_bytes (FileOffer offer_id metadata) # msgs) \<and>
     ftp_from_bytes (ftp_to_bytes (FileOffer offer_id metadata)) = Some (FileOffer offer_id metadata) \<and>
     (\<forall>m\<in>set msgs. length m \<le> FILE_CHUNK_SIZE + 5) \<and>
     recv_file (arrivals msgs) [] = Some (concat pieces, True)"
proof -
  let ?msgs = "chunk_msgs pieces @ [ftp_to_bytes EndOfFile]"
  have ne: "\<forall>p\<in>set pieces. p \<noteq> []" and sz: "\<forall>p\<in>set pieces. length p < 2 ^ 32"
    using assms(1) by (force simp: FILE_CHUNK_SIZE_def)+
  have "file_offer_accepted offer_id metadata (Inr ()) [Inr (ftp_to_bytes AcceptFile)] =
      Some ([ftp_to_bytes (FileOffer offer_id metadata)], Inr True)"
    using ftp.dec_enc[of AcceptFile] by (simp add: file_offer_accepted_def)
  then have "send_worker offer_id metadata (Inr ()) [Inr (ftp_to_bytes AcceptFile)]
       (good_rounds pieces @ [(True, Inr [], True)]) True =
      Some (ftp_to_bytes (FileOffer offer_id metadata) # ?msgs)"
    by (simp add: send_worker_def send_chunks_pieces[OF ne])
  moreover have "recv_file (arrivals ?msgs) [] = Some (concat pieces, True)"
    using recv_file_chunks[OF sz, of "arrivals [ftp_to_bytes EndOfFile]" "[]"]
      recv_file_end[of "[]" "concat pieces"] by (simp add: arrivals_def)
  moreover have "\<forall>m\<in>set ?msgs. length m \<le> FILE_CHUNK_SIZE + 5"
    using assms(1) by (auto dest!: length_chunk_msgs)
  ultimately show ?thesis using ftp.dec_enc[of "FileOffer offer_id metadata"] assms(2)
    by (intro exI[of _ ?msgs]) simp
qed

theorem transfer_delivers_file_witness:
  "\<exists>msgs. send_worker 0 \<lparr>file_size = 3, file_name = ''f''\<rparr> (Inr ()) [Inr (ftp_to_bytes AcceptFile)]
       (good_rounds [[1, 2], [3]] @ [(True, Inr [], True)]) True =
         Some (ftp_to_bytes (FileOffer 0 \<lparr>file_size = 3, file_name = ''f''\<rparr>) # msgs) \<and>
     recv_file (arrivals msgs) [] = Some ([1, 2, 3], True)"
proof -
  have "metadata_ok \<lparr>file_size = 3, file_name = ''f''\<rparr>" by code_simp
  from transfer_delivers_file[of "[[1, 2], [3]]", OF _ this, of 0] show ?thesis
    by (auto simp: FILE_CHUNK_SIZE_def)
qed

text \<open>The payload of a received round that holds a chunk message.\<close>

fun chunk_payload :: "recv_round \<Rightarrow> bytes" where
  "chunk_payload (connected, Inr bs, w) =
     (case ftp_from_bytes bs of Some (FileChunk p) \<Rightarrow> p | _ \<Rightarrow> [])"
| "chunk_payload (connected, Inl e, w) = []"

definition ended_with :: "recv_round list \<Rightarrow> bytes \<Rightarrow> bool" where
  "ended_with rounds written =
     (\<exists>before bs w after. rounds = before @ (True, Inr bs, w) # after \<and> ftp_from_bytes bs = Some EndOfFile \<and>
        (\<forall>r\<in>set before. fst r) \<and> written = concat (map chunk_payload before))"

lemma ended_with_Cons:
  assumes "ended_with rounds written" and "fst r"
  shows "ended_with (r # rounds) (chunk_payload r @ written)"
proof -
  obtain before bs w after where "rounds = before @ (True, Inr bs, w) # after"
    "ftp_from_bytes bs = Some EndOfFile" "\<forall>r\<in>set before. fst r" "written = concat (map chunk_payload before)"
    using assms(1) unfolding ended_with_def by blast
  then show ?thesis using assms(2) unfolding ended_with_def
    by (intro exI[of _ "r # before"] exI[of _ bs] exI[of _ w] exI[of _ after]) simp
qed

text \<open>
  C34. What a download reports as complete is complete: when the loop posts the completion event,
  an end mark was received while connected, and the file is the old contents followed by the
  payloads of all the chunks received before it, in order, none skipped, repeated or cut.
\<close>
theorem recv_file_complete:
  "recv_file rounds out = Some (result, True) \<Longrightarrow> \<exists>written. result = out @ written \<and> ended_with rounds written"
proof (induction rounds arbitrary: out)
  case (Cons r rounds)
  obtain bs w where r: "r = (True, Inr bs, w)" "bs \<noteq> []"
    using Cons.prems by (cases r) (auto split: if_splits sum.splits)
  show ?case
  proof (cases "ftp_from_bytes bs = Some EndOfFile")
    case True
    then have "result = out" using Cons.prems r by simp
    moreover have "ended_with (r # rounds) []"
      using True r unfolding ended_with_def
      by (intro exI[of _ "[]"] exI[of _ bs] exI[of _ w] exI[of _ rounds]) simp
    ultimately show ?thesis by auto
  next
    case False
    then have "recv_file rounds (out @ chunk_payload r) = Some (result, True)"
      using Cons.prems r by (auto split: option.splits ftp_message.splits)
    from Cons.IH[OF this] obtain written where "result = (out @ chunk_payload r) @ written" "ended_with rounds written"
      by blast
    then show ?thesis using ended_with_Cons[of rounds written r] r by auto
  qed
qed simp

theorem recv_file_complete_witness:
  "\<exists>written. [9, 5] = [9] @ written \<and>
     ended_with [(True, Inr (ftp_to_bytes (FileChunk [5])), None), (True, Inr (ftp_to_bytes EndOfFile), None)] written"
proof (rule recv_file_complete)
  show "recv_file [(True, Inr (ftp_to_bytes (FileChunk [5])), None), (True, Inr (ftp_to_bytes EndOfFile), None)] [9] =
      Some ([9, 5], True)"
    using ftp.dec_enc[of "FileChunk [5]"] ftp.dec_enc[of EndOfFile] by simp
qed

section \<open>Offers are answered once\<close>

definition removes_offer :: "file_transferer \<Rightarrow> u32 \<Rightarrow> file_transferer \<Rightarrow> bool" where
  "removes_offer t offer_id t' = (t' = t\<lparr>pending_data_channels := (pending_data_channels t)(offer_id := None)\<rparr>)"

lemma take_pending_unknown:
  "\<not> poisoned_pending t \<Longrightarrow> pending_data_channels t offer_id = None \<Longrightarrow>
     take_pending t offer_id = (Inl (UnknownOfferId offer_id), t)"
  by (simp add: take_pending_def)

lemma answer_removes:
  assumes "\<not> poisoned_pending t" and "pending_data_channels t offer_id = Some dc"
  shows "removes_offer t offer_id (snd (accept_file_offer t offer_id sent created))"
    and "removes_offer t offer_id (snd (reject_file_offer t offer_id sent))"
    and "fst (accept_file_offer t offer_id (Inr ()) (Inr ())) = Inr (dc, ftp_to_bytes AcceptFile)"
    and "fst (reject_file_offer t offer_id (Inr ())) = Inr (dc, ftp_to_bytes RejectFile)"
  using assms
  by (auto simp: accept_file_offer_def reject_file_offer_def take_pending_def removes_offer_def split: sum.splits)

lemma handle_incoming_offer:
  "handle_incoming t dc (Inr ()) got = Some (Inr (offer_id, metadata), t1) \<Longrightarrow>
     \<not> poisoned_pending t \<and> t1 = t\<lparr>pending_data_channels := (pending_data_channels t)(offer_id \<mapsto> dc)\<rparr>"
proof (induction got)
  case (Cons g got)
  show ?case
  proof (cases g)
    case (Inr bs)
    show ?thesis
    proof (cases "\<exists>i m. ftp_from_bytes bs = Some (FileOffer i m)")
      case True
      then show ?thesis using Cons.prems Inr by (auto simp: Let_def fun_upd_def split: if_splits)
    next
      case False
      then have "handle_incoming t dc (Inr ()) (g # got) = handle_incoming t dc (Inr ()) got"
        using Inr by (simp split: option.split ftp_message.split)
      then show ?thesis using Cons by simp
    qed
  qed (use Cons.prems in simp)
qed simp

text \<open>
  C35. An announced offer can be answered exactly once: after a remote offer arrived on a channel,
  accepting or rejecting it sends the answer on that channel and removes it, whether or not the
  answer could be sent; every later answer to the same id fails with \<open>UnknownOfferId\<close>, and no
  other pending offer is touched.
\<close>
theorem offer_answered_once:
  assumes "handle_incoming t dc (Inr ()) got = Some (Inr (offer_id, metadata), t1)"
    and "t2 \<in> {snd (accept_file_offer t1 offer_id sent created), snd (reject_file_offer t1 offer_id sent)}"
  shows "fst (accept_file_offer t1 offer_id (Inr ()) (Inr ())) = Inr (dc, ftp_to_bytes AcceptFile) \<and>
     fst (reject_file_offer t1 offer_id (Inr ())) = Inr (dc, ftp_to_bytes RejectFile) \<and>
     fst (accept_file_offer t2 offer_id sent' created') = Inl (UnknownOfferId offer_id) \<and>
     fst (reject_file_offer t2 offer_id sent') = Inl (UnknownOfferId offer_id) \<and>
     (\<forall>other. other \<noteq> offer_id \<longrightarrow> pending_data_channels t2 other = pending_data_channels t other)"
proof -
  have t1: "\<not> poisoned_pending t \<and> t1 = t\<lparr>pending_data_channels := (pending_data_channels t)(offer_id \<mapsto> dc)\<rparr>"
    by (rule handle_incoming_offer[OF assms(1)])
  then have p: "\<not> poisoned_pending t1" "pending_data_channels t1 offer_id = Some dc" by simp_all
  have t2: "removes_offer t1 offer_id t2" using assms(2) answer_removes(1,2)[OF p] by auto
  then have "take_pending t2 offer_id = (Inl (UnknownOfferId offer_id), t2)"
    using p(1) by (intro take_pending_unknown) (simp_all add: removes_offer_def)
  then show ?thesis
    using answer_removes(3,4)[OF p] t1 t2
    by (simp add: accept_file_offer_def reject_file_offer_def removes_offer_def)
qed

definition sample_transferer :: file_transferer where
  "sample_transferer = \<lparr>pending_data_channels = Map.empty, next_offer_id = 0, poisoned_pending = False\<rparr>"

theorem offer_answered_once_witness:
  "\<exists>t1. handle_incoming sample_transferer 4 (Inr ())
       [Inr (ftp_to_bytes (FileOffer 2 \<lparr>file_size = 1, file_name = ''x''\<rparr>))] =
         Some (Inr (2, \<lparr>file_size = 1, file_name = ''x''\<rparr>), t1) \<and>
     fst (accept_file_offer (snd (reject_file_offer t1 2 (Inr ()))) 2 (Inr ()) (Inr ())) =
       Inl (UnknownOfferId 2)"
proof -
  let ?m = "\<lparr>file_size = 1, file_name = ''x''\<rparr>" and ?t = sample_transferer
  let ?t1 = "?t\<lparr>pending_data_channels := (pending_data_channels ?t)(2 \<mapsto> 4)\<rparr>"
  have "ftp_ok (FileOffer 2 ?m)" by code_simp
  then have h: "handle_incoming ?t 4 (Inr ()) [Inr (ftp_to_bytes (FileOffer 2 ?m))] = Some (Inr (2, ?m), ?t1)"
    using ftp.dec_enc[of "FileOffer 2 ?m"] by (simp add: sample_transferer_def Let_def)
  from offer_answered_once[OF h, of "snd (reject_file_offer ?t1 2 (Inr ()))" "Inr ()" "Inr ()" "Inr ()" "Inr ()"] h
  show ?thesis by auto
qed

section \<open>Where the transfer misbehaves\<close>

text \<open>
  After a read error (or a failed chunk) the sender still sends the end mark: the receiver
  reports a truncated file as complete.
\<close>

theorem read_error_reported_complete:
  assumes "0 < length p" and "length p \<le> FILE_CHUNK_SIZE"
  shows "\<exists>msgs. send_worker i m (Inr ()) [Inr (ftp_to_bytes AcceptFile)]
       (good_rounds [p] @ [(True, Inl e, True)]) True = Some (ftp_to_bytes (FileOffer i m) # msgs) \<and>
     recv_file (arrivals msgs) [] = Some (p, True)"
proof -
  have "file_offer_accepted i m (Inr ()) [Inr (ftp_to_bytes AcceptFile)] =
      Some ([ftp_to_bytes (FileOffer i m)], Inr True)"
    using ftp.dec_enc[of AcceptFile] by (simp add: file_offer_accepted_def)
  then have "send_worker i m (Inr ()) [Inr (ftp_to_bytes AcceptFile)]
       (good_rounds [p] @ [(True, Inl e, True)]) True =
      Some (ftp_to_bytes (FileOffer i m) # chunk_msgs [p] @ [ftp_to_bytes EndOfFile])"
    using assms send_chunks_pieces[of "[p]"] by (simp add: send_worker_def)
  moreover have "recv_file (arrivals (chunk_msgs [p] @ [ftp_to_bytes EndOfFile])) [] = Some (p, True)"
    using assms recv_file_chunks[of "[p]" "arrivals [ftp_to_bytes EndOfFile]" "[]"] recv_file_end[of "[]" p]
    by (simp add: arrivals_def FILE_CHUNK_SIZE_def)
  ultimately show ?thesis by blast
qed

text \<open>When the channel is closed, \<open>recv\<close> returns zero bytes and the wait for the answer never ends.\<close>

theorem closed_channel_waits_forever: "await_answer (replicate n (Inr [])) = None"
  by (induction n) (simp_all add: ftp_from_bytes_def)

end
