(* ===== verification/Rtcp_Packet.thy ===== *)
theory Rtcp_Packet
  imports Rust_Prelude
begin

text \<open>
  The statistics records of \<^verbatim>\<open>src/transport/rtcp/metrics.rs\<close> and the RTCP packets of
  \<^verbatim>\<open>src/transport/rtcp/rtcp_packet.rs\<close>: sender and receiver reports with a two-letter
  tag and big-endian counters, and the three control packets as plain ASCII words.
\<close>

record sender_stats =
  packets_sent :: u32
  bytes_sent :: u64

record receiver_stats =
  packets_received :: u32
  packets_lost :: u32
  jitter :: u32

record call_stats =
  local_sender :: sender_stats
  local_receiver :: receiver_stats
  remote_sender :: sender_stats
  remote_receiver :: receiver_stats

definition sender_stats_default :: sender_stats where
  "sender_stats_default = \<lparr>packets_sent = 0, bytes_sent = 0\<rparr>"

definition receiver_stats_default :: receiver_stats where
  "receiver_stats_default = \<lparr>packets_received = 0, packets_lost = 0, jitter = 0\<rparr>"

definition call_stats_default :: call_stats where
  "call_stats_default =
     \<lparr>local_sender = sender_stats_default, local_receiver = receiver_stats_default,
      remote_sender = sender_stats_default, remote_receiver = receiver_stats_default\<rparr>"

datatype rtcp_packet =
    SenderReport sender_stats
  | ReceiverReport receiver_stats
  | Goodbye
  | Hello
  | Ready

fun rtcp_to_bytes :: "rtcp_packet \<Rightarrow> bytes" where
  "rtcp_to_bytes (SenderReport stats) =
     as_bytes ''SR'' @ to_be_bytes 4 (packets_sent stats) @ to_be_bytes 8 (bytes_sent stats)"
| "rtcp_to_bytes (ReceiverReport stats) =
     as_bytes ''RR'' @ to_be_bytes 4 (packets_received stats)
       @ to_be_bytes 4 (packets_lost stats) @ to_be_bytes 4 (jitter stats)"
| "rtcp_to_bytes Goodbye = as_bytes ''BYE''"
| "rtcp_to_bytes Hello = as_bytes ''HELLO''"
| "rtcp_to_bytes Ready = as_bytes ''READY''"

definition starts_with :: "bytes \<Rightarrow> bytes \<Rightarrow> bool" where
  "starts_with data p = (take (length p) data = p)"

definition rtcp_from_bytes :: "bytes \<Rightarrow> rtcp_packet option" where
  "rtcp_from_bytes data =
     (if starts_with data (as_bytes ''SR'') \<and> 14 \<le> length data then
        Some (SenderReport
          \<lparr>packets_sent = from_be_bytes (slice data 2 6),
           bytes_sent = from_be_bytes (slice data 6 14)\<rparr>)
      else if starts_with data (as_bytes ''RR'') \<and> 14 \<le> length data then
        Some (ReceiverReport
          \<lparr>packets_received = from_be_bytes (slice data 2 6),
           packets_lost = from_be_bytes (slice data 6 10),
           jitter = from_be_bytes (slice data 10 14)\<rparr>)
      else if data = as_bytes ''BYE'' then Some Goodbye
      else if data = as_bytes ''HELLO'' then Some Hello
      else if data = as_bytes ''READY'' then Some Ready
      else None)"

section \<open>Decoding\<close>

lemma starts_with_append [simp]: "starts_with (p @ rest) p"
  by (simp add: starts_with_def)

lemma starts_with_tags [simp]:
  "\<not> starts_with (as_bytes ''RR'' @ rest) (as_bytes ''SR'')"
  by (simp add: starts_with_def as_bytes_def)

lemma starts_with_control [simp]:
  "\<not> starts_with (as_bytes ''BYE'') (as_bytes ''SR'')"
  "\<not> starts_with (as_bytes ''BYE'') (as_bytes ''RR'')"
  "\<not> starts_with (as_bytes ''HELLO'') (as_bytes ''SR'')"
  "\<not> starts_with (as_bytes ''HELLO'') (as_bytes ''RR'')"
  "\<not> starts_with (as_bytes ''READY'') (as_bytes ''SR'')"
  "\<not> starts_with (as_bytes ''READY'') (as_bytes ''RR'')"
  by (simp_all add: starts_with_def as_bytes_def)

lemma rtcp_from_report:
  "rtcp_from_bytes (rtcp_to_bytes (SenderReport s) @ rest) = Some (SenderReport s)"
  "rtcp_from_bytes (rtcp_to_bytes (ReceiverReport r) @ rest) = Some (ReceiverReport r)"
  by (simp_all add: rtcp_from_bytes_def slice_def)

lemma rtcp_dec_enc: "rtcp_from_bytes (rtcp_to_bytes p) = Some p"
proof (cases p)
  case (SenderReport s)
  then show ?thesis using rtcp_from_report(1)[of s "[]"] by simp
next
  case (ReceiverReport r)
  then show ?thesis using rtcp_from_report(2)[of r "[]"] by simp
qed (simp_all add: rtcp_from_bytes_def)

interpretation rtcp: codec rtcp_to_bytes rtcp_from_bytes "\<lambda>_. True"
  by unfold_locales (rule rtcp_dec_enc)

text \<open>
  Every RTCP packet decodes to itself, and a report still decodes to itself when other
  bytes follow it in the datagram; distinct packets have distinct encodings.
\<close>

theorem rtcp_roundtrip:
  "rtcp_from_bytes (rtcp_to_bytes p) = Some p \<and>
   rtcp_from_bytes (rtcp_to_bytes (SenderReport s) @ rest) = Some (SenderReport s) \<and>
   rtcp_from_bytes (rtcp_to_bytes (ReceiverReport r) @ rest) = Some (ReceiverReport r) \<and>
   (rtcp_to_bytes p = rtcp_to_bytes q) = (p = q)"
  by (intro conjI rtcp_dec_enc rtcp_from_report rtcp.enc_inj TrueI)

end
