(* ===== verification/App_Event.thy ===== *)
theory App_Event
  imports Sdp File_Transfer Rtcp_Packet
begin

text \<open>
  The events the background threads post to the user interface,
  \<^verbatim>\<open>src/controller/app_event.rs\<close>.
\<close>

datatype app_event =
    FullServerError
  | CallIncoming string session_description
  | CallAccepted session_description string string
  | CallRejected
  | CallEnded
  | AppError string
  | FatalError
  | LocalStatsUpdate call_stats
  | RemoteStatsUpdate call_stats
  | RemoteFileOffer u32 file_metadata
  | FileDownloadCompleted u32

end
