(* ===== verification/Rtcp_Session.thy ===== *)
theory Rtcp_Session
  imports App_Event
begin

text \<open>
  The RTCP session of \<^verbatim>\<open>src/transport/rtcp/report_handler.rs\<close>: the handshake that opens it, the
  thread that sends reports and the thread that receives them. The loops take the list of what
  each round observes (the connection flag, the datagram or error of the socket, the time); a
  result \<open>None\<close> means that the loop is still running when the observations end. Times are in
  nanoseconds.
\<close>

datatype rtcp_error =
    PoisonedLock
  | SocketCloneFailed
  | InvalidRTCPPacket
  | SocketConfigFailed
  | GoodbyeReceived
  | TimedOut
  | ConnectionStatusLockFailed
  | InvalidConfigDuration
  | SendFailed string
  | ReceiveFailed string
  | UnexpectedMessage

section \<open>Handshake\<close>

record handshake =
  ready :: bool
  connected :: bool

definition handshake_new :: handshake where
  "handshake_new = \<lparr>ready = False, connected = False\<rparr>"

text \<open>
  One round of the loop: \<open>sent\<close> is what sending would return. The result is the new state, the
  datagrams sent, and the value the function returns with, if it returns.
\<close>

definition handshake_round ::
  "handshake \<Rightarrow> string + bytes \<Rightarrow> string + unit \<Rightarrow> handshake \<times> bytes list \<times> (rtcp_error + unit) option" where
  "handshake_round s got sent =
     (case got of
        Inl e \<Rightarrow> (s, [], Some (Inl (ReceiveFailed e)))
      | Inr bs \<Rightarrow>
          (case rtcp_from_bytes bs of
             None \<Rightarrow> (s, [], None)
           | Some Hello \<Rightarrow>
               (case sent of
                  Inl e \<Rightarrow> (s, [], Some (Inl (SendFailed e)))
                | Inr _ \<Rightarrow> (s, [rtcp_to_bytes Ready], None))
           | Some Ready \<Rightarrow>
               if ready s then (s, [], Some (Inr ()))
               else
                 (case sent of
                    Inl e \<Rightarrow> (s\<lparr>ready := True\<rparr>, [], Some (Inl (SendFailed e)))
                  | Inr _ \<Rightarrow> (s\<lparr>ready := True, connected := True\<rparr>, [rtcp_to_bytes Ready], None))
           | Some _ \<Rightarrow> (s, [], Some (Inl UnexpectedMessage))))"

fun handshake_loop ::
  "((string + bytes) \<times> (string + unit)) list \<Rightarrow> handshake \<Rightarrow> bytes list \<Rightarrow>
     ((rtcp_error + unit) \<times> handshake \<times> bytes list) option" where
  "handshake_loop [] s out = None"
| "handshake_loop ((got, sent) # rounds) s out =
     (case handshake_round s got sent of
        (s1, msgs, Some r) \<Rightarrow> Some (r, s1, out @ msgs)
      | (s1, msgs, None) \<Rightarrow> handshake_loop rounds s1 (out @ msgs))"

definition connection_handshake ::
  "string + unit \<Rightarrow> ((string + bytes) \<times> (string + unit)) list \<Rightarrow>
     ((rtcp_error + unit) \<times> handshake \<times> bytes list) option" where
  "connection_handshake hello_sent rounds =
     (case hello_sent of
        Inl e \<Rightarrow> Some (Inl (SendFailed e), handshake_new, [])
      | Inr _ \<Rightarrow> handshake_loop rounds handshake_new [rtcp_to_bytes Hello])"

text \<open>
  \<open>start\<close>: the handshake, then the threads that receive and send reports. The read timeout (\<open>timeout_ok\<close>:
  whether it could be set) is configured only after the handshake.
\<close>

datatype report_thread = ReportReceiverThread | ReportSenderThread

definition start_report_receiver :: "bool \<Rightarrow> (rtcp_error + unit) \<times> report_thread list" where
  "start_report_receiver timeout_ok =
     (if timeout_ok then (Inr (), [ReportReceiverThread]) else (Inl SocketConfigFailed, []))"

definition start_report_handler :: "bool \<Rightarrow> (rtcp_error + unit) \<times> report_thread list" where
  "start_report_handler timeout_ok =
     (case start_report_receiver timeout_ok of
        (Inl e, ts) \<Rightarrow> (Inl e, ts)
      | (Inr _, ts) \<Rightarrow> (Inr (), ts @ [ReportSenderThread]))"

definition rtcp_start ::
  "string + unit \<Rightarrow> ((string + bytes) \<times> (string + unit)) list \<Rightarrow> bool \<Rightarrow>
     ((rtcp_error + unit) \<times> bytes list \<times> report_thread list) option" where
  "rtcp_start hello_sent rounds timeout_ok =
     (case connection_handshake hello_sent rounds of
        None \<Rightarrow> None
      | Some (Inl e, s, out) \<Rightarrow> Some (Inl e, out, [])
      | Some (Inr _, s, out) \<Rightarrow> (case start_report_handler timeout_ok of (r, ts) \<Rightarrow> Some (r, out, ts)))"

section \<open>Sending reports\<close>

definition gather_local_stats ::
  "sender_stats option \<Rightarrow> receiver_stats option \<Rightarrow> (sender_stats \<times> receiver_stats) option" where
  "gather_local_stats s r =
     (case s of None \<Rightarrow> None | Some s_stats \<Rightarrow> (case r of None \<Rightarrow> None | Some r_stats \<Rightarrow> Some (s_stats, r_stats)))"

text \<open>\<open>sr\<close> and \<open>rr\<close> are what the two sends return; the second component is what went out.\<close>

definition send_rtcp_reports ::
  "sender_stats \<Rightarrow> receiver_stats \<Rightarrow> string + unit \<Rightarrow> string + unit \<Rightarrow> (rtcp_error + unit) \<times> bytes list" where
  "send_rtcp_reports s_stats r_stats sr rr =
     (case sr of
        Inl e \<Rightarrow> (Inl (SendFailed e), [])
      | Inr _ \<Rightarrow>
          (case rr of
             Inl e \<Rightarrow> (Inl (SendFailed e), [rtcp_to_bytes (SenderReport s_stats)])
           | Inr _ \<Rightarrow> (Inr (), [rtcp_to_bytes (SenderReport s_stats), rtcp_to_bytes (ReceiverReport r_stats)])))"

text \<open>
  A round of the sender thread: the flag, the two statistics (\<open>None\<close>: poisoned mutex), and the
  outcomes of the sends. \<open>after\<close> is the flag as read after the loop when the thread itself has
  not cleared it. The result: datagrams, events, and whether the thread cleared the flag.
\<close>

type_synonym report_round =
  "bool \<times> sender_stats option \<times> receiver_stats option \<times> (string + unit) \<times> (string + unit)"

definition close_call :: "bool \<Rightarrow> bytes list \<Rightarrow> app_event list \<Rightarrow> bytes list \<times> app_event list \<times> bool" where
  "close_call after out evs = (if after then (out, evs @ [CallEnded], True) else (out, evs, False))"

fun report_sender ::
  "bool \<Rightarrow> report_round list \<Rightarrow> bytes list \<Rightarrow> app_event list \<Rightarrow> (bytes list \<times> app_event list \<times> bool) option" where
  "report_sender after [] out evs = None"
| "report_sender after ((conn, s, r, sr, rr) # rounds) out evs =
     (if \<not> conn then Some (close_call after out evs)
      else case gather_local_stats s r of
             None \<Rightarrow> Some (close_call after out evs)
           | Some (s_stats, r_stats) \<Rightarrow>
               (case send_rtcp_reports s_stats r_stats sr rr of
                  (Inl e, msgs) \<Rightarrow> Some (out @ msgs, evs, True)
                | (Inr _, msgs) \<Rightarrow>
                    report_sender after rounds (out @ msgs)
                      (evs @ [LocalStatsUpdate
                         (call_stats_default\<lparr>local_sender := s_stats, local_receiver := r_stats\<rparr>)])))"

definition report_goodbye :: "string + unit \<Rightarrow> (rtcp_error + unit) \<times> bytes list" where
  "report_goodbye sent =
     (case sent of
        Inl e \<Rightarrow> (Inl (SendFailed e), [])
      | Inr _ \<Rightarrow> (Inr (), [rtcp_to_bytes Goodbye]))"

section \<open>Receiving reports\<close>

text \<open>
  \<open>chrono::Duration::from_std\<close> refuses durations beyond \<open>i64::MAX\<close> milliseconds; the limit is the
  configured number of milliseconds.
\<close>

definition from_std :: "nat \<Rightarrow> int option" where
  "from_std millis = (if millis < 2 ^ 63 then Some (int millis * 1000000) else None)"

definition handle_rtcp_report_reception ::
  "bytes \<Rightarrow> int \<Rightarrow> nat \<Rightarrow> int \<Rightarrow> (rtcp_error + unit) \<times> int \<times> app_event list" where
  "handle_rtcp_report_reception bs now receive_limit last_report_time =
     (case rtcp_from_bytes bs of
        Some (SenderReport s_stats) \<Rightarrow>
          (Inr (), now, [RemoteStatsUpdate (call_stats_default\<lparr>remote_sender := s_stats\<rparr>)])
      | Some (ReceiverReport r_stats) \<Rightarrow>
          (Inr (), now, [RemoteStatsUpdate (call_stats_default\<lparr>remote_receiver := r_stats\<rparr>)])
      | Some Goodbye \<Rightarrow> (Inl GoodbyeReceived, last_report_time, [])
      | Some _ \<Rightarrow> (Inl UnexpectedMessage, last_report_time, [])
      | None \<Rightarrow>
          (let duration = (case from_std receive_limit of Some d \<Rightarrow> d | None \<Rightarrow> 30 * 1000000000)
           in if now - last_report_time > duration then (Inl TimedOut, last_report_time, [])
              else (Inr (), last_report_time, [])))"

definition try_receive_report ::
  "string + bytes \<Rightarrow> int \<Rightarrow> nat \<Rightarrow> int \<Rightarrow> (rtcp_error + unit) \<times> int \<times> app_event list" where
  "try_receive_report got now receive_limit last_report_time =
     (case got of
        Inr bs \<Rightarrow> handle_rtcp_report_reception bs now receive_limit last_report_time
      | Inl _ \<Rightarrow>
          (case from_std receive_limit of
             None \<Rightarrow> (Inl InvalidConfigDuration, last_report_time, [])
           | Some d \<Rightarrow>
               if now - last_report_time > d then (Inl TimedOut, last_report_time, [])
               else (Inr (), last_report_time, [])))"

type_synonym receive_round = "bool \<times> (string + bytes) \<times> int"

fun run_report_receiver_loop ::
  "nat \<Rightarrow> nat \<Rightarrow> bool \<Rightarrow> receive_round list \<Rightarrow> nat \<Rightarrow> int \<Rightarrow> app_event list \<Rightarrow>
     (bytes list \<times> app_event list \<times> bool) option" where
  "run_report_receiver_loop retry_limit max_silence after [] timeouts last_time evs =
     (if timeouts < retry_limit then None else Some (close_call after [] evs))"
| "run_report_receiver_loop retry_limit max_silence after ((conn, got, now) # rounds) timeouts last_time evs =
     (if \<not> (timeouts < retry_limit \<and> conn) then Some (close_call after [] evs)
      else case try_receive_report got now max_silence last_time of
             (Inr _, last1, e) \<Rightarrow>
               run_report_receiver_loop retry_limit max_silence after rounds 0 last1 (evs @ e)
           | (Inl GoodbyeReceived, last1, e) \<Rightarrow> Some (close_call after [] (evs @ e))
           | (Inl _, last1, e) \<Rightarrow>
               run_report_receiver_loop retry_limit max_silence after rounds (timeouts + 1) last1 (evs @ e))"

section \<open>Two peers in a handshake\<close>

text \<open>
  A configuration of the two ends: for each its state, the value its call returned with, and the
  datagrams on their way to it. One step: one end that has not returned receives a datagram; every
  send works. UDP does not keep the order, so which datagram may be received next is an argument:
  any one on its way, or only the one sent first.
\<close>

record endpoint =
  peer :: handshake
  outcome :: "(rtcp_error + unit) option"
  inbox :: "bytes list"

type_synonym handshake_conf = "endpoint \<times> endpoint"
type_synonym arrival_order = "bytes list \<Rightarrow> nat list"

definition any_order :: arrival_order where
  "any_order ms = [0..<length ms]"

definition in_order :: arrival_order where
  "in_order ms = (if ms = [] then [] else [0])"

definition endpoint_receive :: "arrival_order \<Rightarrow> endpoint \<Rightarrow> endpoint \<Rightarrow> (endpoint \<times> endpoint) list" where
  "endpoint_receive order a b =
     (case outcome a of
        None \<Rightarrow>
          map (\<lambda>i. case handshake_round (peer a) (Inr (inbox a ! i)) (Inr ()) of
                 (s, out, r) \<Rightarrow>
                   (\<lparr>peer = s, outcome = r, inbox = take i (inbox a) @ drop (Suc i) (inbox a)\<rparr>,
                    b\<lparr>inbox := inbox b @ out\<rparr>))
            (order (inbox a))
      | Some _ \<Rightarrow> [])"

definition handshake_succ :: "arrival_order \<Rightarrow> handshake_conf \<Rightarrow> handshake_conf list" where
  "handshake_succ order c =
     endpoint_receive order (fst c) (snd c) @ map prod.swap (endpoint_receive order (snd c) (fst c))"

inductive handshake_step :: "arrival_order \<Rightarrow> handshake_conf \<Rightarrow> handshake_conf \<Rightarrow> bool" for order where
  receive: "c' \<in> set (handshake_succ order c) \<Longrightarrow> handshake_step order c c'"

inductive_simps handshake_step_iff: "handshake_step order c c'"

definition both_open :: "handshake_conf \<Rightarrow> bool" where
  "both_open c = list_all (\<lambda>e. outcome e = Some (Inr ()) \<and> connected (peer e) \<and> inbox e = []) [fst c, snd c]"

definition no_error :: "handshake_conf \<Rightarrow> bool" where
  "no_error c = list_all (\<lambda>e. outcome e = None \<or> outcome e = Some (Inr ())) [fst c, snd c]"

text \<open>
  An end has returned without having received the peer's \<open>Hello\<close>, and the peer waits for an
  answer that nobody will send.
\<close>

definition overtaken :: "handshake_conf \<Rightarrow> bool" where
  "overtaken c =
     list_ex (\<lambda>(a, b). outcome a = Some (Inr ()) \<and> inbox a = [rtcp_to_bytes Hello] \<and> outcome b = None \<and> inbox b = [])
       [(fst c, snd c), (snd c, fst c)]"

text \<open>The start: both ends have sent their \<open>Hello\<close>; \<open>ha\<close> and \<open>hb\<close> say whether it will arrive.\<close>

definition start_conf :: "bool \<Rightarrow> bool \<Rightarrow> handshake_conf" where
  "start_conf ha hb =
     (\<lparr>peer = handshake_new, outcome = None, inbox = (if hb then [rtcp_to_bytes Hello] else [])\<rparr>,
      \<lparr>peer = handshake_new, outcome = None, inbox = (if ha then [rtcp_to_bytes Hello] else [])\<rparr>)"

fun layer :: "arrival_order \<Rightarrow> nat \<Rightarrow> handshake_conf list \<Rightarrow> handshake_conf list" where
  "layer order 0 cs = cs"
| "layer order (Suc n) cs = layer order n (remdups (concat (map (handshake_succ order) cs)))"

lemma layer_steps: "c' \<in> set (layer order n cs) \<longleftrightarrow> (\<exists>c\<in>set cs. (handshake_step order ^^ n) c c')"
proof (induction n arbitrary: cs)
  case (Suc n)
  then show ?case
    by (auto simp: relpowp_Suc_left handshake_step_iff simp del: relpowp.simps)
qed simp

text \<open>All configurations after \<open>k\<close> steps, as far as a run may go.\<close>

lemma layers_checked:
  "list_all (\<lambda>k. list_all (\<lambda>c. no_error c \<and> both_open c = (k = 6) \<and>
       (handshake_succ any_order c = []) = (both_open c \<or> overtaken c))
     (layer any_order k [start_conf True True])) [0, 1, 2, 3, 4, 5, 6]"
  "layer any_order 7 [start_conf True True] = []"
  "list_all (\<lambda>k. list_all (\<lambda>c. \<not> overtaken c) (layer in_order k [start_conf True True])) [0, 1, 2, 3, 4, 5, 6]"
  by code_simp+

lemma handshake_bounded: "(handshake_step any_order ^^ n) (start_conf True True) c \<Longrightarrow> n \<le> 6"
proof (rule ccontr)
  assume s: "(handshake_step any_order ^^ n) (start_conf True True) c" and "\<not> n \<le> 6"
  then have "n = 7 + (n - 7)" by simp
  then have "(handshake_step any_order ^^ 7 OO handshake_step any_order ^^ (n - 7)) (start_conf True True) c"
    using s relpowp_add by metis
  then obtain c7 where "(handshake_step any_order ^^ 7) (start_conf True True) c7" by blast
  then show False using layer_steps[of c7 any_order 7 "[start_conf True True]"] layers_checked(2) by simp
qed



text \<open>The order matters: a \<open>Hello\<close> that arrives late leaves the end that sent it waiting.\<close>

theorem overtaken_hello_deadlock: "\<exists>c. (handshake_step any_order ^^ 4) (start_conf True True) c \<and> overtaken c"
proof -
  have "list_ex overtaken (layer any_order 4 [start_conf True True])" by code_simp
  then show ?thesis using layer_steps[of _ any_order 4 "[start_conf True True]"] by (auto simp: list_ex_iff)
qed

text \<open>
  If the first \<open>Hello\<close> of one end is lost (the other end was not listening yet), nobody sends it
  again: every run stops after four steps with one end open and the other waiting, without a
  time limit, for a second \<open>Ready\<close>.
\<close>

theorem lost_hello_deadlock:
  "list_all (\<lambda>c. handshake_succ any_order c = [] \<and> outcome (fst c) = None \<and> inbox (fst c) = [] \<and> outcome (snd c) = Some (Inr ()))
     (layer any_order 4 [start_conf False True]) \<and> layer any_order 4 [start_conf False True] \<noteq> []"
  by code_simp

section \<open>Reports\<close>

lemma receive_report_ok:
  "try_receive_report (Inr (rtcp_to_bytes (SenderReport s))) now lim t =
     (Inr (), now, [RemoteStatsUpdate (call_stats_default\<lparr>remote_sender := s\<rparr>)])"
  "try_receive_report (Inr (rtcp_to_bytes (ReceiverReport r))) now lim t =
     (Inr (), now, [RemoteStatsUpdate (call_stats_default\<lparr>remote_receiver := r\<rparr>)])"
  by (simp_all only: try_receive_report_def handle_rtcp_report_reception_def rtcp_dec_enc
      sum.case option.case rtcp_packet.case)

text \<open>A round in which nothing valid arrives after the limit has passed.\<close>

definition silent_round :: "nat \<Rightarrow> int \<Rightarrow> receive_round \<Rightarrow> bool" where
  "silent_round lim t r =
     (fst r \<and> snd (snd r) - t > int lim * 1000000 \<and>
      (case fst (snd r) of Inl _ \<Rightarrow> True | Inr bs \<Rightarrow> rtcp_from_bytes bs = None))"

lemma silent_round_times_out:
  "silent_round lim t (conn, got, now) \<Longrightarrow> lim < 2 ^ 63 \<Longrightarrow> try_receive_report got now lim t = (Inl TimedOut, t, [])"
  by (auto simp: silent_round_def try_receive_report_def handle_rtcp_report_reception_def from_std_def
      split: sum.splits)

lemma silence_loop:
  "\<forall>r\<in>set rounds. silent_round lim t r \<Longrightarrow> lim < 2 ^ 63 \<Longrightarrow> k + length rounds \<le> limit \<Longrightarrow>
     run_report_receiver_loop limit lim after rounds k t evs =
       (if k + length rounds < limit then None else Some (close_call after [] evs))"
proof (induction rounds arbitrary: k)
  case (Cons r rounds)
  obtain conn got now where r: "r = (conn, got, now)" by (cases r) auto
  then have "conn" "try_receive_report got now lim t = (Inl TimedOut, t, [])"
    using Cons.prems by (auto simp: silent_round_def intro!: silent_round_times_out)
  then show ?case using Cons r by simp
qed auto

text \<open>The state of the loop after a report: no timeouts, the time of the report.\<close>

lemma report_restarts:
  assumes "got = rtcp_to_bytes (SenderReport s) \<or> got = rtcp_to_bytes (ReceiverReport r)" and "k < limit"
  shows "\<exists>stats. run_report_receiver_loop limit lim after ((True, Inr got, now) # rounds) k t evs =
     run_report_receiver_loop limit lim after rounds 0 now (evs @ [RemoteStatsUpdate stats])"
  using assms by (auto simp: receive_report_ok simp del: rtcp_to_bytes.simps)

text \<open>
  C32. Silence ends the call, and only enough of it: whatever happened before, once a report arrives
  the loop keeps running through fewer than \<open>retry_limit\<close> silent rounds, and the \<open>retry_limit\<close>-th
  silent round in a row makes it clear the flag and post \<open>CallEnded\<close> (exactly once, after the
  statistics of the report).
\<close>
theorem silence_ends_call:
  assumes "got = rtcp_to_bytes (SenderReport s) \<or> got = rtcp_to_bytes (ReceiverReport r)" and "k < limit"
    and "lim < 2 ^ 63" and "\<forall>x\<in>set quiet. silent_round lim now x" and "length quiet \<le> limit"
  shows "\<exists>stats. run_report_receiver_loop limit lim True ((True, Inr got, now) # quiet) k t evs =
     (if length quiet < limit then None else Some ([], evs @ [RemoteStatsUpdate stats, CallEnded], True))"
proof -
  obtain stats where "run_report_receiver_loop limit lim True ((True, Inr got, now) # quiet) k t evs =
     run_report_receiver_loop limit lim True quiet 0 now (evs @ [RemoteStatsUpdate stats])"
    using report_restarts[OF assms(1,2)] by blast
  then show ?thesis using silence_loop[OF assms(4,3), of 0 limit] assms(5)
    by (auto simp: close_call_def)
qed

theorem silence_ends_call_witness:
  "\<exists>stats. run_report_receiver_loop 1 5 True
       [(True, Inr (rtcp_to_bytes (SenderReport sender_stats_default)), 0), (True, Inl ''timeout'', 6000000)] 0 0 [] =
     Some ([], [RemoteStatsUpdate stats, CallEnded], True)"
  using silence_ends_call[of "rtcp_to_bytes (SenderReport sender_stats_default)" sender_stats_default
      undefined 0 1 5 "[(True, Inl ''timeout'', 6000000)]" 0 0 "[]"]
  by (simp add: silent_round_def)

text \<open>
  When sending a report fails, the sender thread clears the flag itself, so the test after its
  loop does not post \<open>CallEnded\<close>; the receiver thread then finds the flag cleared and does not
  post it either. The interface is never told that the call is over.
\<close>

theorem failed_report_ends_silently:
  "report_sender after [(True, Some s, Some r, Inl e, rr)] [] [] = Some ([], [], True) \<and>
   run_report_receiver_loop (Suc limit) lim False [(False, got, now)] 0 t [] = Some ([], [], False)"
  by (simp add: gather_local_stats_def send_rtcp_reports_def close_call_def)

end
