(* ===== verification/Media_Transport.thy ===== *)
theory Media_Transport
  imports Srtp Rtcp_Session
begin

text \<open>
  The media transport of \<^verbatim>\<open>src/transport/media_transport.rs\<close> and the RTP threads of
  \<^verbatim>\<open>src/transport/rtp/sender.rs\<close> and \<^verbatim>\<open>src/transport/rtp/receiver.rs\<close>: creation, start and stop, the
  protection and unprotection layers, and the loops that send and receive datagrams. DTLS and
  the sockets are given by the outcomes of their calls; loops take what each round observes.
\<close>

section \<open>RTP sender and receiver\<close>

datatype rtp_error =
    AddrNotAvailable
  | SocketConfigFailed
  | SocketCloneFailed
  | SendFailed
  | ReceiveFailed string
  | InvalidRtpPacket
  | TerminateFailed
  | ConnectionClosed
  | ConnectionStatusLockFailed
  | RTCPError string
  | PoisonedLock
  | SrtpError string

text \<open>
  The goodbye attempt of the two threads: \<open>lock\<close> whether the handler's mutex could be taken,
  \<open>bye\<close> what sending \<open>Goodbye\<close> returned; \<open>failure\<close> is the error returned when it worked.
\<close>

definition goodbye_then :: "bool \<Rightarrow> string + unit \<Rightarrow> rtp_error \<Rightarrow> rtp_error" where
  "goodbye_then lock bye failure =
     (if \<not> lock then PoisonedLock
      else case bye of Inl e \<Rightarrow> RTCPError e | Inr _ \<Rightarrow> failure)"

text \<open>\<open>None\<close> is an overflow of the statistics; \<open>stats_lock\<close> whether their mutex could be taken.\<close>

definition send_packet ::
  "bool \<Rightarrow> bool \<Rightarrow> bool \<Rightarrow> string + unit \<Rightarrow> bool \<Rightarrow> bytes \<Rightarrow> sender_stats \<Rightarrow>
     ((rtp_error + unit) \<times> sender_stats) option" where
  "send_packet conn sent lock bye stats_lock protected_packet m =
     (if \<not> conn then Some (Inl ConnectionClosed, m)
      else if \<not> sent then Some (Inl (goodbye_then lock bye SendFailed), m)
      else if \<not> stats_lock then Some (Inr (), m)
      else case add_chk (packets_sent m) 1 of
             None \<Rightarrow> None
           | Some n \<Rightarrow>
               (case add_chk (bytes_sent m) (word_of_nat (length protected_packet)) of
                  None \<Rightarrow> None
                | Some k \<Rightarrow> Some (Inr (), m\<lparr>packets_sent := n, bytes_sent := k\<rparr>)))"

text \<open>
  A round of the sender thread: the flag, the next datagram (\<open>None\<close>: the channel is closed), and
  the observations of \<open>send_packet\<close>. The result is the statistics and the datagrams sent.
\<close>

type_synonym rtp_send_round = "bool \<times> bytes option \<times> bool \<times> bool \<times> bool \<times> (string + unit) \<times> bool"

fun rtp_sender ::
  "rtp_send_round list \<Rightarrow> sender_stats \<Rightarrow> bytes list \<Rightarrow> (sender_stats \<times> bytes list) option" where
  "rtp_sender [] m out = Some (m, out)"
| "rtp_sender ((conn, data, conn2, sent, lock, bye, stats_lock) # rounds) m out =
     (if \<not> conn then Some (m, out)
      else case data of
             None \<Rightarrow> Some (m, out)
           | Some d \<Rightarrow>
               (case send_packet conn2 sent lock bye stats_lock d m of
                  None \<Rightarrow> None
                | Some (Inl e, m1) \<Rightarrow> Some (m1, out)
                | Some (Inr _, m1) \<Rightarrow> rtp_sender rounds m1 (out @ [d])))"

text \<open>What \<open>recv_from\<close> gives the receiver: a datagram, \<open>WouldBlock\<close>, or another error.\<close>

datatype rtp_recv = Datagram bytes | WouldBlock | RecvError string

fun rtp_receive ::
  "(rtp_recv \<times> bool) list \<Rightarrow> bool \<Rightarrow> string + unit \<Rightarrow> ((rtp_error + bytes) \<times> (rtp_recv \<times> bool) list) option" where
  "rtp_receive [] lock bye = None"
| "rtp_receive ((got, conn) # obs) lock bye =
     (case got of
        Datagram d \<Rightarrow> Some (Inr d, obs)
      | WouldBlock \<Rightarrow> if conn then rtp_receive obs lock bye else Some (Inl ConnectionClosed, obs)
      | RecvError e \<Rightarrow> Some (Inl (goodbye_then lock bye (ReceiveFailed e)), obs))"

text \<open>
  The receiver thread: the flag at the head of each round and what \<open>receive\<close> returned there; \<open>tx_ok\<close>
  whether the channel still takes datagrams; \<open>after\<close> the flag read after the loop. The result:
  datagrams forwarded, events, and whether the thread cleared the flag.
\<close>

fun rtp_receiver ::
  "bool \<Rightarrow> (bool \<times> (rtp_error + bytes) \<times> bool) list \<Rightarrow> bytes list \<Rightarrow>
     (bytes list \<times> app_event list \<times> bool) option" where
  "rtp_receiver after [] out = None"
| "rtp_receiver after ((conn, got, tx_ok) # rounds) out =
     (if \<not> conn then Some (close_call after out [])
      else case got of
             Inl e \<Rightarrow> Some (close_call after out [])
           | Inr d \<Rightarrow> if tx_ok then rtp_receiver after rounds (out @ [d])
                      else Some (close_call after out []))"

section \<open>Protection layers\<close>

text \<open>
  The thread between the application and the sender: it ends at the first packet that cannot be
  protected. \<open>lock_ok\<close> and \<open>tx_ok\<close> are false when the context's mutex is poisoned or the sender's
  channel is closed.
\<close>

fun protection_layer ::
  "'e openssl \<Rightarrow> srtp_context \<Rightarrow> bool \<Rightarrow> (rtp_packet \<times> bool \<times> bool) list \<Rightarrow> bytes list" where
  "protection_layer ssl ctx is_client [] = []"
| "protection_layer ssl ctx is_client ((p, lock_ok, tx_ok) # ps) =
     (if \<not> lock_ok then []
      else case protect ssl ctx p is_client of
             Inl e \<Rightarrow> []
           | Inr d \<Rightarrow> if tx_ok then d # protection_layer ssl ctx is_client ps else [])"

definition unprotect_packet ::
  "'e openssl \<Rightarrow> srtp_context \<Rightarrow> bool \<Rightarrow> bool \<Rightarrow> bytes \<Rightarrow> string option + rtp_packet" where
  "unprotect_packet ssl ctx is_client lock_ok data =
     (if \<not> lock_ok then Inl (Some ''Lock failed: poisoned lock: another task failed inside'')
      else case unprotect ssl ctx data is_client of Inl e \<Rightarrow> Inl None | Inr p \<Rightarrow> Inr p)"

text \<open>
  The error line is written while the argument of \<open>map_err\<close> is built, before it is known whether the
  packet was taken: the second component is the log.
\<close>

definition send_unprotected_packet :: "bool \<Rightarrow> bool \<times> string list" where
  "send_unprotected_packet tx_ok = (tx_ok, [''Failed to send unprotected RTP packet''])"

fun unprotection_layer ::
  "'e openssl \<Rightarrow> srtp_context \<Rightarrow> bool \<Rightarrow> (bytes \<times> bool \<times> bool) list \<Rightarrow> rtp_packet list" where
  "unprotection_layer ssl ctx is_client [] = []"
| "unprotection_layer ssl ctx is_client ((d, lock_ok, tx_ok) # ds) =
     (if d = [] \<or> \<not> is_rtp_packet (hd d) then unprotection_layer ssl ctx is_client ds
      else case unprotect_packet ssl ctx is_client lock_ok d of
             Inl e \<Rightarrow> []
           | Inr p \<Rightarrow> if fst (send_unprotected_packet tx_ok) then p # unprotection_layer ssl ctx is_client ds else [])"

declare unprotect_packet_def [simp] send_unprotected_packet_def [simp]

text \<open>Every packet that is delivered is logged as a failure.\<close>

lemma delivery_logged_as_failure:
  "fst (send_unprotected_packet True) \<and> snd (send_unprotected_packet True) = [''Failed to send unprotected RTP packet'']"
  by simp

section \<open>The transport\<close>

datatype media_transport_error =
    BindingError string
  | SocketConnectionError string
  | MediaMapError string
  | CloningSocketError string
  | ConnectionNotStarted
  | MediaSocketConfigFailed
  | ProtectionError string
  | MediaChannelSendError string

record media_transport =
  rtp_address :: "string \<times> u16"
  rtcp_address :: "string \<times> u16"
  rtcp_handler :: bool
  transport_connected :: bool

text \<open>
  \<open>bound\<close> and \<open>addr\<close>: binding an ephemeral port and asking for it. The RTCP port is the next one, the
  addition checked: \<open>None\<close> is the panic when the ephemeral port is the last one.
\<close>

definition media_transport_new ::
  "string + unit \<Rightarrow> string + (string \<times> u16) \<Rightarrow> string + unit \<Rightarrow>
     (media_transport_error + media_transport) option" where
  "media_transport_new bound addr rtcp_bound =
     (case bound of
        Inl e \<Rightarrow> Some (Inl (BindingError e))
      | Inr _ \<Rightarrow>
          (case addr of
             Inl e \<Rightarrow> Some (Inl (BindingError e))
           | Inr (ip, port) \<Rightarrow>
               (case add_chk port 1 of
                  None \<Rightarrow> None
                | Some rtcp_port \<Rightarrow>
                    (case rtcp_bound of
                       Inl e \<Rightarrow> Some (Inl (BindingError e))
                     | Inr _ \<Rightarrow>
                         Some (Inr \<lparr>rtp_address = (ip, port), rtcp_address = (ip, rtcp_port),
                                    rtcp_handler = False, transport_connected = False\<rparr>)))))"

text \<open>The calls of \<open>start\<close> in their order, each with its outcome; errors are their printed form.\<close>

record start_calls =
  clone_for_dtls :: "string + unit"
  dtls_new :: "string + unit"
  connect_rtp :: "string + unit"
  connect_rtcp :: "string + unit"
  exported_keys :: "string + bytes"
  clone_for_rtcp :: "string + unit"
  report_handler_start :: "string + unit"
  flag_after_handshake :: bool
  clone_for_sender :: "string + unit"
  sender_start :: "string + unit"
  clone_for_receiver :: "string + unit"
  receiver_start :: "string + unit"

definition start_srtp_sender :: "start_calls \<Rightarrow> media_transport_error + unit" where
  "start_srtp_sender c =
     result_bind (map_err CloningSocketError (clone_for_sender c)) (\<lambda>_. map_err MediaMapError (sender_start c))"

definition start_srtp_receiver :: "start_calls \<Rightarrow> media_transport_error + unit" where
  "start_srtp_receiver c =
     result_bind (map_err CloningSocketError (clone_for_receiver c)) (\<lambda>_. map_err MediaMapError (receiver_start c))"

definition spawn_rtp_threads ::
  "start_calls \<Rightarrow> media_transport \<Rightarrow> media_transport_error + unit" where
  "spawn_rtp_threads c t =
     (if \<not> rtcp_handler t then Inl ConnectionNotStarted
      else result_bind (start_srtp_sender c) (\<lambda>_. start_srtp_receiver c))"

definition connect_sockets :: "start_calls \<Rightarrow> media_transport_error + unit" where
  "connect_sockets c =
     result_bind (map_err SocketConnectionError (connect_rtp c)) (\<lambda>_. map_err SocketConnectionError (connect_rtcp c))"

definition generate_srtp_ctx :: "start_calls \<Rightarrow> media_transport_error + srtp_context" where
  "generate_srtp_ctx c =
     result_bind (map_err (\<lambda>e. MediaMapError (''Key export failed: '' @ e)) (exported_keys c)) (\<lambda>key_material.
     case srtp_new key_material :: unit srtp_error + srtp_context of
       Inl _ \<Rightarrow> Inl (MediaMapError ''SRTP context creation failed: Key derivation failed'')
     | Inr ctx \<Rightarrow> Inr ctx)"

definition initialize_report_handler ::
  "start_calls \<Rightarrow> media_transport \<Rightarrow> (media_transport_error + unit) \<times> media_transport" where
  "initialize_report_handler c t =
     (case clone_for_rtcp c of
        Inl e \<Rightarrow> (Inl (CloningSocketError e), t)
      | Inr _ \<Rightarrow>
          (let t1 = t\<lparr>transport_connected := flag_after_handshake c\<rparr>
           in case report_handler_start c of
                Inl e \<Rightarrow> (Inl (MediaMapError e), t1)
              | Inr _ \<Rightarrow> (Inr (), t1\<lparr>rtcp_handler := True\<rparr>)))"

text \<open>On success: the SRTP context and the flag that selects the write keys.\<close>

definition media_start ::
  "start_calls \<Rightarrow> dtls_setup_role \<Rightarrow> media_transport \<Rightarrow>
     (media_transport_error + srtp_context \<times> bool) \<times> media_transport" where
  "media_start c role t =
     (case clone_for_dtls c of
        Inl e \<Rightarrow> (Inl (CloningSocketError e), t)
      | Inr _ \<Rightarrow>
     (case dtls_new c of
        Inl e \<Rightarrow> (Inl (MediaMapError e), t)
      | Inr _ \<Rightarrow>
     (case connect_sockets c of
        Inl e \<Rightarrow> (Inl e, t)
      | Inr _ \<Rightarrow>
     (case generate_srtp_ctx c of
        Inl e \<Rightarrow> (Inl e, t)
      | Inr ctx \<Rightarrow>
     (case initialize_report_handler c t of
        (Inl e, t1) \<Rightarrow> (Inl e, t1)
      | (Inr _, t1) \<Rightarrow>
          (case spawn_rtp_threads c t1 of
             Inl e \<Rightarrow> (Inl e, t1)
           | Inr _ \<Rightarrow> (Inr (ctx, role = Active), t1)))))))"

lemmas media_start_defs = media_start_def connect_sockets_def generate_srtp_ctx_def initialize_report_handler_def
  spawn_rtp_threads_def start_srtp_sender_def start_srtp_receiver_def

lemma media_start_flag: "media_start c role t = (Inr (ctx, is_client), t') \<Longrightarrow> is_client \<longleftrightarrow> role = Active"
  by (auto simp: media_start_def split: sum.splits prod.splits)

text \<open>\<open>lock\<close>: whether the report handler's mutex could be taken; \<open>bye\<close>: sending the goodbye.\<close>

definition media_stop ::
  "string + unit \<Rightarrow> string + unit \<Rightarrow> bool \<Rightarrow> string + unit \<Rightarrow> media_transport \<Rightarrow>
     (media_transport_error + bytes list) \<times> media_transport" where
  "media_stop rtp_timeout rtcp_timeout lock bye t =
     (let t1 = t\<lparr>transport_connected := False\<rparr>
      in case rtp_timeout of
           Inl _ \<Rightarrow> (Inl MediaSocketConfigFailed, t1)
         | Inr _ \<Rightarrow>
             (case rtcp_timeout of
                Inl _ \<Rightarrow> (Inl MediaSocketConfigFailed, t1)
              | Inr _ \<Rightarrow>
                  if rtcp_handler t \<and> lock then
                    (case bye of
                       Inl e \<Rightarrow> (Inl (MediaMapError e), t1)
                     | Inr _ \<Rightarrow> (Inr [rtcp_to_bytes Goodbye], t1))
                  else (Inr [], t1)))"

section \<open>Media reaches the other side\<close>

text \<open>What may arrive besides protected packets: datagrams the layer ignores.\<close>

definition noise :: "bytes \<Rightarrow> bool" where
  "noise d = (d = [] \<or> \<not> is_rtp_packet (hd d))"

text \<open>An arrival of \<open>p\<close>: the datagram \<open>protect\<close> made of it, or noise (\<open>None\<close>).\<close>

definition arrival :: "'e openssl \<Rightarrow> srtp_context \<Rightarrow> bool \<Rightarrow> rtp_packet option \<Rightarrow> bytes \<Rightarrow> bool" where
  "arrival ssl ctx is_client src d =
     (case src of None \<Rightarrow> noise d | Some p \<Rightarrow> protect ssl ctx p is_client = Inr d)"

lemma protected_is_rtp:
  assumes "openssl_ok ssl" and "srtp_new km = (Inr ctx :: 'e srtp_error + srtp_context)" and "version p = 2"
    and "protect ssl ctx p is_client = Inr d"
  shows "d \<noteq> [] \<and> is_rtp_packet (hd d) \<and> unprotect ssl ctx d (\<not> is_client) = Inr p"
proof -
  have "version p < 4" using assms(3) by simp
  then have d: "length d \<ge> 43" "take 33 d = rtp_header p" "unprotect ssl ctx d (\<not> is_client) = Inr p"
    using srtp_path[OF assms(1,2), of p is_client] assms(4) by auto
  have "hd d = hd (take 33 d)" using d(1) by (cases d) simp_all
  also have "\<dots> = rtp_to_bytes p ! 0"
    using d(2) length_rtp_header[of p] by (cases "rtp_header p") (simp_all add: rtp_to_bytes_def)
  finally have "is_rtp_packet (hd d)"
    using rtp_first_byte_version[of p] assms(3) by simp
  then show ?thesis using d by auto
qed

text \<open>
  C17. The media path: with the two contexts made from the same exported keys and opposite roles,
  whatever datagrams arrive, in any order and with any losses and duplicates, as long as each is
  a version-2 packet protected by the other side or a datagram of another protocol (none that looks
  like RTP and fails authentication, which would end the layer), the unprotection layer hands on exactly the packets, in the order of arrival, every field intact.
\<close>
theorem media_path:
  assumes "openssl_ok ssl" and "srtp_new km = (Inr ctx :: 'e srtp_error + srtp_context)"
    and "list_all2 (\<lambda>src (d, lock_ok, tx_ok). arrival ssl ctx is_client src d \<and> lock_ok \<and> tx_ok) srcs ds"
    and "\<forall>p. Some p \<in> set srcs \<longrightarrow> version p = 2"
  shows "unprotection_layer ssl ctx (\<not> is_client) ds = List.map_filter id srcs"
  using assms(3,4)
proof (induction srcs ds rule: list_all2_induct)
  case (Cons src srcs r ds)
  obtain d l tx where r: "r = (d, l, tx)" by (cases r) auto
  show ?case
  proof (cases src)
    case None
    then show ?thesis using Cons r by (auto simp: arrival_def noise_def map_filter_simps)
  next
    case (Some p)
    have "protect ssl ctx p is_client = Inr d" "version p = 2"
      using Cons.hyps(1) Cons.prems r Some by (auto simp: arrival_def)
    from protected_is_rtp[OF assms(1,2) this(2,1)] show ?thesis
      using Cons r Some by (simp add: map_filter_simps)
  qed
qed (simp add: map_filter_simps)

text \<open>
  The sender's statistics count what was sent: as long as the statistics can be locked, after
  any number of rounds the packet counter has grown by the number of datagrams sent and the byte
  counter by the sum of their lengths.
\<close>
lemma rtp_sender_counts:
  assumes "rtp_sender rounds m out = Some (m', out')"
    and "\<forall>(conn, data, conn2, sent, lock, bye, stats_lock)\<in>set rounds. stats_lock"
    and "\<forall>(conn, data, conn2, sent, lock, bye, stats_lock)\<in>set rounds. \<forall>d. data = Some d \<longrightarrow> length d < 2 ^ 64"
  shows "\<exists>new. out' = out @ new \<and> unat (packets_sent m') = unat (packets_sent m) + length new \<and>
     unat (bytes_sent m') = unat (bytes_sent m) + sum_list (map length new)"
  using assms
proof (induction rounds m out rule: rtp_sender.induct)
  case (2 conn data conn2 sent lock bye stats_lock rounds m out)
  show ?case
  proof (cases "conn \<and> data \<noteq> None \<and> conn2 \<and> sent")
    case False
    then have "m' = m \<and> out' = out" using 2(2) by (auto simp: send_packet_def split: option.splits if_splits)
    then show ?thesis by simp
  next
    case True
    then obtain d n k where d: "data = Some d" "add_chk (packets_sent m) 1 = Some n"
      "add_chk (bytes_sent m) (word_of_nat (length d)) = Some k"
      "rtp_sender rounds (m\<lparr>packets_sent := n, bytes_sent := k\<rparr>) (out @ [d]) = Some (m', out')"
      using 2(2,3) by (auto simp: send_packet_def split: option.splits)
    have len: "unat (word_of_nat (length d) :: u64) = length d" using 2(4) d(1) by (simp add: unat_of_nat)
    from 2(1)[OF _ d(1), of "(Inr (), m\<lparr>packets_sent := n, bytes_sent := k\<rparr>)" "Inr ()" "m\<lparr>packets_sent := n, bytes_sent := k\<rparr>" "()"]
    obtain new where "out' = (out @ [d]) @ new" "unat (packets_sent m') = unat n + length new"
      "unat (bytes_sent m') = unat k + sum_list (map length new)"
      using True d 2(3,4) by (auto simp: send_packet_def)
    then show ?thesis using add_chk_unat[OF d(2)] add_chk_unat[OF d(3)] len
      by (intro exI[of _ "d # new"]) simp
  qed
qed simp

theorem media_path_witness:
  "\<exists>d. protect xor_ssl sample_ctx sample_packet True = Inr d \<and> unprotection_layer xor_ssl sample_ctx False
       [([], True, True), (d, True, True), ([22, 254], True, True), (d, True, True)] =
     [sample_packet, sample_packet]"
proof -
  let ?km = "replicate 16 1 @ replicate 16 2 @ replicate 14 3 @ replicate 14 (4::u8)"
  have km: "srtp_new ?km = (Inr sample_ctx :: unit srtp_error + srtp_context)"
    by (simp add: srtp_new_def sample_ctx_def slice_def)
  have v: "version sample_packet = 2" by (simp add: sample_packet_def)
  obtain d where d: "protect xor_ssl sample_ctx sample_packet True = Inr d"
    using srtp_path[OF xor_ssl_ok km, of sample_packet True] v by auto
  have n: "noise []" "noise [22, 254]" by (simp_all add: noise_def is_rtp_packet_def)
  have "unprotection_layer xor_ssl sample_ctx (\<not> True)
       [([], True, True), (d, True, True), ([22, 254], True, True), (d, True, True)] =
      List.map_filter id [None, Some sample_packet, None, Some sample_packet]"
    by (rule media_path[OF xor_ssl_ok km]) (use d n v in \<open>auto simp: arrival_def\<close>)
  then show ?thesis using d
    by (intro exI[of _ d]) (simp add: map_filter_simps del: unprotection_layer.simps)
qed

theorem rtp_sender_counts_witness:
  "\<exists>new m'. rtp_sender [(True, Some [1, 2, 3], True, True, True, Inr (), True)] sender_stats_default [] =
       Some (m', new) \<and> unat (packets_sent m') = length new \<and> unat (bytes_sent m') = sum_list (map length new)"
proof -
  have "\<exists>m'. rtp_sender [(True, Some [1, 2, 3], True, True, True, Inr (), True)] sender_stats_default [] =
      Some (m', [[1, 2, 3]])"
    by (simp add: send_packet_def sender_stats_default_def add_chk_def)
  then obtain m' where m: "rtp_sender [(True, Some [1, 2, 3], True, True, True, Inr (), True)] sender_stats_default [] =
      Some (m', [[1, 2, 3]])" by blast
  from rtp_sender_counts[OF m] show ?thesis using m by (auto simp: sender_stats_default_def)
qed

section \<open>Where the transport misbehaves\<close>

text \<open>
  The unprotection thread ends at the first datagram it cannot authenticate. Anyone who can send
  one datagram to the socket with a first byte between 128 and 191 stops the reception of media
  for the rest of the call, and no event reports it.
\<close>

theorem forged_datagram_stops_media:
  assumes "is_rtp_packet (hd d)" and "d \<noteq> []" and "length d < 43"
  shows "unprotection_layer ssl ctx is_client ((d, lock_ok, tx_ok) # ds) = []"
  using assms by (simp add: unprotect_def)

text \<open>If the ephemeral RTP port is the last one, computing the RTCP port overflows.\<close>

theorem last_port_panics: "media_transport_new (Inr ()) (Inr (ip, 65535)) rtcp_bound = None"
  by (simp add: media_transport_new_def add_chk_def)

end
