(* ===== verification/Audio_Capture.thy ===== *)
theory Audio_Capture
  imports Rust_Prelude
begin

text \<open>
  The audio ring buffer, \<^verbatim>\<open>src/media/audio/ring_buffer.rs\<close>, and the capture callback of
  \<^verbatim>\<open>src/media/audio/microphone.rs\<close> that fills it and cuts fixed-size frames from it. Samples are
  only moved, so they are a type variable; \<open>None\<close> is an index panic (or, for the drain loop, a
  loop that does not end).
\<close>

record 'a ring_buffer =
  buffer :: "'a list"
  ring_size :: nat
  write_pos :: nat
  read_pos :: nat
  ring_count :: nat

definition ring_new :: "'a \<Rightarrow> nat \<Rightarrow> 'a ring_buffer" where
  "ring_new zero capacity =
     \<lparr>buffer = replicate capacity zero, ring_size = capacity, write_pos = 0, read_pos = 0, ring_count = 0\<rparr>"

definition push_sample :: "'a ring_buffer \<Rightarrow> 'a \<Rightarrow> 'a ring_buffer option" where
  "push_sample r x =
     (if length (buffer r) \<le> write_pos r \<or> ring_size r = 0 then None
      else
        (let r1 = r\<lparr>buffer := (buffer r)[write_pos r := x], write_pos := (write_pos r + 1) mod ring_size r\<rparr>
         in if ring_count r < ring_size r then Some (r1\<lparr>ring_count := ring_count r + 1\<rparr>)
            else Some (r1\<lparr>read_pos := (read_pos r + 1) mod ring_size r\<rparr>)))"

fun push :: "'a ring_buffer \<Rightarrow> 'a list \<Rightarrow> 'a ring_buffer option" where
  "push r [] = Some r"
| "push r (x # xs) = (case push_sample r x of None \<Rightarrow> None | Some r1 \<Rightarrow> push r1 xs)"

fun pop_samples :: "nat \<Rightarrow> 'a ring_buffer \<Rightarrow> 'a list \<Rightarrow> ('a list \<times> 'a ring_buffer) option" where
  "pop_samples 0 r chunk = Some (chunk, r)"
| "pop_samples (Suc k) r chunk =
     (if length (buffer r) \<le> read_pos r \<or> ring_size r = 0 then None
      else pop_samples k (r\<lparr>read_pos := (read_pos r + 1) mod ring_size r\<rparr>) (chunk @ [buffer r ! read_pos r]))"

definition pop_chunk :: "'a ring_buffer \<Rightarrow> nat \<Rightarrow> ('a list option \<times> 'a ring_buffer) option" where
  "pop_chunk r chunk_size =
     (if ring_count r < chunk_size then Some (None, r)
      else case pop_samples chunk_size r [] of
             None \<Rightarrow> None
           | Some (chunk, r1) \<Rightarrow> Some (Some chunk, r1\<lparr>ring_count := ring_count r1 - chunk_size\<rparr>))"

section \<open>Refinement of a bounded queue\<close>

definition ring_wf :: "'a ring_buffer \<Rightarrow> bool" where
  "ring_wf r = (length (buffer r) = ring_size r \<and> 0 < ring_size r \<and> read_pos r < ring_size r \<and>
     ring_count r \<le> ring_size r \<and> write_pos r = (read_pos r + ring_count r) mod ring_size r)"

definition contents :: "'a ring_buffer \<Rightarrow> 'a list" where
  "contents r = map (\<lambda>i. buffer r ! ((read_pos r + i) mod ring_size r)) [0..<ring_count r]"

text \<open>What a bounded queue that overwrites its oldest elements keeps.\<close>

definition last_n :: "nat \<Rightarrow> 'a list \<Rightarrow> 'a list" where
  "last_n n xs = drop (length xs - n) xs"

lemma length_contents [simp]: "length (contents r) = ring_count r"
  by (simp add: contents_def)

lemma ring_new_wf: "0 < n \<Longrightarrow> ring_wf (ring_new z n) \<and> contents (ring_new z n) = []"
  by (simp add: ring_wf_def contents_def ring_new_def)

lemma push_sample_room:
  assumes wf: "ring_wf r" and room: "ring_count r < ring_size r"
  obtains r' where "push_sample r x = Some r'" "ring_wf r'" "ring_size r' = ring_size r"
    "contents r' = contents r @ [x]"
proof -
  let ?n = "ring_size r" and ?w = "write_pos r"
  let ?r = "r\<lparr>buffer := (buffer r)[?w := x], write_pos := (?w + 1) mod ?n, ring_count := ring_count r + 1\<rparr>"
  have w: "?w < ?n" "?w = (read_pos r + ring_count r) mod ?n" using wf by (auto simp: ring_wf_def)
  have len: "length (buffer r) = ?n" using wf by (simp add: ring_wf_def)
  have "push_sample r x = Some ?r" using w(1) len room by (simp add: push_sample_def Let_def)
  moreover have "ring_wf ?r" using wf room by (simp add: ring_wf_def mod_Suc_eq)
  moreover have "contents ?r = contents r @ [x]"
  proof -
    have "(buffer r)[?w := x] ! ((read_pos r + i) mod ?n) = buffer r ! ((read_pos r + i) mod ?n)"
      if "i < ring_count r" for i
    proof -
      have "(read_pos r + i) mod ?n \<noteq> ?w"
        using ring_distinct[of "read_pos r" i ?n "ring_count r"] that room w(2) by auto
      then show ?thesis by simp
    qed
    moreover have "(buffer r)[?w := x] ! ((read_pos r + ring_count r) mod ?n) = x"
      using w len by (metis nth_list_update_eq)
    ultimately show ?thesis by (simp add: contents_def)
  qed
  ultimately show ?thesis using that[of ?r] by simp
qed

lemma push_sample_full:
  assumes wf: "ring_wf r" and full: "ring_count r = ring_size r"
  obtains r' where "push_sample r x = Some r'" "ring_wf r'" "ring_size r' = ring_size r"
    "contents r' = tl (contents r) @ [x]"
proof -
  let ?n = "ring_size r" and ?p = "read_pos r"
  let ?r = "r\<lparr>buffer := (buffer r)[?p := x], write_pos := (?p + 1) mod ?n, read_pos := (?p + 1) mod ?n\<rparr>"
  have p: "?p < ?n" "write_pos r = ?p" "length (buffer r) = ?n" using wf full by (auto simp: ring_wf_def)
  obtain m where m: "?n = Suc m" using p(1) by (cases ?n) auto
  have "push_sample r x = Some ?r" using p full by (simp add: push_sample_def Let_def)
  moreover have "ring_wf ?r" using wf full by (simp add: ring_wf_def mod_Suc_eq)
  moreover have "contents ?r = tl (contents r) @ [x]"
  proof -
    have shift: "((?p + 1) mod ?n + i) mod ?n = (?p + Suc i) mod ?n" for i
      by (simp add: mod_add_left_eq)
    have old: "(buffer r)[?p := x] ! ((?p + Suc i) mod ?n) = buffer r ! ((?p + Suc i) mod ?n)" if "i < m" for i
    proof -
      have "(?p + Suc i) mod ?n \<noteq> (?p + 0) mod ?n"
        using ring_distinct[of ?p "Suc i" ?n 0] that m by auto
      then show ?thesis using p by simp
    qed
    have new: "(buffer r)[?p := x] ! ((?p + Suc m) mod ?n) = x"
      using p m[symmetric] by simp
    have "contents r = buffer r ! ?p # map (\<lambda>i. buffer r ! ((?p + Suc i) mod ?n)) [0..<m]"
      using p full m by (simp add: contents_def upt_conv_Cons map_Suc_upt[symmetric] comp_def del: upt_Suc)
    moreover have "contents ?r = map (\<lambda>i. (buffer r)[?p := x] ! (((?p + 1) mod ?n + i) mod ?n)) [0..<ring_count r]"
      by (simp add: contents_def)
    then have "contents ?r = map (\<lambda>i. (buffer r)[?p := x] ! ((?p + Suc i) mod ?n)) [0..<Suc m]"
      unfolding shift by (simp only: full m)
    ultimately show ?thesis using old new by simp
  qed
  ultimately show ?thesis using that[of ?r] by simp
qed

lemma last_n_snoc_room: "length xs < n \<Longrightarrow> last_n n (xs @ [x]) = xs @ [x]"
  by (simp add: last_n_def)

lemma last_n_snoc_full: "length xs = n \<Longrightarrow> 0 < n \<Longrightarrow> last_n n (xs @ [x]) = tl xs @ [x]"
  by (simp add: last_n_def drop_Suc)

lemma last_n_last_n: "last_n n (last_n n xs @ zs) = last_n n (xs @ zs)"
proof (cases "length xs \<le> n")
  case False
  then have "drop (length xs - n) (xs @ zs) = drop (length xs - n) xs @ zs" by simp
  then have "drop (length zs) (drop (length xs - n) xs @ zs) = drop (length zs + (length xs - n)) (xs @ zs)"
    by (metis drop_drop)
  then show ?thesis using False by (simp add: last_n_def add.commute)
qed (simp add: last_n_def)

lemma push_refines:
  "ring_wf r \<Longrightarrow> \<exists>r'. push r xs = Some r' \<and> ring_wf r' \<and> ring_size r' = ring_size r \<and>
     contents r' = last_n (ring_size r) (contents r @ xs)"
proof (induction xs arbitrary: r)
  case Nil
  then show ?case by (simp add: last_n_def ring_wf_def)
next
  case (Cons x xs)
  obtain r1 where r1: "push_sample r x = Some r1" "ring_wf r1" "ring_size r1 = ring_size r"
    "contents r1 = last_n (ring_size r) (contents r @ [x])"
  proof (cases "ring_count r < ring_size r")
    case True
    then show ?thesis
      using push_sample_room[OF Cons.prems, of x] that last_n_snoc_room[of "contents r"] by auto
  next
    case False
    then have "ring_count r = ring_size r" "0 < ring_size r" using Cons.prems by (auto simp: ring_wf_def)
    then show ?thesis
      using push_sample_full[OF Cons.prems, of x] that last_n_snoc_full[of "contents r" "ring_size r"] by auto
  qed
  then show ?case using Cons.IH[OF r1(2)] last_n_last_n[of "ring_size r" "contents r @ [x]" xs] by auto
qed

lemma pop_samples_spec:
  "length (buffer r) = ring_size r \<Longrightarrow> read_pos r < ring_size r \<Longrightarrow> pop_samples k r acc =
     Some (acc @ map (\<lambda>i. buffer r ! ((read_pos r + i) mod ring_size r)) [0..<k],
           r\<lparr>read_pos := (read_pos r + k) mod ring_size r\<rparr>)"
proof (induction k arbitrary: r acc)
  case (Suc k)
  let ?n = "ring_size r" and ?p = "read_pos r"
  let ?r = "r\<lparr>read_pos := (?p + 1) mod ?n\<rparr>"
  have n: "0 < ?n" using Suc.prems(2) by linarith
  have shift: "((?p + 1) mod ?n + i) mod ?n = (?p + Suc i) mod ?n" for i
    by (simp add: mod_add_left_eq)
  have "pop_samples k ?r (acc @ [buffer r ! ?p]) =
      Some ((acc @ [buffer r ! ?p]) @ map (\<lambda>i. buffer r ! ((?p + Suc i) mod ?n)) [0..<k],
            r\<lparr>read_pos := (?p + Suc k) mod ?n\<rparr>)"
    using Suc.IH[of ?r "acc @ [buffer r ! ?p]"] Suc.prems n by (simp add: shift[simplified])
  moreover have "map (\<lambda>i. buffer r ! ((?p + i) mod ?n)) [0..<Suc k] =
      buffer r ! ?p # map (\<lambda>i. buffer r ! ((?p + Suc i) mod ?n)) [0..<k]"
    using Suc.prems by (simp add: upt_conv_Cons map_Suc_upt[symmetric] comp_def del: upt_Suc)
  ultimately show ?case using Suc.prems n by (simp del: upt_Suc)
qed simp

lemma pop_chunk_refines:
  assumes wf: "ring_wf r"
  shows "pop_chunk r n =
     (if ring_count r < n then Some (None, r)
      else Some (Some (take n (contents r)),
                 r\<lparr>read_pos := (read_pos r + n) mod ring_size r, ring_count := ring_count r - n\<rparr>))"
  and "n \<le> ring_count r \<Longrightarrow>
     ring_wf (r\<lparr>read_pos := (read_pos r + n) mod ring_size r, ring_count := ring_count r - n\<rparr>) \<and>
     contents (r\<lparr>read_pos := (read_pos r + n) mod ring_size r, ring_count := ring_count r - n\<rparr>) =
       drop n (contents r)"
proof -
  have r: "length (buffer r) = ring_size r" "read_pos r < ring_size r" using wf by (auto simp: ring_wf_def)
  have "map (\<lambda>i. buffer r ! ((read_pos r + i) mod ring_size r)) [0..<n] = take n (contents r)"
    if "n \<le> ring_count r" using that by (simp add: contents_def take_map)
  then show "pop_chunk r n = (if ring_count r < n then Some (None, r)
      else Some (Some (take n (contents r)),
                 r\<lparr>read_pos := (read_pos r + n) mod ring_size r, ring_count := ring_count r - n\<rparr>))"
    using pop_samples_spec[OF r, of n "[]"] by (simp add: pop_chunk_def)
  assume n: "n \<le> ring_count r"
  have shift: "((read_pos r + n) mod ring_size r + i) mod ring_size r = (read_pos r + (n + i)) mod ring_size r" for i
    by (simp add: mod_add_left_eq add.assoc)
  have "map (\<lambda>i. buffer r ! ((read_pos r + (n + i)) mod ring_size r)) [0..<ring_count r - n] = drop n (contents r)"
    using n by (intro nth_equalityI) (auto simp: contents_def less_diff_conv add.commute)
  moreover have "ring_wf (r\<lparr>read_pos := (read_pos r + n) mod ring_size r, ring_count := ring_count r - n\<rparr>)"
  proof -
    have "((read_pos r + n) mod ring_size r + (ring_count r - n)) mod ring_size r =
        (read_pos r + ring_count r) mod ring_size r"
      unfolding shift using n by simp
    then show ?thesis using wf by (auto simp: ring_wf_def)
  qed
  ultimately show "ring_wf (r\<lparr>read_pos := (read_pos r + n) mod ring_size r, ring_count := ring_count r - n\<rparr>) \<and>
     contents (r\<lparr>read_pos := (read_pos r + n) mod ring_size r, ring_count := ring_count r - n\<rparr>) =
       drop n (contents r)"
    by (simp add: contents_def[of "_\<lparr>ring_count := _\<rparr>"] shift)
qed

text \<open>
  The contract a producer of fixed-size frames needs from its buffer: a queue of bounded capacity
  that keeps the newest elements and hands them out in order.
\<close>

locale frame_queue =
  fixes inv :: "'q \<Rightarrow> bool" and items :: "'q \<Rightarrow> 'a list" and capacity :: "'q \<Rightarrow> nat"
    and put :: "'q \<Rightarrow> 'a list \<Rightarrow> 'q option"
    and get :: "'q \<Rightarrow> nat \<Rightarrow> ('a list option \<times> 'q) option"
  assumes put_law: "inv q \<Longrightarrow> \<exists>q'. put q xs = Some q' \<and> inv q' \<and> capacity q' = capacity q \<and>
      items q' = last_n (capacity q) (items q @ xs)"
    and get_short: "inv q \<Longrightarrow> length (items q) < n \<Longrightarrow> get q n = Some (None, q)"
    and get_law: "inv q \<Longrightarrow> n \<le> length (items q) \<Longrightarrow> \<exists>q'. get q n = Some (Some (take n (items q)), q') \<and>
      inv q' \<and> capacity q' = capacity q \<and> items q' = drop n (items q)"
begin

text \<open>Draining frame by frame: the frames in order, then what is too short for another one.\<close>

inductive drains :: "nat \<Rightarrow> 'q \<Rightarrow> 'a list list \<Rightarrow> 'q \<Rightarrow> bool" for n where
  stop: "get q n = Some (None, q') \<Longrightarrow> drains n q [] q'"
| frame: "get q n = Some (Some c, q1) \<Longrightarrow> drains n q1 cs q' \<Longrightarrow> drains n q (c # cs) q'"

lemma drains_exists:
  "inv q \<Longrightarrow> 0 < n \<Longrightarrow> \<exists>cs q'. drains n q cs q' \<and> inv q' \<and> capacity q' = capacity q \<and>
     items q = concat cs @ items q' \<and> length (items q') < n \<and> (\<forall>c\<in>set cs. length c = n)"
proof (induction "length (items q)" arbitrary: q rule: less_induct)
  case less
  show ?case
  proof (cases "length (items q) < n")
    case True
    then have "drains n q [] q" using get_short less.prems(1) stop by blast
    then show ?thesis using True less.prems by (intro exI[of _ "[]"] exI[of _ q]) simp
  next
    case False
    then obtain q1 where q1: "get q n = Some (Some (take n (items q)), q1)" "inv q1"
      "capacity q1 = capacity q" "items q1 = drop n (items q)"
      using get_law[OF less.prems(1), of n] by auto
    have "length (items q1) < length (items q)" using q1(4) False less.prems(2) by simp
    from less.hyps[OF this q1(2) less.prems(2)] obtain cs q' where
      "drains n q1 cs q'" "inv q'" "capacity q' = capacity q1" "items q1 = concat cs @ items q'"
      "length (items q') < n" "\<forall>c\<in>set cs. length c = n" by blast
    moreover have "items q = take n (items q) @ items q1" using q1(4) by simp
    ultimately show ?thesis
      using q1 False frame[OF q1(1)] by (intro exI[of _ "take n (items q) # cs"] exI[of _ q']) auto
  qed
qed

end

interpretation ring: frame_queue ring_wf contents ring_size push pop_chunk
proof (unfold_locales, goal_cases)
  case (1 q xs)
  then show ?case using push_refines by blast
next
  case (2 q n)
  then show ?case by (simp add: pop_chunk_refines(1))
next
  case (3 q n)
  then show ?case using pop_chunk_refines[of q n] by (simp add: not_less)
qed

section \<open>The capture callback\<close>

text \<open>
  The loop of the callback: \<open>now\<close> gives the clock readings, \<open>ok\<close> whether the receiving thread still
  takes the frame. A frame is its samples with its timestamp.
\<close>

partial_function (option) mic_drain ::
  "(nat \<Rightarrow> u128) \<Rightarrow> (nat \<Rightarrow> bool) \<Rightarrow> nat \<Rightarrow> 'a ring_buffer \<Rightarrow> ('a list \<times> u128) list \<Rightarrow>
     (('a list \<times> u128) list \<times> 'a ring_buffer) option" where
  "mic_drain now ok n r out =
     (case pop_chunk r n of
        None \<Rightarrow> None
      | Some (c, r1) \<Rightarrow>
          (case c of
             None \<Rightarrow> Some (out, r1)
           | Some chunk \<Rightarrow>
               if ok (length out) then mic_drain now ok n r1 (out @ [(chunk, now (length out))])
               else Some (out, r1)))"

text \<open>\<open>resampled\<close> is the captured batch after the conversion to mono and to the target rate.\<close>

definition mic_callback ::
  "(nat \<Rightarrow> u128) \<Rightarrow> (nat \<Rightarrow> bool) \<Rightarrow> nat \<Rightarrow> bool \<Rightarrow> 'a list \<Rightarrow> 'a ring_buffer \<Rightarrow>
     (('a list \<times> u128) list \<times> 'a ring_buffer) option" where
  "mic_callback now ok opus_frame_size muted resampled r =
     (if muted then Some ([], r)
      else case push r resampled of
             None \<Rightarrow> None
           | Some r1 \<Rightarrow> mic_drain now ok opus_frame_size r1 [])"

fun mic_run ::
  "(nat \<Rightarrow> u128) \<Rightarrow> nat \<Rightarrow> 'a list list \<Rightarrow> 'a ring_buffer \<Rightarrow> ('a list list \<times> 'a ring_buffer) option" where
  "mic_run now n [] r = Some ([], r)"
| "mic_run now n (batch # batches) r =
     (case mic_callback now (\<lambda>_. True) n False batch r of
        None \<Rightarrow> None
      | Some (frames, r1) \<Rightarrow> map_option (apfst ((@) (map fst frames))) (mic_run now n batches r1))"

lemma mic_drain_frames:
  "ring.drains n r cs r' \<Longrightarrow>
     \<exists>frames. mic_drain now (\<lambda>_. True) n r out = Some (out @ frames, r') \<and> map fst frames = cs"
proof (induction arbitrary: out rule: ring.drains.induct)
  case (stop q q')
  then show ?case by (subst mic_drain.simps) simp
next
  case (frame q c q1 cs q')
  from frame.IH[of "out @ [(c, now (length out))]"] frame.hyps(1) show ?case
    by (subst mic_drain.simps) (auto simp: Cons_eq_map_conv)
qed

lemma mic_callback_frames:
  assumes "ring_wf r" and "0 < n"
  shows "\<exists>frames r'. mic_callback now (\<lambda>_. True) n False batch r = Some (frames, r') \<and>
     ring_wf r' \<and> ring_size r' = ring_size r \<and>
     last_n (ring_size r) (contents r @ batch) = concat (map fst frames) @ contents r' \<and>
     length (contents r') < n \<and> (\<forall>f\<in>set frames. length (fst f) = n)"
proof -
  obtain r1 where r1: "push r batch = Some r1" "ring_wf r1" "ring_size r1 = ring_size r"
    "contents r1 = last_n (ring_size r) (contents r @ batch)"
    using push_refines[OF assms(1)] by blast
  obtain cs r' where d: "ring.drains n r1 cs r'" "ring_wf r'" "ring_size r' = ring_size r1"
    "contents r1 = concat cs @ contents r'" "length (contents r') < n" "\<forall>c\<in>set cs. length c = n"
    using ring.drains_exists[OF r1(2) assms(2)] by blast
  obtain frames where "mic_drain now (\<lambda>_. True) n r1 [] = Some ([] @ frames, r')" "map fst frames = cs"
    using mic_drain_frames[OF d(1)] by blast
  moreover from this(2) d(6) have "\<forall>f\<in>set frames. length (fst f) = n" by fastforce
  ultimately show ?thesis using r1 d by (simp add: mic_callback_def)
qed

text \<open>
  The capture callback loses and reorders nothing: from an empty ring of ten frames, whatever
  batches of at most nine frames and one sample the device delivers, every run of the callback ends,
  the frames sent have exactly the frame size, and put together in order, followed by the
  fewer than one frame still buffered, they are the captured samples.
\<close>
theorem mic_stream_lossless:
  assumes "0 < n" and "\<forall>b\<in>set batches. length b \<le> 9 * n + 1"
  shows "\<exists>frames r. mic_run now n batches (ring_new z (10 * n)) = Some (frames, r) \<and>
     concat batches = concat frames @ contents r \<and> length (contents r) < n \<and>
     (\<forall>f\<in>set frames. length f = n)"
proof -
  have "\<exists>frames r'. mic_run now n batches r = Some (frames, r') \<and>
     contents r @ concat batches = concat frames @ contents r' \<and> length (contents r') < n \<and>
     (\<forall>f\<in>set frames. length f = n)"
    if "ring_wf r" "ring_size r = 10 * n" "length (contents r) < n" for r
    using that assms(2)
  proof (induction batches arbitrary: r)
    case (Cons b bs)
    obtain fs r1 where c: "mic_callback now (\<lambda>_. True) n False b r = Some (fs, r1)" "ring_wf r1"
      "ring_size r1 = ring_size r" "last_n (ring_size r) (contents r @ b) = concat (map fst fs) @ contents r1"
      "length (contents r1) < n" "\<forall>f\<in>set fs. length (fst f) = n"
      using mic_callback_frames[OF Cons.prems(1) assms(1)] by blast
    have keep: "contents r @ b = concat (map fst fs) @ contents r1"
      using c(4) Cons.prems by (simp add: last_n_def)
    obtain gs r' where g: "mic_run now n bs r1 = Some (gs, r')" "contents r1 @ concat bs = concat gs @ contents r'"
      "length (contents r') < n" "\<forall>f\<in>set gs. length f = n"
      using Cons.IH[of r1] Cons.prems c by auto
    have "contents r @ concat (b # bs) = concat (map fst fs @ gs) @ contents r'"
      using keep g(2) by (metis append.assoc concat.simps(2) concat_append)
    then show ?case using c g by auto
  qed simp
  from this[of "ring_new z (10 * n)"] show ?thesis
    using ring_new_wf[of "10 * n" z] assms(1) by (simp add: ring_new_def)
qed

theorem mic_stream_lossless_witness:
  "\<exists>frames r. mic_run (\<lambda>_. 0) 2 [[1, 2, 3], [4], [5, 6, 7]] (ring_new (0::nat) (10 * 2)) = Some (frames, r) \<and>
     concat [[1, 2, 3], [4], [5, 6, 7]] = concat frames @ contents r \<and> length (contents r) < 2 \<and>
     (\<forall>f\<in>set frames. length f = 2)"
  by (rule mic_stream_lossless) simp_all

text \<open>
  C33. The ring refines a bounded queue: \<open>push\<close> never panics and leaves the newest elements of the
  old contents followed by the pushed ones, \<open>pop_chunk\<close> takes exactly the oldest elements when
  enough are there and otherwise changes nothing.
\<close>
theorem ring_refines_queue:
  assumes "ring_wf r"
  shows "(\<exists>r'. push r xs = Some r' \<and> ring_wf r' \<and> ring_size r' = ring_size r \<and>
            contents r' = last_n (ring_size r) (contents r @ xs)) \<and>
     (if length (contents r) < n then pop_chunk r n = Some (None, r)
      else \<exists>r'. pop_chunk r n = Some (Some (take n (contents r)), r') \<and> ring_wf r' \<and>
             ring_size r' = ring_size r \<and> contents r' = drop n (contents r))"
  using ring.put_law[OF assms] ring.get_short[OF assms] ring.get_law[OF assms] by (simp add: not_less)

theorem ring_refines_queue_witness:
  "(\<exists>r'. push (ring_new (0::nat) 2) [7, 8, 9] = Some r' \<and> ring_wf r' \<and> contents r' = [8, 9]) \<and>
   pop_chunk (ring_new (0::nat) 2) 1 = Some (None, ring_new 0 2)"
  using ring_refines_queue[of "ring_new (0::nat) 2" "[7, 8, 9]" 1] ring_new_wf[of 2 "0::nat"]
  by (auto simp: last_n_def ring_new_def)

end
