(* ===== verification/Audio_Devices.thy ===== *)
theory Audio_Devices
  imports Complex_Main Audio_Capture
begin

text \<open>
  Samples: the conversion to mono and to the target rate in \<^verbatim>\<open>src/media/audio/microphone.rs\<close>, and the
  speaker of \<^verbatim>\<open>src/media/audio/speaker.rs\<close>. A finite value of \<open>f32\<close> is a rational number, and an
  operation on two of them is the exact one followed by a rounding \<open>rnd\<close>, an argument of the
  definitions. \<open>None\<close> is an index panic or a loop that does not end.
\<close>

section \<open>Arithmetic with rounding\<close>

type_synonym f32 = rat

text \<open>The cast of an index to \<open>f32\<close> rounds; the cast back truncates and saturates at zero.\<close>

definition from_usize :: "(rat \<Rightarrow> rat) \<Rightarrow> nat \<Rightarrow> f32" where
  "from_usize rnd n = rnd (of_nat n)"

definition as_usize :: "f32 \<Rightarrow> nat" where
  "as_usize x = nat \<lfloor>x\<rfloor>"

definition interpolate :: "(rat \<Rightarrow> rat) \<Rightarrow> f32 \<Rightarrow> f32 \<Rightarrow> f32 \<Rightarrow> f32" where
  "interpolate rnd sample_a sample_b fpart =
     rnd (rnd (sample_a * rnd (1 - fpart)) + rnd (sample_b * fpart))"

section \<open>Microphone\<close>

text \<open>A stereo chunk with one sample only is an index panic, as are chunks of size zero.\<close>

fun average :: "(rat \<Rightarrow> rat) \<Rightarrow> f32 list \<Rightarrow> f32 option" where
  "average rnd (l # r # _) = Some (rnd (rnd (l + r) * (1 / 2)))"
| "average rnd _ = None"

fun all_some :: "'a option list \<Rightarrow> 'a list option" where
  "all_some [] = Some []"
| "all_some (None # xs) = None"
| "all_some (Some x # xs) = map_option ((#) x) (all_some xs)"

definition convert_to_mono :: "(rat \<Rightarrow> rat) \<Rightarrow> f32 list \<Rightarrow> nat \<Rightarrow> f32 list option" where
  "convert_to_mono rnd data channels =
     (if channels = 1 then Some data
      else if channels = 2 then all_some (map (average rnd) (chunk_list 2 data))
      else if channels = 0 then None
      else Some (map hd (chunk_list channels data)))"

partial_function (option) resample_loop ::
  "(rat \<Rightarrow> rat) \<Rightarrow> f32 list \<Rightarrow> f32 \<Rightarrow> f32 \<Rightarrow> f32 list \<Rightarrow> (f32 list \<times> f32) option" where
  "resample_loop rnd source phase step resampled =
     (if phase < rnd (from_usize rnd (length source) - 1) then
        (let idx = as_usize phase;
             fpart = rnd (phase - from_usize rnd idx)
         in if idx + 1 < length source then
              resample_loop rnd source (rnd (phase + step)) step
                (resampled @ [interpolate rnd (source ! idx) (source ! (idx + 1)) fpart])
            else None)
      else Some (resampled, phase))"

definition resample_linear :: "(rat \<Rightarrow> rat) \<Rightarrow> f32 list \<Rightarrow> f32 \<Rightarrow> f32 \<Rightarrow> (f32 list \<times> f32) option" where
  "resample_linear rnd source phase step =
     (case resample_loop rnd source phase step [] of
        None \<Rightarrow> None
      | Some (resampled, phase1) \<Rightarrow>
          (let phase2 = rnd (phase1 - from_usize rnd (length source))
           in Some (resampled, if phase2 < 0 then 0 else phase2)))"

text \<open>
  One call of the capture callback of \<open>generate_input_stream\<close>, from the device's samples on.
\<close>

definition capture_callback ::
  "(rat \<Rightarrow> rat) \<Rightarrow> (nat \<Rightarrow> u128) \<Rightarrow> (nat \<Rightarrow> bool) \<Rightarrow> nat \<Rightarrow> nat \<Rightarrow> f32 \<Rightarrow> bool \<Rightarrow> f32 list \<Rightarrow> f32 ring_buffer \<times> f32 \<Rightarrow>
     ((f32 list \<times> u128) list \<times> f32 ring_buffer \<times> f32) option" where
  "capture_callback rnd now ok opus_frame_size channels step muted data = (\<lambda>(r, phase).
     if muted then Some ([], r, phase)
     else case convert_to_mono rnd data channels of
            None \<Rightarrow> None
          | Some mono_data \<Rightarrow>
              (case resample_linear rnd mono_data phase step of
                 None \<Rightarrow> None
               | Some (resampled, phase1) \<Rightarrow>
                   map_option (\<lambda>(frames, r1). (frames, r1, phase1))
                     (mic_callback now ok opus_frame_size False resampled r)))"

section \<open>Speaker\<close>

text \<open>\<open>packets\<close>: what waits in the channel; \<open>lock\<close>: whether its mutex can be taken.\<close>

definition fetch_new_samples :: "bool \<Rightarrow> f32 list list \<Rightarrow> f32 list \<Rightarrow> f32 list" where
  "fetch_new_samples lock packets buf = (if lock then buf @ concat packets else buf)"

text \<open>The inner loop: the value into every channel of the frame that is still in the buf.\<close>

definition write_frame :: "nat \<Rightarrow> nat \<Rightarrow> f32 \<Rightarrow> f32 list \<Rightarrow> f32 list" where
  "write_frame channels write_idx v output =
     fold (\<lambda>c out. if write_idx + c < length out then out[write_idx + c := v] else out) [0..<channels] output"

partial_function (option) process_loop ::
  "(rat \<Rightarrow> rat) \<Rightarrow> f32 list \<Rightarrow> f32 \<Rightarrow> nat \<Rightarrow> f32 list \<Rightarrow> f32 \<Rightarrow> nat \<Rightarrow> (f32 list \<times> f32) option" where
  "process_loop rnd input step channels output phase write_idx =
     (if length output \<le> write_idx then Some (output, phase)
      else if rnd (from_usize rnd (length input) - 1) \<le> phase then Some (output, phase)
      else
        (let idx = as_usize phase;
             fpart = rnd (phase - from_usize rnd idx)
         in if idx + 1 < length input then
              process_loop rnd input step channels
                (write_frame channels write_idx (interpolate rnd (input ! idx) (input ! (idx + 1)) fpart) output)
                (rnd (phase + step)) (write_idx + channels)
            else None))"

definition process_audio_frame ::
  "(rat \<Rightarrow> rat) \<Rightarrow> nat \<Rightarrow> f32 list \<Rightarrow> f32 \<Rightarrow> f32 \<Rightarrow> nat \<Rightarrow> (f32 list \<times> f32) option" where
  "process_audio_frame rnd n input phase step channels =
     (if length input < 2 then Some (replicate n 0, phase)
      else process_loop rnd input step channels (replicate n 0) phase 0)"

definition prune_buffer :: "(rat \<Rightarrow> rat) \<Rightarrow> f32 list \<Rightarrow> f32 \<Rightarrow> f32 list \<times> f32" where
  "prune_buffer rnd buf phase =
     (let samples_consumed = as_usize phase
      in if samples_consumed > 0 then
           if samples_consumed < length buf then
             (drop samples_consumed buf, rnd (phase - from_usize rnd samples_consumed))
           else ([], 0)
         else (buf, phase))"

text \<open>The callback of \<open>generate_output_stream\<close> for an output of \<open>n\<close> values.\<close>

definition output_callback ::
  "(rat \<Rightarrow> rat) \<Rightarrow> f32 \<Rightarrow> nat \<Rightarrow> bool \<times> f32 list list \<times> nat \<Rightarrow> f32 list \<times> f32 \<Rightarrow> (f32 list \<times> f32 list \<times> f32) option" where
  "output_callback rnd step channels = (\<lambda>(lock, packets, n) (buf, phase).
     let buf1 = fetch_new_samples lock packets buf
     in case process_audio_frame rnd n buf1 phase step channels of
          None \<Rightarrow> None
        | Some (output, phase1) \<Rightarrow> Some (output, prune_buffer rnd buf1 phase1))"

fun speaker_run ::
  "(rat \<Rightarrow> rat) \<Rightarrow> f32 \<Rightarrow> nat \<Rightarrow> (bool \<times> f32 list list \<times> nat) list \<Rightarrow> f32 list \<times> f32 \<Rightarrow> (f32 list list \<times> f32 list \<times> f32) option" where
  "speaker_run rnd step channels [] s = Some ([], s)"
| "speaker_run rnd step channels (cb # cbs) s =
     (case output_callback rnd step channels cb s of
        None \<Rightarrow> None
      | Some (output, s1) \<Rightarrow> map_option (apfst ((#) output)) (speaker_run rnd step channels cbs s1))"

section \<open>Exact values\<close>

text \<open>
  What is used of the rounding: the multiples of \<open>1 / 2 ^ b\<close> with a numerator up to \<open>2 ^ 24\<close> are exact, as they are
  for \<open>f32\<close>, whose significand has 24 bits. With \<open>b = 0\<close> these are the integers.
\<close>

definition exact_grid :: "(rat \<Rightarrow> rat) \<Rightarrow> nat \<Rightarrow> bool" where
  "exact_grid rnd b \<longleftrightarrow> (\<forall>i :: int. \<bar>i\<bar> \<le> 2 ^ 24 \<longrightarrow> rnd (of_int i / 2 ^ b) = of_int i / 2 ^ b)"

abbreviation exact_integers :: "(rat \<Rightarrow> rat) \<Rightarrow> bool" where
  "exact_integers rnd \<equiv> exact_grid rnd 0"

lemma exact_gridD: "exact_grid rnd b \<Longrightarrow> \<bar>i\<bar> \<le> 2 ^ 24 \<Longrightarrow> rnd (of_int i / 2 ^ b) = of_int i / 2 ^ b"
  by (simp add: exact_grid_def)

lemma exact_grid_nat: "exact_grid rnd b \<Longrightarrow> q \<le> 2 ^ 24 \<Longrightarrow> rnd (of_nat q / 2 ^ b) = of_nat q / 2 ^ b"
  using exact_gridD[of rnd b "int q"] by simp

lemma grid_int: "(of_nat n :: rat) = of_nat (n * 2 ^ b) / 2 ^ b"
  by simp

lemma exact_grid_int:
  assumes "exact_grid rnd b" and "n * 2 ^ b \<le> 2 ^ 24"
  shows "rnd (of_nat n) = of_nat n"
  using exact_grid_nat[OF assms] unfolding grid_int[symmetric] .

lemma exact_int: "exact_integers rnd \<Longrightarrow> \<bar>i\<bar> \<le> 2 ^ 24 \<Longrightarrow> rnd (of_int i) = of_int i"
  using exact_gridD[of rnd 0 i] by simp

lemma exact_nat: "exact_integers rnd \<Longrightarrow> n \<le> 2 ^ 24 \<Longrightarrow> rnd (of_nat n) = of_nat n"
  using exact_int[of rnd "int n"] by simp

lemma exact_simps:
  assumes "exact_grid rnd b"
  shows "rnd 0 = 0"
  using exact_grid_nat[OF assms, of 0] by simp

lemma exact_one: "exact_integers rnd \<Longrightarrow> rnd 1 = 1"
  using exact_nat[of rnd 1] by simp

lemma interpolate_at_sample: "exact_integers rnd \<Longrightarrow> rnd a = a \<Longrightarrow> interpolate rnd a b 0 = a"
  by (simp add: interpolate_def exact_simps exact_one)

section \<open>The speaker resamples the stream\<close>

lemma write_frame_append:
  assumes "length xs = channels"
  shows "write_frame channels (length pre) v (pre @ xs @ post) = pre @ replicate channels v @ post"
proof -
  have "fold (\<lambda>c out. if length pre + c < length out then out[length pre + c := v] else out) [0..<k] (pre @ xs @ post) =
      pre @ replicate k v @ drop k xs @ post" if "k \<le> length xs" for k
    using that
  proof (induction k)
    case (Suc k)
    then have "drop k xs = xs ! k # drop (Suc k) xs" by (simp add: Cons_nth_drop_Suc)
    moreover have "(pre @ replicate k v @ (xs ! k # drop (Suc k) xs) @ post)[length pre + k := v] =
        pre @ replicate (Suc k) v @ drop (Suc k) xs @ post"
      by (simp add: list_update_append replicate_append_same[symmetric])
    ultimately show ?case using Suc by simp arith
  qed simp
  from this[of channels] show ?thesis using assms by (simp add: write_frame_def)
qed

text \<open>
  A device faster than the stream, or of its rate, has a step of at most 1. The phase and the step are multiples of
  \<open>2 ^ - b\<close>: \<open>m\<close> of them are a step, and position \<open>Q\<close> of the stream is interpolated between two samples.
\<close>

definition sample_at :: "(rat \<Rightarrow> rat) \<Rightarrow> nat \<Rightarrow> f32 list \<Rightarrow> nat \<Rightarrow> f32" where
  "sample_at rnd b S Q = interpolate rnd (S ! (Q div 2 ^ b)) (S ! (Q div 2 ^ b + 1)) (of_nat (Q mod 2 ^ b) / 2 ^ b)"

text \<open>The frames that can be interpolated from position \<open>q\<close> on, when \<open>len\<close> samples are there.\<close>

definition frames_ready :: "nat \<Rightarrow> nat \<Rightarrow> nat \<Rightarrow> nat \<Rightarrow> nat" where
  "frames_ready b m q len = ((len - 1) * 2 ^ b - q + (m - 1)) div m"

text \<open>The reference: the whole stream resampled at once.\<close>

definition resampled :: "(rat \<Rightarrow> rat) \<Rightarrow> nat \<Rightarrow> nat \<Rightarrow> f32 list \<Rightarrow> f32 list" where
  "resampled rnd b m S = map (\<lambda>k. sample_at rnd b S (k * m)) [0..<frames_ready b m 0 (length S)]"

lemma ready_rec:
  assumes "0 < m"
  shows "frames_ready b m q len = (if q < (len - 1) * 2 ^ b then Suc (frames_ready b m (q + m) len) else 0)"
proof (cases "q < (len - 1) * 2 ^ b")
  case True
  define d where "d = (len - 1) * 2 ^ b - q"
  have d: "0 < d" "(len - 1) * 2 ^ b - (q + m) = d - m" using True by (auto simp: d_def)
  have "(d + (m - 1)) div m = Suc ((d - m + (m - 1)) div m)"
  proof (cases "m \<le> d")
    case True
    then have "d + (m - 1) = (d - m + (m - 1)) + m" by simp
    then show ?thesis using assms by (metis Suc_eq_plus1 div_add_self2 less_irrefl)
  next
    case False
    then have "d + (m - 1) = (d - 1) + m" "d - 1 < m" using d assms by auto
    then have "(d + (m - 1)) div m = Suc 0"
      using assms by (metis Suc_eq_plus1 div_add_self2 div_less add_0 less_irrefl)
    then show ?thesis using False assms by simp
  qed
  then show ?thesis using True d(2) by (simp add: frames_ready_def d_def)
next
  case False
  then show ?thesis using assms by (simp add: frames_ready_def)
qed

lemma ready_advance: "0 < m \<Longrightarrow> frames_ready b m (q + j * m) len = frames_ready b m q len - j"
proof (induction j arbitrary: q)
  case (Suc j)
  have "q + Suc j * m = (q + m) + j * m" by simp
  moreover have "frames_ready b m (q + m) len = frames_ready b m q len - 1"
    using ready_rec[OF Suc.prems, of b q len] ready_rec[OF Suc.prems, of b "q + m" len] by (auto split: if_splits)
  ultimately show ?case using Suc.IH[OF Suc.prems, of "q + m"] by (simp add: add.assoc)
qed simp

lemma ready_bound:
  assumes "0 < m" and "j < frames_ready b m q len"
  shows "q + j * m < (len - 1) * 2 ^ b"
  using assms ready_advance[OF assms(1), of b q j len] ready_rec[OF assms(1), of b "q + j * m" len]
  by (auto split: if_splits)

lemma ready_shift: "Q div 2 ^ b \<le> len \<Longrightarrow>
    frames_ready b m (Q mod 2 ^ b) (len - Q div 2 ^ b) = frames_ready b m Q len"
proof -
  have "(len - 1) * 2 ^ b - Q = (len - 1) * 2 ^ b - (Q div 2 ^ b * 2 ^ b + Q mod 2 ^ b)"
    by (simp only: div_mult_mod_eq)
  also have "\<dots> = (len - Q div 2 ^ b - 1) * 2 ^ b - Q mod 2 ^ b"
    by (simp only: diff_diff_left[symmetric] diff_mult_distrib[symmetric] diff_commute[of len 1])
  finally show ?thesis by (simp add: frames_ready_def)
qed

lemma ready_mono: "len \<le> len' \<Longrightarrow> frames_ready b m q len \<le> frames_ready b m q len'"
  unfolding frames_ready_def by (intro div_le_mono add_right_mono diff_le_mono mult_right_mono) auto

lemma sample_at_drop: "c \<le> length S \<Longrightarrow> sample_at rnd b (drop c S) Q = sample_at rnd b S (c * 2 ^ b + Q)"
  by (simp add: sample_at_def add.assoc)

lemma sample_at_append: "Q < (length S - 1) * 2 ^ b \<Longrightarrow> sample_at rnd b (S @ T) Q = sample_at rnd b S Q"
proof -
  assume "Q < (length S - 1) * 2 ^ b"
  then have "Q div 2 ^ b < length S - 1" by (rule less_mult_imp_div_less)
  then have "Q div 2 ^ b < length S" "Q div 2 ^ b + 1 < length S" by simp_all
  then show ?thesis by (simp only: sample_at_def nth_append if_True)
qed

lemma phase_at:
  assumes "exact_grid rnd b" and "Q \<le> 2 ^ 24"
  shows "as_usize (of_nat Q / 2 ^ b) = Q div 2 ^ b"
    and "rnd (of_nat Q / 2 ^ b - from_usize rnd (Q div 2 ^ b)) = of_nat (Q mod 2 ^ b) / 2 ^ b"
proof -
  show "as_usize (of_nat Q / 2 ^ b) = Q div 2 ^ b"
    using floor_divide_of_nat_eq[of Q "2 ^ b", where 'a = rat] by (simp add: as_usize_def)
  have "Q div 2 ^ b * 2 ^ b \<le> 2 ^ 24" using assms(2) div_times_less_eq_dividend order_trans by blast
  then have "from_usize rnd (Q div 2 ^ b) = of_nat (Q div 2 ^ b)"
    unfolding from_usize_def by (rule exact_grid_int[OF assms(1)])
  moreover have "of_nat Q = of_nat (Q div 2 ^ b) * 2 ^ b + (of_nat (Q mod 2 ^ b) :: rat)"
    using arg_cong[OF div_mult_mod_eq[of Q "2 ^ b"], of "of_nat :: nat \<Rightarrow> rat"] by (simp only: of_nat_simps of_nat_power of_nat_numeral)
  ultimately have "of_nat Q / 2 ^ b - from_usize rnd (Q div 2 ^ b) = of_nat (Q mod 2 ^ b) / 2 ^ b"
    by (simp add: field_simps)
  moreover have "Q mod 2 ^ b \<le> 2 ^ 24" using assms(2) mod_less_eq_dividend order_trans by blast
  ultimately show "rnd (of_nat Q / 2 ^ b - from_usize rnd (Q div 2 ^ b)) = of_nat (Q mod 2 ^ b) / 2 ^ b"
    using exact_grid_nat[OF assms(1)] by simp
qed

lemma last_sample:
  assumes "exact_grid rnd b" and "1 \<le> len" and "len * 2 ^ b \<le> 2 ^ 24"
  shows "rnd (from_usize rnd len - 1) \<le> of_nat q / 2 ^ b \<longleftrightarrow> \<not> q < (len - 1) * 2 ^ b"
proof -
  have "(len - 1) * 2 ^ b \<le> 2 ^ 24" using assms(3) by (meson diff_le_self mult_right_mono order_trans zero_le)
  then have "rnd (from_usize rnd len - 1) = of_nat (len - 1)"
    using exact_grid_int[OF assms(1,3)] exact_grid_int[OF assms(1), of "len - 1"] assms(2)
    by (simp add: from_usize_def of_nat_diff)
  moreover have "of_nat (len - 1) \<le> (of_nat q / 2 ^ b :: rat) \<longleftrightarrow> of_nat ((len - 1) * 2 ^ b) \<le> (of_nat q :: rat)"
    by (simp add: le_divide_eq)
  ultimately show ?thesis unfolding of_nat_le_iff by auto
qed

lemma process_loop_resamples:
  assumes "exact_grid rnd b" and "length input * 2 ^ b \<le> 2 ^ 24" and "input \<noteq> []" and "0 < channels"
    and "0 < m" and "m \<le> 2 ^ b"
  shows "j = min n (frames_ready b m q (length input)) \<Longrightarrow>
    process_loop rnd input (of_nat m / 2 ^ b) channels (pre @ replicate (n * channels) 0) (of_nat q / 2 ^ b) (length pre) =
      Some (pre @ concat (map (\<lambda>k. replicate channels (sample_at rnd b input (q + k * m))) [0..<j]) @
              replicate ((n - j) * channels) 0,
            of_nat (q + j * m) / 2 ^ b)"
proof (induction n arbitrary: pre q j)
  case 0
  then show ?case by (subst process_loop.simps) simp
next
  case (Suc n)
  have one: "1 \<le> length input" using assms(3) by (simp add: Suc_leI)
  show ?case
  proof (cases "q < (length input - 1) * 2 ^ b")
    case False
    then have "j = 0" using Suc.prems ready_rec[OF assms(5)] by simp
    then show ?thesis
      using False last_sample[OF assms(1) one assms(2), of q] assms(4) by (subst process_loop.simps) simp
  next
    case True
    define j' where "j' = min n (frames_ready b m (q + m) (length input))"
    have j: "j = Suc j'" using Suc.prems True ready_rec[OF assms(5), of b q] by (simp add: j'_def)
    have idx: "q div 2 ^ b + 1 < length input" using less_mult_imp_div_less[OF True] by simp
    have q: "q + m \<le> length input * 2 ^ b" using True assms(6) one by (simp add: diff_mult_distrib)
    then have q24: "q \<le> 2 ^ 24" "q + m \<le> 2 ^ 24" using assms(2) by linarith+
    have st: "rnd (of_nat q / 2 ^ b + of_nat m / 2 ^ b) = of_nat (q + m) / 2 ^ b"
      using exact_grid_nat[OF assms(1) q24(2)] by (simp add: add_divide_distrib)
    have w: "write_frame channels (length pre) v (pre @ replicate (Suc n * channels) 0) =
        (pre @ replicate channels v) @ replicate (n * channels) 0" for v
      using write_frame_append[of "replicate channels 0" channels pre v "replicate (n * channels) 0"]
      by (simp add: replicate_add)
    let ?pre = "pre @ replicate channels (sample_at rnd b input q)"
    have "process_loop rnd input (of_nat m / 2 ^ b) channels (pre @ replicate (Suc n * channels) 0) (of_nat q / 2 ^ b) (length pre) =
        process_loop rnd input (of_nat m / 2 ^ b) channels (?pre @ replicate (n * channels) 0) (of_nat (q + m) / 2 ^ b) (length ?pre)"
      using True idx st w assms(4) last_sample[OF assms(1) one assms(2), of q] phase_at[OF assms(1) q24(1)]
      by (subst process_loop.simps) (simp add: Let_def sample_at_def del: append_assoc of_nat_add)
    also have "\<dots> = Some (?pre @ concat (map (\<lambda>k. replicate channels (sample_at rnd b input (q + m + k * m))) [0..<j']) @
        replicate ((n - j') * channels) 0, of_nat (q + m + j' * m) / 2 ^ b)"
      by (rule Suc.IH[OF j'_def])
    finally show ?thesis
      unfolding j by (simp add: upt_conv_Cons map_Suc_upt[symmetric] add.assoc comp_def del: upt_Suc)
  qed
qed
text \<open>What a run has received, and the output of a callback that plays \<open>frames\<close>.\<close>

definition received_samples :: "(bool \<times> f32 list list \<times> nat) list \<Rightarrow> f32 list" where
  "received_samples cbs = concat (map (\<lambda>(lock, packets, n). fetch_new_samples lock packets []) cbs)"

definition plays :: "nat \<Rightarrow> bool \<times> f32 list list \<times> nat \<Rightarrow> f32 list \<Rightarrow> f32 list" where
  "plays channels cb frames =
     concat (map (replicate channels) frames) @ replicate (snd (snd cb) - length frames * channels) 0"

lemma received_Cons [simp]: "received_samples ((lock, packets, n) # cbs) = fetch_new_samples lock packets [] @ received_samples cbs"
  by (simp add: received_samples_def)

lemma fetch_append: "fetch_new_samples lock packets b = b @ fetch_new_samples lock packets []"
  by (simp add: fetch_new_samples_def)


text \<open>The frames a callback plays: all that are ready and fit.\<close>

lemma output_callback_resamples:
  assumes "exact_grid rnd b" and "0 < channels" and "0 < m" and "m \<le> 2 ^ b" and "q < 2 ^ b"
    and "B1 = fetch_new_samples lock packets B" and "length B1 * 2 ^ b \<le> 2 ^ 24"
    and "j = min n (frames_ready b m q (length B1))" and "Q = q + j * m"
  shows "output_callback rnd (of_nat m / 2 ^ b) channels (lock, packets, n * channels) (B, of_nat q / 2 ^ b) =
      Some (plays channels (lock, packets, n * channels) (map (\<lambda>k. sample_at rnd b B1 (q + k * m)) [0..<j]),
            drop (Q div 2 ^ b) B1, of_nat (Q mod 2 ^ b) / 2 ^ b) \<and> Q div 2 ^ b \<le> length B1"
proof -
  have out: "plays channels (lock, packets, n * channels) (map (\<lambda>k. sample_at rnd b B1 (q + k * m)) [0..<j]) =
      concat (map (\<lambda>k. replicate channels (sample_at rnd b B1 (q + k * m))) [0..<j]) @ replicate ((n - j) * channels) 0"
    by (simp add: plays_def diff_mult_distrib comp_def)
  show ?thesis
  proof (cases "length B1 < 2")
    case True
    then have j: "j = 0" using assms(8) ready_rec[OF assms(3), of b q "length B1"] by simp
    have "as_usize (of_nat q / 2 ^ b) = 0"
      using floor_divide_of_nat_eq[of q "2 ^ b", where 'a = rat] assms(5) by (simp add: as_usize_def)
    then show ?thesis
      using True j assms(5,6,9) unfolding out by (simp add: output_callback_def process_audio_frame_def prune_buffer_def)
  next
    case False
    have ne: "B1 \<noteq> []" using False by auto
    have lt: "Q < length B1 * 2 ^ b"
    proof (cases j)
      case 0
      have "1 * 2 ^ b \<le> length B1 * 2 ^ b" using False by (intro mult_right_mono) auto
      then show ?thesis using 0 assms(5,9) by (simp only: mult_1 mult_0 add_0_right)
    next
      case (Suc i)
      then have "q + i * m < (length B1 - 1) * 2 ^ b" using ready_bound[OF assms(3)] assms(8) by simp
      moreover have "(length B1 - 1) * 2 ^ b + 2 ^ b = length B1 * 2 ^ b"
        using False by (metis Suc_pred add.commute mult_Suc length_greater_0_conv ne diff_Suc_1' One_nat_def)
      ultimately show ?thesis using Suc assms(4,9) by simp
    qed
    then have c: "Q div 2 ^ b < length B1" by (rule less_mult_imp_div_less)
    have q24: "Q \<le> 2 ^ 24" using lt assms(7) by linarith
    have "process_audio_frame rnd (n * channels) B1 (of_nat q / 2 ^ b) (of_nat m / 2 ^ b) channels =
        Some (plays channels (lock, packets, n * channels) (map (\<lambda>k. sample_at rnd b B1 (q + k * m)) [0..<j]), of_nat Q / 2 ^ b)"
      using process_loop_resamples[OF assms(1,7) ne assms(2-4,8), of "[]"] False
      unfolding out by (simp add: process_audio_frame_def assms(9))
    moreover have "prune_buffer rnd B1 (of_nat Q / 2 ^ b) = (drop (Q div 2 ^ b) B1, of_nat (Q mod 2 ^ b) / 2 ^ b)"
      using c phase_at[OF assms(1) q24] by (auto simp: prune_buffer_def Let_def div_eq_0_iff)
    ultimately show ?thesis using assms(6) c by (simp add: output_callback_def Let_def)
  qed
qed

text \<open>
  What is buffered when a callback plays, on its grid, fits in the 24 bits of an \<open>f32\<close>, at every callback: \<open>l\<close>
  samples are left over from before, the position in them is \<open>q\<close>.
\<close>

fun buffers_fit :: "nat \<Rightarrow> nat \<Rightarrow> nat \<Rightarrow> nat \<Rightarrow> nat \<Rightarrow> (bool \<times> f32 list list \<times> nat) list \<Rightarrow> bool" where
  "buffers_fit b m channels q l [] = True"
| "buffers_fit b m channels q l ((lock, packets, n) # cbs) =
     (let l1 = l + length (fetch_new_samples lock packets []);
          Q = q + min (n div channels) (frames_ready b m q l1) * m
      in l1 * 2 ^ b \<le> 2 ^ 24 \<and> buffers_fit b m channels (Q mod 2 ^ b) (l1 - Q div 2 ^ b) cbs)"

lemma short_stream_fits:
  "(l + length (received_samples cbs)) * 2 ^ b \<le> 2 ^ 24 \<Longrightarrow> buffers_fit b m channels q l cbs"
proof (induction b m channels q l cbs rule: buffers_fit.induct)
  case (2 b m channels q l lock packets n cbs)
  let ?l1 = "l + length (fetch_new_samples lock packets [])"
  have r: "l + length (received_samples ((lock, packets, n) # cbs)) = ?l1 + length (received_samples cbs)"
    by (simp add: received_samples_def)
  have fit: "x * 2 ^ b \<le> 2 ^ 24" if "x \<le> ?l1 + length (received_samples cbs)" for x
    using order_trans[OF mult_right_mono[OF that, of "2 ^ b"] 2(2)[unfolded r]] by simp
  show ?case using 2(1)[OF refl refl fit] fit[of ?l1] by (simp add: Let_def)
qed simp

lemma speaker_run_resamples:
  assumes "exact_grid rnd b" and "0 < channels" and "0 < m" and "m \<le> 2 ^ b"
  shows "\<lbrakk>q < 2 ^ b; T = B @ received_samples cbs; buffers_fit b m channels q (length B) cbs; \<forall>cb\<in>set cbs. channels dvd snd (snd cb)\<rbrakk> \<Longrightarrow>
    \<exists>frames N. speaker_run rnd (of_nat m / 2 ^ b) channels cbs (B, of_nat q / 2 ^ b) =
        Some (map2 (plays channels) cbs frames, drop ((q + N * m) div 2 ^ b) T, of_nat ((q + N * m) mod 2 ^ b) / 2 ^ b) \<and>
      length frames = length cbs \<and> concat frames = map (\<lambda>k. sample_at rnd b T (q + k * m)) [0..<N] \<and>
      N \<le> frames_ready b m q (length T) \<and>
      (\<forall>i<length cbs. length (frames ! i) = min (snd (snd (cbs ! i)) div channels)
        (frames_ready b m q (length B + length (received_samples (take (Suc i) cbs))) - length (concat (take i frames))))"
proof (induction cbs arbitrary: B q T)
  case Nil
  then show ?case by (intro exI[of _ "[]"] exI[of _ 0]) (simp add: received_samples_def)
next
  case (Cons cb cbs)
  obtain lock packets l where l: "cb = (lock, packets, l)" by (cases cb)
  then obtain n where "l = n * channels" using Cons.prems(4) by (auto simp: dvd_def mult.commute)
  with l have cb: "cb = (lock, packets, n * channels)" by simp
  define B1 where "B1 = fetch_new_samples lock packets B"
  define j where "j = min n (frames_ready b m q (length B1))"
  define Q where "Q = q + j * m"
  have T: "T = B1 @ received_samples cbs"
    using fetch_append[of lock packets B] Cons.prems(2) by (simp add: cb B1_def)
  have lb: "length B1 = length B + length (fetch_new_samples lock packets [])"
    using arg_cong[OF fetch_append, of length lock packets B] by (simp add: B1_def)
  have B1: "length B1 * 2 ^ b \<le> 2 ^ 24"
    and rest: "buffers_fit b m channels (Q mod 2 ^ b) (length B1 - Q div 2 ^ b) cbs"
    using Cons.prems(3) assms(2) by (simp_all add: cb lb Q_def j_def Let_def)
  note step = output_callback_resamples[OF assms Cons.prems(1) B1_def B1 j_def Q_def]
  define c where "c = Q div 2 ^ b"
  have c: "c \<le> length B1" using step by (simp add: c_def)
  have cT: "c \<le> length T" using c by (simp add: T)
  have T': "drop c T = drop c B1 @ received_samples cbs" using c by (simp add: T)
  have "buffers_fit b m channels (Q mod 2 ^ b) (length (drop c B1)) cbs" using rest by (simp add: c_def)
  from Cons.IH[OF _ T' this] Cons.prems(4) obtain frames N where ih:
    "speaker_run rnd (of_nat m / 2 ^ b) channels cbs (drop c B1, of_nat (Q mod 2 ^ b) / 2 ^ b) =
        Some (map2 (plays channels) cbs frames, drop ((Q mod 2 ^ b + N * m) div 2 ^ b) (drop c T),
          of_nat ((Q mod 2 ^ b + N * m) mod 2 ^ b) / 2 ^ b)"
    "length frames = length cbs" "concat frames = map (\<lambda>k. sample_at rnd b (drop c T) (Q mod 2 ^ b + k * m)) [0..<N]"
    "N \<le> frames_ready b m (Q mod 2 ^ b) (length (drop c T))"
    "\<forall>i<length cbs. length (frames ! i) = min (snd (snd (cbs ! i)) div channels)
       (frames_ready b m (Q mod 2 ^ b) (length (drop c B1) + length (received_samples (take (Suc i) cbs))) -
          length (concat (take i frames)))" by auto
  have Qc: "Q = c * 2 ^ b + Q mod 2 ^ b" by (simp only: c_def div_mult_mod_eq)
  have adv: "Q + k * m = c * 2 ^ b + (Q mod 2 ^ b + k * m)" for k using Qc by simp
  have pos: "q + (j + k) * m = Q + k * m" for k by (simp add: Q_def add_mult_distrib)
  have ready: "frames_ready b m (Q mod 2 ^ b) (length (drop c B1) + r) = frames_ready b m q (length B1 + r) - j" for r
    using ready_shift[of Q b "length B1 + r" m] ready_advance[OF assms(3), of b q j] c by (simp add: c_def Q_def)
  let ?fs = "map (\<lambda>k. sample_at rnd b B1 (q + k * m)) [0..<j] # frames"
  have fs0: "map (\<lambda>k. sample_at rnd b B1 (q + k * m)) [0..<j] = map (\<lambda>k. sample_at rnd b T (q + k * m)) [0..<j]"
    using ready_bound[OF assms(3)] by (auto simp: T j_def sample_at_append)
  have tail: "concat frames = map (\<lambda>k. sample_at rnd b T (q + (j + k) * m)) [0..<N]"
    unfolding pos adv ih(3) sample_at_drop[OF cT] by (rule refl)
  have "concat ?fs = map (\<lambda>k. sample_at rnd b T (q + k * m)) [0..<j + N]"
  proof -
    have "[0..<j + N] = [0..<j] @ map (\<lambda>k. k + j) [0..<N]"
      using upt_add_eq_append[of 0 j N] map_add_upt[of j N] by (simp add: add.commute)
    then show ?thesis unfolding concat.simps fs0 tail by (simp add: comp_def add.commute)
  qed
  moreover have "length (?fs ! i) = min (snd (snd ((cb # cbs) ! i)) div channels)
      (frames_ready b m q (length B + length (received_samples (take (Suc i) (cb # cbs)))) - length (concat (take i ?fs)))"
    if "i < length (cb # cbs)" for i
  proof -
    show ?thesis
      using that ih(5) assms(2) ready lb by (cases i) (simp_all add: cb received_samples_def j_def add.assoc)
  qed
  moreover have "j + N \<le> frames_ready b m q (length T)"
  proof -
    have "j \<le> frames_ready b m q (length T)"
      using ready_mono[of "length B1" "length T" b m q] by (simp add: T j_def)
    then show ?thesis using ih(4) ready[of "length (received_samples cbs)"] c by (simp add: T)
  qed
  moreover have "speaker_run rnd (of_nat m / 2 ^ b) channels (cb # cbs) (B, of_nat q / 2 ^ b) =
      Some (map2 (plays channels) (cb # cbs) ?fs, drop ((q + (j + N) * m) div 2 ^ b) T, of_nat ((q + (j + N) * m) mod 2 ^ b) / 2 ^ b)"
    using step ih(1) unfolding pos adv cb by (simp add: c_def[symmetric] add.commute)
  ultimately show ?case using ih(2) by (intro exI[of _ ?fs] exI[of _ "j + N"]) simp
qed

text \<open>
  C36. The speaker resamples the stream, on a device whose step is exactly a multiple \<open>m\<close> of \<open>2 ^ - b\<close> of at most 1
  (the stream's own rate, or a device faster by such a ratio, as from 48 to 96 kHz, not from 44.1 to 48 kHz), whose requests are whole frames:
  whatever the sizes of the packets and of the requests, as long as at each callback no more than \<open>2 ^ (24 - b)\<close> samples
  are buffered, every callback returns, its output is a run of frames, each copied to all channels, followed by silence, and the runs
  of all callbacks in order are a prefix of the whole stream resampled at once, with no frame lost, repeated or
  interpolated across the wrong samples at the seams between callbacks. A callback plays all frames that are ready
  and fit, and what stays buffered is the stream from the position reached on. The rounding may be any that is exact on
  the multiples of \<open>2 ^ - b\<close> that fit in the 24 bits of an \<open>f32\<close>.
\<close>

theorem speaker_resamples:
  assumes "exact_grid rnd b" and "0 < channels" and "\<forall>cb\<in>set cbs. channels dvd snd (snd cb)"
    and "0 < m" and "m \<le> 2 ^ b" and "S = received_samples cbs" and "buffers_fit b m channels 0 0 cbs"
  shows "\<exists>frames N. speaker_run rnd (of_nat m / 2 ^ b) channels cbs ([], 0) =
        Some (map2 (plays channels) cbs frames, drop (N * m div 2 ^ b) S, of_nat (N * m mod 2 ^ b) / 2 ^ b) \<and>
      length frames = length cbs \<and> N = length (concat frames) \<and> concat frames = take N (resampled rnd b m S) \<and>
      (\<forall>i<length cbs. length (frames ! i) = min (snd (snd (cbs ! i)) div channels)
        (frames_ready b m 0 (length (received_samples (take (Suc i) cbs))) - length (concat (take i frames))))"
proof -
  obtain frames N where run: "speaker_run rnd (of_nat m / 2 ^ b) channels cbs ([], 0) =
      Some (map2 (plays channels) cbs frames, drop (N * m div 2 ^ b) S, of_nat (N * m mod 2 ^ b) / 2 ^ b)"
    "length frames = length cbs" "concat frames = map (\<lambda>k. sample_at rnd b S (k * m)) [0..<N]"
    "N \<le> frames_ready b m 0 (length S)"
    "\<forall>i<length cbs. length (frames ! i) = min (snd (snd (cbs ! i)) div channels)
      (frames_ready b m 0 (length (received_samples (take (Suc i) cbs))) - length (concat (take i frames)))"
    using speaker_run_resamples[OF assms(1,2,4,5), of 0 S "[]" cbs] assms(3,6,7) by auto
  have "concat frames = take N (resampled rnd b m S)"
    using run(4) by (simp add: run(3) resampled_def take_map)
  moreover have "N = length (concat frames)" by (simp add: run(3))
  ultimately show ?thesis using run by blast
qed

definition sample_callbacks :: "(bool \<times> f32 list list \<times> nat) list" where
  "sample_callbacks = [(True, [[1, 2, 3], [4]], 4), (True, [], 6)]"

text \<open>Twice the stream's rate: the second callback starts in the middle between two samples.\<close>

theorem speaker_resamples_witness:
  "\<exists>frames. speaker_run id (of_nat 1 / 2 ^ 1) 2 sample_callbacks ([], 0) =
       Some (map2 (plays 2) sample_callbacks frames, [3, 4], 1 / 2) \<and>
     concat frames = [1, 3 / 2, 2, 5 / 2, 3] \<and> length (frames ! 0) = 2 \<and> length (frames ! 1) = 3"
proof -
  have ex: "exact_grid id 1" by (simp add: exact_grid_def)
  have r: "received_samples sample_callbacks = [1, 2, 3, 4]" "length sample_callbacks = 2"
    "received_samples (take (Suc 0) sample_callbacks) = [1, 2, 3, 4]" "take (Suc (Suc 0)) sample_callbacks = sample_callbacks"
    "snd (snd (sample_callbacks ! 0)) = 4" "snd (snd (sample_callbacks ! 1)) = 6"
    "\<forall>cb\<in>set sample_callbacks. 2 dvd snd (snd cb)"
    by (simp_all add: received_samples_def fetch_new_samples_def sample_callbacks_def)
  have num: "(0::nat) < 2" "(0::nat) < 1" "(1::nat) \<le> 2 ^ 1" by simp_all
  have len: "buffers_fit 1 1 2 0 0 sample_callbacks" by (rule short_stream_fits) (simp add: r(1))
  obtain frames N where f: "speaker_run id (of_nat 1 / 2 ^ 1) 2 sample_callbacks ([], 0) =
      Some (map2 (plays 2) sample_callbacks frames, drop (N * 1 div 2 ^ 1) [1, 2, 3, 4], of_nat (N * 1 mod 2 ^ 1) / 2 ^ 1)"
    "length frames = 2" "N = length (concat frames)" "concat frames = take N (resampled id 1 1 [1, 2, 3, 4])"
    "\<And>i. i < 2 \<Longrightarrow> length (frames ! i) = min (snd (snd (sample_callbacks ! i)) div 2)
       (frames_ready 1 1 0 (length (received_samples (take (Suc i) sample_callbacks))) - length (concat (take i frames)))"
    using speaker_resamples[OF ex num(1) r(7) num(2,3) r(1)[symmetric] len] unfolding r(2) by blast
  have l: "length (frames ! 0) = 2" using f(5)[of 0] r by (simp add: frames_ready_def)
  then have "length (concat (take 1 frames)) = 2" using f(2) by (cases frames) simp_all
  then have l1: "length (frames ! 1) = 3" using f(5)[of 1] r by (simp add: frames_ready_def)
  have "frames = [frames ! 0, frames ! 1]" using f(2) by (intro nth_equalityI) (auto simp: less_2_cases_iff)
  then have "length (concat frames) = length (concat [frames ! 0, frames ! 1])" by (rule arg_cong)
  also have "\<dots> = 5" using l l1 by simp
  finally have "length (concat frames) = 5" .
  then have N: "N = 5" using f(3) by simp
  have "[0..<6] = [0, 1, 2, 3, 4, 5 :: nat]" by (simp add: upt_rec)
  then have R: "take 5 (resampled id 1 1 [1, 2, 3, 4]) = [1, 3 / 2, 2, 5 / 2, 3]"
    by (simp add: resampled_def frames_ready_def sample_at_def interpolate_def)
  have D: "drop (5 * 1 div 2 ^ 1) [1, 2, 3, 4 :: f32] = [3, 4]" "of_nat (5 * 1 mod 2 ^ 1) / 2 ^ 1 = (1 / 2 :: f32)"
    by simp_all
  show ?thesis using f(1,4) l l1 unfolding N R D by blast
qed

text \<open>At the stream's own rate the frames are the samples themselves, and no sample is lost.\<close>

lemma resampled_native:
  assumes "exact_integers rnd" and "\<forall>x\<in>set S. rnd x = x"
  shows "resampled rnd 0 1 S = butlast S"
  using assms by (intro nth_equalityI)
    (auto simp: resampled_def frames_ready_def sample_at_def nth_butlast interpolate_at_sample)

corollary speaker_plays_stream:
  assumes "exact_integers rnd" and "0 < channels" and "\<forall>cb\<in>set cbs. channels dvd snd (snd cb)"
    and "length (received_samples cbs) \<le> 2 ^ 24" and "\<forall>x\<in>set (received_samples cbs). rnd x = x"
  shows "\<exists>frames rest. speaker_run rnd 1 channels cbs ([], 0) = Some (map2 (plays channels) cbs frames, rest, 0) \<and>
      length frames = length cbs \<and> concat frames @ rest = received_samples cbs"
proof -
  let ?S = "received_samples cbs"
  obtain frames N where run: "speaker_run rnd 1 channels cbs ([], 0) = Some (map2 (plays channels) cbs frames, drop N ?S, 0)"
    "length frames = length cbs" "concat frames = map (\<lambda>k. sample_at rnd 0 ?S k) [0..<N]"
    "N \<le> frames_ready 0 1 0 (length ?S)"
    using speaker_run_resamples[OF assms(1,2), of 1 0 ?S "[]" cbs] short_stream_fits[of 0 cbs 0] assms(3,4) by auto
  have "map (\<lambda>k. sample_at rnd 0 ?S k) [0..<N] = take N (resampled rnd 0 1 ?S)"
    using run(4) by (simp add: resampled_def take_map)
  then have "concat frames = take N ?S"
    using run(3,4) resampled_native[OF assms(1,5)] by (simp add: frames_ready_def butlast_conv_take)
  with run(1,2) show ?thesis by (intro exI[of _ frames] exI[of _ "drop N ?S"]) simp
qed

text \<open>
  On a device slower than the stream a step can pass the end of the buffer: \<open>prune_buffer\<close> then forgets the phase, and the next callback
  starts with the first sample received instead of the one the position had reached. With steps of 3, the samples 0 and
  3 are due; 0 and 2 are played.
\<close>

theorem overshoot_lost:
  "speaker_run id 3 1 [(True, [[0, 1]], 1), (True, [[2, 3, 4, 5]], 1)] ([], 0) = Some ([[0], [2]], [5], 0)"
  by (simp add: output_callback_def fetch_new_samples_def process_audio_frame_def process_loop.simps from_usize_def
      as_usize_def write_frame_def interpolate_def prune_buffer_def)

section \<open>The microphone's batches\<close>

lemma resample_loop_batch:
  assumes "exact_grid rnd b" and "source \<noteq> []" and "length source * 2 ^ b + m \<le> 2 ^ 24" and "0 < m"
  shows "n = frames_ready b m q (length source) \<Longrightarrow> resample_loop rnd source (of_nat q / 2 ^ b) (of_nat m / 2 ^ b) acc =
    Some (acc @ map (\<lambda>k. sample_at rnd b source (q + k * m)) [0..<n], of_nat (q + n * m) / 2 ^ b)"
proof (induction n arbitrary: q acc)
  case 0
  have one: "1 \<le> length source" using assms(2) by (simp add: Suc_leI)
  have "\<not> q < (length source - 1) * 2 ^ b" using 0 ready_rec[OF assms(4), of b q] by (auto split: if_splits)
  then show ?case
    using last_sample[OF assms(1) one, of q] assms(3) by (subst resample_loop.simps) (simp add: not_less[symmetric])
next
  case (Suc n)
  have one: "1 \<le> length source" using assms(2) by (simp add: Suc_leI)
  have q: "q < (length source - 1) * 2 ^ b" and n: "n = frames_ready b m (q + m) (length source)"
    using Suc.prems ready_rec[OF assms(4), of b q] by (auto split: if_splits)
  have idx: "q div 2 ^ b + 1 < length source" using less_mult_imp_div_less[OF q] by simp
  have "(length source - 1) * 2 ^ b \<le> length source * 2 ^ b" by (intro mult_right_mono) auto
  then have q24: "q \<le> 2 ^ 24" "q + m \<le> 2 ^ 24" using q assms(3) by linarith+
  have st: "rnd (of_nat q / 2 ^ b + of_nat m / 2 ^ b) = of_nat (q + m) / 2 ^ b"
    using exact_grid_nat[OF assms(1) q24(2)] by (simp add: add_divide_distrib)
  have "resample_loop rnd source (of_nat q / 2 ^ b) (of_nat m / 2 ^ b) acc =
      resample_loop rnd source (of_nat (q + m) / 2 ^ b) (of_nat m / 2 ^ b) (acc @ [sample_at rnd b source q])"
    using q idx st last_sample[OF assms(1) one, of q] assms(3) phase_at[OF assms(1) q24(1)]
    by (subst resample_loop.simps) (simp add: Let_def sample_at_def not_le del: of_nat_add)
  also have "\<dots> = Some ((acc @ [sample_at rnd b source q]) @ map (\<lambda>k. sample_at rnd b source (q + m + k * m)) [0..<n],
      of_nat (q + m + n * m) / 2 ^ b)"
    by (rule Suc.IH[OF n])
  finally show ?case by (simp add: upt_conv_Cons map_Suc_upt[symmetric] add.assoc comp_def del: upt_Suc)
qed

text \<open>
  A batch of the microphone at any rate: the frames interpolated inside the batch, and the phase for the next one. The
  phase is relative to the first sample of the next batch, and what lies before that sample, between the two
  batches, is cut off: the truncated subtraction. The comment promises continuity between batches.
\<close>

theorem resample_batch:
  assumes "exact_grid rnd b" and "source \<noteq> []" and "length source * 2 ^ b + m \<le> 2 ^ 24" and "0 < m" and "q \<le> 2 ^ 24"
    and "n = frames_ready b m q (length source)"
  shows "resample_linear rnd source (of_nat q / 2 ^ b) (of_nat m / 2 ^ b) =
    Some (map (\<lambda>k. sample_at rnd b source (q + k * m)) [0..<n],
          of_nat (q + n * m - length source * 2 ^ b) / 2 ^ b)"
proof -
  let ?Q = "q + n * m" and ?L = "length source * 2 ^ b"
  have "?Q \<le> 2 ^ 24"
  proof (cases n)
    case (Suc i)
    then have "q + i * m < (length source - 1) * 2 ^ b" using ready_bound[OF assms(4), of i b q "length source"] assms(6) by simp
    moreover have "(length source - 1) * 2 ^ b \<le> ?L" by (intro mult_right_mono) auto
    ultimately show ?thesis using assms(3) unfolding Suc mult_Suc by linarith
  qed (use assms(5) in simp)
  moreover have "?L \<le> 2 ^ 24" using assms(3) by linarith
  moreover have "\<bar>int x - int y\<bar> \<le> int z" if "x \<le> z" "y \<le> z" for x y z using that by linarith
  ultimately have "\<bar>int ?Q - int ?L\<bar> \<le> int (2 ^ 24)" by blast
  then have "\<bar>int ?Q - int ?L\<bar> \<le> 2 ^ 24" by (simp only: of_nat_power of_nat_numeral)
  from exact_gridD[OF assms(1) this] have "rnd (of_int (int ?Q - int ?L) / 2 ^ b) = of_int (int ?Q - int ?L) / 2 ^ b" .
  moreover have "from_usize rnd (length source) = of_nat (length source)"
    unfolding from_usize_def using assms(3) by (intro exact_grid_int[OF assms(1)]) linarith
  then have "of_nat ?Q / 2 ^ b - from_usize rnd (length source) = of_int (int ?Q - int ?L) / 2 ^ b"
    by (simp add: field_simps)
  ultimately have "rnd (of_nat ?Q / 2 ^ b - from_usize rnd (length source)) = of_int (int ?Q - int ?L) / 2 ^ b" by simp
  moreover have "(if of_int (int ?Q - int ?L) / 2 ^ b < (0::rat) then 0 else of_int (int ?Q - int ?L) / 2 ^ b) =
      of_nat (?Q - ?L) / (2 ^ b :: rat)"
    by (cases "?L \<le> ?Q") (simp_all add: of_nat_diff divide_less_0_iff flip: of_nat_add of_nat_mult of_nat_power)
  ultimately show ?thesis
    using resample_loop_batch[OF assms(1-4,6), of "[]"]
    by (simp only: resample_linear_def Let_def option.case prod.case append_Nil)
qed

text \<open>
  A microphone that already delivers the target rate: the last sample of every batch is lost, and the phase
  starts again at zero.
\<close>

corollary native_rate_loses_sample:
  assumes "exact_integers rnd" and "length source < 2 ^ 24" and "\<forall>x\<in>set source. rnd x = x"
  shows "resample_linear rnd source 0 1 = Some (butlast source, 0)"
proof (cases "source = []")
  case True
  have "rnd (- 1) = - 1" using exact_int[OF assms(1), of "- 1"] by simp
  with True show ?thesis
    using exact_simps[OF assms(1)] by (simp add: resample_linear_def resample_loop.simps from_usize_def)
next
  case False
  have len: "length source * 2 ^ 0 + 1 \<le> 2 ^ 24" using assms(2) by simp
  show ?thesis
    using resample_batch[OF assms(1) False len, of 0, OF _ _ refl] resampled_native[OF assms(1,3)] False
    by (simp add: resampled_def frames_ready_def)
qed

end
