(* ===== verification/Jitter_Buffer.thy ===== *)
theory Jitter_Buffer
  imports Rtp_Packet Rtcp_Packet "HOL-Library.While_Combinator"
begin

text \<open>
  The jitter buffer, \<^verbatim>\<open>src/transport/jitter_buffer/jitter.rs\<close>: a ring of \<open>N\<close> slots (\<open>N\<close> is the length
  of the list), the packet with sequence number \<open>n\<close> in slot \<open>n mod N\<close>. \<open>None\<close> is a panic: an
  overflow of the arithmetic (debug checks), an index out of range, or a remainder by zero.
  \<open>clk\<close> gives the successive readings of the clock; \<open>tick\<close> counts them. The field
  \<open>last_arrival\<close> is only ever written and is left out, as are sleeping and logging.
\<close>

record jitter_buffer =
  packets :: "rtp_packet option list"
  read_idx :: nat
  write_idx :: nat
  read_seq :: "u64 option"
  write_seq :: "u64 option"
  i_frame_needed :: bool
  last_frame_completed_timestamp :: u128
  last_deliver_timestamp :: u128
  metrics :: receiver_stats
  metrics_poisoned :: bool
  last_transit :: "int option"
  max_seq_seen :: u64
  tick :: nat

definition jitter_new :: "nat \<Rightarrow> jitter_buffer" where
  "jitter_new n =
     \<lparr>packets = replicate n None, read_idx = 0, write_idx = 0, read_seq = None, write_seq = None,
      i_frame_needed = True, last_frame_completed_timestamp = 0, last_deliver_timestamp = 0,
      metrics = receiver_stats_default, metrics_poisoned = False, last_transit = None,
      max_seq_seen = 0, tick = 0\<rparr>"

abbreviation cap :: "jitter_buffer \<Rightarrow> nat" where
  "cap b \<equiv> length (packets b)"

section \<open>Statistics\<close>

text \<open>Casting to \<open>i64\<close> keeps the low 64 bits; \<open>i64\<close> arithmetic is checked.\<close>

definition as_i64 :: "u128 \<Rightarrow> int" where
  "as_i64 w = sint (ucast w :: u64)"

definition i64_chk :: "int \<Rightarrow> int option" where
  "i64_chk i = (if - (2 ^ 63) \<le> i \<and> i < 2 ^ 63 then Some i else None)"

text \<open>
  The new jitter is \<open>prev + (d - prev) / 16\<close> in \<open>f64\<close>, cast back to \<open>u32\<close>. Below \<open>2 ^ 33\<close> the
  exact value \<open>(15 * prev + d) / 16\<close> needs at most 37 significant bits and is representable, so the
  cast truncates the exact quotient; from there on the cast saturates whatever the rounding.
\<close>

definition new_jitter :: "u32 \<Rightarrow> nat \<Rightarrow> u32" where
  "new_jitter prev d = word_of_nat (min (2 ^ 32 - 1) ((15 * unat prev + d) div 16))"

definition update_loss :: "jitter_buffer \<Rightarrow> rtp_packet \<Rightarrow> jitter_buffer option" where
  "update_loss b p =
     (let m = metrics b in
      if packets_received m = 1 then Some (b\<lparr>max_seq_seen := sequence_number p\<rparr>)
      else if sequence_number p > max_seq_seen b then
        (let gap = sequence_number p - max_seq_seen b - 1
         in if gap > 0 \<and> gap < 1000 then
              (case add_chk (packets_lost m) (ucast gap) of
                 None \<Rightarrow> None
               | Some l \<Rightarrow>
                   Some (b\<lparr>metrics := m\<lparr>packets_lost := l\<rparr>, max_seq_seen := sequence_number p\<rparr>))
            else Some (b\<lparr>max_seq_seen := sequence_number p\<rparr>))
      else if packets_lost m > 0 then
        Some (b\<lparr>metrics := m\<lparr>packets_lost := packets_lost m - 1\<rparr>\<rparr>)
      else Some b)"

definition update_transit :: "jitter_buffer \<Rightarrow> int \<Rightarrow> jitter_buffer option" where
  "update_transit b transit =
     (case last_transit b of
        None \<Rightarrow> Some (b\<lparr>last_transit := Some transit\<rparr>)
      | Some lt \<Rightarrow>
          (case i64_chk (transit - lt) of
             None \<Rightarrow> None
           | Some diff \<Rightarrow>
               (case i64_chk \<bar>diff\<bar> of
                  None \<Rightarrow> None
                | Some d \<Rightarrow>
                    Some (b\<lparr>metrics := (metrics b)\<lparr>jitter := new_jitter (jitter (metrics b)) (nat d)\<rparr>,
                            last_transit := Some transit\<rparr>))))"

definition update_stats :: "(nat \<Rightarrow> u128) \<Rightarrow> jitter_buffer \<Rightarrow> rtp_packet \<Rightarrow> jitter_buffer option" where
  "update_stats clk b p =
     (let arrival = clk (tick b); b0 = b\<lparr>tick := Suc (tick b)\<rparr>
      in if metrics_poisoned b then Some b0
         else case add_chk (packets_received (metrics b)) 1 of
                None \<Rightarrow> None
              | Some n \<Rightarrow>
                  (case update_loss (b0\<lparr>metrics := (metrics b)\<lparr>packets_received := n\<rparr>\<rparr>) p of
                     None \<Rightarrow> None
                   | Some b1 \<Rightarrow>
                       (case i64_chk (as_i64 arrival - as_i64 (timestamp p)) of
                          None \<Rightarrow> None
                        | Some transit \<Rightarrow> update_transit b1 transit)))"

section \<open>Adding packets\<close>

definition valid_packet_seq_num :: "jitter_buffer \<Rightarrow> u64 \<Rightarrow> bool" where
  "valid_packet_seq_num b seq =
     (case packets b ! read_idx b of
        Some read_packet \<Rightarrow>
          (let window = word_of_nat (read_idx b + cap b - write_idx b) :: u64
           in if window > seq then True
              else seq > sequence_number read_packet - window)
      | None \<Rightarrow> True)"

definition should_discard_packet ::
  "(nat \<Rightarrow> u128) \<Rightarrow> jitter_buffer \<Rightarrow> rtp_packet \<Rightarrow> (jitter_buffer \<times> bool) option" where
  "should_discard_packet clk b p =
     (case update_stats clk b p of
        None \<Rightarrow> None
      | Some b1 \<Rightarrow>
          if i_frame_needed b1 \<and> \<not> is_i_frame p then Some (b1, True)
          else if timestamp p < last_frame_completed_timestamp b1 then Some (b1, True)
          else if cap b1 \<le> read_idx b1 then None
          else Some (b1, \<not> valid_packet_seq_num b1 (sequence_number p)))"

definition reset :: "jitter_buffer \<Rightarrow> jitter_buffer" where
  "reset b = b\<lparr>read_idx := 0, write_idx := 0, read_seq := None, write_seq := None,
     i_frame_needed := True\<rparr>"

text \<open>The \<open>for\<close> loop of \<open>resync_or_clear\<close> with the number of remaining iterations.\<close>

fun resync_loop :: "nat \<Rightarrow> u128 \<Rightarrow> jitter_buffer \<Rightarrow> jitter_buffer" where
  "resync_loop 0 read_timestamp b = reset b"
| "resync_loop (Suc k) read_timestamp b =
     (case packets b ! read_idx b of
        Some pkt \<Rightarrow>
          if is_i_frame pkt \<and> timestamp pkt \<noteq> read_timestamp then
            b\<lparr>read_seq := Some (sequence_number pkt), i_frame_needed := False\<rparr>
          else
            (let b1 = b\<lparr>packets := (packets b)[read_idx b := None]\<rparr>
             in if read_idx b = write_idx b then reset b1
                else resync_loop k read_timestamp (b1\<lparr>read_idx := (read_idx b + 1) mod cap b\<rparr>))
      | None \<Rightarrow>
          (let b1 = b\<lparr>packets := (packets b)[read_idx b := None]\<rparr>
           in if read_idx b = write_idx b then reset b1
              else resync_loop k read_timestamp (b1\<lparr>read_idx := (read_idx b + 1) mod cap b\<rparr>)))"

definition resync_or_clear :: "jitter_buffer \<Rightarrow> jitter_buffer option" where
  "resync_or_clear b =
     (if cap b \<le> read_idx b then None
      else case packets b ! read_idx b of
             None \<Rightarrow> Some (reset b)
           | Some pkt \<Rightarrow> Some (resync_loop (cap b) (timestamp pkt) b))"

definition handle_new_write_head :: "jitter_buffer \<Rightarrow> u64 \<Rightarrow> nat \<Rightarrow> jitter_buffer option" where
  "handle_new_write_head b seq pos =
     (let old_write_idx = write_idx b;
          b1 = b\<lparr>write_idx := pos, write_seq := Some seq\<rparr>;
          collided = (if read_idx b \<le> old_write_idx then read_idx b \<le> pos \<and> pos \<le> old_write_idx
                      else read_idx b \<le> pos \<or> pos \<le> old_write_idx)
      in if collided then resync_or_clear b1 else Some b1)"

definition initialize_buffer :: "jitter_buffer \<Rightarrow> rtp_packet \<Rightarrow> nat \<Rightarrow> jitter_buffer" where
  "initialize_buffer b p pos =
     b\<lparr>read_seq := Some (sequence_number p), write_seq := Some (sequence_number p),
       read_idx := pos, write_idx := pos, packets := (packets b)[pos := Some p],
       i_frame_needed := False\<rparr>"

definition add :: "(nat \<Rightarrow> u128) \<Rightarrow> jitter_buffer \<Rightarrow> rtp_packet \<Rightarrow> jitter_buffer option" where
  "add clk b p =
     (case should_discard_packet clk b p of
        None \<Rightarrow> None
      | Some (b1, True) \<Rightarrow> Some b1
      | Some (b1, False) \<Rightarrow>
          if cap b1 = 0 then None
          else
            (let seq = sequence_number p; pos = unat seq mod cap b1
             in case (read_seq b1, write_seq b1) of
                  (Some read, Some write) \<Rightarrow>
                    (case (if seq < read then Some (b1\<lparr>read_idx := pos, read_seq := Some seq\<rparr>)
                           else if seq > write then handle_new_write_head b1 seq pos
                           else Some b1) of
                       None \<Rightarrow> None
                     | Some b2 \<Rightarrow> Some (b2\<lparr>packets := (packets b2)[pos := Some p]\<rparr>))
                | _ \<Rightarrow> Some (initialize_buffer b1 p pos)))"

section \<open>Extracting frames\<close>

definition TOLERANCE_MILLIS :: u128 where
  "TOLERANCE_MILLIS = 120"

definition valid_playout_time ::
  "(nat \<Rightarrow> u128) \<Rightarrow> jitter_buffer \<Rightarrow> u128 \<Rightarrow> (jitter_buffer \<times> bool) option" where
  "valid_playout_time clk b frame_timestamp =
     (if last_deliver_timestamp b = 0 then Some (b, True)
      else case sub_chk frame_timestamp (last_frame_completed_timestamp b) of
             None \<Rightarrow> None
           | Some delta_rtp \<Rightarrow>
               (case add_chk (last_deliver_timestamp b) delta_rtp of
                  None \<Rightarrow> None
                | Some expected \<Rightarrow>
                    (case add_chk expected TOLERANCE_MILLIS of
                       None \<Rightarrow> None
                     | Some deadline \<Rightarrow>
                         Some (b\<lparr>tick := Suc (tick b)\<rparr>, clk (tick b) \<le> deadline))))"

definition filled :: "jitter_buffer \<Rightarrow> nat" where
  "filled b = length (filter (\<lambda>s. s \<noteq> None) (packets b))"

lemma filled_card: "filled b = card {i. i < cap b \<and> packets b ! i \<noteq> None}"
  by (simp add: filled_def length_filter_conv_card)

lemma filled_clear:
  assumes "i < cap b" and "packets b ! i \<noteq> None"
  shows "filled (b\<lparr>packets := (packets b)[i := None]\<rparr>) < filled b"
  unfolding filled_card
  by (rule psubset_card_mono) (use assms in \<open>auto simp: nth_list_update split: if_splits\<close>)

lemma filled_clear_le: "filled (b\<lparr>packets := (packets b)[i := None]\<rparr>) \<le> filled b"
  unfolding filled_card
proof (rule card_mono)
  show "{j. j < cap (b\<lparr>packets := (packets b)[i := None]\<rparr>) \<and>
      packets (b\<lparr>packets := (packets b)[i := None]\<rparr>) ! j \<noteq> None} \<subseteq> {j. j < cap b \<and> packets b ! j \<noteq> None}"
    by (cases "i < cap b") (auto simp: nth_list_update list_update_beyond split: if_splits)
qed simp

lemma filled_reset [simp]: "filled (reset b) = filled b"
  by (simp add: filled_def reset_def)

lemma filled_resync_loop: "filled (resync_loop k ts b) \<le> filled b"
proof (induction k ts b rule: resync_loop.induct)
  case (2 k ts b)
  let ?b1 = "b\<lparr>packets := (packets b)[read_idx b := None]\<rparr>"
  have le: "filled (?b1\<lparr>read_idx := r\<rparr>) \<le> filled b" for r
    using filled_clear_le[of b "read_idx b"] by (simp add: filled_def)
  have i: "filled (b\<lparr>read_seq := x, i_frame_needed := y\<rparr>) = filled b" for x y
    by (simp add: filled_def)
  show ?case
    using 2 le[of "(read_idx b + 1) mod cap b"] filled_clear_le[of b "read_idx b"]
    by (cases "packets b ! read_idx b") (auto simp: i Let_def intro: le_trans)
qed simp

lemma filled_resync:
  assumes "resync_or_clear b = Some b'" and "packets b ! read_idx b = Some p"
  shows "filled b' < filled b"
proof -
  have r: "read_idx b < cap b" "b' = resync_loop (cap b) (timestamp p) b"
    using assms by (auto simp: resync_or_clear_def split: if_splits)
  then obtain k where k: "cap b = Suc k" by (cases "cap b") auto
  let ?b1 = "b\<lparr>packets := (packets b)[read_idx b := None]\<rparr>"
  have lt: "filled (?b1\<lparr>read_idx := x\<rparr>) < filled b" "filled ?b1 < filled b" for x
    using filled_clear[of "read_idx b" b] r(1) assms(2) by (simp_all add: filled_def)
  have "filled (resync_loop (Suc k) (timestamp p) b) < filled b"
    using assms(2) lt filled_resync_loop[of k "timestamp p" "?b1\<lparr>read_idx := (read_idx b + 1) mod cap b\<rparr>"]
    by (auto simp: Let_def intro: le_less_trans)
  then show ?thesis using r(2) k by simp
qed

lemma filled_tick [simp]: "filled (b\<lparr>tick := t\<rparr>) = filled b"
  by (simp add: filled_def)

lemma valid_playout_time_frame:
  "valid_playout_time clk b ts = Some (b', ok) \<Longrightarrow> b' = b \<or> b' = b\<lparr>tick := Suc (tick b)\<rparr>"
  by (auto simp: valid_playout_time_def split: if_splits option.splits)

text \<open>The loop ends: each resynchronisation frees at least the slot it starts from.\<close>

function prepare_next_frame_ts ::
  "(nat \<Rightarrow> u128) \<Rightarrow> jitter_buffer \<Rightarrow> (jitter_buffer \<times> u128 option) option" where
  "prepare_next_frame_ts clk b =
     (if cap b \<le> read_idx b then None
      else case packets b ! read_idx b of
             None \<Rightarrow> Some (b, None)
           | Some p \<Rightarrow>
               (case valid_playout_time clk b (timestamp p) of
                  None \<Rightarrow> None
                | Some (b1, valid) \<Rightarrow>
                    if valid then Some (b1, Some (timestamp p))
                    else case resync_or_clear b1 of
                           None \<Rightarrow> None
                         | Some b2 \<Rightarrow>
                             if write_seq b2 = None \<or> read_seq b2 = None then Some (b2, None)
                             else prepare_next_frame_ts clk b2))"
  by pat_completeness auto
termination
proof (relation "measure (\<lambda>(clk, b). filled b)", goal_cases)
  case (2 clk b p v b1 valid b2)
  then have "b1 = b \<or> b1 = b\<lparr>tick := Suc (tick b)\<rparr>" by (metis valid_playout_time_frame)
  then have "packets b1 ! read_idx b1 = Some p" "filled b1 = filled b" using 2 by auto
  then show ?case using filled_resync[of b1 b2 p] 2 by simp
qed simp

declare prepare_next_frame_ts.simps [simp del]

text \<open>
  \<open>while self.read_idx != target_idx\<close> and the search for the next packet; the \<open>while\<close> loop as an
  option, \<open>None\<close> when it does not end.
\<close>

definition clear_slot :: "jitter_buffer \<Rightarrow> jitter_buffer" where
  "clear_slot b =
     b\<lparr>packets := (packets b)[read_idx b := None], read_idx := (read_idx b + 1) mod cap b\<rparr>"

fun find_next :: "nat \<Rightarrow> jitter_buffer \<Rightarrow> jitter_buffer \<times> bool" where
  "find_next 0 b = (b, False)"
| "find_next (Suc k) b =
     (case packets b ! read_idx b of
        Some next_p \<Rightarrow> (b\<lparr>read_seq := Some (sequence_number next_p)\<rparr>, True)
      | None \<Rightarrow> find_next k (b\<lparr>read_idx := (read_idx b + 1) mod cap b\<rparr>))"

definition advance_read_pointers :: "jitter_buffer \<Rightarrow> nat \<Rightarrow> jitter_buffer option" where
  "advance_read_pointers b target_idx =
     (case while_option (\<lambda>c. read_idx c \<noteq> target_idx) clear_slot b of
        None \<Rightarrow> None
      | Some b1 \<Rightarrow>
          (case find_next (cap b1) b1 of
             (b2, found_next) \<Rightarrow>
               Some (if found_next then b2 else b2\<lparr>read_seq := None, write_seq := None\<rparr>)))"

definition synchronize_playout ::
  "(nat \<Rightarrow> u128) \<Rightarrow> jitter_buffer \<Rightarrow> rtp_packet \<Rightarrow> jitter_buffer option" where
  "synchronize_playout clk b p =
     (if last_deliver_timestamp b \<noteq> 0 then
        (case add_chk (last_deliver_timestamp b)
                 (sat_sub (timestamp p) (last_frame_completed_timestamp b)) of
           None \<Rightarrow> None
         | Some expected \<Rightarrow>
             Some (b\<lparr>tick := Suc (tick b), last_deliver_timestamp := expected\<rparr>))
      else Some (b\<lparr>tick := Suc (tick b), last_deliver_timestamp := clk (tick b)\<rparr>))"

text \<open>The \<open>for\<close> loop of \<open>pop\<close> with its remaining iterations.\<close>

fun pop_loop ::
  "(nat \<Rightarrow> u128) \<Rightarrow> u128 \<Rightarrow> nat \<Rightarrow> nat \<Rightarrow> bytes \<Rightarrow> nat \<Rightarrow> jitter_buffer \<Rightarrow>
     (jitter_buffer \<times> bytes option) option" where
  "pop_loop clk ts 0 idx data chunks b = Some (b, None)"
| "pop_loop clk ts (Suc k) idx data chunks b =
     (case packets b ! idx of
        None \<Rightarrow> Some (b, None)
      | Some p \<Rightarrow>
          if timestamp p \<noteq> ts then Some (b, None)
          else
            (let data' = data @ payload p; chunks' = chunks + 1; idx' = (idx + 1) mod cap b
             in if marker p = 1 then
                  (if chunks' = unat (total_chunks p) then
                     (case advance_read_pointers b idx' of
                        None \<Rightarrow> None
                      | Some b1 \<Rightarrow>
                          (case synchronize_playout clk b1 p of
                             None \<Rightarrow> None
                           | Some b2 \<Rightarrow>
                               Some (b2\<lparr>last_frame_completed_timestamp := timestamp p,
                                        i_frame_needed := (if is_i_frame p then False
                                                           else i_frame_needed b2)\<rparr>,
                                     Some data')))
                   else Some (b, None))
                else pop_loop clk ts k idx' data' chunks' b))"

definition pop :: "(nat \<Rightarrow> u128) \<Rightarrow> jitter_buffer \<Rightarrow> (jitter_buffer \<times> bytes option) option" where
  "pop clk b =
     (case prepare_next_frame_ts clk b of
        None \<Rightarrow> None
      | Some (b1, None) \<Rightarrow> Some (b1, None)
      | Some (b1, Some ts) \<Rightarrow> pop_loop clk ts (cap b1) (read_idx b1) [] 0 b1)"

section \<open>The invariant\<close>

definition slots_ok :: "rtp_packet option list \<Rightarrow> bool" where
  "slots_ok ps =
     (\<forall>i p. i < length ps \<longrightarrow> ps ! i = Some p \<longrightarrow> unat (sequence_number p) mod length ps = i)"

definition jitter_wf :: "jitter_buffer \<Rightarrow> bool" where
  "jitter_wf b = (read_idx b < cap b \<and> write_idx b < cap b \<and> slots_ok (packets b))"

lemma slots_ok_clear: "slots_ok ps \<Longrightarrow> slots_ok (ps[i := None])"
  by (cases "i < length ps") (auto simp: slots_ok_def nth_list_update list_update_beyond split: if_splits)

lemma slots_ok_put:
  "slots_ok ps \<Longrightarrow> pos = unat (sequence_number p) mod length ps \<Longrightarrow> slots_ok (ps[pos := Some p])"
  by (cases "pos < length ps") (auto simp: slots_ok_def nth_list_update list_update_beyond split: if_splits)

lemma reset_wf: "0 < cap b \<Longrightarrow> slots_ok (packets b) \<Longrightarrow> jitter_wf (reset b)"
  by (simp add: jitter_wf_def reset_def)

lemma resync_loop_wf:
  "jitter_wf b \<Longrightarrow> jitter_wf (resync_loop k ts b) \<and> cap (resync_loop k ts b) = cap b"
proof (induction k ts b rule: resync_loop.induct)
  case (1 ts b)
  then show ?case by (auto simp: jitter_wf_def reset_def)
next
  case (2 k ts b)
  let ?b1 = "b\<lparr>packets := (packets b)[read_idx b := None]\<rparr>"
  let ?b2 = "?b1\<lparr>read_idx := (read_idx b + 1) mod cap b\<rparr>"
  have wf: "jitter_wf ?b2" "jitter_wf (reset ?b1)"
    using 2(3) by (auto simp: jitter_wf_def reset_def slots_ok_clear intro!: mod_less_divisor)
  have cap: "cap ?b2 = cap b" "cap (reset ?b1) = cap b" by (simp_all add: reset_def)
  show ?case
  proof (cases "packets b ! read_idx b")
    case None
    then show ?thesis using 2(1)[OF None refl] wf cap by (auto simp: Let_def)
  next
    case (Some p)
    show ?thesis
    proof (cases "is_i_frame p \<and> timestamp p \<noteq> ts")
      case True
      then show ?thesis using Some 2(3) by (simp add: jitter_wf_def)
    next
      case False
      then show ?thesis using Some 2(2)[OF Some False refl] wf cap by (auto simp: Let_def)
    qed
  qed
qed

lemma resync_wf: "jitter_wf b \<Longrightarrow> resync_or_clear b = Some b' \<Longrightarrow> jitter_wf b' \<and> cap b' = cap b"
  using resync_loop_wf[of b "cap b"]
  by (auto simp: resync_or_clear_def jitter_wf_def reset_def split: if_splits option.splits)

lemma update_loss_frame:
  "update_loss b p = Some b' \<Longrightarrow> packets b' = packets b \<and> read_idx b' = read_idx b \<and>
     write_idx b' = write_idx b \<and> read_seq b' = read_seq b \<and> write_seq b' = write_seq b \<and>
     i_frame_needed b' = i_frame_needed b \<and>
     last_frame_completed_timestamp b' = last_frame_completed_timestamp b \<and>
     last_deliver_timestamp b' = last_deliver_timestamp b"
  by (auto simp: update_loss_def Let_def split: if_splits option.splits)

lemma update_transit_frame:
  "update_transit b t = Some b' \<Longrightarrow> packets b' = packets b \<and> read_idx b' = read_idx b \<and>
     write_idx b' = write_idx b \<and> read_seq b' = read_seq b \<and> write_seq b' = write_seq b \<and>
     i_frame_needed b' = i_frame_needed b \<and>
     last_frame_completed_timestamp b' = last_frame_completed_timestamp b \<and>
     last_deliver_timestamp b' = last_deliver_timestamp b"
  by (auto simp: update_transit_def split: option.splits)

lemma update_stats_frame:
  "update_stats clk b p = Some b' \<Longrightarrow> packets b' = packets b \<and> read_idx b' = read_idx b \<and>
     write_idx b' = write_idx b \<and> read_seq b' = read_seq b \<and> write_seq b' = write_seq b \<and>
     i_frame_needed b' = i_frame_needed b \<and>
     last_frame_completed_timestamp b' = last_frame_completed_timestamp b \<and>
     last_deliver_timestamp b' = last_deliver_timestamp b"
  by (auto simp: update_stats_def Let_def dest!: update_loss_frame update_transit_frame
      split: if_splits option.splits)

lemma should_discard_frame:
  "should_discard_packet clk b p = Some (b', d) \<Longrightarrow> packets b' = packets b \<and> read_idx b' = read_idx b \<and>
     write_idx b' = write_idx b \<and> read_seq b' = read_seq b \<and> write_seq b' = write_seq b \<and>
     i_frame_needed b' = i_frame_needed b \<and>
     last_frame_completed_timestamp b' = last_frame_completed_timestamp b \<and>
     last_deliver_timestamp b' = last_deliver_timestamp b"
  by (auto simp: should_discard_packet_def dest!: update_stats_frame split: if_splits option.splits)

lemma handle_new_write_head_wf:
  assumes "jitter_wf b" and "pos < cap b" and "handle_new_write_head b seq pos = Some b'"
  shows "jitter_wf b' \<and> cap b' = cap b"
proof -
  let ?b1 = "b\<lparr>write_idx := pos, write_seq := Some seq\<rparr>"
  have "jitter_wf ?b1" "cap ?b1 = cap b" using assms by (simp_all add: jitter_wf_def)
  then show ?thesis using assms(3) resync_wf[of ?b1 b']
    by (auto simp: handle_new_write_head_def Let_def split: if_splits)
qed

lemma put_wf:
  "jitter_wf b \<Longrightarrow> pos = unat (sequence_number p) mod cap b \<Longrightarrow>
     jitter_wf (b\<lparr>packets := (packets b)[pos := Some p]\<rparr>)"
  by (simp add: jitter_wf_def slots_ok_put)

lemma add_wf:
  assumes "jitter_wf b" and "add clk b p = Some b'"
  shows "jitter_wf b' \<and> cap b' = cap b"
proof -
  obtain b1 d where d: "should_discard_packet clk b p = Some (b1, d)"
    using assms(2) by (auto simp: add_def split: option.splits)
  have wf1: "jitter_wf b1" "cap b1 = cap b"
    using should_discard_frame[OF d] assms(1) by (simp_all add: jitter_wf_def)
  show ?thesis
  proof (cases d)
    case True
    then show ?thesis using assms(2) d wf1 by (simp add: add_def)
  next
    case False
    let ?pos = "unat (sequence_number p) mod cap b1"
    have pos: "?pos < cap b1" using wf1(1) by (intro mod_lt) (auto simp: jitter_wf_def)
    have init: "jitter_wf (initialize_buffer b1 p ?pos) \<and> cap (initialize_buffer b1 p ?pos) = cap b1"
      using wf1(1) pos by (simp add: initialize_buffer_def jitter_wf_def slots_ok_put)
    show ?thesis
    proof (cases "\<exists>read write. read_seq b1 = Some read \<and> write_seq b1 = Some write")
      case True
      then obtain read "write" where rw: "read_seq b1 = Some read" "write_seq b1 = Some write" by blast
      let ?step = "if sequence_number p < read then Some (b1\<lparr>read_idx := ?pos, read_seq := Some (sequence_number p)\<rparr>)
          else if sequence_number p > write then handle_new_write_head b1 (sequence_number p) ?pos else Some b1"
      have "packets b1 \<noteq> []" using pos by auto
      then have "add clk b p = (case ?step of None \<Rightarrow> None
          | Some b2 \<Rightarrow> Some (b2\<lparr>packets := (packets b2)[?pos := Some p]\<rparr>))"
        by (simp only: add_def d False rw Let_def option.case prod.case bool.case length_0_conv if_False)
      then obtain b2 where b2: "?step = Some b2" "b' = b2\<lparr>packets := (packets b2)[?pos := Some p]\<rparr>"
        using assms(2) by (auto simp only: option.case option.inject option.distinct split: option.split_asm)
      have "jitter_wf b2 \<and> cap b2 = cap b1"
      proof (cases "sequence_number p < read")
        case True
        then have "b2 = b1\<lparr>read_idx := ?pos, read_seq := Some (sequence_number p)\<rparr>" using b2(1) by simp
        then show ?thesis using wf1(1) pos by (simp add: jitter_wf_def)
      next
        case nlt: False
        show ?thesis
        proof (cases "sequence_number p > write")
          case True
          then have "handle_new_write_head b1 (sequence_number p) ?pos = Some b2" using b2(1) nlt by (simp only: if_False if_True)
          then show ?thesis by (rule handle_new_write_head_wf[OF wf1(1) pos])
        next
          case False
          then have "b2 = b1" using b2(1) nlt by (simp only: if_False option.inject)
          then show ?thesis using wf1(1) by simp
        qed
      qed
      then show ?thesis using b2(2) wf1(2) put_wf[of b2 ?pos p] by simp
    next
      case nothing: False
      then have "b' = initialize_buffer b1 p ?pos"
        using assms(2) d False pos
        by (cases "read_seq b1"; cases "write_seq b1") (auto simp: add_def Let_def split: if_splits)
      then show ?thesis using init wf1 by simp
    qed
  qed
qed

section \<open>Extracting a frame\<close>

lemma clear_slot_frame [simp]:
  "cap (clear_slot b) = cap b" "read_idx (clear_slot b) = (read_idx b + 1) mod cap b"
  "packets (clear_slot b) = (packets b)[read_idx b := None]"
  "write_idx (clear_slot b) = write_idx b"
  "last_deliver_timestamp (clear_slot b) = last_deliver_timestamp b"
  "last_frame_completed_timestamp (clear_slot b) = last_frame_completed_timestamp b"
  by (simp_all add: clear_slot_def)

lemma clear_slots_frame:
  "cap ((clear_slot ^^ d) b) = cap b" "write_idx ((clear_slot ^^ d) b) = write_idx b"
  "last_deliver_timestamp ((clear_slot ^^ d) b) = last_deliver_timestamp b"
  "last_frame_completed_timestamp ((clear_slot ^^ d) b) = last_frame_completed_timestamp b"
  by (induction d) simp_all

lemma clear_slots_read_idx:
  "read_idx b < cap b \<Longrightarrow> read_idx ((clear_slot ^^ d) b) = (read_idx b + d) mod cap b"
  by (induction d) (simp_all add: clear_slots_frame mod_Suc_eq)

lemma clear_slots_nth:
  "read_idx b < cap b \<Longrightarrow> i < cap b \<Longrightarrow> packets ((clear_slot ^^ d) b) ! i =
     (if \<exists>j<d. i = (read_idx b + j) mod cap b then None else packets b ! i)"
proof (induction d)
  case (Suc d)
  have "packets ((clear_slot ^^ Suc d) b) ! i =
      (if i = (read_idx b + d) mod cap b then None else packets ((clear_slot ^^ d) b) ! i)"
    using Suc.prems by (simp add: clear_slots_read_idx clear_slots_frame nth_list_update)
  then show ?case using Suc by (auto simp: less_Suc_eq)
qed simp

text \<open>The \<open>while\<close> loop ends after as many rounds as the target is slots ahead.\<close>

lemma clear_while:
  "read_idx b < cap b \<Longrightarrow> d < cap b \<Longrightarrow>
     while_option (\<lambda>c. read_idx c \<noteq> (read_idx b + d) mod cap b) clear_slot b = Some ((clear_slot ^^ d) b)"
proof (induction d arbitrary: b)
  case 0
  then show ?case by (subst while_option_unfold) simp
next
  case (Suc d)
  let ?c = "clear_slot b"
  have ne: "read_idx b \<noteq> (read_idx b + Suc d) mod cap b"
    using ring_distinct[of "read_idx b" 0 "cap b" "Suc d"] Suc.prems by fastforce
  have t: "(read_idx ?c + d) mod cap ?c = (read_idx b + Suc d) mod cap b"
    by (simp add: mod_add_left_eq)
  have "while_option (\<lambda>c. read_idx c \<noteq> (read_idx ?c + d) mod cap ?c) clear_slot ?c = Some ((clear_slot ^^ d) ?c)"
    by (rule Suc.IH) (use Suc.prems in \<open>auto intro!: mod_lt\<close>)
  then show ?case using ne unfolding t
    by (subst while_option_unfold) (simp add: funpow_swap1)
qed

lemma find_next_frame:
  "find_next k b = (b', f) \<Longrightarrow> packets b' = packets b \<and> write_idx b' = write_idx b \<and>
     last_deliver_timestamp b' = last_deliver_timestamp b \<and>
     last_frame_completed_timestamp b' = last_frame_completed_timestamp b \<and>
     (read_idx b < cap b \<longrightarrow> read_idx b' < cap b)"
proof (induction k b rule: find_next.induct)
  case (2 k b)
  then show ?case
    by (cases "packets b ! read_idx b") (auto intro!: mod_lt)
qed simp

lemma find_next_found:
  "find_next k b = (b', True) \<Longrightarrow>
     \<exists>p. packets b' ! read_idx b' = Some p \<and> read_seq b' = Some (sequence_number p)"
  by (induction k b rule: find_next.induct) (force split: option.splits)+

lemma find_next_none:
  "find_next k b = (b', False) \<Longrightarrow> j < k \<Longrightarrow> read_idx b < cap b \<Longrightarrow> packets b ! ((read_idx b + j) mod cap b) = None"
proof (induction k b arbitrary: j rule: find_next.induct)
  case (2 k b)
  then have n: "packets b ! read_idx b = None" by (auto split: option.splits)
  show ?case
  proof (cases j)
    case 0
    then show ?thesis using n 2 by simp
  next
    case (Suc i)
    have "0 < cap b" using 2(4) by linarith
    then have "packets b ! (((read_idx b + 1) mod cap b + i) mod cap b) = None"
      using 2(1)[OF n, of i] 2(2-) n Suc by simp
    then show ?thesis using Suc by (simp add: mod_add_left_eq)
  qed
qed simp

lemma advance_read_pointers_spec:
  assumes "jitter_wf b" and "d < cap b"
  obtains b' where "advance_read_pointers b ((read_idx b + d) mod cap b) = Some b'"
    and "packets b' = packets ((clear_slot ^^ d) b)" and "read_idx b' < cap b" and "write_idx b' = write_idx b"
    and "last_deliver_timestamp b' = last_deliver_timestamp b"
    and "last_frame_completed_timestamp b' = last_frame_completed_timestamp b"
proof -
  let ?c = "(clear_slot ^^ d) b"
  obtain c f where f: "find_next (cap ?c) ?c = (c, f)" by fastforce
  have r: "read_idx b < cap b" "0 < cap b" using assms(1) by (auto simp: jitter_wf_def)
  have "read_idx ?c < cap ?c" using r by (simp add: clear_slots_read_idx clear_slots_frame)
  then show ?thesis
    using that f find_next_frame[OF f] clear_while[OF r(1) assms(2)]
    by (auto simp: advance_read_pointers_def clear_slots_frame)
qed

lemma slots_ok_clears: "slots_ok (packets b) \<Longrightarrow> slots_ok (packets ((clear_slot ^^ d) b))"
  by (induction d) (simp_all add: slots_ok_clear)

lemma synchronize_frame:
  "synchronize_playout clk b p = Some b' \<Longrightarrow> packets b' = packets b \<and> read_idx b' = read_idx b \<and>
     write_idx b' = write_idx b"
  by (auto simp: synchronize_playout_def split: if_splits option.splits)

lemma nth_clear: "i < length ps \<Longrightarrow> (ps[j := None]) ! i = (if i = j then None else ps ! i)"
  by (cases "j < length ps") (auto simp: list_update_beyond)

lemma resync_loop_same:
  "i < cap b \<Longrightarrow> packets (resync_loop k ts b) ! i = packets b ! i \<or> packets (resync_loop k ts b) ! i = None"
proof (induction k arbitrary: b)
  case (Suc k)
  let ?b1 = "b\<lparr>packets := (packets b)[read_idx b := None]\<rparr>"
  let ?b2 = "?b1\<lparr>read_idx := (read_idx b + 1) mod cap b\<rparr>"
  show ?case
    using Suc.IH[of ?b2] Suc.prems
    by (cases "packets b ! read_idx b") (auto simp: Let_def reset_def nth_clear split: if_splits)
qed (simp add: reset_def)

lemma resync_same:
  assumes "resync_or_clear b = Some b'" and "i < cap b"
  shows "packets b' ! i = packets b ! i \<or> packets b' ! i = None"
proof (cases "packets b ! read_idx b")
  case None
  then show ?thesis using assms by (auto simp: resync_or_clear_def reset_def split: if_splits)
next
  case (Some p)
  then have "b' = resync_loop (cap b) (timestamp p) b"
    using assms by (simp add: resync_or_clear_def split: if_splits)
  then show ?thesis using resync_loop_same[OF assms(2)] by simp
qed

lemma resync_loop_times:
  "last_deliver_timestamp (resync_loop k ts b) = last_deliver_timestamp b \<and>
   last_frame_completed_timestamp (resync_loop k ts b) = last_frame_completed_timestamp b"
proof (induction k ts b rule: resync_loop.induct)
  case (2 k ts b)
  then show ?case by (cases "packets b ! read_idx b") (auto simp: Let_def reset_def)
qed (simp add: reset_def)

lemma resync_times:
  "resync_or_clear b = Some b' \<Longrightarrow> last_deliver_timestamp b' = last_deliver_timestamp b \<and>
     last_frame_completed_timestamp b' = last_frame_completed_timestamp b"
  using resync_loop_times[of "cap b"]
  by (auto simp: resync_or_clear_def reset_def split: if_splits option.splits)

text \<open>A frame in the buffer: packets in consecutive slots, the marker on the last one only.\<close>

definition in_slots :: "jitter_buffer \<Rightarrow> nat \<Rightarrow> rtp_packet list \<Rightarrow> bool" where
  "in_slots b r ps = (\<forall>i<length ps. packets b ! ((r + i) mod cap b) = Some (ps ! i))"

definition one_frame :: "u128 \<Rightarrow> rtp_packet list \<Rightarrow> bool" where
  "one_frame ts ps =
     (ps \<noteq> [] \<and> (\<forall>p\<in>set ps. timestamp p = ts) \<and> (\<forall>p\<in>set (butlast ps). marker p \<noteq> 1) \<and> marker (last ps) = 1)"

definition delivered ::
  "(nat \<Rightarrow> u128) \<Rightarrow> jitter_buffer \<Rightarrow> nat \<Rightarrow> rtp_packet \<Rightarrow> jitter_buffer \<Rightarrow> bool" where
  "delivered clk b target p b' =
     (\<exists>b1 b2. advance_read_pointers b target = Some b1 \<and> synchronize_playout clk b1 p = Some b2 \<and>
        b' = b2\<lparr>last_frame_completed_timestamp := timestamp p,
                i_frame_needed := (if is_i_frame p then False else i_frame_needed b2)\<rparr>)"

lemma in_slots_Cons:
  assumes "packets b ! idx = Some p" and "idx < cap b" and "in_slots b ((idx + 1) mod cap b) ps"
  shows "in_slots b idx (p # ps)"
  unfolding in_slots_def
proof (intro allI impI)
  fix i assume i: "i < length (p # ps)"
  show "packets b ! ((idx + i) mod cap b) = Some ((p # ps) ! i)"
  proof (cases i)
    case (Suc j)
    then have "packets b ! (((idx + 1) mod cap b + j) mod cap b) = Some (ps ! j)"
      using i assms(3) by (simp add: in_slots_def)
    then show ?thesis using Suc by (simp add: mod_add_left_eq)
  qed (use assms in simp)
qed

lemma one_frame_Cons:
  "one_frame ts ps \<Longrightarrow> timestamp p = ts \<Longrightarrow> marker p \<noteq> 1 \<Longrightarrow> one_frame ts (p # ps)"
  by (auto simp: one_frame_def)

lemma pop_loop_some:
  assumes "pop_loop clk ts k idx data chunks b = Some (b', Some res)" and "idx < cap b"
  shows "\<exists>ps. in_slots b idx ps \<and> one_frame ts ps \<and> length ps \<le> k \<and>
           chunks + length ps = unat (total_chunks (last ps)) \<and> res = data @ concat (map payload ps) \<and>
           delivered clk b ((idx + length ps) mod cap b) (last ps) b'"
  using assms
proof (induction k arbitrary: idx data chunks)
  case (Suc k)
  obtain p where p: "packets b ! idx = Some p" "timestamp p = ts"
    using Suc.prems(1) by (auto split: option.splits if_splits)
  show ?case
  proof (cases "marker p = 1")
    case True
    then have c: "chunks + 1 = unat (total_chunks p)"
      using Suc.prems(1) p by (auto simp: Let_def split: if_splits)
    have "delivered clk b ((idx + 1) mod cap b) p b' \<and> res = data @ payload p"
      using Suc.prems(1) p True c
      by (auto simp: Let_def delivered_def split: option.splits)
    then show ?thesis
      using p True c Suc.prems(2)
      by (intro exI[of _ "[p]"]) (simp add: in_slots_def one_frame_def)
  next
    case False
    have lt: "(idx + 1) mod cap b < cap b" using Suc.prems(2) by (intro mod_lt) linarith
    have "pop_loop clk ts k ((idx + 1) mod cap b) (data @ payload p) (chunks + 1) b = Some (b', Some res)"
      using Suc.prems(1) p False by (simp add: Let_def)
    from Suc.IH[OF this lt] obtain ps where ps: "in_slots b ((idx + 1) mod cap b) ps" "one_frame ts ps"
      "length ps \<le> k" "chunks + 1 + length ps = unat (total_chunks (last ps))"
      "res = (data @ payload p) @ concat (map payload ps)"
      "delivered clk b (((idx + 1) mod cap b + length ps) mod cap b) (last ps) b'" by blast
    have "ps \<noteq> []" using ps(2) by (simp add: one_frame_def)
    then show ?thesis
      using ps in_slots_Cons[OF p(1) Suc.prems(2) ps(1)] one_frame_Cons[OF ps(2) p(2) False]
      by (intro exI[of _ "p # ps"]) (auto simp: mod_add_left_eq)
  qed
qed simp

lemma pop_loop_none:
  "pop_loop clk ts k idx data chunks b = Some (b', None) \<Longrightarrow> b' = b"
  by (induction k arbitrary: idx data chunks) (force simp: Let_def split: option.splits if_splits)+

definition slots_le :: "jitter_buffer \<Rightarrow> jitter_buffer \<Rightarrow> bool" where
  "slots_le b' b = (cap b' = cap b \<and> (\<forall>i<cap b. packets b' ! i = packets b ! i \<or> packets b' ! i = None))"

lemma slots_le_refl [simp]: "slots_le b b"
  by (simp add: slots_le_def)

lemma slots_le_trans: "slots_le c b \<Longrightarrow> slots_le b a \<Longrightarrow> slots_le c a"
  unfolding slots_le_def by metis

lemma in_slots_mono: "in_slots b' r ps \<Longrightarrow> slots_le b' b \<Longrightarrow> 0 < cap b \<Longrightarrow> in_slots b r ps"
  unfolding in_slots_def slots_le_def by (metis mod_less_divisor option.distinct(1))

lemma jitter_wf_tick [simp]: "jitter_wf (b\<lparr>tick := t\<rparr>) = jitter_wf b"
  by (simp add: jitter_wf_def)

lemma valid_playout_ok:
  "valid_playout_time clk b ts = Some (b', True) \<Longrightarrow> last_deliver_timestamp b \<noteq> 0 \<Longrightarrow>
     last_frame_completed_timestamp b \<le> ts"
  by (auto simp: valid_playout_time_def sub_chk_def split: if_splits option.splits)

lemma resync_slots: "jitter_wf b \<Longrightarrow> resync_or_clear b = Some b' \<Longrightarrow> slots_le b' b"
  using resync_wf[of b b'] resync_same[of b b'] by (simp add: slots_le_def)

lemma prepare_spec:
  assumes "prepare_next_frame_ts clk b = Some (b', r)" and "jitter_wf b"
  shows "jitter_wf b' \<and> slots_le b' b \<and> last_deliver_timestamp b' = last_deliver_timestamp b \<and>
     last_frame_completed_timestamp b' = last_frame_completed_timestamp b \<and>
     (case r of None \<Rightarrow> True
      | Some ts \<Rightarrow> (\<exists>p. packets b' ! read_idx b' = Some p \<and> timestamp p = ts) \<and>
          (last_deliver_timestamp b \<noteq> 0 \<longrightarrow> last_frame_completed_timestamp b \<le> ts))"
  using assms
proof (induction clk b rule: prepare_next_frame_ts.induct)
  case (1 clk b)
  have r: "\<not> cap b \<le> read_idx b" using 1(3) by (simp add: jitter_wf_def)
  show ?case
  proof (cases "packets b ! read_idx b")
    case None
    then have "b' = b \<and> r = None" using 1(2) r by (simp add: prepare_next_frame_ts.simps)
    then show ?thesis using 1(3) by simp
  next
    case p: (Some p)
    obtain b1 v where v: "valid_playout_time clk b (timestamp p) = Some (b1, v)"
      using 1(2) r p by (auto simp: prepare_next_frame_ts.simps[of clk b] split: option.splits)
    have b1: "b1 = b \<or> b1 = b\<lparr>tick := Suc (tick b)\<rparr>" by (rule valid_playout_time_frame[OF v])
    then have b1': "jitter_wf b1" "slots_le b1 b" "last_deliver_timestamp b1 = last_deliver_timestamp b"
      "last_frame_completed_timestamp b1 = last_frame_completed_timestamp b"
      "packets b1 ! read_idx b1 = Some p"
      using 1(3) p by (auto simp: slots_le_def)
    show ?thesis
    proof (cases v)
      case True
      then have "b' = b1 \<and> r = Some (timestamp p)"
        using 1(2) r p v by (simp add: prepare_next_frame_ts.simps[of clk b])
      then show ?thesis using b1' valid_playout_ok[of clk b "timestamp p" b1] v True by auto
    next
      case False
      then obtain b2 where b2: "resync_or_clear b1 = Some b2"
        using 1(2) r p v by (auto simp: prepare_next_frame_ts.simps[of clk b] split: option.splits)
      have b2': "jitter_wf b2" "slots_le b2 b" "last_deliver_timestamp b2 = last_deliver_timestamp b"
        "last_frame_completed_timestamp b2 = last_frame_completed_timestamp b"
        using resync_wf[OF b1'(1) b2] resync_slots[OF b1'(1) b2] resync_times[OF b2] b1'
        by (auto intro: slots_le_trans)
      show ?thesis
      proof (cases "write_seq b2 = None \<or> read_seq b2 = None")
        case True
        then have "b' = b2 \<and> r = None"
          using 1(2) r p v b2 \<open>\<not> v\<close> by (auto simp: prepare_next_frame_ts.simps[of clk b])
        then show ?thesis using b2' by simp
      next
        case run: False
        then have "prepare_next_frame_ts clk b2 = Some (b', r)"
          using 1(2) r p v b2 \<open>\<not> v\<close> by (auto simp: prepare_next_frame_ts.simps[of clk b])
        then show ?thesis
          using 1(1)[OF r p v refl \<open>\<not> v\<close> b2 run] b2' slots_le_trans[of b' b2 b]
          by (cases r) simp_all
      qed
    qed
  qed
qed

lemma delivered_spec:
  assumes "delivered clk b ((read_idx b + n) mod cap b) p b'" and "jitter_wf b" and "n \<le> cap b"
  shows "jitter_wf b' \<and> slots_le b' b \<and> last_frame_completed_timestamp b' = timestamp p \<and>
     (n < cap b \<longrightarrow> (\<forall>i<n. packets b' ! ((read_idx b + i) mod cap b) = None))"
proof -
  have r: "read_idx b < cap b" "0 < cap b" using assms(2) by (auto simp: jitter_wf_def)
  obtain d where d: "d < cap b" "(read_idx b + d) mod cap b = (read_idx b + n) mod cap b" "n < cap b \<longrightarrow> d = n"
  proof (cases "n < cap b")
    case False
    then show ?thesis using that[of 0] assms(3) r by simp
  qed (use that in blast)
  obtain b1 b2 where b: "advance_read_pointers b ((read_idx b + d) mod cap b) = Some b1"
    "synchronize_playout clk b1 p = Some b2"
    "b' = b2\<lparr>last_frame_completed_timestamp := timestamp p,
                i_frame_needed := (if is_i_frame p then False else i_frame_needed b2)\<rparr>"
    using assms(1) d(2) by (auto simp: delivered_def)
  have b1: "packets b1 = packets ((clear_slot ^^ d) b)" "read_idx b1 < cap b" "write_idx b1 = write_idx b"
    using advance_read_pointers_spec[OF assms(2) d(1)] b(1) by (metis option.inject)+
  have f: "packets b' = packets ((clear_slot ^^ d) b)" "read_idx b' < cap b" "write_idx b' = write_idx b"
    using synchronize_frame[OF b(2)] b(3) b1 by simp_all
  have "jitter_wf b'" using f assms(2) by (auto simp: jitter_wf_def clear_slots_frame slots_ok_clears)
  moreover have "slots_le b' b"
    using r by (auto simp: slots_le_def f clear_slots_frame clear_slots_nth)
  moreover have "\<forall>i<d. packets b' ! ((read_idx b + i) mod cap b) = None"
    using r by (auto simp: f clear_slots_nth)
  ultimately show ?thesis using b(3) d(3) by auto
qed

lemma pop_some:
  assumes "jitter_wf b" and "pop clk b = Some (b', Some data)"
  shows "\<exists>b1 ps. jitter_wf b1 \<and> slots_le b1 b \<and> in_slots b1 (read_idx b1) ps \<and>
     one_frame (last_frame_completed_timestamp b') ps \<and> length ps \<le> cap b \<and>
     length ps = unat (total_chunks (last ps)) \<and> data = concat (map payload ps) \<and>
     delivered clk b1 ((read_idx b1 + length ps) mod cap b1) (last ps) b' \<and>
     (last_deliver_timestamp b \<noteq> 0 \<longrightarrow>
        last_frame_completed_timestamp b \<le> last_frame_completed_timestamp b')"
proof -
  obtain b1 ts where p: "prepare_next_frame_ts clk b = Some (b1, Some ts)"
    and l: "pop_loop clk ts (cap b1) (read_idx b1) [] 0 b1 = Some (b', Some data)"
    using assms(2) by (auto simp: pop_def split: option.splits)
  have b1: "jitter_wf b1" "slots_le b1 b" "last_deliver_timestamp b \<noteq> 0 \<longrightarrow> last_frame_completed_timestamp b \<le> ts"
    using prepare_spec[OF p assms(1)] by auto
  obtain ps where ps: "in_slots b1 (read_idx b1) ps" "one_frame ts ps" "length ps \<le> cap b1"
    "length ps = unat (total_chunks (last ps))" "data = concat (map payload ps)"
    "delivered clk b1 ((read_idx b1 + length ps) mod cap b1) (last ps) b'"
    using pop_loop_some[OF l] b1(1) by (auto simp: jitter_wf_def)
  have "last_frame_completed_timestamp b' = timestamp (last ps)"
    using ps(6) by (auto simp: delivered_def)
  also have "\<dots> = ts" using ps(2) by (simp add: one_frame_def)
  finally have t: "last_frame_completed_timestamp b' = ts" .
  have "cap b1 = cap b" using b1(2) by (simp add: slots_le_def)
  then show ?thesis unfolding t using b1 ps by (intro exI[of _ b1] exI[of _ ps]) simp
qed

lemma pop_wf:
  assumes "jitter_wf b" and "pop clk b = Some (b', r)"
  shows "jitter_wf b' \<and> slots_le b' b"
proof (cases r)
  case None
  obtain b1 ts where p: "prepare_next_frame_ts clk b = Some (b1, ts)"
    and l: "b' = b1" using assms(2) None
    by (auto simp: pop_def split: option.splits dest!: pop_loop_none)
  then show ?thesis using prepare_spec[OF p assms(1)] by simp
next
  case (Some data)
  then obtain b1 ps where b: "jitter_wf b1" "slots_le b1 b" "length ps \<le> cap b"
    "delivered clk b1 ((read_idx b1 + length ps) mod cap b1) (last ps) b'"
    using pop_some[OF assms(1)] assms(2) by meson
  have "jitter_wf b' \<and> slots_le b' b1" using delivered_spec[OF b(4) b(1)] b(2,3) by (simp add: slots_le_def)
  then show ?thesis using b(2) slots_le_trans by blast
qed

section \<open>Runs of the buffer\<close>

text \<open>The calls of the receiving and of the playing thread, in the order the mutex admits them.\<close>

datatype jitter_op = Add rtp_packet | Pop

fun jitter_step :: "(nat \<Rightarrow> u128) \<Rightarrow> jitter_buffer option \<Rightarrow> jitter_op \<Rightarrow> jitter_buffer option" where
  "jitter_step clk None op = None"
| "jitter_step clk (Some b) (Add p) = add clk b p"
| "jitter_step clk (Some b) Pop = map_option fst (pop clk b)"

interpretation jit: step_system "jitter_step clk"
  "\<lambda>s. case s of None \<Rightarrow> True | Some b \<Rightarrow> jitter_wf b \<and> cap b = n" for clk n
proof (unfold_locales, goal_cases)
  case (1 s e)
  then show ?case
    by (cases s; cases e)
      (auto dest: add_wf pop_wf simp: slots_le_def split: option.splits)
qed

lemma jitter_new_wf: "0 < n \<Longrightarrow> jitter_wf (jitter_new n) \<and> cap (jitter_new n) = n"
  by (simp add: jitter_new_def jitter_wf_def slots_ok_def)

text \<open>
  C19. Whatever packets arrive and however additions and extractions are interleaved, as long as no
  operation has panicked both ring indices stay below the capacity, the capacity never changes and
  every stored packet sits in the slot its sequence number selects.
\<close>
theorem jitter_invariant:
  assumes "0 < n" and "foldl (jitter_step clk) (Some (jitter_new n)) ops = Some b"
  shows "cap b = n \<and> read_idx b < n \<and> write_idx b < n \<and>
     (\<forall>i p. i < n \<longrightarrow> packets b ! i = Some p \<longrightarrow> unat (sequence_number p) mod n = i)"
  using jit.run_inv[of n "Some (jitter_new n)" clk ops] jitter_new_wf[OF assms(1)] assms(2)
  by (auto simp: jitter_wf_def slots_ok_def)

text \<open>
  C16. A frame that \<open>pop\<close> returns is the concatenation of the payloads found, in order, in consecutive
  slots of the ring: all with one timestamp, the marker bit on the last packet and on no other, as
  many packets as the last one announces, none of them invented. That timestamp is recorded as the
  last completed one and, once playout has started, never runs backwards. Unless the frame fills
  the whole ring its slots are empty afterwards; no slot gains or changes a packet.
\<close>
theorem pop_delivers_frame:
  assumes "jitter_wf b" and "pop clk b = Some (b', Some data)"
  shows "\<exists>r ps. in_slots b r ps \<and> one_frame (last_frame_completed_timestamp b') ps \<and>
     length ps = unat (total_chunks (last ps)) \<and> data = concat (map payload ps) \<and>
     (last_deliver_timestamp b \<noteq> 0 \<longrightarrow>
        last_frame_completed_timestamp b \<le> last_frame_completed_timestamp b') \<and>
     (length ps < cap b \<longrightarrow> (\<forall>i<length ps. packets b' ! ((r + i) mod cap b) = None)) \<and>
     (\<forall>i<cap b. packets b' ! i = packets b ! i \<or> packets b' ! i = None)"
proof -
  obtain b1 ps where b: "jitter_wf b1" "slots_le b1 b" "in_slots b1 (read_idx b1) ps"
    "one_frame (last_frame_completed_timestamp b') ps" "length ps \<le> cap b"
    "length ps = unat (total_chunks (last ps))" "data = concat (map payload ps)"
    "delivered clk b1 ((read_idx b1 + length ps) mod cap b1) (last ps) b'"
    "last_deliver_timestamp b \<noteq> 0 \<longrightarrow> last_frame_completed_timestamp b \<le> last_frame_completed_timestamp b'"
    using pop_some[OF assms] by blast
  have c: "cap b1 = cap b" "0 < cap b" using b(1,2) by (auto simp: slots_le_def jitter_wf_def)
  have d: "slots_le b' b1" "length ps < cap b \<longrightarrow> (\<forall>i<length ps. packets b' ! ((read_idx b1 + i) mod cap b) = None)"
    using delivered_spec[OF b(8) b(1)] b(5) c by auto
  show ?thesis
    using b c d slots_le_trans[OF d(1) b(2)] in_slots_mono[OF b(3,2) c(2)]
    by (intro exI[of _ "read_idx b1"] exI[of _ ps]) (auto simp: slots_le_def)
qed

section \<open>Sample runs\<close>

lemma add_chk_code [code]: "add_chk a b = (if a + b < a then None else Some (a + b))"
  for a b :: "'a::len word"
proof (cases "unat a + unat b < 2 ^ LENGTH('a)")
  case True
  then have "a \<le> a + b" by (simp add: word_le_nat_alt unat_word_ariths)
  then show ?thesis using True by (simp add: add_chk_def not_less[symmetric])
next
  case False
  have b: "unat a < 2 ^ LENGTH('a)" "unat b < 2 ^ LENGTH('a)" by simp_all
  have "unat a + unat b - 2 ^ LENGTH('a) < 2 ^ LENGTH('a)" using False b by linarith
  then have "unat (a + b) = unat a + unat b - 2 ^ LENGTH('a)"
    using False
    by (simp add: unat_word_ariths le_mod_geq not_less)
  then have "unat (a + b) < unat a" using False b by linarith
  then show ?thesis using False by (simp add: add_chk_def word_less_nat_alt)
qed

lemma new_jitter_code [code]:
  "new_jitter prev d = word_of_int (min (2 ^ 32 - 1) ((15 * uint prev + int d) div 16))"
proof -
  have "int (min (2 ^ 32 - 1) ((15 * unat prev + d) div 16)) = min (2 ^ 32 - 1) ((15 * uint prev + int d) div 16)"
    by (simp add: of_nat_min zdiv_int)
  then show ?thesis unfolding new_jitter_def by (metis of_int_of_nat_eq)
qed

definition sample_rtp :: "u64 \<Rightarrow> u128 \<Rightarrow> u8 \<Rightarrow> u8 \<Rightarrow> bytes \<Rightarrow> rtp_packet" where
  "sample_rtp seq ts m chunks data =
     \<lparr>version = 2, marker = m, total_chunks = chunks, is_i_frame = True, payload_type = 96,
      sequence_number = seq, timestamp = ts, ssrc = 7, payload = data\<rparr>"

definition sample_clock :: "nat \<Rightarrow> u128" where
  "sample_clock t = 1000"

definition sample_ops :: "jitter_op list" where
  "sample_ops = [Add (sample_rtp 8 500 0 2 [1, 2]), Add (sample_rtp 9 500 1 2 [3])]"

definition sample_buffer :: jitter_buffer where
  "sample_buffer = the (foldl (jitter_step sample_clock) (Some (jitter_new 4)) sample_ops)"

lemma sample_buffer_run:
  "foldl (jitter_step sample_clock) (Some (jitter_new 4)) sample_ops = Some sample_buffer"
  "map_option snd (pop sample_clock sample_buffer) = Some (Some [1, 2, 3])"
  by code_simp+

theorem jitter_invariant_witness:
  "(0::nat) < 4 \<and> cap sample_buffer = 4 \<and> read_idx sample_buffer < 4 \<and> write_idx sample_buffer < 4"
  using jitter_invariant[of 4 sample_clock sample_ops sample_buffer] sample_buffer_run(1) by simp

lemma sample_buffer_wf: "jitter_wf sample_buffer"
  using jit.run_inv[of 4 "Some (jitter_new 4)" sample_clock sample_ops] jitter_new_wf[of 4]
  unfolding sample_buffer_run(1) by simp

theorem pop_delivers_frame_witness:
  "\<exists>b' r ps. pop sample_clock sample_buffer = Some (b', Some [1, 2, 3]) \<and> in_slots sample_buffer r ps \<and>
     one_frame (last_frame_completed_timestamp b') ps \<and> concat (map payload ps) = [1, 2, 3]"
proof -
  obtain b' where b': "pop sample_clock sample_buffer = Some (b', Some [1, 2, 3])"
    using sample_buffer_run(2) by auto
  from pop_delivers_frame[OF sample_buffer_wf b'] show ?thesis using b' by metis
qed

section \<open>Where the buffer misbehaves\<close>

text \<open>
  The lower bound of the acceptance window is computed with a wrapping subtraction: near the start
  of a stream it wraps to a huge number, so that the next packet in order is rejected. Here packets
  1 to 5 are stored in a ring of ten slots and packet 6 of the same frame is refused.
\<close>

theorem early_window_rejects_next:
  "map_option (\<lambda>b. (write_seq b, valid_packet_seq_num b 6))
     (foldl (jitter_step sample_clock) (Some (jitter_new 10))
        (map (\<lambda>n. Add (sample_rtp n 500 0 9 [])) [1, 2, 3, 4, 5])) = Some (Some 5, False)"
  by code_simp

text \<open>
  A frame of exactly as many packets as the ring has slots leaves the read index where it was, the
  clearing loop does not run, and the next \<open>pop\<close> returns the same frame again.
\<close>

theorem full_ring_frame_repeated:
  "(case foldl (jitter_step sample_clock) (Some (jitter_new 2)) sample_ops of
      None \<Rightarrow> None
    | Some b \<Rightarrow> (case pop sample_clock b of
                   None \<Rightarrow> None
                 | Some (b1, r1) \<Rightarrow> (case pop sample_clock b1 of
                                        None \<Rightarrow> None
                                      | Some (b2, r2) \<Rightarrow> Some (r1, r2)))) =
    Some (Some [1, 2, 3], Some [1, 2, 3])"
  by code_simp

text \<open>
  After a frame has been played, an older timestamp at the read slot makes the subtraction of the
  deadline computation panic: packet 10 (timestamp 400) is stored together with packets 8 and 9
  (timestamp 500), and the second \<open>pop\<close> panics.
\<close>

theorem older_timestamp_panics:
  "foldl (jitter_step sample_clock) (Some (jitter_new 4))
     (sample_ops @ [Add (sample_rtp 10 400 1 1 []), Pop]) \<noteq> None \<and>
   foldl (jitter_step sample_clock) (Some (jitter_new 4))
     (sample_ops @ [Add (sample_rtp 10 400 1 1 []), Pop, Pop]) = None"
proof
  show "foldl (jitter_step sample_clock) (Some (jitter_new 4))
     (sample_ops @ [Add (sample_rtp 10 400 1 1 []), Pop]) \<noteq> None" by code_simp
  show "foldl (jitter_step sample_clock) (Some (jitter_new 4))
     (sample_ops @ [Add (sample_rtp 10 400 1 1 []), Pop, Pop]) = None" by code_simp
qed

section \<open>Extraction always returns\<close>

text \<open>Every buffered frame is due at a time after the last played one, and its deadline is a \<open>u128\<close>.\<close>

definition in_time :: "jitter_buffer \<Rightarrow> u128 \<Rightarrow> bool" where
  "in_time b ts =
     (last_frame_completed_timestamp b \<le> ts \<and>
      unat (last_deliver_timestamp b) + unat (ts - last_frame_completed_timestamp b) + 120 < 2 ^ 128)"

definition all_in_time :: "jitter_buffer \<Rightarrow> bool" where
  "all_in_time b = (\<forall>i<cap b. \<forall>p. packets b ! i = Some p \<longrightarrow> in_time b (timestamp p))"

lemma all_in_time_mono:
  assumes "all_in_time b" and "slots_le b' b" and "last_deliver_timestamp b' = last_deliver_timestamp b"
    and "last_frame_completed_timestamp b' = last_frame_completed_timestamp b"
  shows "all_in_time b'"
  using assms unfolding all_in_time_def slots_le_def in_time_def by (metis option.distinct(1))

lemma add_chk_fits: "unat a + unat b < 2 ^ LENGTH('a) \<Longrightarrow> add_chk a b = Some (a + b)"
  for a b :: "'a::len word"
  by (simp add: add_chk_def)

lemma valid_playout_some:
  assumes "in_time b ts"
  shows "\<exists>b' v. valid_playout_time clk b ts = Some (b', v)"
proof -
  let ?d = "ts - last_frame_completed_timestamp b"
  have s: "unat (last_deliver_timestamp b) + unat ?d < 2 ^ 128" using assms by (simp add: in_time_def)
  then have "unat (last_deliver_timestamp b + ?d) = unat (last_deliver_timestamp b) + unat ?d"
    by (simp add: unat_word_ariths)
  then have "add_chk (last_deliver_timestamp b + ?d) TOLERANCE_MILLIS =
      Some (last_deliver_timestamp b + ?d + TOLERANCE_MILLIS)"
    using assms by (intro add_chk_fits) (simp add: in_time_def TOLERANCE_MILLIS_def)
  then show ?thesis
    using assms s
    by (cases "last_deliver_timestamp b = 0")
      (auto simp: valid_playout_time_def sub_chk_def in_time_def add_chk_fits)
qed

lemma prepare_some:
  "jitter_wf b \<Longrightarrow> all_in_time b \<Longrightarrow> \<exists>b' r. prepare_next_frame_ts clk b = Some (b', r)"
proof (induction clk b rule: prepare_next_frame_ts.induct)
  case (1 clk b)
  have r: "\<not> cap b \<le> read_idx b" using 1(2) by (simp add: jitter_wf_def)
  show ?case
  proof (cases "packets b ! read_idx b")
    case None
    then show ?thesis using r by (simp add: prepare_next_frame_ts.simps)
  next
    case p: (Some p)
    then have "in_time b (timestamp p)" using 1(3) r by (simp add: all_in_time_def not_le)
    then obtain b1 v where v: "valid_playout_time clk b (timestamp p) = Some (b1, v)"
      using valid_playout_some by blast
    have b1: "jitter_wf b1" "slots_le b1 b" "last_deliver_timestamp b1 = last_deliver_timestamp b"
      "last_frame_completed_timestamp b1 = last_frame_completed_timestamp b"
      using valid_playout_time_frame[OF v] 1(2) by (auto simp: slots_le_def)
    then have "\<not> cap b1 \<le> read_idx b1" by (simp add: jitter_wf_def)
    then obtain b2 where b2: "resync_or_clear b1 = Some b2"
      by (cases "packets b1 ! read_idx b1") (auto simp: resync_or_clear_def)
    have b2': "jitter_wf b2" "all_in_time b2"
      using resync_wf[OF b1(1) b2] resync_times[OF b2] b1
        all_in_time_mono[OF 1(3) slots_le_trans[OF resync_slots[OF b1(1) b2] b1(2)]] by auto
    show ?thesis
    proof (cases "v \<or> write_seq b2 = None \<or> read_seq b2 = None")
      case True
      then show ?thesis using r p v b2 by (auto simp: prepare_next_frame_ts.simps[of clk b])
    next
      case False
      then have "\<exists>b' r. prepare_next_frame_ts clk b2 = Some (b', r)"
        by (intro 1(1)[OF r p v refl _ b2] b2') simp_all
      then show ?thesis using r p v b2 False by (auto simp: prepare_next_frame_ts.simps[of clk b])
    qed
  qed
qed

lemma synchronize_some:
  "in_time b (timestamp p) \<Longrightarrow> \<exists>b'. synchronize_playout clk b p = Some b'"
  by (auto simp: synchronize_playout_def sat_sub_def in_time_def add_chk_fits)

lemma pop_loop_returns:
  assumes "jitter_wf b" and "all_in_time b" and "idx = (read_idx b + chunks) mod cap b" and "chunks + k \<le> cap b"
  shows "\<exists>b' r. pop_loop clk ts k idx data chunks b = Some (b', r)"
  using assms(3,4)
proof (induction k arbitrary: idx data chunks)
  case (Suc k)
  have c: "0 < cap b" using assms(1) by (auto simp: jitter_wf_def)
  have next_idx: "(idx + 1) mod cap b = (read_idx b + (chunks + 1)) mod cap b"
    using Suc.prems(1) by (simp add: mod_Suc_eq)
  obtain d where d: "d < cap b" "(read_idx b + d) mod cap b = (read_idx b + (chunks + 1)) mod cap b"
  proof (cases "chunks + 1 < cap b")
    case False
    then have "chunks + 1 = cap b" using Suc.prems(2) by simp
    then show ?thesis using that[of 0] c by (simp only: mod_add_self2 add_0_right)
  qed (use that in blast)
  obtain b1 where b1: "advance_read_pointers b ((idx + 1) mod cap b) = Some b1"
    "last_deliver_timestamp b1 = last_deliver_timestamp b"
    "last_frame_completed_timestamp b1 = last_frame_completed_timestamp b"
    using advance_read_pointers_spec[OF assms(1) d(1)] d(2) next_idx by metis
  show ?case
  proof (cases "packets b ! idx")
    case (Some p)
    have "idx < cap b" using Suc.prems(1) mod_lt[OF c] by simp
    then have "in_time b (timestamp p)" using assms(2) Some by (simp add: all_in_time_def)
    then have "in_time b1 (timestamp p)" using b1 by (simp add: in_time_def)
    then obtain b2 where "synchronize_playout clk b1 p = Some b2" using synchronize_some by blast
    then show ?thesis using Some b1(1) Suc.IH[OF next_idx] Suc.prems(2) by (auto simp: Let_def)
  qed simp
qed simp

text \<open>
  C21. \<open>pop\<close> always returns: no loop of it runs forever, no index is out of range, and no arithmetic
  overflows, for a buffer whose stored packets are not older than the last played frame and
  whose playout deadlines fit in 128 bits.
\<close>
theorem pop_returns:
  assumes "jitter_wf b" and "all_in_time b"
  shows "\<exists>b' r. pop clk b = Some (b', r)"
proof -
  obtain b1 r where p: "prepare_next_frame_ts clk b = Some (b1, r)" using prepare_some[OF assms] by blast
  have b1: "jitter_wf b1" "all_in_time b1"
    using prepare_spec[OF p assms(1)] all_in_time_mono[OF assms(2)] by auto
  then have "\<exists>b' r'. pop_loop clk ts (cap b1) (read_idx b1) [] 0 b1 = Some (b', r')" for ts
    by (intro pop_loop_returns) (auto simp: jitter_wf_def)
  then show ?thesis using p by (cases r) (auto simp: pop_def)
qed

theorem pop_returns_witness: "jitter_wf sample_buffer \<and> all_in_time sample_buffer \<and>
    (\<exists>b' r. pop (\<lambda>_. 77) sample_buffer = Some (b', r))"
proof -
  have t: "last_deliver_timestamp sample_buffer = 0" "last_frame_completed_timestamp sample_buffer = 0"
    "list_all (\<lambda>s. case s of None \<Rightarrow> True | Some p \<Rightarrow> timestamp p = 500) (packets sample_buffer)"
    by code_simp+
  have "all_in_time sample_buffer"
    using t(3) by (auto simp: all_in_time_def in_time_def t(1,2) list_all_length)
  then show ?thesis using pop_returns[OF sample_buffer_wf, of "\<lambda>_. 77"] sample_buffer_wf by simp
qed

end
