(* ===== verification/Media_Pipeline.thy ===== *)
theory Media_Pipeline
  imports Jitter_Buffer Media_Transport Call_Session
begin

text \<open>
  The media pipelines, \<^verbatim>\<open>src/media/media_pipeline.rs\<close> and \<^verbatim>\<open>src/media/audio_pipeline.rs\<close>: cutting an
  encoded frame into RTP packets, telling video from audio, reassembling frames through the
  jitter buffer, and the audio threads; with the chunking of
  \<^verbatim>\<open>src/media/frame_handler/encoder.rs\<close> and the byte format of \<^verbatim>\<open>src/media/frame_handler/frame.rs\<close>.
  The codecs (openh264, opus) and the devices are parameters.
\<close>

section \<open>Frames\<close>

record frame =
  frame_data :: bytes
  frame_width :: nat
  frame_height :: nat
  frame_time :: u128

datatype frame_error =
    EncoderInitializationError
  | EncodingError string
  | DecoderInitializationError
  | DecodingError string
  | EmptyFrameError
  | UnableToCreateFrameFromYUVError
  | ReshapingFrameError
  | TypeConversionError
  | BytesConversionError
  | DimensionConversionError

definition frame_from_bytes :: "bytes \<Rightarrow> frame option" where
  "frame_from_bytes bs =
     (if length bs < 24 then None
      else Some \<lparr>frame_data = drop 24 bs,
                 frame_width = unat (from_le_bytes (slice bs 16 20) :: u32),
                 frame_height = unat (from_le_bytes (slice bs 20 24) :: u32),
                 frame_time = from_le_bytes (slice bs 0 16)\<rparr>)"

definition frame_to_bytes :: "frame \<Rightarrow> frame_error + bytes" where
  "frame_to_bytes f =
     (if frame_width f < 2 ^ 32 then
        if frame_height f < 2 ^ 32 then
          Inr (to_le_bytes 16 (frame_time f) @ to_le_bytes 4 (word_of_nat (frame_width f) :: u32)
                 @ to_le_bytes 4 (word_of_nat (frame_height f) :: u32) @ frame_data f)
        else Inl DimensionConversionError
      else Inl DimensionConversionError)"

record encoded_frame =
  chunks :: "bytes list"
  encoded_time :: u128
  encoded_i_frame :: bool

text \<open>The chunking panics (\<open>None\<close>) on a chunk size of zero.\<close>

definition generate_chunks_from_bitstream :: "bytes \<Rightarrow> nat \<Rightarrow> bytes list option" where
  "generate_chunks_from_bitstream nalus max_chunk_size =
     (if max_chunk_size = 0 then None else Some (chunk_list max_chunk_size nalus))"

text \<open>
  \<open>encode\<close>: the library's result is the bit stream and its frame type, or an error.
\<close>

definition encode ::
  "string + (bytes \<times> bool) \<Rightarrow> nat \<Rightarrow> u128 \<Rightarrow> (frame_error + encoded_frame) option" where
  "encode bitstream max_chunk_size time =
     (case bitstream of
        Inl e \<Rightarrow> Some (Inl (EncodingError e))
      | Inr (nalus, intra) \<Rightarrow>
          map_option (\<lambda>cs. Inr \<lparr>chunks = cs, encoded_time = time, encoded_i_frame = intra\<rparr>)
            (generate_chunks_from_bitstream nalus max_chunk_size))"

section \<open>Sending\<close>

datatype media_pipeline_error =
    PipelineMapError string
  | ParsingError string
  | SendError string
  | PipelineProtectionError string
  | PipelinePoisonedLock

record pipeline_config = media_config +
  rtp_version :: u8
  frame_ssrc :: u32
  audio_ssrc :: u32

definition saturating_inc :: "u64 \<Rightarrow> u64" where
  "saturating_inc n = (if n = - 1 then n else n + 1)"

definition chunk_packet :: "pipeline_config \<Rightarrow> encoded_frame \<Rightarrow> nat \<Rightarrow> u64 \<Rightarrow> rtp_packet" where
  "chunk_packet cfg f i seq =
     \<lparr>version = rtp_version cfg,
      marker = (if i = length (chunks f) - 1 then 1 else 0),
      total_chunks = word_of_nat (length (chunks f)),
      is_i_frame = encoded_i_frame f,
      payload_type = video_payload_type cfg,
      sequence_number = seq,
      timestamp = encoded_time f,
      ssrc = frame_ssrc cfg,
      payload = chunks f ! i\<rparr>"

text \<open>
  The loop over the chunks with the number still to go; \<open>room\<close> is the number of packets the channel
  takes before its receiver is gone. The result: outcome, next sequence number, packets sent.
\<close>

fun send_chunk_packets ::
  "pipeline_config \<Rightarrow> encoded_frame \<Rightarrow> nat \<Rightarrow> nat \<Rightarrow> u64 \<Rightarrow> rtp_packet list \<Rightarrow>
     (media_pipeline_error + unit) \<times> u64 \<times> rtp_packet list" where
  "send_chunk_packets cfg f room 0 seq out = (Inr (), seq, out)"
| "send_chunk_packets cfg f room (Suc k) seq out =
     (let packet = chunk_packet cfg f (length (chunks f) - Suc k) seq; seq1 = saturating_inc seq
      in case room of
           0 \<Rightarrow> (Inl (SendError ''sending on a closed channel''), seq1, out)
         | Suc r \<Rightarrow> send_chunk_packets cfg f r k seq1 (out @ [packet]))"

definition send_encoded_frame ::
  "pipeline_config \<Rightarrow> encoded_frame \<Rightarrow> bool \<Rightarrow> nat \<Rightarrow> u64 \<Rightarrow>
     (media_pipeline_error + unit) \<times> u64 \<times> rtp_packet list" where
  "send_encoded_frame cfg f conn room seq =
     (if \<not> conn then (Inl (SendError ''Media pipeline turned off''), seq, [])
      else send_chunk_packets cfg f room (length (chunks f)) seq [])"

text \<open>
  The encoder thread: each frame of the camera is encoded (\<open>None\<close>: panic of the chunking) and sent;
  it ends at the first error.
\<close>

fun encoded_sender ::
  "pipeline_config \<Rightarrow> nat \<Rightarrow> ((string + (bytes \<times> bool)) \<times> u128 \<times> bool \<times> nat) list \<Rightarrow> u64 \<Rightarrow> rtp_packet list \<Rightarrow>
     rtp_packet list option" where
  "encoded_sender cfg max_chunk_size [] seq out = Some out"
| "encoded_sender cfg max_chunk_size ((bitstream, time, conn, room) # frames) seq out =
     (case encode bitstream max_chunk_size time of
        None \<Rightarrow> None
      | Some (Inl e) \<Rightarrow> Some out
      | Some (Inr f) \<Rightarrow>
          (case send_encoded_frame cfg f conn room seq of
             (Inl e, seq1, ps) \<Rightarrow> Some (out @ ps)
           | (Inr _, seq1, ps) \<Rightarrow> encoded_sender cfg max_chunk_size frames seq1 (out @ ps)))"

section \<open>Receiving\<close>

text \<open>
  The demultiplexer: per packet the flag after \<open>recv\<close> and whether the video and the audio channel
  still take packets.
\<close>

fun demux ::
  "pipeline_config \<Rightarrow> (rtp_packet \<times> bool \<times> bool \<times> bool) list \<Rightarrow> rtp_packet list \<times> rtp_packet list" where
  "demux cfg [] = ([], [])"
| "demux cfg ((p, conn, video_ok, audio_ok) # rest) =
     (if \<not> conn then ([], [])
      else if payload_type p = video_payload_type cfg then
        (if video_ok then apfst (Cons p) (demux cfg rest) else ([], []))
      else if payload_type p = audio_payload_type cfg then
        (if audio_ok then apsnd (Cons p) (demux cfg rest) else ([], []))
      else demux cfg rest)"

text \<open>The video decoder: a state and its answer to the bytes of one frame.\<close>

type_synonym 'd decoder = "'d \<Rightarrow> bytes \<Rightarrow> 'd \<times> (frame_error + bytes \<times> nat \<times> nat)"

definition generate_frame_from_chunks :: "'d decoder \<Rightarrow> bytes \<Rightarrow> 'd \<Rightarrow> 'd \<times> frame option" where
  "generate_frame_from_chunks decode_frame d st =
     (case decode_frame st d of
        (st1, Inl e) \<Rightarrow> (st1, None)
      | (st1, Inr (decoded, w, h)) \<Rightarrow>
          (st1, Some \<lparr>frame_data = decoded, frame_width = w, frame_height = h, frame_time = 0\<rparr>))"

text \<open>
  The reassembly thread. A round: the flag, the packet (\<open>None\<close>: the channel is closed), whether the
  frame channel takes a frame. \<open>None\<close> is a panic of the jitter buffer; the result is the buffer, the
  decoder, the frames shown, and the events of the closing (\<open>after\<close>: the flag after the loop).
\<close>

fun run_frame_pipeline_loop ::
  "(nat \<Rightarrow> u128) \<Rightarrow> 'd decoder \<Rightarrow> bool \<Rightarrow> (bool \<times> rtp_packet option \<times> bool) list \<Rightarrow> jitter_buffer \<Rightarrow> 'd \<Rightarrow> frame list \<Rightarrow>
     (jitter_buffer \<times> 'd \<times> frame list \<times> app_event list) option" where
  "run_frame_pipeline_loop clk dec after [] b st shown = Some (b, st, shown, [])"
| "run_frame_pipeline_loop clk dec after ((conn, packet, tx_ok) # rounds) b st shown =
     (let closing = (if after then [CallEnded] else [])
      in if \<not> conn then Some (b, st, shown, closing)
         else case packet of
                None \<Rightarrow> Some (b, st, shown, closing)
              | Some p \<Rightarrow>
                  (case add clk b p of
                     None \<Rightarrow> None
                   | Some b1 \<Rightarrow>
                       (case pop clk b1 of
                          None \<Rightarrow> None
                        | Some (b2, None) \<Rightarrow> run_frame_pipeline_loop clk dec after rounds b2 st shown
                        | Some (b2, Some d) \<Rightarrow>
                            (case generate_frame_from_chunks dec d st of
                               (st1, None) \<Rightarrow> run_frame_pipeline_loop clk dec after rounds b2 st1 shown
                             | (st1, Some f) \<Rightarrow>
                                 if tx_ok then run_frame_pipeline_loop clk dec after rounds b2 st1 (shown @ [f])
                                 else Some (b2, st1, shown, closing)))))"

section \<open>Audio\<close>

text \<open>
  The audio sender: per captured frame its timestamp, the flag, the encoder's answer and whether the
  transport takes the packet. A frame the encoder refuses is dropped.
\<close>

fun audio_sender ::
  "pipeline_config \<Rightarrow> (u128 \<times> bool \<times> (string + bytes) \<times> bool) list \<Rightarrow> u64 \<Rightarrow> rtp_packet list" where
  "audio_sender cfg [] seq = []"
| "audio_sender cfg ((time, conn, encoded, tx_ok) # frames) seq =
     (if \<not> conn then []
      else case encoded of
             Inl e \<Rightarrow> audio_sender cfg frames seq
           | Inr d \<Rightarrow>
               if tx_ok then
                 \<lparr>version = rtp_version cfg, marker = 1, total_chunks = 1, is_i_frame = False,
                  payload_type = audio_payload_type cfg, sequence_number = seq, timestamp = time,
                  ssrc = audio_ssrc cfg, payload = d\<rparr> # audio_sender cfg frames (saturating_inc seq)
               else [])"

text \<open>The audio receiver plays what the decoder accepts, without a jitter buffer.\<close>

fun audio_receiver ::
  "('d \<Rightarrow> bytes \<Rightarrow> 'd \<times> (string + 's)) \<Rightarrow> (bool \<times> rtp_packet option) list \<Rightarrow> 'd \<Rightarrow> 's list" where
  "audio_receiver dec [] st = []"
| "audio_receiver dec ((conn, packet) # rounds) st =
     (if \<not> conn then []
      else case packet of
             None \<Rightarrow> []
           | Some p \<Rightarrow>
               (case dec st (payload p) of
                  (st1, Inl e) \<Rightarrow> audio_receiver dec rounds st1
                | (st1, Inr samples) \<Rightarrow> samples # audio_receiver dec rounds st1))"

section \<open>Frames as bytes\<close>

text \<open>
  A frame with dimensions below \<open>2 ^ 32\<close> is restored from its byte format; with a larger
  dimension the format is refused, and every buffer shorter than the header is rejected.
\<close>
lemma frame_roundtrip:
  "(if frame_width f < 2 ^ 32 \<and> frame_height f < 2 ^ 32
    then \<exists>bs. frame_to_bytes f = Inr bs \<and> frame_from_bytes bs = Some f \<and> length bs = 24 + length (frame_data f)
    else frame_to_bytes f = Inl DimensionConversionError) \<and>
   (length short < 24 \<longleftrightarrow> frame_from_bytes short = None)"
proof -
  let ?t = "to_le_bytes 16 (frame_time f)"
    and ?w = "to_le_bytes 4 (word_of_nat (frame_width f) :: u32)"
    and ?h = "to_le_bytes 4 (word_of_nat (frame_height f) :: u32)"
  have s: "slice (?t @ ?w @ ?h @ frame_data f) 0 16 = ?t" "slice (?t @ ?w @ ?h @ frame_data f) 16 20 = ?w"
    "slice (?t @ ?w @ ?h @ frame_data f) 20 24 = ?h"
    by (simp_all add: slice_def)
  have "frame_from_bytes (?t @ ?w @ ?h @ frame_data f) = Some f"
    if "frame_width f < 2 ^ 32" "frame_height f < 2 ^ 32"
    using that by (simp add: frame_from_bytes_def s unat_of_nat)
  then show ?thesis by (auto simp: frame_to_bytes_def frame_from_bytes_def)
qed

section \<open>Packets of a frame\<close>

definition frame_packets :: "pipeline_config \<Rightarrow> encoded_frame \<Rightarrow> nat \<Rightarrow> rtp_packet list" where
  "frame_packets cfg f s = map (\<lambda>i. chunk_packet cfg f i (word_of_nat (s + i))) [0..<length (chunks f)]"

lemma saturating_inc_of_nat: "n + 1 < 2 ^ 64 \<Longrightarrow> saturating_inc (word_of_nat n) = word_of_nat (n + 1)"
proof -
  assume n: "n + 1 < 2 ^ 64"
  have "unat (word_of_nat n :: u64) = n" using n by (simp add: unat_of_nat)
  moreover have "unat (- 1 :: u64) = 2 ^ 64 - 1" by (simp add: unsigned_minus_1_eq_mask mask_eq_exp_minus_1)
  ultimately have "(word_of_nat n :: u64) \<noteq> - 1" using n by (metis add_diff_cancel_right' diff_less_mono less_irrefl le_add2)
  then show ?thesis by (simp add: saturating_inc_def)
qed

lemma send_chunk_packets_ok:
  "k \<le> length (chunks f) \<Longrightarrow> k \<le> room \<Longrightarrow> s + length (chunks f) < 2 ^ 64 \<Longrightarrow>
     send_chunk_packets cfg f room k (word_of_nat (s + (length (chunks f) - k))) out =
       (Inr (), word_of_nat (s + length (chunks f)),
        out @ map (\<lambda>i. chunk_packet cfg f i (word_of_nat (s + i))) [length (chunks f) - k..<length (chunks f)])"
proof (induction k arbitrary: room out)
  case (Suc k)
  let ?n = "length (chunks f)"
  obtain r where r: "room = Suc r" using Suc.prems(2) by (cases room) auto
  have nxt: "s + (?n - Suc k) + 1 = s + (?n - k)" using Suc.prems(1) by simp
  have "saturating_inc (word_of_nat (s + (?n - Suc k))) = word_of_nat (s + (?n - k))"
    using saturating_inc_of_nat[of "s + (?n - Suc k)"] Suc.prems(1,3) nxt by simp
  moreover have "[?n - Suc k..<?n] = (?n - Suc k) # [?n - k..<?n]"
    using Suc.prems(1) by (simp add: upt_conv_Cons Suc_diff_Suc)
  ultimately show ?case using Suc r by (simp add: Let_def del: of_nat_add of_nat_diff of_nat_Suc)
qed simp

lemma send_encoded_frame_packets:
  assumes "length (chunks f) \<le> room" and "s + length (chunks f) < 2 ^ 64"
  shows "send_encoded_frame cfg f True room (word_of_nat s) =
     (Inr (), word_of_nat (s + length (chunks f)), frame_packets cfg f s)"
  using send_chunk_packets_ok[of "length (chunks f)" f room s cfg "[]"] assms
  by (simp add: send_encoded_frame_def frame_packets_def)

section \<open>Messages of the errors\<close>

fun show_pipeline_error :: "media_pipeline_error \<Rightarrow> string" where
  "show_pipeline_error (PipelineMapError e) = e"
| "show_pipeline_error (media_pipeline_error.ParsingError e) = ''Error: \"Parsing failed\": '' @ e"
| "show_pipeline_error (media_pipeline_error.SendError e) = ''Error: \"Send failed\": '' @ e"
| "show_pipeline_error (PipelineProtectionError e) = ''Error: \"Failed to protect RTP packet ('' @ e @ '')''"
| "show_pipeline_error PipelinePoisonedLock = ''Error: \"Poisoned lock\"''"

fun show_frame_error :: "frame_error \<Rightarrow> string" where
  "show_frame_error frame_error.EncoderInitializationError = ''Error: failed to intialize encoder''"
| "show_frame_error (frame_error.EncodingError e) = ''Error: failed to encode frame: '' @ e"
| "show_frame_error frame_error.DecoderInitializationError = ''Error: failed to initialize decoder''"
| "show_frame_error (frame_error.DecodingError e) = ''Error: failed to decode frame: '' @ e"
| "show_frame_error frame_error.EmptyFrameError = ''Error: no frame was provided''"
| "show_frame_error frame_error.UnableToCreateFrameFromYUVError = ''Error: failed to create a frame from yuv vec.''"
| "show_frame_error frame_error.ReshapingFrameError = ''Error: failed to reshape frame''"
| "show_frame_error frame_error.TypeConversionError = ''Error: failed to convert frame from yuv to rgb''"
| "show_frame_error frame_error.BytesConversionError = ''Error: failed to convert frame to bytes''"
| "show_frame_error frame_error.DimensionConversionError = ''Error: frame dimensions too large for conversion''"

end
