(* ===== verification/Media_Devices.thy ===== *)
theory Media_Devices
  imports Audio_Devices Media_Pipeline
begin

text \<open>
  The devices and the start of the media pipelines: the camera of \<^verbatim>\<open>src/media/camera/cam.rs\<close>, the codecs'
  wrappers (\<^verbatim>\<open>src/media/frame_handler/encoder.rs\<close>, \<^verbatim>\<open>src/media/frame_handler/decoder.rs\<close>,
  \<^verbatim>\<open>src/media/audio/encoder.rs\<close>, \<^verbatim>\<open>src/media/audio/decoder.rs\<close>), the microphone's and the speaker's life cycle, and
  \<open>start\<close> and \<open>stop\<close> of \<^verbatim>\<open>src/media/audio_pipeline.rs\<close> and \<^verbatim>\<open>src/media/media_pipeline.rs\<close>. The calls into the device and codec
  libraries are given by their outcomes. The loops of the threads are those of the media pipelines; here
  the threads that are spawned are recorded.
\<close>

section \<open>Errors\<close>

datatype camera_error =
    CameraPoisonedLock
  | IndexError
  | OpenError string
  | ClosedCamera
  | CameraConfigFailed
  | CameraMapError string
  | CameraIndexError
  | PropSettingError string
  | ReadFrameError

fun show_camera_error :: "camera_error \<Rightarrow> string" where
  "show_camera_error CameraPoisonedLock = ''Error: \"Poisoned lock\"''"
| "show_camera_error IndexError = ''Error: \"Device index is too large\"''"
| "show_camera_error (OpenError e) = ''Error: \"Failed to open camera\": '' @ e"
| "show_camera_error ClosedCamera = ''Error: \"Camera is closed\"''"
| "show_camera_error CameraConfigFailed = ''Error: \"Failed to set camera configuration\"''"
| "show_camera_error (CameraMapError e) = ''Error: \"'' @ e @ ''\"''"
| "show_camera_error CameraIndexError = ''Error: \"camera index is too large\"''"
| "show_camera_error (PropSettingError e) = ''Error: \"failed to set prop: '' @ e @ ''\"''"
| "show_camera_error ReadFrameError = ''Error: \"Failed to read camera frame\"''"

datatype audio_error =
    InputDeviceError
  | AudioMapError string
  | AudioEncoderInitializationError
  | AudioEncodingError string
  | AudioDecoderInitializationError
  | AudioDecodingError string
  | MissingOutputDeviceError

fun show_audio_error :: "audio_error \<Rightarrow> string" where
  "show_audio_error InputDeviceError = ''Error: no input device available''"
| "show_audio_error (AudioMapError e) = ''Error: '' @ e"
| "show_audio_error AudioEncoderInitializationError = ''Error: failed to initialize microphone encoder''"
| "show_audio_error (AudioEncodingError e) = ''Error: failed to encode microphone file ('' @ e @ '')''"
| "show_audio_error AudioDecoderInitializationError = ''Error: failed to initialize microphone decoder''"
| "show_audio_error (AudioDecodingError e) = ''Error: failed to decode microphone file ('' @ e @ '')''"
| "show_audio_error MissingOutputDeviceError = ''Error: no output device available''"

section \<open>Camera\<close>

text \<open>
  The outcomes of \<open>setup_camera\<close>: the capture, whether it is opened, the codec's code, and the settings in
  their order (the property's number in text, and the error of setting it).
\<close>

record camera_calls =
  cc_index :: nat
  cc_capture :: "string + unit"
  cc_opened :: "string + bool"
  cc_fourcc :: "string + unit"
  cc_settings :: "(string \<times> (string + unit)) list"

fun apply_settings :: "(string \<times> (string + unit)) list \<Rightarrow> camera_error + unit" where
  "apply_settings [] = Inr ()"
| "apply_settings ((prop, Inl e) # rest) = Inl (PropSettingError prop)"
| "apply_settings ((prop, Inr _) # rest) = apply_settings rest"

definition setup_camera :: "camera_calls \<Rightarrow> camera_error + unit" where
  "setup_camera cc =
     (if 2 ^ 31 \<le> cc_index cc then Inl CameraIndexError
      else
        result_bind (map_err OpenError (cc_capture cc)) (\<lambda>_.
        result_bind (case cc_opened cc of
                       Inr True \<Rightarrow> Inr ()
                     | Inr False \<Rightarrow> Inl (OpenError ''Camera not opened'')
                     | Inl e \<Rightarrow> Inl (OpenError e)) (\<lambda>_.
        result_bind (map_err OpenError (cc_fourcc cc)) (\<lambda>_. apply_settings (cc_settings cc)))))"

text \<open>
  A round of the capture loop: the flag, whether a frame was read and is not empty, whether the conversion
  succeeded, the pixels with columns and rows, the clock, and whether the frame was taken.
\<close>

record camera_round =
  cr_running :: bool
  cr_read :: bool
  cr_empty :: bool
  cr_converted :: bool
  cr_data :: "(bytes \<times> nat \<times> nat) option"
  cr_now :: u128
  cr_taken :: bool

fun run_camera_loop :: "camera_round list \<Rightarrow> frame list" where
  "run_camera_loop [] = []"
| "run_camera_loop (r # rounds) =
     (if \<not> cr_running r then []
      else if \<not> cr_read r then run_camera_loop rounds
      else if cr_empty r then run_camera_loop rounds
      else if \<not> cr_converted r then run_camera_loop rounds
      else case cr_data r of
             None \<Rightarrow> run_camera_loop rounds
           | Some (data, cols, rows) \<Rightarrow>
               if cr_taken r then
                 \<lparr>frame_data = data, frame_width = cols, frame_height = rows, frame_time = cr_now r\<rparr> # run_camera_loop rounds
               else [])"

section \<open>Codecs\<close>

text \<open>\<open>Encoder::new\<close> and \<open>Decoder::new\<close>: the library's success.\<close>

definition encoder_new :: "bool \<Rightarrow> nat \<Rightarrow> frame_error + nat" where
  "encoder_new ok rtp_max_chunk_size = (if ok then Inr rtp_max_chunk_size else Inl EncoderInitializationError)"

definition decoder_new :: "bool \<Rightarrow> frame_error + unit" where
  "decoder_new ok = (if ok then Inr () else Inl DecoderInitializationError)"

text \<open>
  \<open>decode_frame\<close>: \<open>decoded\<close> is the library's answer with the dimensions of the picture, \<open>to_rgb\<close> the colour
  conversion into a buffer of the given size.
\<close>

definition decode_frame ::
  "string + (nat \<times> nat) option \<Rightarrow> (nat \<Rightarrow> string + bytes) \<Rightarrow> frame_error + bytes \<times> nat \<times> nat" where
  "decode_frame decoded to_rgb =
     (case decoded of
        Inr (Some (width, height)) \<Rightarrow>
          result_bind (map_err DecodingError (to_rgb (width * height * 3))) (\<lambda>rgb. Inr (rgb, width, height))
      | Inr None \<Rightarrow> Inl EmptyFrameError
      | Inl e \<Rightarrow> Inl (DecodingError e))"

text \<open>
  \<open>rgb_to_yuv420\<close>: the dimensions are cut to 32 bits and the stride of three bytes per pixel is computed in them,
  checked (\<open>None\<close>: panic); \<open>convert\<close> is the library's conversion.
\<close>

definition rgb_to_yuv420 ::
  "(u32 \<Rightarrow> u32 \<Rightarrow> bytes \<Rightarrow> u32 \<Rightarrow> string + 'y) \<Rightarrow> frame \<Rightarrow> (frame_error + 'y) option" where
  "rgb_to_yuv420 convert f =
     (let w = word_of_nat (frame_width f) :: u32; h = word_of_nat (frame_height f) :: u32
      in if unat w * 3 < 2 ^ 32 then Some (map_err EncodingError (convert w h (frame_data f) (w * 3))) else None)"

definition audio_encoder_new :: "bool \<Rightarrow> audio_error + unit" where
  "audio_encoder_new ok = (if ok then Inr () else Inl AudioEncoderInitializationError)"

text \<open>The library's answer: an error, or the buffer of 1500 bytes and the length used (\<open>None\<close>: out of range).\<close>

definition audio_encode :: "string + bytes \<times> nat \<Rightarrow> (audio_error + bytes) option" where
  "audio_encode answer =
     (case answer of
        Inl e \<Rightarrow> Some (Inl (AudioEncodingError e))
      | Inr (buff, len) \<Rightarrow> if len \<le> length buff then Some (Inr (take len buff)) else None)"

definition audio_decoder_new :: "bool \<Rightarrow> audio_error + unit" where
  "audio_decoder_new ok = (if ok then Inr () else Inl AudioDecoderInitializationError)"

definition audio_decode :: "string + f32 list \<times> nat \<Rightarrow> audio_error + f32 list" where
  "audio_decode answer =
     (case answer of Inl e \<Rightarrow> Inl (AudioDecodingError e) | Inr (buff, len) \<Rightarrow> Inr (take len buff))"

section \<open>Microphone and speaker\<close>

record microphone =
  muted :: bool
  mic_stream :: bool

definition microphone_new :: microphone where
  "microphone_new = \<lparr>muted = False, mic_stream = False\<rparr>"

definition toggle_mute :: "microphone \<Rightarrow> microphone" where
  "toggle_mute m = m\<lparr>muted := \<not> muted m\<rparr>"

text \<open>The device with its default configuration (channels and rate), if there is one.\<close>

definition setup_audio_device :: "(string + nat \<times> nat) option \<Rightarrow> audio_error + nat \<times> nat" where
  "setup_audio_device device =
     (case device of
        None \<Rightarrow> Inl InputDeviceError
      | Some default_config \<Rightarrow> map_err AudioMapError default_config)"

definition setup_output_device :: "(string + nat \<times> nat) option \<Rightarrow> audio_error + nat \<times> nat" where
  "setup_output_device device =
     (case device of
        None \<Rightarrow> Inl MissingOutputDeviceError
      | Some default_config \<Rightarrow> map_err AudioMapError default_config)"

record audio_calls =
  ac_input :: "(string + nat \<times> nat) option"
  ac_input_stream :: "string + unit"
  ac_input_play :: "string + unit"
  ac_stream_lock :: "string + unit"
  ac_encoder :: bool
  ac_decoder :: bool
  ac_output :: "(string + nat \<times> nat) option"
  ac_output_stream :: "string + unit"
  ac_output_play :: "string + unit"

definition microphone_start :: "audio_calls \<Rightarrow> microphone \<Rightarrow> (audio_error + unit) \<times> microphone" where
  "microphone_start ac m =
     (case result_bind (setup_audio_device (ac_input ac)) (\<lambda>_.
           result_bind (map_err AudioMapError (ac_input_stream ac)) (\<lambda>_.
           result_bind (map_err AudioMapError (ac_input_play ac)) (\<lambda>_. map_err AudioMapError (ac_stream_lock ac)))) of
        Inl e \<Rightarrow> (Inl e, m)
      | Inr _ \<Rightarrow> (Inr (), m\<lparr>mic_stream := True\<rparr>))"

definition microphone_stop :: "string + unit \<Rightarrow> microphone \<Rightarrow> (audio_error + unit) \<times> microphone" where
  "microphone_stop lock m =
     (case lock of
        Inl e \<Rightarrow> (Inl (AudioMapError e), m)
      | Inr _ \<Rightarrow> (Inr (), m\<lparr>mic_stream := False, muted := False\<rparr>))"

definition speaker_new :: "audio_calls \<Rightarrow> audio_error + unit" where
  "speaker_new ac =
     result_bind (setup_output_device (ac_output ac)) (\<lambda>_.
     result_bind (map_err AudioMapError (ac_output_stream ac)) (\<lambda>_. map_err AudioMapError (ac_output_play ac)))"

section \<open>Pipelines\<close>

datatype pipeline_thread =
    CameraThread | PreviewThread | YuvThread | EncoderThread | DemuxThread | DecoderThread | AudioSendThread | AudioReceiveThread

definition start_audio_sender_pipeline ::
  "audio_calls \<Rightarrow> microphone \<Rightarrow> (audio_error + unit) \<times> microphone \<times> pipeline_thread list" where
  "start_audio_sender_pipeline ac m =
     (case microphone_start ac m of
        (Inl e, m1) \<Rightarrow> (Inl (AudioMapError (show_audio_error e)), m1, [])
      | (Inr _, m1) \<Rightarrow>
          (case audio_encoder_new (ac_encoder ac) of
             Inl e \<Rightarrow> (Inl (AudioMapError (show_audio_error e)), m1, [])
           | Inr _ \<Rightarrow> (Inr (), m1, [AudioSendThread])))"

definition start_audio_receiver_pipeline :: "audio_calls \<Rightarrow> (audio_error + unit) \<times> pipeline_thread list" where
  "start_audio_receiver_pipeline ac =
     (case map_err (\<lambda>e. AudioMapError (show_audio_error e)) (audio_decoder_new (ac_decoder ac)) of
        Inl e \<Rightarrow> (Inl e, [])
      | Inr _ \<Rightarrow>
          (case map_err (\<lambda>e. AudioMapError (show_audio_error e)) (speaker_new ac) of
             Inl e \<Rightarrow> (Inl e, [])
           | Inr _ \<Rightarrow> (Inr (), [AudioReceiveThread])))"

definition audio_pipeline_new :: "audio_error + microphone" where
  "audio_pipeline_new = Inr microphone_new"

definition audio_pipeline_start ::
  "audio_calls \<Rightarrow> microphone \<Rightarrow> (audio_error + unit) \<times> microphone \<times> pipeline_thread list" where
  "audio_pipeline_start ac m =
     (case start_audio_sender_pipeline ac m of
        (Inl e, m1, ts) \<Rightarrow> (Inl e, m1, ts)
      | (Inr _, m1, ts) \<Rightarrow>
          (case start_audio_receiver_pipeline ac of (r, ts2) \<Rightarrow> (r, m1, ts @ ts2)))"

definition audio_pipeline_stop :: "string + unit \<Rightarrow> microphone \<Rightarrow> microphone" where
  "audio_pipeline_stop lock m = snd (microphone_stop lock m)"

record media_pipeline =
  camera_running :: bool
  mp_audio :: "microphone option"
  mp_threads :: "pipeline_thread list"

definition media_pipeline_new :: media_pipeline where
  "media_pipeline_new =
     \<lparr>camera_running = False,
      mp_audio = (case audio_pipeline_new of Inr ap \<Rightarrow> Some ap | Inl e \<Rightarrow> None),
      mp_threads = []\<rparr>"

record pipeline_calls =
  pc_encoder :: bool
  pc_camera :: camera_calls
  pc_decoder :: bool
  pc_audio :: audio_calls

text \<open>\<open>Camera::start_internal\<close>: the flag is set before the device is opened; a failure is only logged.\<close>

definition camera_start :: "camera_calls \<Rightarrow> media_pipeline \<Rightarrow> media_pipeline" where
  "camera_start cc p =
     (let p1 = p\<lparr>camera_running := True\<rparr>
      in case setup_camera cc of
           Inl e \<Rightarrow> p1
         | Inr _ \<Rightarrow> p1\<lparr>mp_threads := mp_threads p1 @ [CameraThread]\<rparr>)"

definition camera_stop :: "media_pipeline \<Rightarrow> media_pipeline" where
  "camera_stop p = p\<lparr>camera_running := False\<rparr>"

abbreviation spawn :: "pipeline_thread list \<Rightarrow> media_pipeline \<Rightarrow> media_pipeline" where
  "spawn ts p \<equiv> p\<lparr>mp_threads := mp_threads p @ ts\<rparr>"

definition start_frame_sender_thread ::
  "pipeline_calls \<Rightarrow> nat \<Rightarrow> media_pipeline \<Rightarrow> (media_pipeline_error + unit) \<times> media_pipeline \<times> app_event list" where
  "start_frame_sender_thread pc max_chunk p =
     (let p1 = spawn [YuvThread] p
      in case encoder_new (pc_encoder pc) max_chunk of
           Inl e \<Rightarrow> (Inl (PipelineMapError (show_frame_error e)), p1, [AppError (show_frame_error e)])
         | Inr _ \<Rightarrow> (Inr (), spawn [EncoderThread] p1, []))"

definition start_local_frame_pipeline ::
  "pipeline_calls \<Rightarrow> nat \<Rightarrow> media_pipeline \<Rightarrow> (media_pipeline_error + unit) \<times> media_pipeline \<times> app_event list" where
  "start_local_frame_pipeline pc max_chunk p =
     (case start_frame_sender_thread pc max_chunk p of
        (Inl e, p1, ev) \<Rightarrow> (Inl e, p1, ev)
      | (Inr _, p1, ev) \<Rightarrow> (Inr (), spawn [PreviewThread] (camera_start (pc_camera pc) p1), ev))"

definition start_remote_frame_pipeline ::
  "pipeline_calls \<Rightarrow> media_pipeline \<Rightarrow> (media_pipeline_error + unit) \<times> media_pipeline \<times> app_event list" where
  "start_remote_frame_pipeline pc p =
     (case decoder_new (pc_decoder pc) of
        Inl e \<Rightarrow> (Inl (PipelineMapError (show_frame_error e)), p, [AppError ''Failed to create decoder''])
      | Inr _ \<Rightarrow> (Inr (), spawn [DecoderThread] p, []))"

definition media_pipeline_start ::
  "pipeline_calls \<Rightarrow> nat \<Rightarrow> media_pipeline \<Rightarrow> (media_pipeline_error + unit) \<times> media_pipeline \<times> app_event list" where
  "media_pipeline_start pc max_chunk p =
     (case start_local_frame_pipeline pc max_chunk p of
        (Inl e, p1, ev) \<Rightarrow> (Inl e, p1, ev)
      | (Inr _, p1, ev) \<Rightarrow>
          (case start_remote_frame_pipeline pc (spawn [DemuxThread] p1) of
             (Inl e, p2, ev2) \<Rightarrow> (Inl e, p2, ev @ ev2)
           | (Inr _, p2, ev2) \<Rightarrow>
               (case mp_audio p2 of
                  None \<Rightarrow> (Inr (), p2, ev @ ev2)
                | Some m \<Rightarrow>
                    (case audio_pipeline_start (pc_audio pc) m of
                       (r, m1, ts) \<Rightarrow>
                         (map_err (\<lambda>e. PipelineMapError (show_audio_error e)) r,
                          spawn ts (p2\<lparr>mp_audio := Some m1\<rparr>), ev @ ev2)))))"

definition media_pipeline_stop :: "string + unit \<Rightarrow> media_pipeline \<Rightarrow> media_pipeline" where
  "media_pipeline_stop lock p =
     (let p1 = camera_stop p
      in case mp_audio p1 of
           None \<Rightarrow> p1
         | Some m \<Rightarrow> p1\<lparr>mp_audio := Some (audio_pipeline_stop lock m)\<rparr>)"

definition media_pipeline_toggle_audio :: "media_pipeline \<Rightarrow> media_pipeline" where
  "media_pipeline_toggle_audio p =
     (case mp_audio p of None \<Rightarrow> p | Some m \<Rightarrow> p\<lparr>mp_audio := Some (toggle_mute m)\<rparr>)"

text \<open>
  The preview thread (per frame the flag and whether the interface and the encoder's channel take it) and the
  conversion thread (the converted picture, or its error; whether it was taken).
\<close>

fun preview_loop :: "('f \<times> bool \<times> bool \<times> bool) list \<Rightarrow> 'f list \<times> 'f list" where
  "preview_loop [] = ([], [])"
| "preview_loop ((f, conn, shown, encoded) # rest) =
     (if \<not> conn then ([], [])
      else if \<not> shown then ([], [])
      else if \<not> encoded then ([f], [])
      else (case preview_loop rest of (a, b) \<Rightarrow> (f # a, f # b)))"

fun rgb_to_yuv_loop :: "(frame_error + 'y) list \<Rightarrow> u128 list \<Rightarrow> bool list \<Rightarrow> ('y \<times> u128) list" where
  "rgb_to_yuv_loop (Inr y # ys) (t # ts) (ok # oks) = (if ok then (y, t) # rgb_to_yuv_loop ys ts oks else [])"
| "rgb_to_yuv_loop _ _ _ = []"

section \<open>Starting and stopping\<close>

text \<open>Every call of the audio devices and codecs succeeds.\<close>

definition audio_ok :: "audio_calls \<Rightarrow> bool" where
  "audio_ok ac \<longleftrightarrow>
     (\<exists>c. ac_input ac = Some (Inr c)) \<and> ac_input_stream ac = Inr () \<and> ac_input_play ac = Inr () \<and> ac_stream_lock ac = Inr () \<and>
     ac_encoder ac \<and> ac_decoder ac \<and>
     (\<exists>c. ac_output ac = Some (Inr c)) \<and> ac_output_stream ac = Inr () \<and> ac_output_play ac = Inr ()"

lemmas audio_start_defs = audio_pipeline_start_def start_audio_sender_pipeline_def start_audio_receiver_pipeline_def
  microphone_start_def audio_encoder_new_def audio_decoder_new_def speaker_new_def setup_audio_device_def setup_output_device_def

lemma microphone_start_ok:
  "fst (microphone_start ac m) = Inr () \<longleftrightarrow>
     (\<exists>c. ac_input ac = Some (Inr c)) \<and> ac_input_stream ac = Inr () \<and> ac_input_play ac = Inr () \<and> ac_stream_lock ac = Inr ()"
  by (auto simp: microphone_start_def setup_audio_device_def result_bind_eq_Inr result_bind_def map_err_def
      split: sum.splits option.splits)

lemma speaker_new_ok:
  "speaker_new ac = Inr () \<longleftrightarrow> (\<exists>c. ac_output ac = Some (Inr c)) \<and> ac_output_stream ac = Inr () \<and> ac_output_play ac = Inr ()"
  by (auto simp: speaker_new_def setup_output_device_def result_bind_eq_Inr split: option.splits)

lemma microphone_start_state:
  "snd (microphone_start ac m) = (if fst (microphone_start ac m) = Inr () then m\<lparr>mic_stream := True\<rparr> else m)"
  by (simp add: microphone_start_def split: sum.splits)

lemma audio_start_ok:
  "fst (audio_pipeline_start ac m) = Inr () \<longleftrightarrow> audio_ok ac"
proof -
  obtain r m1 where m: "microphone_start ac m = (r, m1)" by fastforce
  have r: "r = Inr () \<longleftrightarrow> (\<exists>c. ac_input ac = Some (Inr c)) \<and> ac_input_stream ac = Inr () \<and> ac_input_play ac = Inr () \<and> ac_stream_lock ac = Inr ()"
    using microphone_start_ok[of ac m] m by simp
  show ?thesis
    using r speaker_new_ok[of ac]
    by (cases r; cases "speaker_new ac")
      (auto simp: audio_pipeline_start_def start_audio_sender_pipeline_def start_audio_receiver_pipeline_def m audio_ok_def
        audio_encoder_new_def audio_decoder_new_def)
qed

lemma audio_start_threads:
  "audio_ok ac \<Longrightarrow> audio_pipeline_start ac m = (Inr (), m\<lparr>mic_stream := True\<rparr>, [AudioSendThread, AudioReceiveThread])"
  by (auto simp: audio_ok_def audio_start_defs)

text \<open>
  A pipeline is on when the camera's flag is set and the microphone's stream is open. A start that succeeds leaves
  it on; a start posts at most one event, when it fails; muting does not matter.
\<close>

definition pipeline_on :: "media_pipeline \<Rightarrow> bool" where
  "pipeline_on p = (camera_running p \<and> (case mp_audio p of None \<Rightarrow> True | Some m \<Rightarrow> mic_stream m))"

lemmas pipeline_start_defs = media_pipeline_start_def start_local_frame_pipeline_def start_frame_sender_thread_def
  start_remote_frame_pipeline_def camera_start_def Let_def

lemma audio_start_stream: "audio_pipeline_start ac m = (Inr r, m', ts) \<Longrightarrow> mic_stream m'"
  by (auto simp: audio_pipeline_start_def start_audio_sender_pipeline_def microphone_start_def split: sum.splits prod.splits)

lemma pipeline_start_on: "media_pipeline_start pc k p = (Inr r, p', evs) \<Longrightarrow> pipeline_on p'"
  by (auto simp: pipeline_on_def pipeline_start_defs map_err_def dest: audio_start_stream
      split: sum.splits option.splits prod.splits)

lemma pipeline_start_events: "media_pipeline_start pc k p = (r, p', evs) \<Longrightarrow> evs = [] \<or> (\<exists>m. evs = [AppError m])"
  by (auto simp: pipeline_start_defs split: sum.splits option.splits prod.splits)

lemma toggle_audio_on [simp]: "pipeline_on (media_pipeline_toggle_audio p) = pipeline_on p"
  by (simp add: pipeline_on_def media_pipeline_toggle_audio_def toggle_mute_def split: option.split)

text \<open>
  The start stops at the first failure, which it reports; what it had started by then keeps running: after any
  failure behind the encoder's the camera, after a failure of decoder or speaker also the microphone.
\<close>

lemma failed_start_keeps_camera:
  assumes "pc_encoder pc" and "media_pipeline_start pc k p = (Inl e, p', ev)"
  shows "camera_running p'"
  using assms
  by (auto simp: media_pipeline_start_def start_local_frame_pipeline_def start_frame_sender_thread_def encoder_new_def
      start_remote_frame_pipeline_def camera_start_def Let_def split: sum.splits option.splits prod.splits)

lemma failed_speaker_keeps_microphone:
  assumes "fst (microphone_start (pc_audio pc) m) = Inr ()" and "ac_encoder (pc_audio pc)" and "ac_decoder (pc_audio pc)" and "ac_output (pc_audio pc) = None"
    and "pc_encoder pc" and "pc_decoder pc" and "mp_audio p = Some m"
  shows "\<exists>p' ev m1. media_pipeline_start pc k p = (Inl (PipelineMapError ''Error: Error: no output device available''), p', ev) \<and>
    mp_audio p' = Some m1 \<and> mic_stream m1 \<and> camera_running p'"
proof -
  obtain m1 where "microphone_start (pc_audio pc) m = (Inr (), m1)" "mic_stream m1"
    using assms(1) microphone_start_state[of "pc_audio pc" m] by (cases "microphone_start (pc_audio pc) m") simp
  then show ?thesis
    using assms(2-7)
    by (cases "setup_camera (pc_camera pc)")
      (simp_all add: media_pipeline_start_def start_local_frame_pipeline_def start_frame_sender_thread_def encoder_new_def
        start_remote_frame_pipeline_def decoder_new_def camera_start_def Let_def audio_pipeline_start_def
        start_audio_sender_pipeline_def audio_encoder_new_def start_audio_receiver_pipeline_def audio_decoder_new_def
        speaker_new_def setup_output_device_def)
qed

lemma pipeline_started:
  assumes "pc_encoder pc" and "pc_decoder pc" and "audio_ok (pc_audio pc)"
  shows "media_pipeline_start pc k media_pipeline_new =
    (Inr (),
     \<lparr>camera_running = True, mp_audio = Some \<lparr>muted = False, mic_stream = True\<rparr>,
      mp_threads = [YuvThread, EncoderThread] @ (if setup_camera (pc_camera pc) = Inr () then [CameraThread] else []) @
        [PreviewThread, DemuxThread, DecoderThread, AudioSendThread, AudioReceiveThread]\<rparr>, [])"
  using assms audio_start_threads[OF assms(3), of microphone_new]
  by (simp add: media_pipeline_start_def media_pipeline_new_def audio_pipeline_new_def start_local_frame_pipeline_def
      start_frame_sender_thread_def encoder_new_def start_remote_frame_pipeline_def decoder_new_def camera_start_def
      microphone_new_def Let_def split: sum.splits)

lemma start_fails:
  assumes "\<not> (pc_encoder pc \<and> pc_decoder pc \<and> audio_ok (pc_audio pc))"
  shows "\<exists>e. fst (media_pipeline_start pc k media_pipeline_new) = Inl e"
proof -
  obtain r m ts where a: "audio_pipeline_start (pc_audio pc) microphone_new = (r, m, ts)" by (metis prod_cases3)
  have "r = Inr () \<longleftrightarrow> audio_ok (pc_audio pc)" using audio_start_ok[of "pc_audio pc" microphone_new] a by simp
  then show ?thesis
    using assms a
    by (cases r; cases "setup_camera (pc_camera pc)")
      (auto simp: media_pipeline_start_def media_pipeline_new_def audio_pipeline_new_def start_local_frame_pipeline_def
        start_frame_sender_thread_def encoder_new_def start_remote_frame_pipeline_def decoder_new_def camera_start_def Let_def)
qed

lemma started_audio: "\<exists>m. mp_audio (fst (snd (media_pipeline_start pc k media_pipeline_new))) = Some m"
  by (auto simp: media_pipeline_start_def start_local_frame_pipeline_def start_frame_sender_thread_def encoder_new_def
      start_remote_frame_pipeline_def camera_start_def media_pipeline_new_def audio_pipeline_new_def Let_def
      split: sum.splits option.splits prod.splits)

text \<open>
  C37. Starting the media pipeline succeeds exactly when both codecs of the video and every call of the audio
  devices succeed; a camera that cannot be opened does not matter. On success all threads are
  running (the camera's only if it was opened) and the microphone is open and not muted, on failure an error is returned. Stopping
  after either closes the camera's flag and the microphone and clears the mute.
\<close>

theorem pipeline_start_outcome:
  "((\<exists>p. media_pipeline_start pc k media_pipeline_new = (Inr (), p, []) \<and> camera_running p \<and>
      mp_audio p = Some \<lparr>muted = False, mic_stream = True\<rparr> \<and>
      set (mp_threads p) \<union> {CameraThread} =
        {CameraThread, PreviewThread, YuvThread, EncoderThread, DemuxThread, DecoderThread, AudioSendThread, AudioReceiveThread} \<and>
      (CameraThread \<in> set (mp_threads p) \<longleftrightarrow> setup_camera (pc_camera pc) = Inr ()))
     \<longleftrightarrow> pc_encoder pc \<and> pc_decoder pc \<and> audio_ok (pc_audio pc)) \<and>
   ((\<exists>e. fst (media_pipeline_start pc k media_pipeline_new) = Inl e)
     \<longleftrightarrow> \<not> (pc_encoder pc \<and> pc_decoder pc \<and> audio_ok (pc_audio pc))) \<and>
   (let p = media_pipeline_stop (Inr ()) (fst (snd (media_pipeline_start pc k media_pipeline_new)))
    in \<not> camera_running p \<and> mp_audio p = Some microphone_new)"
  (is "(?started \<longleftrightarrow> ?ok) \<and> (?failed \<longleftrightarrow> _) \<and> _")
proof (intro conjI)
  show "?started \<longleftrightarrow> ?ok"
  proof
    assume ?ok
    then show ?started using pipeline_started[of pc k] by auto
  next
    assume ?started
    then show ?ok using start_fails[of pc k] by fastforce
  qed
  show "?failed \<longleftrightarrow> \<not> ?ok" using start_fails[of pc k] pipeline_started[of pc k] by fastforce
  obtain m where "mp_audio (fst (snd (media_pipeline_start pc k media_pipeline_new))) = Some m"
    using started_audio by blast
  then show "let p = media_pipeline_stop (Inr ()) (fst (snd (media_pipeline_start pc k media_pipeline_new)))
    in \<not> camera_running p \<and> mp_audio p = Some microphone_new"
    by (simp add: media_pipeline_stop_def camera_stop_def audio_pipeline_stop_def microphone_stop_def microphone_new_def)
qed

text \<open>The encoder gets a prefix of the frames shown, at most one frame behind.\<close>

lemma preview_encoder_prefix:
  "\<exists>rest. fst (preview_loop fs) = snd (preview_loop fs) @ rest \<and> length rest \<le> 1"
  by (induction fs rule: preview_loop.induct) (auto split: prod.splits)

text \<open>Pictures keep the time of their frame, in order.\<close>

lemma yuv_times_prefix: "\<exists>rest. ts = map snd (rgb_to_yuv_loop ys ts oks) @ rest"
  by (induction ys ts oks rule: rgb_to_yuv_loop.induct) auto

text \<open>A frame of the camera carries the pixels and the time of a round in which everything succeeded.\<close>

lemma camera_frames:
  "f \<in> set (run_camera_loop rounds) \<Longrightarrow>
     \<exists>r\<in>set rounds. cr_running r \<and> cr_read r \<and> \<not> cr_empty r \<and> cr_converted r \<and> cr_taken r \<and>
       cr_data r = Some (frame_data f, frame_width f, frame_height f) \<and> frame_time f = cr_now r"
proof (induction rounds)
  case (Cons r rounds)
  then show ?case by (cases "cr_data r") (auto split: if_splits)
qed simp

text \<open>Devices and codecs that work.\<close>

definition sample_devices :: pipeline_calls where
  "sample_devices =
     \<lparr>pc_encoder = True,
      pc_camera = \<lparr>cc_index = 0, cc_capture = Inr (), cc_opened = Inr True, cc_fourcc = Inr (), cc_settings = []\<rparr>, pc_decoder = True,
      pc_audio = \<lparr>ac_input = Some (Inr (1, 48000)), ac_input_stream = Inr (), ac_input_play = Inr (), ac_stream_lock = Inr (),
        ac_encoder = True, ac_decoder = True, ac_output = Some (Inr (2, 48000)), ac_output_stream = Inr (), ac_output_play = Inr ()\<rparr>\<rparr>"

end
