(* ===== verification/Controller.thy ===== *)
theory Controller
  imports Protocol Call_Session Media_Transport Media_Devices
begin

text \<open>
  The client's controller, \<^verbatim>\<open>src/controller/control.rs\<close>: registration, login and logout, calls, files and the
  thread that receives the server's messages. The connection to the server is a function from the
  bytes written to the outcome of the write and of the read that follows; TLS connections, the
  calls of the media pipeline into devices and codecs, the file transferer's construction and event
  channels are arguments with their results. The result \<open>None\<close> is a panic (checked port arithmetic, or one of a component).
\<close>

section \<open>State and errors\<close>

datatype controller_error =
    CtlError string
  | ConnectingToServerFailed
  | IOError string
  | BadResponse
  | LogInFailed string
  | SignUpFailed string
  | LogOutFailed string
  | ParsingSocketAddressError
  | BindingAddressError string
  | ConnectionSocketError string
  | CtlCloningSocketError string
  | CtlPoisonedLock
  | CtlMapError error_cause
  | CtlConnectionNotStarted
  | CtlConnectionClosed
  | NotLoggedInError
  | CallError string
  | CallRefused
and error_cause =
    FromText string
  | FromController controller_error
  | FromSession call_session_error
  | FromMedia media_transport_error
  | FromFiles file_transferer_error

record controller =
  users_status :: "string \<rightharpoonup> user_status"
  ctl_token :: "string option"
  ctl_username :: "string option"
  logged_in :: bool
  ctl_files :: "file_transferer option"
  ctl_transport :: media_transport
  ctl_session :: call_session
  ctl_pipeline :: media_pipeline

text \<open>\<open>Controller::new\<close>: the TLS connection, the transport, the cloned socket and the session.\<close>

definition controller_new ::
  "controller_error + unit \<Rightarrow> (media_transport_error + media_transport) option \<Rightarrow> string + unit \<Rightarrow>
     (call_session_error + call_session) option \<Rightarrow> (controller_error + controller) option" where
  "controller_new tls transport cloned session =
     (case tls of
        Inl e \<Rightarrow> Some (Inl e)
      | Inr _ \<Rightarrow>
          (case transport of
             None \<Rightarrow> None
           | Some (Inl e) \<Rightarrow> Some (Inl (CtlMapError (FromMedia e)))
           | Some (Inr t) \<Rightarrow>
               (case cloned of
                  Inl e \<Rightarrow> Some (Inl (CtlCloningSocketError e))
                | Inr _ \<Rightarrow>
                    (case session of
                       None \<Rightarrow> None
                     | Some (Inl e) \<Rightarrow> Some (Inl (CtlMapError (FromSession e)))
                     | Some (Inr s) \<Rightarrow>
                         Some (Inr \<lparr>users_status = Map.empty, ctl_token = None, ctl_username = None,
                                    logged_in = False, ctl_files = None, ctl_transport = t,
                                    ctl_session = s, ctl_pipeline = media_pipeline_new\<rparr>)))))"

section \<open>Requests to the server\<close>

text \<open>How sets of formats are printed and IPv6 addresses written, and the server connection.\<close>

record 'v6 link_env =
  le_ord :: "u8 set \<Rightarrow> u8 list"
  le_v6 :: "'v6 v6_text"
  le_conn :: "bytes \<Rightarrow> (string + unit) \<times> (string + bytes)"

text \<open>The read fills a buffer of 1024 bytes once; the rest of a longer answer stays in the stream.\<close>

definition request ::
  "'v6 link_env \<Rightarrow> client_message \<Rightarrow> app_event list \<times> (controller_error + 'v6 server_response)" where
  "request env msg =
     (case le_conn env (client_message_to_bytes (le_ord env) msg) of
        (Inl e, _) \<Rightarrow> ([FatalError], Inl (IOError e))
      | (Inr _, Inl e) \<Rightarrow> ([FatalError], Inl (IOError e))
      | (Inr _, Inr got) \<Rightarrow>
          if got = [] then ([FatalError], Inl (IOError ''Connection closed by server''))
          else ([], case server_response_from_bytes (le_v6 env) (take 1024 got) of
                      None \<Rightarrow> Inl BadResponse
                    | Some r \<Rightarrow> Inr r))"

definition get_token :: "controller \<Rightarrow> controller_error + string" where
  "get_token c = (case ctl_token c of Some t \<Rightarrow> Inr t | None \<Rightarrow> Inl NotLoggedInError)"

definition get_username :: "controller \<Rightarrow> controller_error + string" where
  "get_username c = get_token c"

definition call :: "'v6 link_env \<Rightarrow> string \<Rightarrow> controller \<Rightarrow> app_event list \<times> (controller_error + unit)" where
  "call env peer_username c =
     (case get_token c of
        Inl e \<Rightarrow> ([], Inl e)
      | Inr tok \<Rightarrow>
          (case request env (CallRequest tok (get_offer (ctl_session c)) peer_username) of
             (evs, Inl e) \<Rightarrow> (evs, Inl e)
           | (evs, Inr CallRequestOk) \<Rightarrow> (evs, Inr ())
           | (evs, Inr (CallRequestError e)) \<Rightarrow> (evs, Inl (CallError e))
           | (evs, Inr _) \<Rightarrow> (evs, Inl BadResponse)))"

definition sign_up :: "'v6 link_env \<Rightarrow> string \<Rightarrow> string \<Rightarrow> app_event list \<times> (controller_error + unit)" where
  "sign_up env u p =
     (case request env (SignUp u p) of
        (evs, Inl e) \<Rightarrow> (evs, Inl e)
      | (evs, Inr SignupOk) \<Rightarrow> (evs, Inr ())
      | (evs, Inr (SignupError e)) \<Rightarrow> (evs, Inl (CtlMapError (FromText e)))
      | (evs, Inr _) \<Rightarrow> (evs, Inl BadResponse))"

text \<open>\<open>second\<close>: connecting to the address of the event channel.\<close>

definition log_in ::
  "'v6 link_env \<Rightarrow> ('v6 socket_addr \<Rightarrow> controller_error + unit) \<Rightarrow> string \<Rightarrow> string \<Rightarrow> controller \<Rightarrow>
     controller \<times> app_event list \<times> (controller_error + unit)" where
  "log_in env second u p c =
     (case request env (LogIn u p) of
        (evs, Inl e) \<Rightarrow> (c, evs, Inl e)
      | (evs, Inr (LoginOk tok addr us)) \<Rightarrow>
          (c\<lparr>users_status := map_of us, ctl_token := Some tok, logged_in := True, ctl_username := Some u\<rparr>,
           evs, second addr)
      | (evs, Inr (LoginError e)) \<Rightarrow> (c, evs, Inl (LogInFailed e))
      | (evs, Inr _) \<Rightarrow> (c, evs, Inl BadResponse))"

definition log_out :: "'v6 link_env \<Rightarrow> controller \<Rightarrow> controller \<times> app_event list \<times> (controller_error + unit)" where
  "log_out env c =
     (case get_token c of
        Inl e \<Rightarrow> (c, [], Inl e)
      | Inr tok \<Rightarrow>
          (case request env (LogOut tok) of
             (evs, Inl e) \<Rightarrow> (c, evs, Inl e)
           | (evs, Inr LogoutOk) \<Rightarrow>
               (c\<lparr>logged_in := False, ctl_token := None, users_status := Map.empty\<rparr>, evs, Inr ())
           | (evs, Inr (LogoutError e)) \<Rightarrow> (c, evs, Inl (LogOutFailed e))
           | (evs, Inr _) \<Rightarrow> (c, evs, Inl BadResponse)))"

text \<open>The outcome of posting an event to the interface.\<close>

abbreviation closed_channel :: string where
  "closed_channel \<equiv> ''sending on a closed channel''"

definition initial_handshake :: "'v6 link_env \<Rightarrow> bool \<Rightarrow> app_event list \<times> (controller_error + unit)" where
  "initial_handshake env tx_ok =
     (case request env client_message.Hello of
        (evs, Inl e) \<Rightarrow> (evs, Inl e)
      | (evs, Inr Welcome) \<Rightarrow> (evs, Inr ())
      | (evs, Inr ServerFull) \<Rightarrow>
          if tx_ok then (evs @ [FullServerError], Inr ())
          else (evs, Inl (CtlMapError (FromText closed_channel)))
      | (evs, Inr _) \<Rightarrow> (evs, Inl BadResponse))"

definition send_event_or_log_out :: "bool \<Rightarrow> app_event \<Rightarrow> bool \<Rightarrow> app_event list \<times> bool" where
  "send_event_or_log_out tx_ok event login = (if tx_ok then ([event], login) else ([], False))"

definition reject_call ::
  "'v6 link_env \<Rightarrow> bool \<Rightarrow> string \<Rightarrow> controller \<Rightarrow> controller \<times> app_event list \<times> (controller_error + unit)" where
  "reject_call env tx_ok to_usr c =
     (case get_token c of
        Inl e \<Rightarrow> (c, [], Inl e)
      | Inr tok \<Rightarrow>
          (case request env (CallReject tok to_usr) of
             (evs, Inl e) \<Rightarrow> (c, evs, Inl e)
           | (evs, Inr CallRejectOk) \<Rightarrow>
               (case send_event_or_log_out tx_ok app_event.CallRejected (logged_in c) of
                  (evs', l) \<Rightarrow> (c\<lparr>logged_in := l\<rparr>, evs @ evs', Inr ()))
           | (evs, Inr (CallRejectError e)) \<Rightarrow> (c, evs, Inl (CallError e))
           | (evs, Inr _) \<Rightarrow> (c, evs, Inl BadResponse)))"

section \<open>Joining and leaving a call\<close>

text \<open>The address \<open>ip:port + d\<close> of the remote candidate; the addition is checked.\<close>

definition remote_address ::
  "'v6 v6_text \<Rightarrow> candidate \<Rightarrow> u16 \<Rightarrow> (controller_error + 'v6 socket_addr) option" where
  "remote_address v6 r d =
     (case add_chk (cand_port r) d of
        None \<Rightarrow> None
      | Some port \<Rightarrow>
          (case socket_addr_from_str v6 (address r @ '':'' @ show_nat (unat port)) of
             None \<Rightarrow> Some (Inl ParsingSocketAddressError)
           | Some a \<Rightarrow> Some (Inr a)))"

definition get_remote_addresses ::
  "'v6 v6_text \<Rightarrow> controller \<Rightarrow> (controller_error + 'v6 socket_addr \<times> 'v6 socket_addr \<times> 'v6 socket_addr) option" where
  "get_remote_addresses v6 c =
     (case get_selected_pair (cs_ice (ctl_session c)) of
        Inl e \<Rightarrow> Some (Inl (CtlMapError (FromSession (IceConnectionError (FromIce e)))))
      | Inr pair \<Rightarrow>
          (case remote_address v6 (pair_remote pair) 0 of
             None \<Rightarrow> None | Some (Inl e) \<Rightarrow> Some (Inl e)
           | Some (Inr rtp) \<Rightarrow>
               (case remote_address v6 (pair_remote pair) 1 of
                  None \<Rightarrow> None | Some (Inl e) \<Rightarrow> Some (Inl e)
                | Some (Inr rtcp) \<Rightarrow>
                    (case remote_address v6 (pair_remote pair) 2 of
                       None \<Rightarrow> None | Some (Inl e) \<Rightarrow> Some (Inl e)
                     | Some (Inr sctp) \<Rightarrow> Some (Inr (rtp, rtcp, sctp))))))"

text \<open>
  What joining a call depends on: the calls of the transport, the construction of the file
  transferer, the calls of the media pipeline with the configured size of a chunk. Events that starting
  the pipeline posts go to the interface.
\<close>

record join_calls =
  jc_start :: start_calls
  jc_files :: "string + unit"
  jc_pipeline :: pipeline_calls
  jc_max_chunk :: nat

definition file_transferer_new :: file_transferer where
  "file_transferer_new = \<lparr>pending_data_channels = Map.empty, next_offer_id = 0, poisoned_pending = False\<rparr>"

definition setup_file_transferer :: "string + unit \<Rightarrow> controller \<Rightarrow> (controller \<times> (controller_error + unit)) option" where
  "setup_file_transferer made c =
     (case add_chk (snd (rtp_address (ctl_transport c))) 2 of
        None \<Rightarrow> None
      | Some _ \<Rightarrow>
          (case made of
             Inl e \<Rightarrow> Some (c, Inl (CtlMapError (FromText e)))
           | Inr _ \<Rightarrow> Some (c\<lparr>ctl_files := Some file_transferer_new\<rparr>, Inr ())))"

definition join_call ::
  "'v6 v6_text \<Rightarrow> join_calls \<Rightarrow> controller \<Rightarrow> (controller \<times> app_event list \<times> (controller_error + unit)) option" where
  "join_call v6 jc c =
     (case get_remote_addresses v6 c of
        None \<Rightarrow> None
      | Some (Inl e) \<Rightarrow> Some (c, [], Inl (CtlMapError (FromController e)))
      | Some (Inr _) \<Rightarrow>
          (case remote_fingerprint (ctl_session c) of
             None \<Rightarrow> Some (c, [], Inl NotLoggedInError)
           | Some _ \<Rightarrow>
               (case media_start (jc_start jc) (local_setup_role (ctl_session c)) (ctl_transport c) of
                  (Inl e, t) \<Rightarrow> Some (c\<lparr>ctl_transport := t\<rparr>, [], Inl (CtlMapError (FromMedia e)))
                | (Inr _, t) \<Rightarrow>
                    (case setup_file_transferer (jc_files jc) (c\<lparr>ctl_transport := t\<rparr>) of
                       None \<Rightarrow> None
                     | Some (c1, Inl e) \<Rightarrow> Some (c1, [], Inl e)
                     | Some (c1, Inr _) \<Rightarrow>
                         (case media_pipeline_start (jc_pipeline jc) (jc_max_chunk jc) (ctl_pipeline c1) of
                            (r, p, evs) \<Rightarrow>
                              Some (c1\<lparr>ctl_pipeline := p\<rparr>, evs,
                                    map_err (\<lambda>e. CtlMapError (FromText (show_pipeline_error e))) r))))))"

text \<open>The connectivity checks and the joining, common to the caller and the callee.\<close>

definition check_and_join ::
  "'v6 v6_text \<Rightarrow> bool \<Rightarrow> (nat \<Rightarrow> ping_event list) \<Rightarrow> join_calls \<Rightarrow> controller \<Rightarrow>
     (controller \<times> app_event list \<times> (controller_error + unit)) option" where
  "check_and_join v6 timeout_ok pings jc c =
     (case start_ice_checks (ctl_session c) timeout_ok pings of
        (s, Inl e) \<Rightarrow> Some (c\<lparr>ctl_session := s\<rparr>, [], Inl (CtlMapError (FromSession e)))
      | (s, Inr _) \<Rightarrow> join_call v6 jc (c\<lparr>ctl_session := s\<rparr>))"

definition get_in_call ::
  "'v6 v6_text \<Rightarrow> session_description \<Rightarrow> bool \<Rightarrow> (nat \<Rightarrow> ping_event list) \<Rightarrow> join_calls \<Rightarrow> controller \<Rightarrow>
     (controller \<times> app_event list \<times> (controller_error + unit)) option" where
  "get_in_call v6 sdp_answer timeout_ok pings jc c =
     (case process_answer (ctl_session c) sdp_answer of
        None \<Rightarrow> None
      | Some (s, Inl e) \<Rightarrow> Some (c\<lparr>ctl_session := s\<rparr>, [], Inl (CtlMapError (FromSession e)))
      | Some (s, Inr _) \<Rightarrow> check_and_join v6 timeout_ok pings jc (c\<lparr>ctl_session := s\<rparr>))"

definition accept_call ::
  "'v6 link_env \<Rightarrow> string \<Rightarrow> session_description \<Rightarrow> bool \<Rightarrow> (nat \<Rightarrow> ping_event list) \<Rightarrow> join_calls \<Rightarrow> controller \<Rightarrow>
     (controller \<times> app_event list \<times> (controller_error + unit)) option" where
  "accept_call env to_usr offer_sdp timeout_ok pings jc c =
     (case process_offer (ctl_session c) offer_sdp of
        None \<Rightarrow> None
      | Some (s, Inl e) \<Rightarrow> Some (c\<lparr>ctl_session := s\<rparr>, [], Inl (CtlMapError (FromSession e)))
      | Some (s, Inr sdp_answer) \<Rightarrow>
          (let c1 = c\<lparr>ctl_session := s\<rparr>
           in case get_token c1 of
                Inl e \<Rightarrow> Some (c1, [], Inl e)
              | Inr tok \<Rightarrow>
                  (case request env (CallAccept tok to_usr sdp_answer) of
                     (evs, Inl e) \<Rightarrow> Some (c1, evs, Inl e)
                   | (evs, Inr CallAcceptOk) \<Rightarrow>
                       map_option (\<lambda>(c2, evs2, r). (c2, evs @ evs2, r)) (check_and_join (le_v6 env) timeout_ok pings jc c1)
                   | (evs, Inr (CallAcceptError e)) \<Rightarrow> Some (c1, evs, Inl (CallError e))
                   | (evs, Inr _) \<Rightarrow> Some (c1, evs, Inl BadResponse))))"

text \<open>
  Muting flips the flag of the microphone. Stopping the media stops the pipeline (\<open>sc_mic_lock\<close>: the lock of
  the microphone's input stream is not poisoned) and then the transport, whose outcome is computed
  from its own arguments.
\<close>

definition toggle_audio :: "controller \<Rightarrow> controller" where
  "toggle_audio c = c\<lparr>ctl_pipeline := media_pipeline_toggle_audio (ctl_pipeline c)\<rparr>"

record stop_calls =
  sc_mic_lock :: bool
  sc_rtp_timeout :: "string + unit"
  sc_rtcp_timeout :: "string + unit"
  sc_lock :: bool
  sc_bye :: "string + unit"

definition stop_media_components :: "stop_calls \<Rightarrow> controller \<Rightarrow> controller \<times> bytes list \<times> (controller_error + unit)" where
  "stop_media_components sc c =
     (let c1 = c\<lparr>ctl_pipeline :=
            media_pipeline_stop (if sc_mic_lock sc then Inr () else Inl ''poisoned lock'') (ctl_pipeline c)\<rparr>
      in case media_stop (sc_rtp_timeout sc) (sc_rtcp_timeout sc) (sc_lock sc) (sc_bye sc) (ctl_transport c) of
           (Inl e, t) \<Rightarrow> (c1\<lparr>ctl_transport := t\<rparr>, [], Inl (CtlMapError (FromMedia e)))
         | (Inr sent, t) \<Rightarrow> (c1\<lparr>ctl_transport := t\<rparr>, sent, Inr ()))"

text \<open>\<open>new_transport\<close> and \<open>new_session\<close>: constructing them again for the next call.\<close>

definition hang_up ::
  "'v6 link_env \<Rightarrow> stop_calls \<Rightarrow> (media_transport_error + media_transport) option \<Rightarrow> string + unit \<Rightarrow>
     (call_session_error + call_session) option \<Rightarrow> controller \<Rightarrow>
     (controller \<times> app_event list \<times> (controller_error + unit)) option" where
  "hang_up env sc new_transport cloned new_session c =
     (case get_token c of
        Inl e \<Rightarrow> Some (c, [], Inl e)
      | Inr tok \<Rightarrow>
          (case request env (CallHangup tok) of
             (evs, Inl e) \<Rightarrow> Some (c, evs, Inl e)
           | (evs, Inr CallHangUpOk) \<Rightarrow>
               (case stop_media_components sc c of
                  (c1, sent, Inl e) \<Rightarrow> Some (c1, evs, Inl e)
                | (c1, sent, Inr _) \<Rightarrow>
                    (let c2 = c1\<lparr>ctl_files := None\<rparr>
                     in case new_transport of
                          None \<Rightarrow> None
                        | Some (Inl e) \<Rightarrow> Some (c2, evs, Inl (CtlMapError (FromMedia e)))
                        | Some (Inr t) \<Rightarrow>
                            (let c3 = c2\<lparr>ctl_transport := t\<rparr>
                             in case cloned of
                                  Inl e \<Rightarrow> Some (c3, evs, Inl (CtlCloningSocketError e))
                                | Inr _ \<Rightarrow>
                                    (case new_session of
                                       None \<Rightarrow> None
                                     | Some (Inl e) \<Rightarrow> Some (c3, evs, Inl (CtlMapError (FromSession e)))
                                     | Some (Inr s) \<Rightarrow> Some (c3\<lparr>ctl_session := s\<rparr>, evs, Inr ())))))
           | (evs, Inr (CallHangUpError e)) \<Rightarrow> Some (c, evs, Inl (CallError e))
           | (evs, Inr _) \<Rightarrow> Some (c, evs, Inl BadResponse)))"

section \<open>Files\<close>

text \<open>Without a transferer these do nothing.\<close>

definition ctl_send_file ::
  "string + unit \<Rightarrow> string option \<Rightarrow> u64 option \<Rightarrow> string + nat \<Rightarrow> controller \<Rightarrow> (controller \<times> (controller_error + unit)) option" where
  "ctl_send_file opened name len channel c =
     (case ctl_files c of
        None \<Rightarrow> Some (c, Inr ())
      | Some t \<Rightarrow>
          map_option
            (\<lambda>(r, t1). (c\<lparr>ctl_files := Some t1\<rparr>, case r of Inl e \<Rightarrow> Inl (CtlMapError (FromFiles e)) | Inr _ \<Rightarrow> Inr ()))
            (send_file t opened name len channel))"

definition ctl_accept_file ::
  "u32 \<Rightarrow> string + unit \<Rightarrow> string + unit \<Rightarrow> controller \<Rightarrow> controller \<times> (controller_error + unit)" where
  "ctl_accept_file offer_id sent created c =
     (case ctl_files c of
        None \<Rightarrow> (c, Inr ())
      | Some t \<Rightarrow>
          (case accept_file_offer t offer_id sent created of
             (r, t1) \<Rightarrow>
               (c\<lparr>ctl_files := Some t1\<rparr>, case r of Inl e \<Rightarrow> Inl (CtlMapError (FromFiles e)) | Inr _ \<Rightarrow> Inr ())))"

definition ctl_reject_file :: "u32 \<Rightarrow> string + unit \<Rightarrow> controller \<Rightarrow> controller \<times> (controller_error + unit)" where
  "ctl_reject_file offer_id sent c =
     (case ctl_files c of
        None \<Rightarrow> (c, Inr ())
      | Some t \<Rightarrow>
          (case reject_file_offer t offer_id sent of
             (r, t1) \<Rightarrow>
               (c\<lparr>ctl_files := Some t1\<rparr>, case r of Inl e \<Rightarrow> Inl (CtlMapError (FromFiles e)) | Inr _ \<Rightarrow> Inr ())))"

section \<open>The receiving thread\<close>

text \<open>
  The table of users is shared with the controller (\<open>poisoned\<close>: its lock). A message of the server
  updates it, posts an event, or asks for the name.
\<close>

type_synonym user_table = "string \<rightharpoonup> user_status"

definition update_user :: "bool \<Rightarrow> string \<Rightarrow> user_status \<Rightarrow> user_table \<Rightarrow> controller_error + user_table" where
  "update_user poisoned_table u st tbl = (if poisoned_table then Inl CtlPoisonedLock else Inr (tbl(u \<mapsto> st)))"

definition post_event :: "bool \<Rightarrow> app_event \<Rightarrow> user_table \<Rightarrow>
    user_table \<times> app_event list \<times> (controller_error + client_response option)" where
  "post_event tx_ok event tbl =
     (if tx_ok then (tbl, [event], Inr None) else (tbl, [], Inl (CtlMapError (FromText closed_channel))))"

fun get_response_for_server_message ::
  "bool \<Rightarrow> bool \<Rightarrow> string \<Rightarrow> server_message \<Rightarrow> user_table \<Rightarrow>
     user_table \<times> app_event list \<times> (controller_error + client_response option)" where
  "get_response_for_server_message poisoned_table tx_ok u UsernameRequest tbl = (tbl, [], Inr (Some (Username u)))"
| "get_response_for_server_message poisoned_table tx_ok u (UserStatusUpdate v st) tbl =
     (case update_user poisoned_table v st tbl of Inl e \<Rightarrow> (tbl, [], Inl e) | Inr tbl1 \<Rightarrow> (tbl1, [], Inr None))"
| "get_response_for_server_message poisoned_table tx_ok u (server_message.CallIncoming from_usr offer_sdp) tbl =
     post_event tx_ok (app_event.CallIncoming from_usr offer_sdp) tbl"
| "get_response_for_server_message poisoned_table tx_ok u (server_message.CallAccepted from_usr sdp_answer) tbl =
     post_event tx_ok (app_event.CallAccepted sdp_answer u from_usr) tbl"
| "get_response_for_server_message poisoned_table tx_ok u server_message.CallRejected tbl =
     post_event tx_ok app_event.CallRejected tbl"
| "get_response_for_server_message poisoned_table tx_ok u (MessageError e) tbl = post_event tx_ok (AppError e) tbl"

text \<open>The result: the table, the events, what was written, and the error that ends the thread.\<close>

definition handle_server_bytes ::
  "bool \<Rightarrow> bool \<Rightarrow> string + unit \<Rightarrow> string \<Rightarrow> bytes \<Rightarrow> user_table \<Rightarrow>
     user_table \<times> app_event list \<times> bytes list \<times> (controller_error + unit)" where
  "handle_server_bytes poisoned_table tx_ok written u bs tbl =
     (case server_message_from_bytes bs of
        None \<Rightarrow> (tbl, [], [], Inl (CtlMapError (FromText ''Failed to parse message'')))
      | Some m \<Rightarrow>
          (case get_response_for_server_message poisoned_table tx_ok u m tbl of
             (tbl1, evs, Inl e) \<Rightarrow> (tbl1, evs, [], Inl (CtlMapError (FromController e)))
           | (tbl1, evs, Inr None) \<Rightarrow> (tbl1, evs, [], Inr ())
           | (tbl1, evs, Inr (Some r)) \<Rightarrow>
               (case written of
                  Inl e \<Rightarrow> (tbl1, evs, [], Inl (CtlMapError (FromController (CtlMapError (FromText e)))))
                | Inr _ \<Rightarrow> (tbl1, evs, [client_response_to_bytes r], Inr ()))))"

text \<open>
  A round of the loop: the flag when it is tested, what \<open>read\<close> returned, the flag after a read error,
  the lock, the event channel and the write. The text of the error event is left open
  (\<open>show_error\<close>). The last component is the flag as the loop leaves it: \<open>False\<close> when the event of an
  error could not be posted.
\<close>

record receiver_round =
  rr_logged_in :: bool
  rr_read :: "string + bytes"
  rr_still :: bool
  rr_poisoned :: bool
  rr_tx :: bool
  rr_write :: "string + unit"

fun run_receiver_loop ::
  "(controller_error \<Rightarrow> string) \<Rightarrow> string \<Rightarrow> receiver_round list \<Rightarrow> user_table \<Rightarrow> app_event list \<Rightarrow> bytes list \<Rightarrow>
     user_table \<times> app_event list \<times> bytes list \<times> bool" where
  "run_receiver_loop show_error u [] tbl evs out = (tbl, evs, out, True)"
| "run_receiver_loop show_error u (r # rs) tbl evs out =
     (if \<not> rr_logged_in r then (tbl, evs, out, True)
      else case rr_read r of
             Inr bs \<Rightarrow>
               if bs = [] then (tbl, evs, out, True)
               else
                 (case handle_server_bytes (rr_poisoned r) (rr_tx r) (rr_write r) u bs tbl of
                    (tbl1, evs1, out1, Inl e) \<Rightarrow>
                      (case send_event_or_log_out (rr_tx r) (AppError (show_error e)) True of
                         (evs2, l) \<Rightarrow> (tbl1, evs @ evs1 @ evs2, out @ out1, l))
                  | (tbl1, evs1, out1, Inr _) \<Rightarrow>
                      run_receiver_loop show_error u rs tbl1 (evs @ evs1) (out @ out1))
           | Inl e \<Rightarrow>
               if rr_still r then
                 (case send_event_or_log_out (rr_tx r) (AppError e) True of
                    (evs2, l) \<Rightarrow> (tbl, evs @ evs2, out, l))
               else (tbl, evs, out, True))"

section \<open>Without a login\<close>

text \<open>
  When the controller holds no token, calling, hanging up, rejecting a call and logging out fail
  whatever the server connection would answer, post no event and change nothing.
\<close>
lemma logged_out_inert:
  assumes "ctl_token c = None"
  shows "call env callee c = ([], Inl NotLoggedInError) \<and>
     log_out env c = (c, [], Inl NotLoggedInError) \<and>
     reject_call env tx_ok callee c = (c, [], Inl NotLoggedInError) \<and>
     hang_up env sc nt cl ns c = Some (c, [], Inl NotLoggedInError)"
  using assms by (simp add: call_def log_out_def reject_call_def hang_up_def get_token_def)

end
