(* ===== verification/Server.thy ===== *)
theory Server
  imports Protocol
begin

text \<open>
  The central server, \<^verbatim>\<open>src/server\<close>: the user table with its persistence, the event streams to the
  clients, the operations of \<^verbatim>\<open>operating_server.rs\<close>, the dispatch and connection loop of
  \<^verbatim>\<open>user_handler.rs\<close>, and the handshake and event-channel mapping of \<^verbatim>\<open>central_server.rs\<close>.

  The user table is the association list of the \<open>HashMap\<close>'s entries; the order matters only for
  the order of entries in a login response. An event stream is an identifier (the shared
  \<open>Arc\<close>): the server state records the messages written to each stream. Each connection carries the name of
  the user who logged in on it (\<open>op_server.username\<close>). A poisoned lock is part of the state:
  the operations have the corresponding error branches.
\<close>

datatype server_error =
    OpenUserDataFileError
  | WriteUserDataFileError
  | UserDoesNotExist string
  | PoisonedLock
  | UserNotAvailable string
  | MapError string
  | IPNotFound string
  | FailedToBindAddress
  | ConnectionError
  | ServerOff
  | InvalidFormat
  | ServerFullError

fun show_server_error :: "server_error \<Rightarrow> string" where
  "show_server_error OpenUserDataFileError = ''Error: failed to open user data file''"
| "show_server_error WriteUserDataFileError = ''Error: failed to write user data file''"
| "show_server_error (UserDoesNotExist usr_name) = ''Error: user does not exist: '' @ usr_name"
| "show_server_error PoisonedLock = ''Error: poisoned lock''"
| "show_server_error (UserNotAvailable user_name) = ''Error: user not available: '' @ user_name"
| "show_server_error (MapError e) = ''Error: '' @ e"
| "show_server_error (IPNotFound e) = ''Error: IP not found: '' @ e"
| "show_server_error FailedToBindAddress = ''Error: failed to bind address''"
| "show_server_error ConnectionError = ''Error: failed to connect''"
| "show_server_error ServerOff = ''Error: is no longer available''"
| "show_server_error InvalidFormat = ''Error: invalid format''"
| "show_server_error ServerFullError = ''Error: server full''"

record user_data =
  username :: string
  password :: string
  status :: user_status
  server_client_stream :: "nat option"

definition user_data_new :: "string \<Rightarrow> string \<Rightarrow> user_status \<Rightarrow> user_data" where
  "user_data_new u p st = \<lparr>username = u, password = p, status = st, server_client_stream = None\<rparr>"

definition update_status :: "user_data \<Rightarrow> user_status \<Rightarrow> user_data" where
  "update_status d st = d\<lparr>status := st\<rparr>"

definition update_server_client_stream :: "user_data \<Rightarrow> nat \<Rightarrow> user_data" where
  "update_server_client_stream d sid = d\<lparr>server_client_stream := Some sid\<rparr>"

text \<open>A stream takes messages, was shut down, or its mutex is poisoned.\<close>

datatype stream_state = Open | Shut | PoisonedStream

record server =
  users :: "(string \<times> user_data) list"
  streams :: "nat \<Rightarrow> server_message list"
  stream_state :: "nat \<Rightarrow> stream_state"
  next_stream :: nat
  users_file :: string
  poisoned :: bool

abbreviation poison_text :: string where
  "poison_text \<equiv> ''poisoned lock: another task failed inside''"

section \<open>Helpers\<close>

definition send_message :: "server \<Rightarrow> nat \<Rightarrow> server_message \<Rightarrow> server" where
  "send_message s sid m =
     (if stream_state s sid = Open then s\<lparr>streams := (streams s)(sid := streams s sid @ [m])\<rparr> else s)"

fun other_streams :: "string \<Rightarrow> (string \<times> user_data) list \<Rightarrow> nat list" where
  "other_streams u [] = []"
| "other_streams u ((name, d) # us) =
     (if name = u then other_streams u us
      else case server_client_stream d of
             Some sid \<Rightarrow> sid # other_streams u us
           | None \<Rightarrow> other_streams u us)"

definition notify_status_update :: "server \<Rightarrow> string \<Rightarrow> user_status \<Rightarrow> server" where
  "notify_status_update s u st =
     (if poisoned s then s
      else foldl (\<lambda>s' sid. send_message s' sid (UserStatusUpdate u st)) s
             (other_streams u (users s)))"

definition get_user_data :: "server \<Rightarrow> string \<Rightarrow> string + user_data" where
  "get_user_data s user_name =
     (if poisoned s then Inl ''Poisoned lock''
      else case map_of (users s) user_name of
             Some d \<Rightarrow> Inr d
           | None \<Rightarrow> Inl (''User '' @ user_name @ '' not found''))"

definition validate_string :: "string \<Rightarrow> server_error + unit" where
  "validate_string s =
     (let trimmed = trim s
      in if trimmed = [] then Inl InvalidFormat
         else if CHR '' '' \<in> set trimmed \<or> newline \<in> set trimmed \<or> CHR '':'' \<in> set trimmed
                 \<or> CHR ''|'' \<in> set trimmed then Inl InvalidFormat
         else Inr ())"

definition get_stream_from_user :: "server \<Rightarrow> string \<Rightarrow> server_error + nat" where
  "get_stream_from_user s u =
     (if poisoned s then Inl PoisonedLock
      else case map_of (users s) u of
             None \<Rightarrow> Inl (UserDoesNotExist u)
           | Some d \<Rightarrow>
               (case server_client_stream d of
                  Some sid \<Rightarrow> Inr sid
                | None \<Rightarrow> Inl (UserDoesNotExist u)))"

definition get_clients_for_user :: "server \<Rightarrow> string \<Rightarrow> (string \<times> user_status) list" where
  "get_clients_for_user s own_username =
     (if poisoned s then []
      else map (\<lambda>(u, d). (u, status d)) (filter (\<lambda>(u, _). u \<noteq> own_username) (users s)))"

text \<open>What appending a line to the users file does: success, or the write stops after some bytes.\<close>

datatype disk = DiskOk | OpenFails | WriteFails nat

definition load_user_data_in_disk ::
  "disk \<Rightarrow> server \<Rightarrow> string \<Rightarrow> string \<Rightarrow> server \<times> (server_error + unit)" where
  "load_user_data_in_disk dsk s u p =
     (let line = u @ '':'' @ p @ [newline]
      in case dsk of
           OpenFails \<Rightarrow> (s, Inl OpenUserDataFileError)
         | WriteFails k \<Rightarrow>
             (s\<lparr>users_file := users_file s @ take k line\<rparr>, Inl WriteUserDataFileError)
         | DiskOk \<Rightarrow> (s\<lparr>users_file := users_file s @ line\<rparr>, Inr ()))"

abbreviation put_user :: "string \<Rightarrow> user_data \<Rightarrow> server \<Rightarrow> server" where
  "put_user u d s \<equiv> s\<lparr>users := AList.update u d (users s)\<rparr>"

section \<open>Operations\<close>

text \<open>\<open>un\<close> is the user name of the connection, before and after.\<close>

definition login_user ::
  "'v6 socket_addr \<Rightarrow> string option \<Rightarrow> server \<Rightarrow> string \<Rightarrow> string \<Rightarrow>
     'v6 server_response \<times> string option \<times> server" where
  "login_user addr un s u p =
     (if poisoned s then (Error poison_text, un, s)
      else case map_of (users s) u of
             None \<Rightarrow> (LoginError (''User '' @ u @ '' not found''), un, s)
           | Some d \<Rightarrow>
               if password d \<noteq> p then (LoginError ''Wrong password. Try again'', un, s)
               else case status d of
                      Offline \<Rightarrow>
                        (let s1 = put_user u (update_status d Available) s;
                             s2 = notify_status_update s1 u Available
                         in (LoginOk u addr (get_clients_for_user s2 u), Some u, s2))
                    | _ \<Rightarrow> (LoginError ''User already logged in'', un, s))"

definition signup_user ::
  "disk \<Rightarrow> server \<Rightarrow> string \<Rightarrow> string \<Rightarrow> 'v6 server_response \<times> server" where
  "signup_user dsk s u p =
     (case validate_string u of
        Inl _ \<Rightarrow> (SignupError ''Invalid username'', s)
      | Inr _ \<Rightarrow>
     (case validate_string p of
        Inl _ \<Rightarrow> (SignupError ''Invalid password'', s)
      | Inr _ \<Rightarrow>
          if poisoned s then (SignupError poison_text, s)
          else if map_of (users s) u \<noteq> None then
            (SignupError (''User '' @ u @ '' already exists''), s)
          else
            (let s1 = put_user u (user_data_new u p Offline) s;
                 s2 = notify_status_update s1 u Offline
             in case load_user_data_in_disk dsk s2 u p of
                  (s3, Inl e) \<Rightarrow> (Error (''Error loading user data: '' @ show_server_error e), s3)
                | (s3, Inr _) \<Rightarrow> (SignupOk, s3))))"

definition logout_user ::
  "string option \<Rightarrow> server \<Rightarrow> string \<Rightarrow> 'v6 server_response \<times> string option \<times> server" where
  "logout_user un s u =
     (if poisoned s then (LogoutError poison_text, un, s)
      else case map_of (users s) u of
             None \<Rightarrow> (LogoutError (''User '' @ u @ '' not found''), un, s)
           | Some d \<Rightarrow>
               (let s1 = put_user u (update_status d Offline) s
                in case server_client_stream d of
                     None \<Rightarrow> (Error ''User not found'', un, s1)
                   | Some sid \<Rightarrow>
                       if stream_state s1 sid = PoisonedStream then (Error poison_text, un, s1)
                       else
                         (let s2 = s1\<lparr>stream_state := (stream_state s1)(sid := Shut)\<rparr>
                          in (LogoutOk, None, notify_status_update s2 u Offline))))"

text \<open>
  A call request reads the table under three separate read locks and writes it back under a
  later write lock: first the checks on the clones it read, then the update.
\<close>

definition call_request_check ::
  "server \<Rightarrow> string \<Rightarrow> string \<Rightarrow> 'v6 server_response + nat \<times> user_data \<times> user_data" where
  "call_request_check s from_usr to_usr =
     (case get_stream_from_user s to_usr of
        Inl e \<Rightarrow> Inl (CallRequestError (show_server_error e))
      | Inr sid \<Rightarrow>
     (case get_user_data s from_usr of
        Inl err_event \<Rightarrow> Inl (Error err_event)
      | Inr from_data \<Rightarrow>
     (case get_user_data s to_usr of
        Inl err_event \<Rightarrow> Inl (Error err_event)
      | Inr to_data \<Rightarrow>
          if status from_data \<noteq> Available then
            Inl (Error (show_server_error (UserNotAvailable from_usr)))
          else if status to_data \<noteq> Available then
            Inl (Error (show_server_error (UserNotAvailable to_usr)))
          else Inr (sid, from_data, to_data))))"

definition call_request_commit ::
  "server \<Rightarrow> string \<Rightarrow> string \<Rightarrow> session_description \<Rightarrow> nat \<times> user_data \<times> user_data \<Rightarrow>
     'v6 server_response \<times> server" where
  "call_request_commit s from_usr to_usr offer_sdp checked =
     (case checked of (sid, from_data, to_data) \<Rightarrow>
        if poisoned s then (CallRequestError poison_text, s)
        else
          (let from' = update_status from_data (Occupied to_usr);
               to' = update_status to_data (Occupied from_usr);
               s1 = put_user (username to') to' s;
               s2 = put_user (username from') from' s1;
               s3 = notify_status_update s2 from_usr (Occupied to_usr);
               s4 = notify_status_update s3 to_usr (Occupied from_usr)
           in (CallRequestOk, send_message s4 sid (CallIncoming from_usr offer_sdp))))"

definition call_request ::
  "server \<Rightarrow> string \<Rightarrow> string \<Rightarrow> session_description \<Rightarrow> 'v6 server_response \<times> server" where
  "call_request s from_usr to_usr offer_sdp =
     (case call_request_check s from_usr to_usr of
        Inl r \<Rightarrow> (r, s)
      | Inr checked \<Rightarrow> call_request_commit s from_usr to_usr offer_sdp checked)"

definition call_accept ::
  "server \<Rightarrow> string \<Rightarrow> string \<Rightarrow> session_description \<Rightarrow> 'v6 server_response \<times> server" where
  "call_accept s from_usr to_usr sdp_answer =
     (case get_stream_from_user s to_usr of
        Inl e \<Rightarrow> (CallAcceptError (show_server_error e), s)
      | Inr sid \<Rightarrow>
     (case get_user_data s from_usr of
        Inl err_event \<Rightarrow> (CallAcceptError err_event, s)
      | Inr from_data \<Rightarrow>
     (case get_user_data s to_usr of
        Inl err_event \<Rightarrow> (CallAcceptError err_event, s)
      | Inr to_data \<Rightarrow>
          if status from_data \<noteq> Occupied to_usr then
            (CallAcceptError (show_server_error (UserNotAvailable from_usr)), s)
          else if status to_data \<noteq> Occupied from_usr then
            (CallAcceptError (show_server_error (UserNotAvailable to_usr)), s)
          else (CallAcceptOk, send_message s sid (CallAccepted from_usr sdp_answer)))))"

definition call_reject ::
  "server \<Rightarrow> string \<Rightarrow> string \<Rightarrow> 'v6 server_response \<times> server" where
  "call_reject s from_usr to_usr =
     (case get_stream_from_user s to_usr of
        Inl e \<Rightarrow> (CallRejectError (show_server_error e), s)
      | Inr sid \<Rightarrow>
     (case get_user_data s from_usr of
        Inl err_event \<Rightarrow> (CallRejectError err_event, s)
      | Inr from_data \<Rightarrow>
     (case get_user_data s to_usr of
        Inl err_event \<Rightarrow> (CallRejectError err_event, s)
      | Inr to_data \<Rightarrow>
          if status from_data \<noteq> Occupied to_usr then
            (CallRejectError (show_server_error (UserNotAvailable from_usr)), s)
          else if status to_data \<noteq> Occupied from_usr then
            (CallRejectError (show_server_error (UserNotAvailable to_usr)), s)
          else
            (let from' = update_status from_data Available;
                 to' = update_status to_data Available;
                 s1 = notify_status_update s from_usr Available;
                 s2 = notify_status_update s1 to_usr Available
             in if poisoned s2 then (CallRejectError poison_text, s2)
                else
                  (let s3 = put_user (username to') to' s2;
                       s4 = put_user (username from') from' s3
                   in (CallRejectOk, send_message s4 sid CallRejected))))))"

definition call_hangup :: "server \<Rightarrow> string \<Rightarrow> 'v6 server_response \<times> server" where
  "call_hangup s u =
     (if poisoned s then (CallHangUpError poison_text, s)
      else case map_of (users s) u of
             None \<Rightarrow> (CallHangUpError ''User does not exist'', s)
           | Some d \<Rightarrow>
               (case status d of
                  Occupied _ \<Rightarrow>
                    (CallHangUpOk,
                     notify_status_update (put_user u (update_status d Available) s) u Available)
                | _ \<Rightarrow> (CallHangUpError ''Unexpected user status'', s)))"

definition make_user_offline ::
  "string option \<Rightarrow> server \<Rightarrow> (server_error + unit) \<times> string option \<times> server" where
  "make_user_offline un s =
     (case un of
        None \<Rightarrow> (Inr (), un, s)
      | Some u \<Rightarrow>
          if poisoned s then (Inl (MapError poison_text), un, s)
          else case map_of (users s) u of
                 None \<Rightarrow> (Inl (UserNotAvailable u), un, s)
               | Some d \<Rightarrow>
                   (Inr (), None,
                    notify_status_update (put_user u (update_status d Offline) s) u Offline))"

section \<open>Connections\<close>

fun handle_client_message ::
  "'v6 socket_addr \<Rightarrow> disk \<Rightarrow> string option \<Rightarrow> server \<Rightarrow> client_message \<Rightarrow>
     'v6 server_response \<times> string option \<times> server" where
  "handle_client_message addr dsk un s (LogIn u p) = login_user addr un s u p"
| "handle_client_message addr dsk un s (SignUp u p) = (let (r, s') = signup_user dsk s u p in (r, un, s'))"
| "handle_client_message addr dsk un s (LogOut token_str) = logout_user un s token_str"
| "handle_client_message addr dsk un s (CallRequest token_str offer_sdp to) =
     (let (r, s') = call_request s token_str to offer_sdp in (r, un, s'))"
| "handle_client_message addr dsk un s (CallAccept from_usr to_usr sdp_answer) =
     (let (r, s') = call_accept s from_usr to_usr sdp_answer in (r, un, s'))"
| "handle_client_message addr dsk un s (CallReject from_usr to_usr) =
     (let (r, s') = call_reject s from_usr to_usr in (r, un, s'))"
| "handle_client_message addr dsk un s (CallHangup token_str) =
     (let (r, s') = call_hangup s token_str in (r, un, s'))"
| "handle_client_message addr dsk un s Hello = (BadMessage, un, s)"

text \<open>
  One iteration of the connection loop: the server may be switched off; the read ends the
  connection, fails, or fills (part of) the 1024-byte buffer; writing the response may fail.
\<close>

datatype conn_event =
    SwitchedOff
  | Eof
  | ReadError
  | Received bytes disk bool

fun handle_client ::
  "'v6 socket_addr \<Rightarrow> string option \<Rightarrow> server \<Rightarrow> conn_event list \<Rightarrow>
     (server_error + unit) option \<times> string option \<times> server" where
  "handle_client addr un s [] = (None, un, s)"
| "handle_client addr un s (SwitchedOff # es) = (Some (Inl ServerOff), un, s)"
| "handle_client addr un s (Eof # es) =
     (case make_user_offline un s of (r, un', s') \<Rightarrow> (Some r, un', s'))"
| "handle_client addr un s (ReadError # es) =
     (case make_user_offline un s of
        (Inl e, un', s') \<Rightarrow> (Some (Inl e), un', s')
      | (Inr _, un', s') \<Rightarrow> (Some (Inl ConnectionError), un', s'))"
| "handle_client addr un s (Received data dsk write_ok # es) =
     (case (case client_message_from_bytes (take 1024 data) of
              Some event \<Rightarrow> handle_client_message addr dsk un s event
            | None \<Rightarrow> (BadMessage, un, s)) of
        (sv_response, un', s') \<Rightarrow>
          if write_ok then handle_client addr un' s' es
          else (Some (Inl ConnectionError), un', s'))"

text \<open>
  A client opens its event channel: the server asks for the user name on the new stream and
  stores the stream in the user's entry. \<open>Some data\<close> is what the read returned.
\<close>

definition map_stream_to_user :: "server \<Rightarrow> bool \<Rightarrow> bytes option \<Rightarrow> server" where
  "map_stream_to_user s write_ok read_data =
     (let sid = next_stream s;
          s0 = s\<lparr>next_stream := Suc sid, stream_state := (stream_state s)(sid := Open),
                 streams := (streams s)(sid := [UsernameRequest])\<rparr>
      in if \<not> write_ok then s\<lparr>next_stream := Suc sid\<rparr>
         else case read_data of
                None \<Rightarrow> s0
              | Some data \<Rightarrow>
                  if data = [] then s0
                  else case client_response_from_bytes (take 1024 data) of
                         None \<Rightarrow> s0
                       | Some (Username u) \<Rightarrow>
                           if poisoned s0 then s0
                           else case map_of (users s0) u of
                                  None \<Rightarrow> s0
                                | Some d \<Rightarrow> put_user u (update_server_client_stream d sid) s0)"

section \<open>Persistence\<close>

text \<open>
  The lines of a text file as \<open>BufRead::lines\<close> yields them: the terminator and a carriage
  return before it are removed, there is no line after a final terminator, and a line that is
  not valid UTF-8 is an error, which the loader skips.
\<close>

definition strip_cr :: "string \<Rightarrow> string" where
  "strip_cr l = (if l \<noteq> [] \<and> last l = CHR 0x0D then butlast l else l)"

definition file_lines :: "string \<Rightarrow> string option list" where
  "file_lines content =
     (let parts = split_on newline content;
          terminated = map strip_cr (butlast parts);
          ls = (if last parts = [] then terminated else terminated @ [last parts])
      in map (\<lambda>l. if utf8_valid l then Some l else None) ls)"

fun load_lines ::
  "string option list \<Rightarrow> (string \<times> user_data) list \<Rightarrow> (string \<times> user_data) list" where
  "load_lines [] us = us"
| "load_lines (None # ls) us = load_lines ls us"
| "load_lines (Some l # ls) us =
     (case split_once (CHR '':'') l of
        None \<Rightarrow> load_lines ls us
      | Some (u, p) \<Rightarrow> load_lines ls (AList.update u (user_data_new u p Offline) us))"

text \<open>
  Opening the users file gives its content or fails; then an empty file is created, which may
  fail too. \<open>CentralServer::new\<close> starts with the loaded users.
\<close>

definition load_users_from_mem ::
  "string option \<Rightarrow> string + unit \<Rightarrow> server_error + (string \<times> user_data) list" where
  "load_users_from_mem opened created =
     (case opened of
        Some content \<Rightarrow> Inr (load_lines (file_lines content) [])
      | None \<Rightarrow> (case created of Inl e \<Rightarrow> Inl (MapError e) | Inr _ \<Rightarrow> Inr []))"

definition central_server_new :: "string option \<Rightarrow> string + unit \<Rightarrow> server_error + server" where
  "central_server_new opened created =
     (case load_users_from_mem opened created of
        Inl e \<Rightarrow> Inl e
      | Inr us \<Rightarrow>
          Inr \<lparr>users = us, streams = (\<lambda>_. []), stream_state = (\<lambda>_. Open), next_stream = 0,
               users_file = (case opened of Some content \<Rightarrow> content | None \<Rightarrow> []), poisoned = False\<rparr>)"

section \<open>The table under the operations\<close>

lemma send_message_frame [simp]:
  "users (send_message s sid m) = users s"
  "stream_state (send_message s sid m) = stream_state s"
  "next_stream (send_message s sid m) = next_stream s"
  "users_file (send_message s sid m) = users_file s"
  "poisoned (send_message s sid m) = poisoned s"
  by (simp_all add: send_message_def)

lemma send_all_frame:
  fixes s :: server
  defines "t sids m \<equiv> foldl (\<lambda>s' sid. send_message s' sid m) s sids"
  shows "users (t sids m) = users s" "stream_state (t sids m) = stream_state s"
    "next_stream (t sids m) = next_stream s" "users_file (t sids m) = users_file s"
    "poisoned (t sids m) = poisoned s"
  unfolding t_def by (induction sids arbitrary: s) simp_all

lemma notify_frame [simp]:
  "users (notify_status_update s u st) = users s"
  "stream_state (notify_status_update s u st) = stream_state s"
  "next_stream (notify_status_update s u st) = next_stream s"
  "users_file (notify_status_update s u st) = users_file s"
  "poisoned (notify_status_update s u st) = poisoned s"
  by (simp_all add: notify_status_update_def send_all_frame)

lemma update_status_simps [simp]:
  "username (update_status d st) = username d"
  "password (update_status d st) = password d"
  "status (update_status d st) = st"
  "server_client_stream (update_status d st) = server_client_stream d"
  by (simp_all add: update_status_def)

lemma user_data_new_simps [simp]:
  "username (user_data_new u p st) = u" "password (user_data_new u p st) = p"
  "status (user_data_new u p st) = st" "server_client_stream (user_data_new u p st) = None"
  by (simp_all add: user_data_new_def)

lemma map_of_update [simp]: "map_of (AList.update k v al) = (map_of al)(k \<mapsto> v)"
  by (rule update_conv')

abbreviation user_of :: "server \<Rightarrow> string \<Rightarrow> user_data option" where
  "user_of s \<equiv> map_of (users s)"

abbreviation status_of :: "server \<Rightarrow> string \<Rightarrow> user_status option" where
  "status_of s u \<equiv> map_option status (user_of s u)"

section \<open>The invariant\<close>

text \<open>
  Each user is filed under its own name; event streams are numbered below the next stream
  and belong to one user; an occupied user names an existing user.
\<close>

definition table_wf :: "(string \<rightharpoonup> user_data) \<Rightarrow> nat \<Rightarrow> bool" where
  "table_wf m n =
     ((\<forall>u d. m u = Some d \<longrightarrow>
         username d = u \<and> (\<forall>sid. server_client_stream d = Some sid \<longrightarrow> sid < n) \<and>
         (\<forall>v. status d = Occupied v \<longrightarrow> m v \<noteq> None)) \<and>
      (\<forall>u v d e sid. m u = Some d \<longrightarrow> m v = Some e \<longrightarrow>
         server_client_stream d = Some sid \<longrightarrow> server_client_stream e = Some sid \<longrightarrow> u = v))"

definition server_wf :: "server \<Rightarrow> bool" where
  "server_wf s = (distinct (map fst (users s)) \<and> table_wf (user_of s) (next_stream s))"

lemma table_wf_put:
  assumes "table_wf m n" and "m u = Some d"
    and "username d' = u" and "server_client_stream d' = server_client_stream d"
    and "\<And>v. status d' = Occupied v \<Longrightarrow> m v \<noteq> None"
  shows "table_wf (m(u \<mapsto> d')) n"
  using assms unfolding table_wf_def fun_upd_apply by (smt (verit) option.inject option.simps(3))

lemma table_wf_new:
  assumes "table_wf m n" and "m u = None" and "username d' = u" and "server_client_stream d' = None"
    and "status d' = Offline"
  shows "table_wf (m(u \<mapsto> d')) n"
  using assms unfolding table_wf_def by auto

lemma table_wf_stream:
  assumes "table_wf m n" and "m u = Some d"
  shows "table_wf (m(u \<mapsto> update_server_client_stream d n)) (Suc n)"
proof -
  have fresh: "server_client_stream e \<noteq> Some n" if "m v = Some e" for v e
    using assms(1) that by (auto simp: table_wf_def)
  have e: "username d = u" "\<And>v. status d = Occupied v \<Longrightarrow> m v \<noteq> None"
    using assms by (auto simp: table_wf_def)
  then show ?thesis
    using assms(1) fresh
    unfolding table_wf_def update_server_client_stream_def
    by (auto simp: less_Suc_eq split: if_splits)
qed

lemma server_wf_frame:
  "server_wf s \<Longrightarrow> users t = users s \<Longrightarrow> next_stream t = next_stream s \<Longrightarrow> server_wf t"
  by (simp add: server_wf_def)

lemma notify_wf [inv_intros]: "server_wf s \<Longrightarrow> server_wf (notify_status_update s u st)"
  by (erule server_wf_frame) simp_all

lemma send_wf [inv_intros]: "server_wf s \<Longrightarrow> server_wf (send_message s sid m)"
  by (erule server_wf_frame) simp_all

lemma put_user_wf:
  assumes "server_wf s" and "user_of s u = Some d"
    and "username d' = u" and "server_client_stream d' = server_client_stream d"
    and "\<And>v. status d' = Occupied v \<Longrightarrow> user_of s v \<noteq> None"
  shows "server_wf (put_user u d' s)"
  using assms table_wf_put[of "user_of s" "next_stream s" u d d']
  by (simp add: server_wf_def distinct_update del: map_of_eq_Some_iff map_of_eq_None_iff)

lemma new_user_wf:
  "server_wf s \<Longrightarrow> user_of s u = None \<Longrightarrow> server_wf (put_user u (user_data_new u p Offline) s)"
  using table_wf_new[of "user_of s" "next_stream s" u "user_data_new u p Offline"]
  by (simp add: server_wf_def distinct_update del: map_of_eq_Some_iff map_of_eq_None_iff)

lemma server_wf_username: "server_wf s \<Longrightarrow> user_of s u = Some d \<Longrightarrow> username d = u"
  unfolding server_wf_def table_wf_def by blast

lemma status_wf:
  assumes "server_wf s" and "user_of s u = Some d" and "\<And>v. st = Occupied v \<Longrightarrow> user_of s v \<noteq> None"
  shows "server_wf (put_user u (update_status d st) s)"
  using assms server_wf_username[OF assms(1,2)] by (intro put_user_wf[OF assms(1,2)]) simp_all

lemma set_status_wf:
  assumes "server_wf s" and "user_of s u = Some d" and "st = Available \<or> st = Offline"
  shows "server_wf (put_user u (update_status d st) s)"
  using assms(3) by (intro status_wf[OF assms(1,2)]) auto

lemma get_user_data_Inr: "get_user_data s u = Inr d \<longleftrightarrow> \<not> poisoned s \<and> user_of s u = Some d"
  by (auto simp: get_user_data_def split: option.splits)

lemma get_stream_Inr:
  "get_stream_from_user s u = Inr sid \<longleftrightarrow>
     \<not> poisoned s \<and> (\<exists>d. user_of s u = Some d \<and> server_client_stream d = Some sid)"
  by (auto simp: get_stream_from_user_def split: option.splits)

lemma get_user_data_Some: "\<not> poisoned s \<Longrightarrow> user_of s u = Some d \<Longrightarrow> get_user_data s u = Inr d"
  by (simp add: get_user_data_Inr)

lemma get_stream_Some:
  "\<not> poisoned s \<Longrightarrow> user_of s u = Some d \<Longrightarrow> server_client_stream d = Some sid \<Longrightarrow>
     get_stream_from_user s u = Inr sid"
  by (simp add: get_stream_Inr)

lemma call_request_check_Inr:
  "call_request_check s a b = (Inr (sid, da, db) :: 'v6 server_response + _) \<longleftrightarrow>
     \<not> poisoned s \<and> user_of s a = Some da \<and> user_of s b = Some db \<and>
     server_client_stream db = Some sid \<and> status da = Available \<and> status db = Available"
  (is "?l \<longleftrightarrow> ?r")
proof
  assume ?l
  then show ?r
    by (auto simp: call_request_check_def get_user_data_Inr get_stream_Inr split: sum.splits if_splits)
next
  assume ?r
  then show ?l by (simp add: call_request_check_def get_user_data_Some get_stream_Some)
qed

lemma login_wf:
  assumes "server_wf s" and "login_user addr un s u p = (r, un', s')"
  shows "server_wf s'"
proof (cases "s' = s")
  case False
  then obtain d where "user_of s u = Some d"
    "s' = notify_status_update (put_user u (update_status d Available) s) u Available"
    using assms(2) by (auto simp: login_user_def Let_def split: if_splits option.splits user_status.splits)
  then show ?thesis using assms(1) by (simp add: notify_wf set_status_wf del: map_of_eq_Some_iff)
qed (use assms in simp)

lemma disk_wf:
  "server_wf s \<Longrightarrow> load_user_data_in_disk dsk s u p = (s', r) \<Longrightarrow> server_wf s'"
  by (auto simp: load_user_data_in_disk_def Let_def split: disk.splits
      intro: server_wf_frame[of s])

lemma signup_wf:
  assumes "server_wf s" and "signup_user dsk s u p = (r, s')"
  shows "server_wf s'"
proof (cases "s' = s")
  case False
  let ?s2 = "notify_status_update (put_user u (user_data_new u p Offline) s) u Offline"
  have "user_of s u = None \<and> (\<exists>res. load_user_data_in_disk dsk ?s2 u p = (s', res))"
    using assms(2) False
    by (auto simp: signup_user_def Let_def split: sum.splits if_splits prod.splits)
  then show ?thesis using assms(1) disk_wf new_user_wf notify_wf by blast
qed (use assms in simp)

lemma logout_wf:
  assumes "server_wf s" and "logout_user un s u = (r, un', s')"
  shows "server_wf s'"
proof (cases "s' = s")
  case False
  then obtain d where d: "user_of s u = Some d"
    "users s' = users (put_user u (update_status d Offline) s)" "next_stream s' = next_stream s"
    using assms(2) by (auto simp: logout_user_def Let_def split: if_splits option.splits)
  have "server_wf (put_user u (update_status d Offline) s)"
    using set_status_wf[OF assms(1) d(1)] by simp
  then show ?thesis using d by (auto intro: server_wf_frame)
qed (use assms in simp)

lemma pair_update_wf:
  assumes "server_wf s" and "user_of s a = Some da" and "user_of s b = Some db"
    and "\<And>v. sa = Occupied v \<Longrightarrow> user_of s v \<noteq> None" and "\<And>v. sb = Occupied v \<Longrightarrow> user_of s v \<noteq> None"
  shows "server_wf (put_user a (update_status da sa) (put_user b (update_status db sb) s))"
proof -
  let ?t = "put_user b (update_status db sb) s"
  have 1: "server_wf ?t" by (rule status_wf[OF assms(1,3,5)])
  obtain da' where d: "user_of ?t a = Some da'" "server_client_stream da' = server_client_stream da"
    using assms(2,3) by (cases "a = b") (auto simp del: map_of_eq_Some_iff)
  have "username da = a" using server_wf_username[OF assms(1,2)] .
  then show ?thesis
    using assms(4) d(2) by (intro put_user_wf[OF 1 d(1)]) auto
qed

lemma call_request_wf:
  assumes "server_wf s" and "call_request s a b d = ((r :: 'v6 server_response), s')"
  shows "server_wf s'"
proof (cases "s' = s")
  case False
  then obtain sid da db where c: "call_request_check s a b = (Inr (sid, da, db) :: 'v6 server_response + _)"
    using assms(2) by (auto simp: call_request_def split: sum.splits)
  then have c': "user_of s a = Some da" "user_of s b = Some db" "\<not> poisoned s"
    by (simp_all add: call_request_check_Inr)
  have n: "username da = a" "username db = b" using assms(1) c' by (auto dest: server_wf_username)
  have "server_wf (put_user a (update_status da (Occupied b)) (put_user b (update_status db (Occupied a)) s))"
    using assms(1) c' by (intro pair_update_wf) auto
  then show ?thesis
    using assms(2) c c' n
    by (auto simp: call_request_def call_request_commit_def Let_def intro!: send_wf notify_wf)
qed (use assms in simp)

lemma call_accept_wf:
  "server_wf s \<Longrightarrow> call_accept s a b d = (r, s') \<Longrightarrow> server_wf s'"
  by (auto simp: call_accept_def intro: send_wf split: sum.splits if_splits)

lemma call_reject_effect:
  assumes "call_reject s a b = ((r :: 'v6 server_response), s')"
  shows "(r \<noteq> CallRejectOk \<and> users s' = users s \<and> next_stream s' = next_stream s) \<or>
    (\<exists>da db sid. r = CallRejectOk \<and> user_of s a = Some da \<and> user_of s b = Some db \<and>
      server_client_stream db = Some sid \<and>
      status da = Occupied b \<and> status db = Occupied a \<and>
      users s' = users (put_user (username da) (update_status da Available)
        (put_user (username db) (update_status db Available) s)) \<and> next_stream s' = next_stream s)"
proof (cases "get_stream_from_user s b")
  case (Inl e)
  then show ?thesis using assms by (auto simp: call_reject_def)
next
  case sid: (Inr sid)
  show ?thesis
  proof (cases "get_user_data s a")
    case (Inl e)
    then show ?thesis using assms sid by (auto simp: call_reject_def)
  next
    case da: (Inr da)
    show ?thesis
    proof (cases "get_user_data s b")
      case (Inl e)
      then show ?thesis using assms sid da by (auto simp: call_reject_def)
    next
      case db: (Inr db)
      have f: "\<not> poisoned s" "user_of s a = Some da" "user_of s b = Some db"
        "server_client_stream db = Some sid"
        using sid da db by (simp_all add: get_user_data_Inr get_stream_Inr)
      have "r \<noteq> CallRejectOk \<and> s' = s" if "\<not> (status da = Occupied b \<and> status db = Occupied a)"
        using that assms by (auto simp: call_reject_def sid da db split: if_splits)
      moreover have "r = CallRejectOk \<and> users s' = users (put_user (username da) (update_status da Available)
          (put_user (username db) (update_status db Available) s)) \<and> next_stream s' = next_stream s"
        if "status da = Occupied b" "status db = Occupied a"
        using that f(1) assms by (auto simp: call_reject_def sid da db Let_def)
      ultimately show ?thesis using f by blast
    qed
  qed
qed

lemma call_reject_wf:
  assumes "server_wf s" and "call_reject s a b = ((r :: 'v6 server_response), s')"
  shows "server_wf s'"
  using call_reject_effect[OF assms(2)]
proof (elim disjE exE conjE)
  fix da db
  assume c: "user_of s a = Some da" "user_of s b = Some db"
    and u: "users s' = users (put_user (username da) (update_status da Available)
        (put_user (username db) (update_status db Available) s))" "next_stream s' = next_stream s"
  have n: "username da = a" "username db = b"
    using server_wf_username[OF assms(1)] c by blast+
  have "server_wf (put_user a (update_status da Available) (put_user b (update_status db Available) s))"
    by (rule pair_update_wf[OF assms(1) c]) auto
  then show ?thesis using u n by (auto intro: server_wf_frame)
qed (use assms in \<open>auto intro: server_wf_frame\<close>)

lemma call_hangup_wf:
  assumes "server_wf s" and "call_hangup s u = (r, s')"
  shows "server_wf s'"
proof (cases "s' = s")
  case False
  then obtain d where "user_of s u = Some d"
    "s' = notify_status_update (put_user u (update_status d Available) s) u Available"
    using assms(2) by (auto simp: call_hangup_def split: if_splits option.splits user_status.splits)
  then show ?thesis using assms(1) by (simp add: notify_wf set_status_wf del: map_of_eq_Some_iff)
qed (use assms in simp)

lemma make_user_offline_wf:
  assumes "server_wf s" and "make_user_offline un s = (r, un', s')"
  shows "server_wf s'"
proof (cases "s' = s")
  case False
  then obtain u d where "user_of s u = Some d"
    "s' = notify_status_update (put_user u (update_status d Offline) s) u Offline"
    using assms(2) by (auto simp: make_user_offline_def split: if_splits option.splits)
  then show ?thesis using assms(1) by (simp add: notify_wf set_status_wf del: map_of_eq_Some_iff)
qed (use assms in simp)

lemma table_wf_mono: "table_wf m n \<Longrightarrow> n \<le> n' \<Longrightarrow> table_wf m n'"
  unfolding table_wf_def using order_less_le_trans by blast

lemma map_stream_wf:
  assumes "server_wf s"
  shows "server_wf (map_stream_to_user s w data)"
proof -
  have frame: "server_wf t" if "users t = users s" "next_stream t = Suc (next_stream s)" for t
    using assms that table_wf_mono[of _ "next_stream s" "Suc (next_stream s)"] by (simp add: server_wf_def)
  have put: "server_wf t" if "users t = AList.update u (update_server_client_stream d (next_stream s)) (users s)"
    "next_stream t = Suc (next_stream s)" "user_of s u = Some d" for t u d
    using assms that table_wf_stream[of "user_of s" "next_stream s" u d]
    by (simp add: server_wf_def distinct_update del: map_of_eq_Some_iff)
  show ?thesis
    unfolding map_stream_to_user_def Let_def
    by (auto intro: put frame split: option.splits client_response.splits)
qed

section \<open>Runs\<close>

text \<open>
  What happens to the server: a message on a connection, the end of a connection, a client opening
  its event channel. A connection is a number; \<open>conns\<close> gives the user logged in on it.
\<close>

datatype server_op =
    Message nat disk client_message
  | Disconnect nat
  | OpenChannel bool "bytes option"

fun server_step ::
  "'v6 socket_addr \<Rightarrow> server \<times> (nat \<Rightarrow> string option) \<Rightarrow> server_op \<Rightarrow> server \<times> (nat \<Rightarrow> string option)" where
  "server_step addr (s, conns) (Message c dsk m) =
     (case handle_client_message addr dsk (conns c) s m of (r, un, s') \<Rightarrow> (s', conns(c := un)))"
| "server_step addr (s, conns) (Disconnect c) =
     (case make_user_offline (conns c) s of (r, un, s') \<Rightarrow> (s', conns(c := un)))"
| "server_step addr (s, conns) (OpenChannel w data) = (map_stream_to_user s w data, conns)"

lemma handle_client_message_wf:
  assumes "server_wf s" and "handle_client_message addr dsk un s m = (r, un', s')"
  shows "server_wf s'"
  using assms
  by (cases m)
    (auto dest: login_wf signup_wf logout_wf call_request_wf call_accept_wf call_reject_wf
      call_hangup_wf split: prod.splits)

interpretation srv: step_system "server_step addr" "\<lambda>sc. server_wf (fst sc)" for addr
proof
  fix sc :: "server \<times> (nat \<Rightarrow> string option)" and op
  assume wf: "server_wf (fst sc)"
  obtain s conns where sc: "sc = (s, conns)" by force
  show "server_wf (fst (server_step addr sc op))"
  proof (cases op)
    case (Message c dsk m)
    then show ?thesis using wf handle_client_message_wf[of s addr dsk "conns c" m]
      by (auto simp: sc split: prod.splits)
  next
    case (Disconnect c)
    then show ?thesis using wf make_user_offline_wf[of s "conns c"]
      by (auto simp: sc split: prod.splits)
  next
    case (OpenChannel w data)
    then show ?thesis using wf map_stream_wf[of s] by (simp add: sc)
  qed
qed

lemma load_lines_wf:
  "distinct (map fst us) \<Longrightarrow>
   (\<And>u d. map_of us u = Some d \<Longrightarrow> username d = u \<and> status d = Offline \<and> server_client_stream d = None) \<Longrightarrow>
   distinct (map fst (load_lines ls us)) \<and>
   (\<forall>u d. map_of (load_lines ls us) u = Some d \<longrightarrow>
      username d = u \<and> status d = Offline \<and> server_client_stream d = None)"
proof (induction ls us rule: load_lines.induct)
  case (3 l ls us)
  show ?case
  proof (cases "split_once (CHR '':'') l")
    case None
    then show ?thesis using 3 by simp
  next
    case (Some up)
    obtain u p where up: "up = (u, p)" by force
    let ?us = "AList.update u (user_data_new u p Offline) us"
    have "distinct (map fst ?us)" using 3(3) by (simp add: distinct_update)
    moreover have "username d = v \<and> status d = Offline \<and> server_client_stream d = None"
      if "map_of ?us v = Some d" for v d
    proof (cases "v = u")
      case False
      then have "map_of us v = Some d" using that by (simp del: map_of_eq_Some_iff)
      then show ?thesis by (rule 3(4))
    qed (use that in auto)
    ultimately have "distinct (map fst (load_lines ls ?us)) \<and>
        (\<forall>u d. map_of (load_lines ls ?us) u = Some d \<longrightarrow>
          username d = u \<and> status d = Offline \<and> server_client_stream d = None)"
      using 3(2)[OF Some up[symmetric]] by blast
    moreover have "load_lines (Some l # ls) us = load_lines ls ?us" by (simp add: Some up)
    ultimately show ?thesis by metis
  qed
qed simp_all

lemma central_server_new_wf: "central_server_new opened created = Inr s \<Longrightarrow> server_wf s"
proof -
  assume new: "central_server_new opened created = Inr s"
  have "distinct (map fst (users s)) \<and> (\<forall>u d. user_of s u = Some d \<longrightarrow>
      username d = u \<and> status d = Offline \<and> server_client_stream d = None)"
    using new load_lines_wf[of "[]"]
    by (auto simp: central_server_new_def load_users_from_mem_def split: option.splits sum.splits)
  then show ?thesis unfolding server_wf_def table_wf_def
    by (metis option.distinct(1) user_status.distinct(5))
qed

text \<open>
  C2. The server's invariant: after any sequence of client messages on any connections,
  disconnections and new event channels, interleaved in any order, starting from the users file
  at start-up, every user is filed once and under its own name, every event stream belongs to
  one user, and an occupied user names an existing user.
\<close>

theorem server_invariant:
  assumes "central_server_new opened created = Inr s"
  shows "server_wf (fst (foldl (server_step addr) (s, \<lambda>_. None) ops))"
  using srv.run_inv[of "(s, \<lambda>_. None)"] central_server_new_wf[OF assms] by simp

theorem server_invariant_witness:
  "\<exists>s. central_server_new (Some ''alice:secret'') (Inr ()) = Inr s \<and>
    server_wf (fst (foldl (server_step (V4 127 0 0 1 8081 :: unit socket_addr)) (s, \<lambda>_. None)
      [Message 0 DiskOk (LogIn ''alice'' ''secret''), Disconnect 0]))"
proof -
  obtain s where s: "central_server_new (Some ''alice:secret'') (Inr ()) = Inr s"
    by (simp add: central_server_new_def load_users_from_mem_def)
  from server_invariant[OF s] show ?thesis using s by blast
qed

section \<open>Notifications\<close>

lemma streams_send:
  "streams (send_message s sid m) sid' =
     streams s sid' @ (if sid' = sid \<and> stream_state s sid = Open then [m] else [])"
  by (simp add: send_message_def)

lemma streams_send_all:
  "distinct sids \<Longrightarrow>
   streams (foldl (\<lambda>s' sid. send_message s' sid m) s sids) sid' =
     streams s sid' @ (if sid' \<in> set sids \<and> stream_state s sid' = Open then [m] else [])"
  by (induction sids arbitrary: s) (auto simp: streams_send)

lemma set_other_streams:
  "set (other_streams u us) = {sid. \<exists>v d. (v, d) \<in> set us \<and> v \<noteq> u \<and> server_client_stream d = Some sid}"
  by (induction u us rule: other_streams.induct) (auto split: option.splits)

lemma distinct_other_streams:
  "distinct (map fst us) \<Longrightarrow>
   (\<And>v w d e sid. (v, d) \<in> set us \<Longrightarrow> (w, e) \<in> set us \<Longrightarrow> server_client_stream d = Some sid \<Longrightarrow>
      server_client_stream e = Some sid \<Longrightarrow> v = w) \<Longrightarrow>
   distinct (other_streams u us)"
proof (induction u us rule: other_streams.induct)
  case (2 u name d us)
  have hyp: "server_client_stream x = Some sid \<Longrightarrow> server_client_stream y = Some sid \<Longrightarrow> v = w"
    if "(v, x) \<in> set us" "(w, y) \<in> set us" for v w x y sid
    using 2(5)[of v x w y sid] that by simp
  have d: "distinct (other_streams u us)" using 2(1,2,3,4) hyp
    by (cases "name = u"; cases "server_client_stream d") auto
  have "sid \<notin> set (other_streams u us)" if "server_client_stream d = Some sid" for sid
    using 2(5)[of name d _ _ sid] that 2(4) by (force simp: set_other_streams)
  with d show ?case by (auto split: option.splits)
qed simp

definition has_stream :: "server \<Rightarrow> string \<Rightarrow> nat \<Rightarrow> bool" where
  "has_stream s v sid = (\<exists>d. user_of s v = Some d \<and> server_client_stream d = Some sid)"

lemma streams_notify:
  assumes "server_wf s" and "\<not> poisoned s"
  shows "streams (notify_status_update s u st) sid =
    streams s sid @ (if stream_state s sid = Open \<and> (\<exists>v. v \<noteq> u \<and> has_stream s v sid)
      then [UserStatusUpdate u st] else [])"
proof -
  have dist: "distinct (map fst (users s))" using assms(1) by (simp add: server_wf_def)
  have mem: "(v, d) \<in> set (users s) \<longleftrightarrow> user_of s v = Some d" for v d
    using dist by (simp add: map_of_eq_Some_iff)
  have "distinct (other_streams u (users s))"
    using assms(1) dist by (intro distinct_other_streams) (unfold mem server_wf_def table_wf_def, blast+)
  then show ?thesis
    using assms(2)
    by (simp add: notify_status_update_def streams_send_all set_other_streams mem has_stream_def)
      blast
qed

section \<open>Logging in\<close>

definition other_users :: "server \<Rightarrow> string \<Rightarrow> string \<rightharpoonup> user_status" where
  "other_users s u = (\<lambda>v. if v = u then None else status_of s v)"

lemma map_of_map_filter:
  "map_of (map (\<lambda>(k, v). (k, f v)) (filter (\<lambda>(k, _). k \<noteq> a) xs)) =
     (\<lambda>k. if k = a then None else map_option f (map_of xs k))"
  by (induction xs) auto

lemma get_clients_table:
  "\<not> poisoned s \<Longrightarrow> map_of (get_clients_for_user s u) = other_users s u"
  by (simp add: get_clients_for_user_def other_users_def map_of_map_filter)

lemma login_user_outcome:
  assumes "server_wf s" and "\<not> poisoned s"
  shows "case user_of s u of
      None \<Rightarrow> login_user addr un s u p = (LoginError (''User '' @ u @ '' not found''), un, s)
    | Some d \<Rightarrow>
        if password d \<noteq> p then
          login_user addr un s u p = (LoginError ''Wrong password. Try again'', un, s)
        else if status d \<noteq> Offline then
          login_user addr un s u p = (LoginError ''User already logged in'', un, s)
        else \<exists>us s'. login_user addr un s u p = (LoginOk u addr us, Some u, s') \<and>
          user_of s' = (user_of s)(u \<mapsto> d\<lparr>status := Available\<rparr>) \<and>
          map_of us = other_users s u \<and> users_file s' = users_file s \<and>
          streams s' = (\<lambda>sid. streams s sid @
            (if stream_state s sid = Open \<and> (\<exists>v. v \<noteq> u \<and> has_stream s v sid)
             then [UserStatusUpdate u Available] else []))"
proof (cases "user_of s u")
  case None
  then show ?thesis using assms(2) by (simp add: login_user_def del: map_of_eq_None_iff)
next
  case (Some d)
  let ?s1 = "put_user u (update_status d Available) s"
  have wf: "server_wf ?s1" by (rule set_status_wf[OF assms(1) Some]) simp
  have hs: "has_stream ?s1 v sid \<longleftrightarrow> has_stream s v sid" if "v \<noteq> u" for v sid
    using that by (simp add: has_stream_def)
  have "map_of (get_clients_for_user (notify_status_update ?s1 u Available) u) = other_users s u"
    using assms(2) by (simp add: get_clients_table) (auto simp: other_users_def fun_eq_iff)
  moreover have "streams (notify_status_update ?s1 u Available) = (\<lambda>sid. streams s sid @
      (if stream_state s sid = Open \<and> (\<exists>v. v \<noteq> u \<and> has_stream s v sid)
       then [UserStatusUpdate u Available] else []))"
    using assms(2) streams_notify[OF wf] hs by (auto simp: fun_eq_iff)
  ultimately show ?thesis
    using Some assms(2)
    by (auto simp: login_user_def Let_def update_status_def simp del: map_of_eq_Some_iff
        split: user_status.splits)
qed

text \<open>
  C9. Logging in, on every branch: it succeeds exactly for an existing user with the right
  password who is offline. Then the user is available, nobody else's entry changes, the
  connection carries the user's name, the response lists the states of all other users, and
  every other user's open event stream gets the news. Otherwise nothing changes and the
  response says why.
\<close>

theorem login_user_correct:
  assumes "server_wf s" and "\<not> poisoned s"
  shows "case user_of s u of
      None \<Rightarrow> login_user addr un s u p = (LoginError (''User '' @ u @ '' not found''), un, s)
    | Some d \<Rightarrow>
        if password d \<noteq> p then
          login_user addr un s u p = (LoginError ''Wrong password. Try again'', un, s)
        else if status d \<noteq> Offline then
          login_user addr un s u p = (LoginError ''User already logged in'', un, s)
        else \<exists>us s'. login_user addr un s u p = (LoginOk u addr us, Some u, s') \<and>
          user_of s' = (user_of s)(u \<mapsto> d\<lparr>status := Available\<rparr>) \<and>
          map_of us = other_users s u \<and> users_file s' = users_file s \<and>
          streams s' = (\<lambda>sid. streams s sid @
            (if stream_state s sid = Open \<and> (\<exists>v. v \<noteq> u \<and> has_stream s v sid)
             then [UserStatusUpdate u Available] else []))"
  by (rule login_user_outcome[OF assms])

definition sample_server :: server where
  "sample_server =
     \<lparr>users = [(''alice'', \<lparr>username = ''alice'', password = ''secret'', status = Offline,
                  server_client_stream = Some 0\<rparr>),
               (''bob'', \<lparr>username = ''bob'', password = ''pw'', status = Available,
                  server_client_stream = Some 1\<rparr>)],
      streams = (\<lambda>_. []), stream_state = (\<lambda>_. Open), next_stream = 2, users_file = [],
      poisoned = False\<rparr>"

lemma sample_server_wf: "server_wf sample_server" "\<not> poisoned sample_server"
  by (auto simp: sample_server_def server_wf_def table_wf_def split: if_splits)

theorem login_user_correct_witness:
  "\<exists>us s'. login_user (V4 127 0 0 1 8081 :: unit socket_addr) None sample_server ''alice'' ''secret'' =
      (LoginOk ''alice'' (V4 127 0 0 1 8081) us, Some ''alice'', s') \<and>
    status_of s' ''alice'' = Some Available \<and> map_of us ''bob'' = Some Available"
  using login_user_correct[OF sample_server_wf, where u = "''alice''" and p = "''secret''"
      and un = None and addr = "V4 127 0 0 1 8081 :: unit socket_addr"]
  by (auto simp: sample_server_def other_users_def)

section \<open>Calls\<close>

lemma has_stream_put_status:
  "user_of s w = Some d \<Longrightarrow> has_stream (put_user w (update_status d st) s) v sid = has_stream s v sid"
  by (auto simp: has_stream_def simp del: map_of_eq_Some_iff)

text \<open>Both parties of a call with their new states.\<close>

definition link :: "server \<Rightarrow> string \<Rightarrow> user_data \<Rightarrow> user_status \<Rightarrow> string \<Rightarrow> user_data \<Rightarrow> user_status \<Rightarrow> server" where
  "link s a da sa b db sb = put_user a (update_status da sa) (put_user b (update_status db sb) s)"

lemma link_frame [simp]:
  "streams (link s a da sa b db sb) = streams s"
  "stream_state (link s a da sa b db sb) = stream_state s"
  "users_file (link s a da sa b db sb) = users_file s"
  "poisoned (link s a da sa b db sb) = poisoned s"
  "next_stream (link s a da sa b db sb) = next_stream s"
  by (simp_all add: link_def)

lemma link_users:
  "user_of (link s a da sa b db sb) = (user_of s)(b \<mapsto> update_status db sb, a \<mapsto> update_status da sa)"
  by (simp add: link_def)

lemma has_stream_link:
  assumes "user_of s a = Some da" and "user_of s b = Some db"
  shows "has_stream (link s a da sa b db sb) v sid = has_stream s v sid"
  using assms by (auto simp: has_stream_def link_users simp del: map_of_eq_Some_iff)

lemma call_request_ok:
  assumes "server_wf s" and "\<not> poisoned s" and "user_of s a = Some da" and "user_of s b = Some db"
    and "status da = Available" and "status db = Available" and "server_client_stream db = Some sid"
  shows "(call_request s a b d :: 'v6 server_response \<times> server) = (CallRequestOk, send_message
    (notify_status_update (notify_status_update (link s a da (Occupied b) b db (Occupied a)) a (Occupied b))
       b (Occupied a)) sid (CallIncoming a d))"
proof -
  have "call_request_check s a b = (Inr (sid, da, db) :: 'v6 server_response + _)"
    using assms by (simp add: call_request_check_Inr)
  moreover have "username da = a" "username db = b"
    using server_wf_username[OF assms(1)] assms(3,4) by blast+
  ultimately show ?thesis
    using assms(2) by (simp add: call_request_def call_request_commit_def link_def Let_def)
qed

lemma link_wf:
  assumes "server_wf s" and "user_of s a = Some da" and "user_of s b = Some db"
    and "\<And>v. sa = Occupied v \<Longrightarrow> user_of s v \<noteq> None" and "\<And>v. sb = Occupied v \<Longrightarrow> user_of s v \<noteq> None"
  shows "server_wf (link s a da sa b db sb)"
  unfolding link_def by (rule pair_update_wf[OF assms])

lemma call_request_refused:
  assumes "\<nexists>da db sid. user_of s a = Some da \<and> user_of s b = Some db \<and>
      status da = Available \<and> status db = Available \<and> server_client_stream db = Some sid"
  shows "\<exists>r. (call_request s a b d :: 'v6 server_response \<times> server) = (r, s) \<and> r \<noteq> CallRequestOk"
proof -
  have chk: "call_request_check s a b \<noteq> (Inr c :: 'v6 server_response + _)" for c
    using assms by (cases c) (auto simp: call_request_check_Inr simp del: map_of_eq_Some_iff)
  then obtain r where "call_request_check s a b = (Inl r :: 'v6 server_response + _)"
    by (cases "call_request_check s a b :: 'v6 server_response + _") auto
  moreover from this have "r \<noteq> CallRequestOk"
    by (auto simp: call_request_check_def split: sum.splits if_splits)
  ultimately show ?thesis by (simp add: call_request_def)
qed

definition callable :: "server \<Rightarrow> string \<Rightarrow> string \<Rightarrow> bool" where
  "callable s a b =
     (status_of s a = Some Available \<and> status_of s b = Some Available \<and> (\<exists>sid. has_stream s b sid))"

lemma callableE:
  assumes "callable s a b"
  obtains da db sid where "user_of s a = Some da" "user_of s b = Some db"
    "status da = Available" "status db = Available" "server_client_stream db = Some sid"
  using assms by (auto simp: callable_def has_stream_def simp del: map_of_eq_Some_iff)

lemma not_callable:
  "\<not> callable s a b \<Longrightarrow> \<nexists>da db sid. user_of s a = Some da \<and> user_of s b = Some db \<and>
      status da = Available \<and> status db = Available \<and> server_client_stream db = Some sid"
  unfolding callable_def has_stream_def by auto

lemma has_stream_unique:
  "user_of s b = Some db \<Longrightarrow> server_client_stream db = Some sid \<Longrightarrow> has_stream s b sid' \<longleftrightarrow> sid' = sid"
  by (auto simp: has_stream_def simp del: map_of_eq_Some_iff)

lemma call_request_outcome:
  assumes "server_wf s" and "\<not> poisoned s"
  shows "case (call_request s a b d :: 'v6 server_response \<times> server) of (r, s') \<Rightarrow>
    if callable s a b then
      r = CallRequestOk \<and>
      status_of s' = (status_of s)(b \<mapsto> Occupied a, a \<mapsto> Occupied b) \<and>
      (\<forall>sid. has_stream s b sid \<and> stream_state s sid = Open \<longrightarrow>
         (\<exists>log. streams s' sid = streams s sid @ log @ [CallIncoming a d]))
    else r \<noteq> CallRequestOk \<and> s' = s"
proof (cases "callable s a b")
  case True
  then obtain da db sid where c: "user_of s a = Some da" "user_of s b = Some db"
    "status da = Available" "status db = Available" "server_client_stream db = Some sid"
    by (rule callableE)
  let ?l = "link s a da (Occupied b) b db (Occupied a)"
  have wf: "server_wf ?l" by (rule link_wf[OF assms(1) c(1,2)]) (use c in auto)
  have "status_of ?l = (status_of s)(b \<mapsto> Occupied a, a \<mapsto> Occupied b)"
    by (auto simp: fun_eq_iff link_users)
  moreover have "\<exists>log. streams (send_message (notify_status_update (notify_status_update ?l a (Occupied b))
      b (Occupied a)) sid (CallIncoming a d)) sid = streams s sid @ log @ [CallIncoming a d]"
    if "stream_state s sid = Open"
    using that assms(2) wf by (simp add: streams_send streams_notify notify_wf)
  moreover have "(call_request s a b d :: 'v6 server_response \<times> server) = (CallRequestOk, send_message
    (notify_status_update (notify_status_update ?l a (Occupied b)) b (Occupied a)) sid (CallIncoming a d))"
    by (rule call_request_ok[OF assms c])
  ultimately show ?thesis
    using True has_stream_unique[OF c(2,5)] by (simp del: map_of_eq_Some_iff)
next
  case False
  obtain r where "(call_request s a b d :: 'v6 server_response \<times> server) = (r, s)" "r \<noteq> CallRequestOk"
    using call_request_refused[OF not_callable[OF False]] by blast
  then show ?thesis using False by simp
qed

text \<open>
  C3. Requesting a call succeeds exactly when caller and callee are available and the callee has an
  event stream. Then both are occupied with each other, nobody else's state changes, and the
  last message on the callee's open stream is the incoming call with the caller's offer.
  Otherwise the server is unchanged.
\<close>

theorem call_request_correct:
  assumes "server_wf s" and "\<not> poisoned s"
  shows "case (call_request s a b d :: 'v6 server_response \<times> server) of (r, s') \<Rightarrow>
    if callable s a b then
      r = CallRequestOk \<and>
      status_of s' = (status_of s)(b \<mapsto> Occupied a, a \<mapsto> Occupied b) \<and>
      (\<forall>sid. has_stream s b sid \<and> stream_state s sid = Open \<longrightarrow>
         (\<exists>log. streams s' sid = streams s sid @ log @ [CallIncoming a d]))
    else r \<noteq> CallRequestOk \<and> s' = s"
  by (rule call_request_outcome[OF assms])

theorem call_request_correct_witness:
  "\<exists>s s'. (call_request s ''alice'' ''bob'' (sample_sdp ''H264'') :: unit server_response \<times> server) =
      (CallRequestOk, s') \<and> status_of s' ''alice'' = Some (Occupied ''bob'')"
proof -
  obtain r un s where l: "login_user (V4 127 0 0 1 8081 :: unit socket_addr) None sample_server
      ''alice'' ''secret'' = (r, un, s)" using prod_cases3 by blast
  have s: "server_wf s" using login_wf[OF sample_server_wf(1) l] .
  have c: "\<not> poisoned s" "callable s ''alice'' ''bob''"
    using l by (auto simp: sample_server_def login_user_def callable_def has_stream_def Let_def)
  obtain s' where e: "(call_request s ''alice'' ''bob'' (sample_sdp ''H264'') :: unit server_response \<times> server) =
      (CallRequestOk, s')"
    and st: "status_of s' = (status_of s)(''bob'' \<mapsto> Occupied ''alice'', ''alice'' \<mapsto> Occupied ''bob'')"
    using call_request_correct[OF s c(1), where ?'v6.0 = unit and a = "''alice''" and b = "''bob''"
        and d = "sample_sdp ''H264''"] c(2) by (auto split: prod.splits)
  have "status_of s' ''alice'' = Some (Occupied ''bob'')" using fun_cong[OF st, of "''alice''"] by simp
  with e show ?thesis by blast
qed

lemma in_call_parties:
  assumes "status_of s a = Some (Occupied b)" and "status_of s b = Some (Occupied a)"
    and "has_stream s a sid"
  obtains da db where "user_of s a = Some da" "user_of s b = Some db" "status da = Occupied b"
    "status db = Occupied a" "server_client_stream da = Some sid"
  using assms by (auto simp: has_stream_def simp del: map_of_eq_Some_iff)

text \<open>
  C12. The callee \<open>b\<close> answers: after a successful call request from \<open>a\<close> (two different users, the
  caller has an event stream), when both are occupied with each other, accepting delivers the
  answer to the caller's open stream and leaves the user table alone; rejecting tells the caller
  and gives every user the state they had before the request.
\<close>

theorem call_answer_correct:
  assumes "server_wf s" and "\<not> poisoned s" and "callable s a b" and "a \<noteq> b" and "has_stream s a sid"
    and "(call_request s a b d :: 'v6 server_response \<times> server) = (r, s')"
  shows "(\<exists>s2. (call_accept s' b a ans :: 'v6 server_response \<times> server) = (CallAcceptOk, s2) \<and>
      users s2 = users s' \<and>
      streams s2 sid = streams s' sid @ (if stream_state s sid = Open then [CallAccepted b ans] else [])) \<and>
    (\<exists>s3. (call_reject s' b a :: 'v6 server_response \<times> server) = (CallRejectOk, s3) \<and>
      status_of s3 = status_of s \<and>
      (stream_state s sid = Open \<longrightarrow> (\<exists>log. streams s3 sid = log @ [CallRejected])))"
proof -
  obtain da db sb where c: "user_of s a = Some da" "user_of s b = Some db"
    "status da = Available" "status db = Available" "server_client_stream db = Some sb"
    using assms(3) by (rule callableE)
  have sa: "server_client_stream da = Some sid"
    using assms(5) c(1) by (auto simp: has_stream_def simp del: map_of_eq_Some_iff)
  let ?l = "link s a da (Occupied b) b db (Occupied a)"
  have wf: "server_wf ?l" by (rule link_wf[OF assms(1) c(1,2)]) (use c in auto)
  have s': "users s' = users ?l" "poisoned s' = poisoned s" "stream_state s' = stream_state s"
    "next_stream s' = next_stream s"
    using assms(6) call_request_ok[OF assms(1,2) c, where d = d and ?'v6.0 = 'v6] by auto
  have wf': "server_wf s'" using wf s' by (auto intro: server_wf_frame)
  let ?da = "update_status da (Occupied b)" and ?db = "update_status db (Occupied a)"
  have u: "user_of s' a = Some ?da" "user_of s' b = Some ?db"
    using \<open>a \<noteq> b\<close> by (simp_all add: s' link_users)
  have g: "get_user_data s' a = Inr ?da" "get_user_data s' b = Inr ?db"
    "get_stream_from_user s' a = Inr sid"
    using u assms(2) s'(2) sa by (simp_all add: get_user_data_Some get_stream_Some)
  have acc: "(call_accept s' b a ans :: 'v6 server_response \<times> server) =
      (CallAcceptOk, send_message s' sid (CallAccepted b ans))"
    by (simp add: call_accept_def g)
  obtain r3 s3 where rej: "(call_reject s' b a :: 'v6 server_response \<times> server) = (r3, s3)" by force
  have n: "username ?da = a" "username ?db = b"
    using server_wf_username[OF wf'] u by blast+
  have s3: "s3 = send_message (put_user b (update_status ?db Available) (put_user a (update_status ?da Available)
      (notify_status_update (notify_status_update s' b Available) a Available))) sid CallRejected"
    "r3 = CallRejectOk"
    using rej assms(2) s'(2) n by (auto simp: call_reject_def g Let_def)
  have "status_of s3 v = status_of s v" for v
    using c \<open>a \<noteq> b\<close> by (simp add: s3 s'(1) link_users)
  moreover have "streams s3 sid = streams (notify_status_update (notify_status_update s' b Available) a Available) sid
      @ [CallRejected]" if "stream_state s sid = Open"
    using that by (simp add: s3 streams_send s'(3))
  ultimately show ?thesis
    using acc rej s3(2) by (auto simp: streams_send s'(3))
qed

theorem call_answer_correct_witness:
  "\<exists>s s' s3. (call_request s ''bob'' ''alice'' (sample_sdp ''H264'') :: unit server_response \<times> server) =
      (CallRequestOk, s') \<and>
    (call_reject s' ''alice'' ''bob'' :: unit server_response \<times> server) = (CallRejectOk, s3) \<and>
    status_of s3 = status_of s"
proof -
  obtain r un s where l: "login_user (V4 127 0 0 1 8081 :: unit socket_addr) None sample_server
      ''alice'' ''secret'' = (r, un, s)" using prod_cases3 by blast
  have s: "server_wf s" using login_wf[OF sample_server_wf(1) l] .
  have c: "\<not> poisoned s" "callable s ''bob'' ''alice''" "has_stream s ''bob'' 1"
    using l by (auto simp: sample_server_def login_user_def callable_def has_stream_def Let_def)
  obtain r' s' where q: "(call_request s ''bob'' ''alice'' (sample_sdp ''H264'') :: unit server_response \<times> server) =
      (r', s')" by force
  moreover have "r' = CallRequestOk"
    using q c(2) call_request_ok[OF s c(1), where ?'v6.0 = unit and d = "sample_sdp ''H264''"]
    by (elim callableE) auto
  moreover obtain s3 where "(call_reject s' ''alice'' ''bob'' :: unit server_response \<times> server) =
      (CallRejectOk, s3)" "status_of s3 = status_of s"
    using call_answer_correct[OF s c(1,2) _ c(3) q] by auto
  ultimately show ?thesis by blast
qed

section \<open>Restarting the server\<close>

definition credentials :: "server \<Rightarrow> string \<rightharpoonup> string" where
  "credentials s = (\<lambda>u. map_option password (user_of s u))"

lemma credentials_put:
  "user_of s u = Some d \<Longrightarrow> password d' = password d \<Longrightarrow> credentials (put_user u d' s) = credentials s"
  by (auto simp: credentials_def fun_eq_iff simp del: map_of_eq_Some_iff)

lemma credentials_frame:
  "users t = users s \<Longrightarrow> credentials t = credentials s"
  by (simp add: credentials_def)

lemma credentials_notify [simp]: "credentials (notify_status_update s u st) = credentials s"
  by (rule credentials_frame) simp

lemma credentials_send [simp]: "credentials (send_message s sid m) = credentials s"
  by (rule credentials_frame) simp

lemma credentials_link:
  assumes "user_of s a = Some da" and "user_of s b = Some db"
  shows "credentials (put_user a (update_status da sa) (put_user b (update_status db sb) s)) = credentials s"
  using assms by (auto simp: credentials_def fun_eq_iff simp del: map_of_eq_Some_iff)

definition keeps :: "server \<Rightarrow> server \<Rightarrow> bool" where
  "keeps s s' = (users_file s' = users_file s \<and> credentials s' = credentials s)"

lemma keeps_refl [simp]: "keeps s s"
  by (simp add: keeps_def)

lemma login_keeps: "login_user addr un s u p = (r, un', s') \<Longrightarrow> keeps s s'"
  by (auto simp: login_user_def keeps_def Let_def credentials_put simp del: map_of_eq_Some_iff
      split: if_splits option.splits user_status.splits)

lemma logout_keeps: "logout_user un s u = (r, un', s') \<Longrightarrow> keeps s s'"
  by (auto simp: logout_user_def keeps_def Let_def credentials_put simp del: map_of_eq_Some_iff
      intro!: credentials_frame[THEN trans, OF _ credentials_put] split: if_splits option.splits)

lemma call_request_keeps:
  assumes "server_wf s" and "call_request s a b d = ((r :: 'v6 server_response), s')"
  shows "keeps s s'"
proof (cases "s' = s")
  case False
  then obtain sid da db where c: "call_request_check s a b = (Inr (sid, da, db) :: 'v6 server_response + _)"
    using assms(2) by (auto simp: call_request_def split: sum.splits)
  then have c': "user_of s a = Some da" "user_of s b = Some db" "\<not> poisoned s"
    by (simp_all add: call_request_check_Inr)
  have "username da = a" "username db = b" using server_wf_username[OF assms(1)] c' by blast+
  then show ?thesis
    using assms(2) c c' credentials_link[OF c'(1,2)]
    by (auto simp: call_request_def call_request_commit_def Let_def keeps_def)
qed simp

lemma call_accept_keeps: "call_accept s a b d = (r, s') \<Longrightarrow> keeps s s'"
  by (auto simp: call_accept_def keeps_def split: sum.splits if_splits)

lemma call_reject_keeps:
  assumes "server_wf s" and "call_reject s a b = ((r :: 'v6 server_response), s')"
  shows "keeps s s'"
proof -
  have "users_file s' = users_file s"
    using assms(2) by (auto simp: call_reject_def Let_def split: sum.splits if_splits)
  moreover have "credentials s' = credentials s"
    using call_reject_effect[OF assms(2)]
  proof (elim disjE exE conjE)
    fix da db
    assume c: "user_of s a = Some da" "user_of s b = Some db"
      and u: "users s' = users (put_user (username da) (update_status da Available)
        (put_user (username db) (update_status db Available) s))"
    have "username da = a" "username db = b" using server_wf_username[OF assms(1)] c by blast+
    then show ?thesis using credentials_frame[OF u] credentials_link[OF c] by simp
  qed (auto intro: credentials_frame)
  ultimately show ?thesis by (simp add: keeps_def)
qed

lemma call_hangup_keeps: "call_hangup s u = (r, s') \<Longrightarrow> keeps s s'"
  by (auto simp: call_hangup_def keeps_def credentials_put simp del: map_of_eq_Some_iff
      split: if_splits option.splits user_status.splits)

lemma make_user_offline_keeps: "make_user_offline un s = (r, un', s') \<Longrightarrow> keeps s s'"
  by (auto simp: make_user_offline_def keeps_def credentials_put simp del: map_of_eq_Some_iff
      split: if_splits option.splits)

lemma map_stream_keeps: "keeps s (map_stream_to_user s w data)"
proof -
  have "credentials t = credentials s"
    if "users t = AList.update u (update_server_client_stream d n) (users s)" "user_of s u = Some d" for t u d n
    using credentials_frame[of t "put_user u (update_server_client_stream d n) s"] that
      credentials_put[of s u d "update_server_client_stream d n"]
    by (simp add: update_server_client_stream_def del: map_of_eq_Some_iff)
  then show ?thesis
    unfolding map_stream_to_user_def Let_def keeps_def
    by (auto intro: credentials_frame simp del: map_of_eq_Some_iff
        split: option.splits client_response.splits)
qed

subsection \<open>The users file\<close>

definition terminated :: "string \<Rightarrow> bool" where
  "terminated content = (content = [] \<or> last content = newline)"

lemma split_on_append_gen:
  "split_on d (a @ b) =
     butlast (split_on d a) @ (last (split_on d a) @ hd (split_on d b)) # tl (split_on d b)"
proof (induction a)
  case Nil
  then show ?case by (cases "split_on d b") auto
next
  case (Cons c a)
  obtain t ts where t: "split_on d a = t # ts" by (cases "split_on d a") auto
  with Cons show ?case by (cases ts) auto
qed

lemma terminated_last: "terminated content \<Longrightarrow> last (split_on newline content) = []"
proof (cases content rule: rev_cases)
  case (snoc c x)
  assume "terminated content"
  then show ?thesis using snoc by (simp add: terminated_def split_on_append_gen)
qed simp

lemma file_lines_append:
  assumes "terminated content" and "newline \<notin> set line"
  shows "file_lines (content @ line @ [newline]) =
    file_lines content @ [if utf8_valid (strip_cr line) then Some (strip_cr line) else None]"
proof -
  have "split_on newline (line @ [newline]) = [line, []]"
    using assms(2) split_on_append[of newline line "[]"] by simp
  then have "split_on newline (content @ line @ [newline]) =
      butlast (split_on newline content) @ [line, []]"
    using terminated_last[OF assms(1)] by (subst split_on_append_gen) simp
  then show ?thesis
    using terminated_last[OF assms(1)] by (simp add: file_lines_def Let_def butlast_append)
qed

lemma load_lines_append: "load_lines (ls @ ls') us = load_lines ls' (load_lines ls us)"
  by (induction ls us rule: load_lines.induct) (auto split: option.splits)

text \<open>
  Names and passwords that a line of the users file can hold: no line feed, no colon in the
  name, no carriage return at the end.
\<close>

definition storable :: "string \<Rightarrow> string \<Rightarrow> bool" where
  "storable u p =
     (CHR '':'' \<notin> set u \<and> newline \<notin> set u \<and> newline \<notin> set p \<and> (p = [] \<or> last p \<noteq> CHR 0x0D) \<and>
      utf8_valid u \<and> utf8_valid p)"

definition persisted :: "server \<Rightarrow> bool" where
  "persisted s =
     (terminated (users_file s) \<and>
      credentials s = (\<lambda>u. map_option password (map_of (load_lines (file_lines (users_file s)) []) u)))"

lemma persisted_keeps: "persisted s \<Longrightarrow> keeps s s' \<Longrightarrow> persisted s'"
  by (simp add: persisted_def keeps_def)

lemma signup_persists:
  assumes "persisted s" and "storable u p" and "signup_user DiskOk s u p = (r, s')"
  shows "persisted s'"
proof (cases "s' = s")
  case False
  then have s': "users s' = AList.update u (user_data_new u p Offline) (users s)"
    "users_file s' = users_file s @ (u @ '':'' @ p) @ [newline]"
    using assms(3)
    by (auto simp: signup_user_def load_user_data_in_disk_def Let_def split: sum.splits if_splits)
  have strip: "strip_cr (u @ '':'' @ p) = u @ '':'' @ p"
    using assms(2) by (auto simp: strip_cr_def storable_def)
  have "utf8_valid (u @ '':'' @ p)"
    using assms(2) by (auto simp: storable_def intro!: utf8_valid_append simp del: append.simps)
  moreover have "newline \<notin> set (u @ '':'' @ p)" using assms(2) by (simp add: storable_def)
  ultimately have "file_lines (users_file s') = file_lines (users_file s) @ [Some (u @ '':'' @ p)]"
    using assms(1) file_lines_append[of "users_file s" "u @ '':'' @ p"] s'(2) strip
    by (simp add: persisted_def)
  moreover have "split_once (CHR '':'') (u @ CHR '':'' # p) = Some (u, p)"
    using assms(2) by (simp add: storable_def)
  ultimately have "load_lines (file_lines (users_file s')) [] =
      AList.update u (user_data_new u p Offline) (load_lines (file_lines (users_file s)) [])"
    by (simp add: load_lines_append)
  then show ?thesis
    using assms(1) s' by (auto simp: persisted_def credentials_def terminated_def fun_eq_iff)
qed (use assms in simp)

fun storable_op :: "server_op \<Rightarrow> bool" where
  "storable_op (Message c dsk (SignUp u p)) = (dsk = DiskOk \<and> storable u p)"
| "storable_op _ = True"

lemma handle_client_message_keeps:
  assumes "server_wf s" and "handle_client_message addr dsk un s m = (r, un', s')"
    and "\<And>u p. m \<noteq> SignUp u p"
  shows "keeps s s'"
  using assms
  by (cases m)
    (auto dest: login_keeps logout_keeps call_request_keeps call_accept_keeps call_reject_keeps
      call_hangup_keeps split: prod.splits)

lemma step_persists:
  assumes "server_wf s" and "persisted s" and "storable_op op"
  shows "persisted (fst (server_step addr (s, conns) op))"
proof (cases op)
  case (Message c dsk m)
  show ?thesis
  proof (cases "\<exists>u p. m = SignUp u p")
    case True
    then show ?thesis
      using assms Message by (auto split: prod.splits intro: signup_persists)
  next
    case False
    then show ?thesis
      using Message handle_client_message_keeps[OF assms(1), of addr dsk "conns c" m]
        persisted_keeps[OF assms(2)] by (auto split: prod.splits)
  qed
next
  case (Disconnect c)
  then show ?thesis using make_user_offline_keeps persisted_keeps[OF assms(2)]
    by (auto split: prod.splits)
next
  case (OpenChannel w data)
  then show ?thesis using map_stream_keeps persisted_keeps[OF assms(2)] by simp
qed

lemma run_persists:
  assumes "server_wf (fst sc)" and "persisted (fst sc)" and "list_all storable_op ops"
  shows "persisted (fst (foldl (server_step addr) sc ops))"
  using assms
proof (induction ops arbitrary: sc)
  case (Cons op ops)
  obtain s conns where sc: "sc = (s, conns)" by force
  have "persisted (fst (server_step addr sc op))"
    using step_persists[of s op addr conns] Cons.prems by (simp add: sc)
  moreover have "server_wf (fst (server_step addr sc op))"
    using srv.run_inv[of sc addr "[op]"] Cons.prems by simp
  ultimately show ?case using Cons by simp
qed simp

text \<open>
  C6. Registered users survive a restart: after any run from a file whose last line is terminated,
  in which every registration is for a name and password that a line of the users file can hold
  (\<open>storable\<close>), and the file could be written, a server started from the file knows exactly the
  same users with the same passwords, all of them offline.
\<close>

theorem users_survive_restart:
  assumes "central_server_new opened created = Inr s"
    and "terminated (users_file s)" and "list_all storable_op ops"
    and "s' = fst (foldl (server_step addr) (s, \<lambda>_. None) ops)"
  shows "\<exists>t. central_server_new (Some (users_file s')) created' = Inr t \<and>
    credentials t = credentials s' \<and> status_of t = (\<lambda>u. map_option (\<lambda>_. Offline) (user_of s' u))"
proof -
  have "persisted s"
    using assms(1,2)
    by (auto simp: central_server_new_def load_users_from_mem_def persisted_def credentials_def
        file_lines_def split: option.splits sum.splits)
  then have p: "persisted s'"
    unfolding assms(4) using run_persists[of "(s, \<lambda>_. None)"] central_server_new_wf[OF assms(1)] assms(3)
    by simp
  obtain t where t: "central_server_new (Some (users_file s')) created' = Inr t"
    "users t = load_lines (file_lines (users_file s')) []"
    by (simp add: central_server_new_def load_users_from_mem_def)
  have cred: "credentials t = credentials s'" using p t(2) by (simp add: persisted_def credentials_def)
  have off: "status d = Offline" if "user_of t u = Some d" for u d
    using load_lines_wf[of "[]" "file_lines (users_file s')"] that t(2) by simp
  have "status_of t u = map_option (\<lambda>_. Offline) (user_of s' u)" for u
    using fun_cong[OF cred, of u] off[of u]
    by (cases "user_of t u"; cases "user_of s' u") (auto simp: credentials_def simp del: map_of_eq_Some_iff)
  then show ?thesis using t(1) cred by blast
qed

theorem users_survive_restart_witness:
  "\<exists>s s' t. central_server_new None (Inr ()) = Inr s \<and>
    s' = fst (foldl (server_step (V4 127 0 0 1 8081 :: unit socket_addr)) (s, \<lambda>_. None)
      [Message 0 DiskOk (SignUp ''alice'' ''secret'')]) \<and>
    central_server_new (Some (users_file s')) (Inr ()) = Inr t \<and>
    credentials t ''alice'' = Some ''secret''"
proof -
  obtain s where s: "central_server_new None (Inr ()) = Inr s" "users_file s = []" "users s = []"
    "\<not> poisoned s"
    by (simp add: central_server_new_def load_users_from_mem_def)
  let ?ops = "[Message 0 DiskOk (SignUp ''alice'' ''secret'')]"
  let ?s' = "fst (foldl (server_step (V4 127 0 0 1 8081 :: unit socket_addr)) (s, \<lambda>_. None) ?ops)"
  have tok: "token ''alice''" "token ''secret''" by code_simp+
  have "utf8_valid ''alice''" "utf8_valid ''secret''" by (rule utf8_valid_ascii, simp)+
  then have st: "storable ''alice'' ''secret''" by (simp add: storable_def)
  obtain t where t: "central_server_new (Some (users_file ?s')) (Inr ()) = Inr t"
    "credentials t = credentials ?s'"
    using users_survive_restart[OF s(1) _ _ refl, of ?ops "V4 127 0 0 1 8081 :: unit socket_addr" "Inr ()"]
      st s(2) by (auto simp: terminated_def)
  have "credentials ?s' ''alice'' = Some ''secret''"
    using s(3,4) tok
    by (simp add: signup_user_def validate_string_def load_user_data_in_disk_def credentials_def
        del: token_Cons)
  then have "credentials t ''alice'' = Some ''secret''" using t(2) by simp
  then show ?thesis using s(1) t(1) by blast
qed

section \<open>Connections\<close>

text \<open>An iteration that does not end the connection.\<close>

fun goes_on :: "conn_event \<Rightarrow> bool" where
  "goes_on (Received data dsk write_ok) = write_ok"
| "goes_on _ = False"

definition conn_ok :: "string option \<Rightarrow> server \<Rightarrow> bool" where
  "conn_ok un s = (\<not> poisoned s \<and> server_wf s \<and> (\<forall>u. un = Some u \<longrightarrow> user_of s u \<noteq> None))"

lemma credentials_None: "credentials s u = None \<longleftrightarrow> user_of s u = None"
  by (simp add: credentials_def)

lemma signup_users:
  "signup_user dsk s u p = (r, s') \<Longrightarrow> user_of s v \<noteq> None \<Longrightarrow> user_of s' v \<noteq> None"
  by (auto simp: signup_user_def load_user_data_in_disk_def Let_def
      split: sum.splits if_splits disk.splits)

lemma message_poisoned:
  "handle_client_message addr dsk un s m = (r, un', s') \<Longrightarrow> poisoned s' = poisoned s"
  by (cases m)
    (auto simp: login_user_def signup_user_def logout_user_def call_request_def
      call_request_commit_def call_accept_def call_reject_def call_hangup_def load_user_data_in_disk_def
      Let_def split: prod.splits sum.splits if_splits option.splits user_status.splits disk.splits)

lemma message_username:
  assumes "handle_client_message addr dsk un s m = (r, un', s')"
  shows "un' = un \<or> un' = None \<or> (\<exists>u. un' = Some u \<and> user_of s u \<noteq> None)"
  using assms
  by (cases m) (auto simp: login_user_def logout_user_def Let_def simp del: map_of_eq_Some_iff
      split: prod.splits if_splits option.splits user_status.splits)

lemma message_conn_ok:
  assumes "conn_ok un s" and "handle_client_message addr dsk un s m = (r, un', s')"
  shows "conn_ok un' s'"
proof -
  have wf: "server_wf s" using assms(1) by (simp add: conn_ok_def)
  have grow: "user_of s' v \<noteq> None" if "user_of s v \<noteq> None" for v
  proof (cases "\<exists>u p. m = SignUp u p")
    case True
    then show ?thesis using assms(2) that by (auto split: prod.splits dest!: signup_users)
  next
    case False
    then have "keeps s s'" using handle_client_message_keeps[OF wf assms(2)] by blast
    then show ?thesis using that by (metis credentials_None keeps_def)
  qed
  show ?thesis
    using assms(1) grow message_username[OF assms(2)] message_poisoned[OF assms(2)]
      handle_client_message_wf[OF wf assms(2)]
    unfolding conn_ok_def by blast
qed

lemma handle_client_goes_on:
  "list_all goes_on es \<Longrightarrow> conn_ok un s \<Longrightarrow>
   \<exists>un1 s1. (\<forall>es'. handle_client addr un s (es @ es') = handle_client addr un1 s1 es') \<and> conn_ok un1 s1"
proof (induction es arbitrary: un s)
  case (Cons e es)
  obtain data dsk where e: "e = Received data dsk True" using Cons.prems by (cases e) auto
  obtain r un' s' where m: "(case client_message_from_bytes (take 1024 data) of
      Some event \<Rightarrow> handle_client_message addr dsk un s event | None \<Rightarrow> (BadMessage, un, s)) = (r, un', s')"
    using prod_cases3 by blast
  have "conn_ok un' s'"
    using m Cons.prems message_conn_ok by (auto split: option.splits)
  then obtain un1 s1 where "\<forall>es'. handle_client addr un' s' (es @ es') = handle_client addr un1 s1 es'"
    "conn_ok un1 s1"
    using Cons by fastforce
  then show ?case using m by (auto simp: e)
qed auto

text \<open>
  C13. The four ways in which the connection loop ends, after any number of rounds whose responses
  could be written (messages that cannot be parsed do not end it). When the client closes the
  connection or the read fails, the connection carries no user any more and the user who was
  logged in on it is offline. When the server is switched off, the loop ends with that error and the
  user keeps the state; when a response cannot be written, it ends with a connection error in
  the state the message's handler left, as if the loop had gone on: in these two cases nobody
  is taken offline.
\<close>

theorem connection_end_offline:
  assumes "list_all goes_on es" and "conn_ok un s"
  shows "\<exists>un1 s1 s2. handle_client addr un s es = (None, un1, s1) \<and>
    handle_client addr un s (es @ [Eof]) = (Some (Inr ()), None, s2) \<and>
    handle_client addr un s (es @ [ReadError]) = (Some (Inl ConnectionError), None, s2) \<and>
    (case un1 of
       None \<Rightarrow> s2 = s1
     | Some u \<Rightarrow> status_of s2 = (status_of s1)(u \<mapsto> Offline)) \<and>
    handle_client addr un s (es @ [SwitchedOff]) = (Some (Inl ServerOff), un1, s1) \<and>
    (\<forall>data dsk. \<exists>un2 s3. handle_client addr un s (es @ [Received data dsk True]) = (None, un2, s3) \<and>
       handle_client addr un s (es @ [Received data dsk False]) = (Some (Inl ConnectionError), un2, s3))"
proof -
  obtain un1 s1 where h: "\<And>es'. handle_client addr un s (es @ es') = handle_client addr un1 s1 es'"
    and ok: "conn_ok un1 s1"
    using handle_client_goes_on[OF assms] by blast
  have unwritten: "\<exists>un2 s3. handle_client addr un s (es @ [Received data dsk True]) = (None, un2, s3) \<and>
      handle_client addr un s (es @ [Received data dsk False]) = (Some (Inl ConnectionError), un2, s3)" for data dsk
    unfolding h by (simp split: prod.splits option.splits)
  show ?thesis
  proof (cases un1)
    case None
    then show ?thesis using h[of "[]"] h[of "[Eof]"] h[of "[ReadError]"] h[of "[SwitchedOff]"] unwritten
      by (simp add: make_user_offline_def)
  next
    case (Some u)
    then obtain d where d: "user_of s1 u = Some d" "\<not> poisoned s1" using ok by (auto simp: conn_ok_def)
    let ?s2 = "notify_status_update (put_user u (update_status d Offline) s1) u Offline"
    have off: "make_user_offline un1 s1 = (Inr (), None, ?s2)"
      using Some d by (simp add: make_user_offline_def)
    have "status_of ?s2 = (status_of s1)(u \<mapsto> Offline)" by (auto simp: fun_eq_iff)
    then show ?thesis
      using h[of "[]"] h[of "[Eof]"] h[of "[ReadError]"] h[of "[SwitchedOff]"] off Some unwritten by simp
  qed
qed

definition login_bytes :: bytes where
  "login_bytes = client_message_to_bytes sample_order (LogIn ''alice'' ''secret'')"

lemma login_bytes_decode: "client_message_from_bytes (take 1024 login_bytes) = Some (LogIn ''alice'' ''secret'')"
proof -
  have "token ''alice''" "token ''secret''" by code_simp+
  then have "client_message_ok sample_order (LogIn ''alice'' ''secret'')"
    by (simp add: last_field_token last_field_field del: token_Cons)
  then have "client_message_from_bytes login_bytes = Some (LogIn ''alice'' ''secret'')"
    using client_message_decode[OF _ sample_order_enumerates] by (simp add: login_bytes_def)
  moreover have "length login_bytes \<le> 1024"
    by (simp add: login_bytes_def client_message_to_bytes_def)
  ultimately show ?thesis by simp
qed

theorem connection_end_offline_witness:
  "\<exists>un1 s1 s2. handle_client (V4 127 0 0 1 8081 :: unit socket_addr) None sample_server
      [Received [255] DiskOk True, Received login_bytes DiskOk True] = (None, un1, s1) \<and>
    un1 = Some ''alice'' \<and> status_of s1 ''alice'' = Some Available \<and>
    handle_client (V4 127 0 0 1 8081 :: unit socket_addr) None sample_server
      [Received [255] DiskOk True, Received login_bytes DiskOk True, Eof] = (Some (Inr ()), None, s2) \<and>
    status_of s2 ''alice'' = Some Offline"
proof -
  let ?es = "[Received [255] DiskOk True, Received login_bytes DiskOk True]"
  let ?addr = "V4 127 0 0 1 8081 :: unit socket_addr"
  have "\<not> utf8_valid (chars_of_bytes [255])" by code_simp
  then have bad: "client_message_from_bytes [255] = None"
    by (simp add: client_message_from_bytes_def message_parts_def from_utf8_def)
  obtain s1 where s1: "handle_client ?addr None sample_server ?es = (None, Some ''alice'', s1)"
    "status_of s1 ''alice'' = Some Available"
    by (simp add: bad login_bytes_decode login_user_def sample_server_def Let_def)
  have "conn_ok None sample_server" using sample_server_wf by (simp add: conn_ok_def)
  then obtain s2 where "handle_client ?addr None sample_server (?es @ [Eof]) = (Some (Inr ()), None, s2)"
    "status_of s2 = (status_of s1)(''alice'' \<mapsto> Offline)"
    using connection_end_offline[of ?es None sample_server ?addr] s1(1) by auto
  then show ?thesis using s1 fun_cong[of "status_of s2" _ "''alice''"] by auto
qed

section \<open>Where the code falls short\<close>

text \<open>
  A response that cannot be written ends the connection without taking the user offline: the
  user stays available and every later login is refused.
\<close>

theorem failed_write_keeps_user_online:
  "case handle_client (V4 127 0 0 1 8081 :: unit socket_addr) None sample_server
       [Received login_bytes DiskOk False] of
     (res, un, s) \<Rightarrow>
       res = Some (Inl ConnectionError) \<and> status_of s ''alice'' = Some Available \<and>
       login_user (V4 127 0 0 1 8081 :: unit socket_addr) None s ''alice'' ''secret'' =
         (LoginError ''User already logged in'', None, s)"
  by (simp add: login_bytes_decode login_user_def sample_server_def Let_def)

text \<open>
  Logging in a second time on the same connection replaces the name the connection carries, so
  the end of the connection takes only the second user offline.
\<close>

theorem second_login_orphans_first:
  assumes "server_wf s" and "\<not> poisoned s" and "a \<noteq> b"
    and "user_of s a = Some da" and "status da = Offline"
    and "user_of s b = Some db" and "status db = Offline"
  shows "\<exists>r1 r2 s1 s2 s3.
    login_user (addr :: 'v6 socket_addr) None s a (password da) = (r1, Some a, s1) \<and>
    login_user addr (Some a) s1 b (password db) = (r2, Some b, s2) \<and>
    make_user_offline (Some b) s2 = (Inr (), None, s3) \<and>
    status_of s3 a = Some Available \<and> status_of s3 b = Some Offline"
proof -
  obtain us1 s1 where l1: "login_user addr None s a (password da) = (LoginOk a addr us1, Some a, s1)"
    "user_of s1 = (user_of s)(a \<mapsto> da\<lparr>status := Available\<rparr>)"
    and wf1: "server_wf s1" "\<not> poisoned s1"
  proof -
    obtain us1 s1 where "login_user addr None s a (password da) = (LoginOk a addr us1, Some a, s1)"
      "user_of s1 = (user_of s)(a \<mapsto> da\<lparr>status := Available\<rparr>)" "poisoned s1 = poisoned s"
      using assms by (simp add: login_user_def update_status_def Let_def del: map_of_eq_Some_iff)
    then show ?thesis using that login_wf[OF assms(1)] assms(2) by blast
  qed
  obtain us2 s2 where l2: "login_user addr (Some a) s1 b (password db) = (LoginOk b addr us2, Some b, s2)"
    "user_of s2 = (user_of s1)(b \<mapsto> db\<lparr>status := Available\<rparr>)" "\<not> poisoned s2"
    using assms wf1 l1(2) by (simp add: login_user_def update_status_def Let_def del: map_of_eq_Some_iff)
  then show ?thesis
    using l1 assms(3) by (simp add: make_user_offline_def)
qed

text \<open>
  The name is checked after trimming but stored as it came: a name with a trailing line feed is
  accepted, and the users file then holds two lines from which a restart makes a user with
  an empty name.
\<close>

theorem newline_name_lost_on_restart:
  assumes "users s = []" and "users_file s = []" and "\<not> poisoned s"
  shows "\<exists>s'. (signup_user DiskOk s (''alice'' @ [newline]) ''pw'' :: 'v6 server_response \<times> server) =
      (SignupOk, s') \<and> credentials s' = [''alice'' @ [newline] \<mapsto> ''pw''] \<and>
    (\<exists>t. central_server_new (Some (users_file s')) created = Inr t \<and> credentials t = [[] \<mapsto> ''pw''])"
proof -
  have t: "trim (''alice'' @ [newline]) = ''alice''" "trim ''pw'' = ''pw''" by code_simp+
  have ls: "load_lines (file_lines (''alice'' @ newline # '':pw'' @ [newline])) [] =
      [([], user_data_new [] ''pw'' Offline)]" by code_simp
  have v: "validate_string (''alice'' @ [newline]) = Inr ()" "validate_string ''pw'' = Inr ()"
    unfolding validate_string_def t by simp_all
  obtain s' where s': "(signup_user DiskOk s (''alice'' @ [newline]) ''pw'' :: 'v6 server_response \<times> server) =
      (SignupOk, s')" "users s' = [(''alice'' @ [newline], user_data_new (''alice'' @ [newline]) ''pw'' Offline)]"
    "users_file s' = ''alice'' @ newline # '':pw'' @ [newline]"
    using assms by (simp add: signup_user_def v[simplified] load_user_data_in_disk_def)
  have "\<exists>t. central_server_new (Some (users_file s')) created = Inr t \<and> credentials t = [[] \<mapsto> ''pw'']"
    unfolding central_server_new_def load_users_from_mem_def s'(3)
    using ls by (simp add: credentials_def fun_eq_iff)
  moreover have "credentials s' = [''alice'' @ [newline] \<mapsto> ''pw'']"
    using s'(2) by (auto simp: credentials_def fun_eq_iff)
  ultimately show ?thesis using s'(1) by blast
qed

text \<open>
  A name with a comma passes the check of the registration, but a login response that lists
  the user cannot be decoded by any client.
\<close>

theorem comma_name_breaks_logins:
  "validate_string ''a,b'' = Inr () \<and>
   server_response_from_bytes sample_v6 (server_response_to_bytes sample_v6
      (LoginOk ''bob'' (V4 127 0 0 1 81) [(''a,b'', Offline)])) = None"
proof -
  have t: "trim ''a,b'' = ''a,b''" by code_simp
  have p: "parse_users_status (show_users_status [(''a,b'', Offline)]) = None" by code_simp
  let ?m = "(''LOGINOK'', [''bob'', show_socket_addr sample_v6 (V4 127 0 0 1 81), show_users_status [(''a,b'', Offline)]])"
  have "last_field (show_users_status [(''a,b'', Offline)])"
    unfolding last_field_def field_def by code_simp
  moreover have "token ''bob''" by code_simp
  ultimately have "fields_ok ?m"
    using socket_addr_field[OF sample_v6_ok, of "V4 127 0 0 1 81"]
    by (simp add: literal_simps last_field_token)
  then have "message_parts (server_response_to_bytes sample_v6
      (LoginOk ''bob'' (V4 127 0 0 1 81) [(''a,b'', Offline)])) = Some (fst ?m # snd ?m)"
    using message_parts_fields[of ?m] by (simp add: server_response_to_bytes_def fields_bytes_def)
  then have "server_response_from_bytes sample_v6 (server_response_to_bytes sample_v6
      (LoginOk ''bob'' (V4 127 0 0 1 81) [(''a,b'', Offline)])) = None"
    by (simp add: server_response_from_bytes_def p Let_def split: option.splits)
  then show ?thesis by (simp add: validate_string_def t)
qed

end
