(* ===== verification/Server_Concurrency.thy ===== *)
theory Server_Concurrency
  imports Server
begin

text \<open>
  Interleavings the server's locks allow: a call request checks the users under read locks and
  updates them under a later write lock (\<^verbatim>\<open>operating_server.rs\<close>), and the handshake loads the
  number of connected users before it adds to it (\<^verbatim>\<open>user_handler.rs\<close>, \<^verbatim>\<open>central_server.rs\<close>).
\<close>

section \<open>Two call requests at once\<close>

text \<open>
  Two callers who request the same callee at the same time, each checked before either
  update: both requests are confirmed, the callee ends occupied with the second caller, and the
  first caller stays occupied with a callee whose acceptance the server then refuses.
\<close>

theorem concurrent_call_requests:
  assumes "server_wf s" and "\<not> poisoned s" and "callable s a c" and "callable s b c"
    and "distinct [a, b, c]"
  shows "\<exists>ca cb s1 s2.
    call_request_check s a c = (Inr ca :: 'v6 server_response + _) \<and>
    call_request_check s b c = (Inr cb :: 'v6 server_response + _) \<and>
    (call_request_commit s a c d ca :: 'v6 server_response \<times> server) = (CallRequestOk, s1) \<and>
    (call_request_commit s1 b c d' cb :: 'v6 server_response \<times> server) = (CallRequestOk, s2) \<and>
    status_of s2 a = Some (Occupied c) \<and> status_of s2 b = Some (Occupied c) \<and>
    status_of s2 c = Some (Occupied b) \<and>
    fst (call_accept s2 c a ans :: 'v6 server_response \<times> server) \<noteq> CallAcceptOk"
proof -
  obtain da dc sid where ac: "user_of s a = Some da" "user_of s c = Some dc" "status da = Available"
    "status dc = Available" "server_client_stream dc = Some sid"
    using assms(3) by (rule callableE)
  obtain db where b: "user_of s b = Some db" "status db = Available"
    using assms(4) ac(2) by (auto elim!: callableE)
  have chk: "call_request_check s a c = (Inr (sid, da, dc) :: 'v6 server_response + _)"
    "call_request_check s b c = (Inr (sid, db, dc) :: 'v6 server_response + _)"
    using ac b assms(2) by (simp_all add: call_request_check_Inr del: map_of_eq_Some_iff)
  have n: "username da = a" "username db = b" "username dc = c"
    using server_wf_username[OF assms(1)] ac b by blast+
  define s1 where "s1 = snd (call_request_commit s a c d (sid, da, dc) :: 'v6 server_response \<times> server)"
  define s2 where "s2 = snd (call_request_commit s1 b c d' (sid, db, dc) :: 'v6 server_response \<times> server)"
  have c1: "(call_request_commit s a c d (sid, da, dc) :: 'v6 server_response \<times> server) = (CallRequestOk, s1)"
    "users s1 = AList.update a (update_status da (Occupied c)) (AList.update c (update_status dc (Occupied a)) (users s))"
    "poisoned s1 = poisoned s"
    using assms(2) n by (simp_all add: s1_def call_request_commit_def Let_def)
  have c2: "(call_request_commit s1 b c d' (sid, db, dc) :: 'v6 server_response \<times> server) = (CallRequestOk, s2)"
    "users s2 = AList.update b (update_status db (Occupied c)) (AList.update c (update_status dc (Occupied b)) (users s1))"
    using assms(2) c1(3) n by (simp_all add: s2_def call_request_commit_def Let_def)
  have st: "status_of s2 a = Some (Occupied c)" "status_of s2 b = Some (Occupied c)"
    "status_of s2 c = Some (Occupied b)"
    using assms(5) by (auto simp: c1 c2)
  have "fst (call_accept s2 c a ans :: 'v6 server_response \<times> server) \<noteq> CallAcceptOk"
    using st(3) assms(5)
    by (auto simp: call_accept_def get_user_data_Inr simp del: map_of_eq_Some_iff split: sum.splits)
  then show ?thesis using chk c1(1) c2(1) st by blast
qed

definition busy_server :: server where
  "busy_server =
     \<lparr>users = map (\<lambda>(u, sid). (u, \<lparr>username = u, password = ''pw'', status = Available,
                  server_client_stream = Some sid\<rparr>)) [(''alice'', 0), (''bob'', 1), (''carol'', 2)],
      streams = (\<lambda>_. []), stream_state = (\<lambda>_. Open), next_stream = 3, users_file = [],
      poisoned = False\<rparr>"

lemma busy_server_wf:
  "server_wf busy_server" "\<not> poisoned busy_server" "callable busy_server ''alice'' ''carol''"
  "callable busy_server ''bob'' ''carol''"
  by (auto simp: busy_server_def server_wf_def table_wf_def callable_def has_stream_def split: if_splits)

theorem concurrent_call_requests_witness:
  "\<exists>ca cb s1 s2.
    (call_request_commit busy_server ''alice'' ''carol'' (sample_sdp ''H264'') ca :: unit server_response \<times> server) =
      (CallRequestOk, s1) \<and>
    (call_request_commit s1 ''bob'' ''carol'' (sample_sdp ''H264'') cb :: unit server_response \<times> server) =
      (CallRequestOk, s2) \<and> status_of s2 ''carol'' = Some (Occupied ''bob'')"
proof -
  have "distinct [''alice'', ''bob'', ''carol'']" by simp
  from concurrent_call_requests[OF busy_server_wf this, where ?'v6.0 = unit
      and d = "sample_sdp ''H264''" and d' = "sample_sdp ''H264''" and ans = "sample_sdp ''H264''"]
  show ?thesis by blast
qed

section \<open>The number of connected users\<close>

text \<open>
  \<open>client_server_handshake\<close> acts on the shared counter in two places: the load, with what was
  read and the comparison that chooses the response, and the answer, with the increment after a
  welcome that could be written. Between the two, other connections may act on the counter.
\<close>

definition handshake_check :: "nat \<Rightarrow> nat \<Rightarrow> bytes option \<Rightarrow> server_error + unit server_response" where
  "handshake_check max_users users_connected data =
     (case data of
        None \<Rightarrow> Inl ConnectionError
      | Some bs \<Rightarrow>
          (case client_message_from_bytes (take 1024 bs) of
             Some Hello \<Rightarrow> Inr (if max_users \<le> users_connected then ServerFull else Welcome)
           | _ \<Rightarrow> Inl ConnectionError))"

definition handshake_answer ::
  "unit server_response \<Rightarrow> bool \<Rightarrow> nat \<Rightarrow> (server_error + unit) \<times> nat" where
  "handshake_answer response write_ok users_connected =
     (if \<not> write_ok then (Inl ConnectionError, users_connected)
      else if response = Welcome then (Inr (), users_connected + 1)
      else (Inl ServerFullError, users_connected))"

definition client_server_handshake ::
  "nat \<Rightarrow> nat \<Rightarrow> bytes option \<Rightarrow> bool \<Rightarrow> (server_error + unit) \<times> nat" where
  "client_server_handshake max_users users_connected data write_ok =
     (case handshake_check max_users users_connected data of
        Inl e \<Rightarrow> (Inl e, users_connected)
      | Inr response \<Rightarrow> handshake_answer response write_ok users_connected)"

text \<open>The end of \<open>handle_client_conn\<close>, with the result of the connection loop.\<close>

definition handle_client_conn_end :: "server_error + unit \<Rightarrow> nat \<Rightarrow> nat" where
  "handle_client_conn_end res users_connected =
     (case res of
        Inr _ \<Rightarrow> users_connected - 1
      | Inl ConnectionError \<Rightarrow> users_connected - 1
      | Inl _ \<Rightarrow> users_connected)"

text \<open>
  \<open>handle_client_conn\<close> as the steps of concurrent connection threads on the one counter. A thread
  whose loop ended with another error than that of the connection (the server switched off, a
  poisoned lock) has gone without giving its place back: it is \<open>Kept\<close>.
\<close>

datatype phase = Idle | Answering "unit server_response" | Serving | Kept | Gone

record capacity =
  counter :: nat
  phase_of :: "nat \<Rightarrow> phase"

fun releases :: "server_error + unit \<Rightarrow> bool" where
  "releases (Inr _) = True"
| "releases (Inl e) = (e = ConnectionError)"

fun checked_phase :: "server_error + unit server_response \<Rightarrow> phase" where
  "checked_phase (Inl e) = Gone"
| "checked_phase (Inr response) = Answering response"

fun answered_phase :: "server_error + unit \<Rightarrow> phase" where
  "answered_phase (Inl e) = Gone"
| "answered_phase (Inr _) = Serving"

inductive conn_step :: "nat \<Rightarrow> capacity \<Rightarrow> capacity \<Rightarrow> bool" for max_users where
  check: "phase_of s c = Idle \<Longrightarrow>
    conn_step max_users s
      (s\<lparr>phase_of := (phase_of s)(c := checked_phase (handshake_check max_users (counter s) data))\<rparr>)"
| answer: "phase_of s c = Answering response \<Longrightarrow>
    handshake_answer response write_ok (counter s) = (res, n) \<Longrightarrow>
    conn_step max_users s (s\<lparr>counter := n, phase_of := (phase_of s)(c := answered_phase res)\<rparr>)"
| leave: "phase_of s c = Serving \<Longrightarrow>
    conn_step max_users s (s\<lparr>counter := handle_client_conn_end res (counter s),
      phase_of := (phase_of s)(c := if releases res then Gone else Kept)\<rparr>)"

inductive_cases conn_stepE: "conn_step m s s'"

abbreviation in_phase :: "capacity \<Rightarrow> phase \<Rightarrow> nat set" where
  "in_phase s p \<equiv> {c. phase_of s c = p}"

abbreviation welcoming :: "capacity \<Rightarrow> nat set" where
  "welcoming s \<equiv> in_phase s (Answering Welcome)"

definition capacity_new :: capacity where
  "capacity_new = \<lparr>counter = 0, phase_of = (\<lambda>_. Idle)\<rparr>"

definition counted :: "capacity \<Rightarrow> nat set" where
  "counted s = {c. phase_of s c = Serving \<or> phase_of s c = Kept}"

definition capacity_wf :: "capacity \<Rightarrow> bool" where
  "capacity_wf s = (finite {c. phase_of s c \<noteq> Idle} \<and> counter s = card (counted s))"

lemma finite_phase: "capacity_wf s \<Longrightarrow> p \<noteq> Idle \<Longrightarrow> finite (in_phase s p)"
  unfolding capacity_wf_def by (rule finite_subset[of _ "{c. phase_of s c \<noteq> Idle}"]) auto

lemma finite_counted: "capacity_wf s \<Longrightarrow> finite (counted s)"
  unfolding capacity_wf_def counted_def by (rule finite_subset[of _ "{c. phase_of s c \<noteq> Idle}"]) auto

lemma handle_client_conn_end_eq: "handle_client_conn_end res n = (if releases res then n - 1 else n)"
  by (cases res rule: releases.cases) (auto simp: handle_client_conn_end_def split: server_error.splits)

lemma checked_phase_counted [simp]:
  "checked_phase r \<noteq> Serving" "checked_phase r \<noteq> Kept" "Serving \<noteq> checked_phase r" "Kept \<noteq> checked_phase r"
  by (cases r; simp)+

lemma checked_phase_welcome:
  "checked_phase (handshake_check m n data) = Answering Welcome \<Longrightarrow> n < m"
  by (auto simp: handshake_check_def split: option.splits client_message.splits if_splits)

lemma handshake_answer_cases:
  assumes "handshake_answer response write_ok n = (res, n')"
  obtains "response = Welcome" "answered_phase res = Serving" "n' = Suc n"
  | "answered_phase res = Gone" "n' = n"
  using assms by (auto simp: handshake_answer_def split: if_splits)

lemma finite_changed_phase:
  "capacity_wf s \<Longrightarrow> finite {c'. ((phase_of s)(c := p)) c' \<noteq> Idle}"
  by (rule finite_subset[of _ "insert c {c. phase_of s c \<noteq> Idle}"]) (auto simp: capacity_wf_def)

text \<open>The counter after a change of one thread's phase, by whether it was and is counted.\<close>

lemma capacity_wf_upd:
  assumes "capacity_wf s"
    and "n + (if c \<in> counted s then 1 else 0) = counter s + (if q = Serving \<or> q = Kept then 1 else 0)"
  shows "capacity_wf (s\<lparr>counter := n, phase_of := (phase_of s)(c := q)\<rparr>)"
proof -
  let ?s = "s\<lparr>counter := n, phase_of := (phase_of s)(c := q)\<rparr>"
  have "counted ?s = (if q = Serving \<or> q = Kept then insert c (counted s) else counted s - {c})"
    by (auto simp: counted_def)
  moreover have "c \<in> counted s \<Longrightarrow> 0 < card (counted s)"
    using finite_counted[OF assms(1)] by (auto simp: card_gt_0_iff)
  ultimately have "n = card (counted ?s)"
    using assms finite_counted[OF assms(1)]
    by (auto simp: capacity_wf_def card_insert_if split: if_splits)
  then show ?thesis using finite_changed_phase[OF assms(1), of c q] by (simp add: capacity_wf_def)
qed

lemma conn_step_wf: "conn_step m s s' \<Longrightarrow> capacity_wf s \<Longrightarrow> capacity_wf s'"
proof (induction rule: conn_step.induct)
  case (check s c data)
  then have "c \<notin> counted s" by (simp add: counted_def)
  then show ?case
    using capacity_wf_upd[OF check(2), of "counter s" c] by simp
next
  case (answer s c response write_ok res n)
  from answer(1) have "c \<notin> counted s" by (simp add: counted_def)
  with answer(2) show ?case
    using capacity_wf_upd[OF answer(3), of n c "answered_phase res"]
    by (auto elim!: handshake_answer_cases)
next
  case (leave s c res)
  then have c: "c \<in> counted s" by (simp add: counted_def)
  then have "0 < counter s"
    using finite_counted[OF leave(2)] leave(2) by (auto simp: capacity_wf_def card_gt_0_iff)
  with c show ?case by (intro capacity_wf_upd leave(2)) (simp add: handle_client_conn_end_eq)
qed

lemma reachable_wf: "(conn_step m)\<^sup>*\<^sup>* capacity_new s \<Longrightarrow> capacity_wf s"
proof (induction rule: rtranclp_induct)
  case base
  then show ?case by (simp add: capacity_wf_def capacity_new_def counted_def)
qed (rule conn_step_wf)

text \<open>At most \<open>k\<close> connections between their load and their welcome; one, when handshakes are serial.\<close>

definition overlap_step :: "nat \<Rightarrow> nat \<Rightarrow> capacity \<Rightarrow> capacity \<Rightarrow> bool" where
  "overlap_step m k s s' = (conn_step m s s' \<and> card (welcoming s') \<le> k)"

lemma overlap_bound:
  assumes "conn_step m s s'" and "card (welcoming s') \<le> k" and "capacity_wf s"
    and "counter s + card (welcoming s) \<le> m + k - 1"
  shows "counter s' + card (welcoming s') \<le> m + k - 1"
  using assms
proof (induction rule: conn_step.induct)
  case (check s c data)
  show ?case
  proof (cases "checked_phase (handshake_check m (counter s) data) = Answering Welcome")
    case True
    then show ?thesis using check checked_phase_welcome[OF True] by simp
  next
    case False
    then have "welcoming (s\<lparr>phase_of := (phase_of s)
        (c := checked_phase (handshake_check m (counter s) data))\<rparr>) = welcoming s"
      using check(1) by auto
    then show ?thesis using check by simp
  qed
next
  case (answer s c response write_ok res n)
  let ?s = "s\<lparr>counter := n, phase_of := (phase_of s)(c := answered_phase res)\<rparr>"
  have w: "welcoming ?s = welcoming s - {c}" by (cases res) auto
  have fin: "finite (welcoming s)" using finite_phase[OF answer(4)] by simp
  from answer(2) show ?case
  proof (rule handshake_answer_cases)
    assume r: "response = Welcome" "answered_phase res = Serving" "n = Suc (counter s)"
    have "card (welcoming s - {c}) + 1 = card (welcoming s)"
      using answer(1) r(1) fin card_Suc_Diff1[of "welcoming s" c] by simp
    then show ?thesis using answer(5) r(3) w by simp
  next
    assume r: "answered_phase res = Gone" "n = counter s"
    have "card (welcoming s - {c}) \<le> card (welcoming s)" using fin by (intro card_mono) auto
    then show ?thesis using answer(5) r(2) w by simp
  qed
next
  case (leave s c res)
  have "welcoming (s\<lparr>counter := handle_client_conn_end res (counter s),
      phase_of := (phase_of s)(c := if releases res then Gone else Kept)\<rparr>) = welcoming s"
    using leave(1) by auto
  then show ?case using leave by (auto simp: handle_client_conn_end_eq)
qed

lemma overlap_reachable:
  assumes "(overlap_step m k)\<^sup>*\<^sup>* capacity_new s"
  shows "capacity_wf s \<and> counter s + card (welcoming s) \<le> m + k - 1"
  using assms
proof (induction rule: rtranclp_induct)
  case base
  then show ?case by (simp add: capacity_new_def capacity_wf_def counted_def)
next
  case (step s s')
  then show ?case using overlap_bound conn_step_wf unfolding overlap_step_def by blast
qed


text \<open>A run of the two steps of a handshake.\<close>

definition hello_bytes :: bytes where
  "hello_bytes = as_bytes (''HELLO'' @ [newline])"

definition after_check :: "nat \<Rightarrow> nat \<Rightarrow> capacity \<Rightarrow> capacity" where
  "after_check m c s =
     s\<lparr>phase_of := (phase_of s)(c := checked_phase (handshake_check m (counter s) (Some hello_bytes)))\<rparr>"

definition after_welcome :: "nat \<Rightarrow> capacity \<Rightarrow> capacity" where
  "after_welcome c s = s\<lparr>counter := counter s + 1, phase_of := (phase_of s)(c := Serving)\<rparr>"

lemma handshake_check_hello:
  "handshake_check m n (Some hello_bytes) = Inr (if m \<le> n then ServerFull else Welcome)"
proof -
  have "client_message_from_bytes (take 1024 hello_bytes) = Some Hello" by code_simp
  then show ?thesis by (simp add: handshake_check_def)
qed

lemma step_checked: "phase_of s c = Idle \<Longrightarrow> conn_step m s (after_check m c s)"
  unfolding after_check_def by (rule conn_step.check)

lemma step_answered: "phase_of s c = Answering Welcome \<Longrightarrow> conn_step m s (after_welcome c s)"
  using conn_step.answer[of s c Welcome True "Inr ()" "counter s + 1"]
  by (simp add: after_welcome_def handshake_answer_def)

lemmas handshake_run = after_check_def after_welcome_def handshake_check_hello capacity_new_def


text \<open>Overlapping handshakes exceed the limit: both load the counter before either adds to it.\<close>

theorem capacity_exceeded:
  "\<exists>s. (conn_step 1)\<^sup>*\<^sup>* capacity_new s \<and> card (in_phase s Serving) = 2"
proof -
  let ?s1 = "after_check 1 0 capacity_new"
  let ?s2 = "after_check 1 1 ?s1"
  let ?s3 = "after_welcome 0 ?s2"
  let ?s4 = "after_welcome 1 ?s3"
  have "conn_step 1 capacity_new ?s1" "conn_step 1 ?s1 ?s2" "conn_step 1 ?s2 ?s3" "conn_step 1 ?s3 ?s4"
    by (rule step_checked step_answered, simp add: handshake_run)+
  then have "(conn_step 1)\<^sup>*\<^sup>* capacity_new ?s4"
    by (blast intro: converse_rtranclp_into_rtranclp)
  moreover have "in_phase ?s4 Serving = {0, 1}" by (auto simp: handshake_run)
  ultimately show ?thesis by (intro exI[of _ ?s4]) simp
qed

end
