(* ===== verification/Client_Server.thy ===== *)
theory Client_Server
  imports Controller Server_Concurrency
begin

text \<open>
  Client and server together: the controller's requests travel as bytes to the server's connection
  loop, whose handlers answer, and the messages the server puts on a user's event stream are read by
  that user's receiving thread.
\<close>

section \<open>The connection\<close>

text \<open>
  One round of the connection loop of the server (\<^verbatim>\<open>src/server/user_handler.rs\<close>): a buffer of 1024 bytes is
  filled once, decoded and handled.
\<close>

definition server_reply ::
  "'v6 socket_addr \<Rightarrow> disk \<Rightarrow> string option \<Rightarrow> server \<Rightarrow> bytes \<Rightarrow> 'v6 server_response \<times> string option \<times> server" where
  "server_reply addr dsk un s bs =
     (case client_message_from_bytes (take 1024 bs) of
        None \<Rightarrow> (BadMessage, un, s)
      | Some m \<Rightarrow> handle_client_message addr dsk un s m)"

text \<open>The connection of a client to the server in state \<open>s\<close>.\<close>

definition served ::
  "'v6 socket_addr \<Rightarrow> disk \<Rightarrow> string option \<Rightarrow> server \<Rightarrow> (u8 set \<Rightarrow> u8 list) \<Rightarrow> 'v6 v6_text \<Rightarrow> 'v6 link_env" where
  "served addr dsk un s ord v6 =
     \<lparr>le_ord = ord, le_v6 = v6,
      le_conn = (\<lambda>bs. (Inr (), Inr (server_response_to_bytes v6 (fst (server_reply addr dsk un s bs)))))\<rparr>"

text \<open>The requests that get through: fields without separators, request and response within the buffers.\<close>

definition fits_wire ::
  "'v6 socket_addr \<Rightarrow> disk \<Rightarrow> string option \<Rightarrow> server \<Rightarrow> (u8 set \<Rightarrow> u8 list) \<Rightarrow> 'v6 v6_text \<Rightarrow> client_message \<Rightarrow> bool" where
  "fits_wire addr dsk un s ord v6 m =
     (let r = fst (handle_client_message addr dsk un s (client_received m))
      in enumerates ord \<and> v6_ok v6 \<and> client_message_ok ord m \<and> length (client_message_to_bytes ord m) \<le> 1024 \<and>
         server_response_ok r \<and> length (server_response_to_bytes v6 r) \<le> 1024)"

text \<open>
  What the controller relies on: a request it is allowed to send comes back with the reply of the
  other side.
\<close>

locale signalling_link =
  fixes env :: "'v6 link_env"
    and reply :: "client_message \<Rightarrow> 'v6 server_response"
    and ok :: "client_message \<Rightarrow> bool"
  assumes carries: "ok m \<Longrightarrow> request env m = ([], Inr (reply m))"
begin

lemma log_in_reply:
  "ok (LogIn u p) \<Longrightarrow> log_in env second u p c =
     (case reply (LogIn u p) of
        LoginOk tok addr us \<Rightarrow>
          (c\<lparr>users_status := map_of us, ctl_token := Some tok, logged_in := True, ctl_username := Some u\<rparr>, [], second addr)
      | LoginError e \<Rightarrow> (c, [], Inl (LogInFailed e))
      | _ \<Rightarrow> (c, [], Inl BadResponse))"
  by (simp add: log_in_def carries split: server_response.split)

lemma call_reply:
  "ctl_token c = Some tok \<Longrightarrow> ok (CallRequest tok (get_offer (ctl_session c)) to) \<Longrightarrow> call env to c =
     (case reply (CallRequest tok (get_offer (ctl_session c)) to) of
        CallRequestOk \<Rightarrow> ([], Inr ())
      | CallRequestError e \<Rightarrow> ([], Inl (CallError e))
      | _ \<Rightarrow> ([], Inl BadResponse))"
  by (simp add: call_def get_token_def carries split: server_response.split)

end

lemma response_bytes_nonempty [simp]: "server_response_to_bytes v6 r \<noteq> []"
  by (simp add: server_response_to_bytes_def as_bytes_def)

interpretation wire: signalling_link "served addr dsk un s ord v6"
  "\<lambda>m. fst (handle_client_message addr dsk un s (client_received m))" "fits_wire addr dsk un s ord v6"
  for addr dsk un s ord v6
proof
  fix m assume m: "fits_wire addr dsk un s ord v6 m"
  let ?r = "fst (handle_client_message addr dsk un s (client_received m))"
  have "client_message_from_bytes (take 1024 (client_message_to_bytes ord m)) = Some (client_received m)"
    using m client_message_decode[of ord m] by (simp add: fits_wire_def Let_def)
  then have rep: "fst (server_reply addr dsk un s (client_message_to_bytes ord m)) = ?r"
    by (simp add: server_reply_def)
  have "server_response_from_bytes v6 (take 1024 (server_response_to_bytes v6 ?r)) = Some ?r"
    using m server_resp.dec_enc[of v6 ?r] by (simp add: fits_wire_def Let_def)
  then show "request (served addr dsk un s ord v6) m = ([], Inr ?r)"
    using rep by (simp add: request_def served_def)
qed

section \<open>Logging in\<close>

text \<open>
  Logging in over the connection: a controller that sends the right password of an offline user
  ends logged in under that name, with the server's table of all other users, while the server has
  the user available; with an unknown user, a wrong password or a user who is logged in already the
  controller reports the reason the server gave and keeps its state, as does the server.
\<close>
definition login_refusal :: "server \<Rightarrow> string \<Rightarrow> string \<Rightarrow> string" where
  "login_refusal s u p =
     (case user_of s u of
        None \<Rightarrow> ''User '' @ u @ '' not found''
      | Some d \<Rightarrow> if password d \<noteq> p then ''Wrong password. Try again'' else ''User already logged in'')"

lemma login_over_wire:
  assumes "server_wf s" and "\<not> poisoned s" and "fits_wire addr dsk un s ord v6 (LogIn u p)"
  shows "case handle_client_message addr dsk un s (LogIn u p) of (r, un', s') \<Rightarrow>
     if \<exists>d. user_of s u = Some d \<and> password d = p \<and> status d = Offline then
       log_in (served addr dsk un s ord v6) second u p c =
         (c\<lparr>users_status := other_users s u, ctl_token := Some u, logged_in := True, ctl_username := Some u\<rparr>, [], second addr) \<and>
       status_of s' = (status_of s)(u \<mapsto> Available) \<and> un' = Some u
     else r = LoginError (login_refusal s u p) \<and>
       log_in (served addr dsk un s ord v6) second u p c = (c, [], Inl (LogInFailed (login_refusal s u p))) \<and> s' = s \<and> un' = un"
proof -
  note out = login_user_outcome[OF assms(1,2), where u = u and addr = addr and un = un and p = p]
  have l: "log_in (served addr dsk un s ord v6) second u p c =
     (case fst (login_user addr un s u p) of
        LoginOk tok a us \<Rightarrow>
          (c\<lparr>users_status := map_of us, ctl_token := Some tok, logged_in := True, ctl_username := Some u\<rparr>, [], second a)
      | LoginError e \<Rightarrow> (c, [], Inl (LogInFailed e))
      | _ \<Rightarrow> (c, [], Inl BadResponse))"
    using wire.log_in_reply[OF assms(3), of second c] by simp
  show ?thesis
  proof (cases "user_of s u")
    case None
    then have "login_user addr un s u p = (LoginError (''User '' @ u @ '' not found''), un, s)" using out by (simp only: option.case)
    then show ?thesis using l None by (simp add: login_refusal_def)
  next
    case (Some d)
    show ?thesis
    proof (cases "password d = p \<and> status d = Offline")
      case True
      then obtain us s' where r: "login_user addr un s u p = (LoginOk u addr us, Some u, s')"
        "user_of s' = (user_of s)(u \<mapsto> d\<lparr>status := Available\<rparr>)" "map_of us = other_users s u"
        using out Some by (simp only: option.case if_False simp_thms) blast
      have "status_of s' = (status_of s)(u \<mapsto> Available)" using r(2) by (auto simp: fun_eq_iff)
      then show ?thesis using l r(1,3) True Some by (simp del: map_of_eq_Some_iff)
    next
      case False
      then have "login_user addr un s u p = (LoginError (login_refusal s u p), un, s)"
        using out Some by (simp only: option.case login_refusal_def) (auto split: if_splits)
      then show ?thesis using l False Some by (auto simp del: map_of_eq_Some_iff)
    qed
  qed
qed

definition sample_transport :: media_transport where
  "sample_transport = \<lparr>rtp_address = (''0.0.0.0'', 5000), rtcp_address = (''0.0.0.0'', 5001), rtcp_handler = False,
     transport_connected = False\<rparr>"

definition sample_controller :: "string option \<Rightarrow> controller" where
  "sample_controller tok =
     \<lparr>users_status = Map.empty, ctl_token = tok, ctl_username = tok, logged_in = (tok \<noteq> None), ctl_files = None,
      ctl_transport = sample_transport,
      ctl_session = \<lparr>cs_sdp = sample_sdp ''H264'', cs_ice = ice_agent_new, local_fingerprint = [], remote_fingerprint = None,
        remote_setup_role = None, local_setup_role = ActPass\<rparr>, ctl_pipeline = media_pipeline_new\<rparr>"

abbreviation sample_addr :: "unit socket_addr" where
  "sample_addr \<equiv> V4 127 0 0 1 8081"

lemma sample_login_reply:
  "fst (login_user sample_addr None sample_server ''alice'' ''secret'') =
     LoginOk ''alice'' sample_addr [(''bob'', Available)]"
  by (simp add: login_user_def sample_server_def Let_def get_clients_for_user_def notify_status_update_def
        Server.update_status_def)

lemma sample_login_fits:
  "fits_wire sample_addr DiskOk None sample_server sample_order sample_v6 (LogIn ''alice'' ''secret'')"
proof -
  have "token ''alice''" "token ''secret''" "token ''bob''" by code_simp+
  then have ok: "client_message_ok sample_order (LogIn ''alice'' ''secret'')"
    "server_response_ok (LoginOk ''alice'' sample_addr [(''bob'', Available)])"
    by (simp_all add: users_ok_def entry_ok_def status_ok_def last_field_token last_field_field del: token_Cons)
  show ?thesis
    using ok sample_order_enumerates sample_v6_ok
    by (simp add: fits_wire_def sample_login_reply Let_def client_message_to_bytes_def server_response_to_bytes_def show_users_status_def
          show_nat.simps)
qed

section \<open>Calling\<close>

text \<open>
  A call over the connection: when caller and callee are available, the caller's controller reports
  success, the server has both occupied with each other, and the last message on the callee's event
  stream, read by the callee's receiving thread, posts the incoming call with the caller's name and
  the caller's media descriptions. Otherwise the caller gets an error and the server is unchanged.
\<close>
lemma call_over_wire:
  assumes "server_wf s" and "\<not> poisoned s" and "ctl_token c = Some a" and "offer = get_offer (ctl_session c)"
    and "fits_wire addr dsk un s ord v6 (CallRequest a offer b)"
    and "server_message_ok ord (server_message.CallIncoming a (received offer))"
    and "has_stream s b sid" and "stream_state s sid = Open"
  shows "case handle_client_message addr dsk un s (client_received (CallRequest a offer b)) of (r, un', s') \<Rightarrow>
     if callable s a b then
       call (served addr dsk un s ord v6) b c = ([], Inr ()) \<and>
       status_of s' = (status_of s)(b \<mapsto> Occupied a, a \<mapsto> Occupied b) \<and>
       (\<exists>log m. streams s' sid = streams s sid @ log @ [m] \<and>
          handle_server_bytes False True w b (server_message_to_bytes ord m) tbl =
            (tbl, [app_event.CallIncoming a (received offer)], [], Inr ()))
     else (\<exists>e. call (served addr dsk un s ord v6) b c = ([], Inl e)) \<and> s' = s"
proof -
  obtain r s' where cr: "(call_request s a b (received offer) :: 'a server_response \<times> server) = (r, s')"
    by (cases "call_request s a b (received offer) :: 'a server_response \<times> server") auto
  note out = call_request_outcome[OF assms(1,2), where a = a and b = b and d = "received offer", where ?'v6.0 = 'a,
    unfolded cr prod.case]
  have c: "call (served addr dsk un s ord v6) b c =
     (case r of CallRequestOk \<Rightarrow> ([], Inr ()) | CallRequestError e \<Rightarrow> ([], Inl (CallError e)) | _ \<Rightarrow> ([], Inl BadResponse))"
    using wire.call_reply[OF assms(3), of addr dsk un s ord v6 b] assms(4,5) cr by simp
  have ord: "enumerates ord" using assms(5) by (simp add: fits_wire_def Let_def)
  have "server_message_from_bytes (server_message_to_bytes ord (server_message.CallIncoming a (received offer))) =
      Some (server_message.CallIncoming a (received offer))"
    using server_message_decode[OF assms(6) ord] by (simp add: received_def sdp_new_def)
  then have h: "handle_server_bytes False True w b (server_message_to_bytes ord (server_message.CallIncoming a (received offer))) tbl =
      (tbl, [app_event.CallIncoming a (received offer)], [], Inr ())"
    by (simp add: handle_server_bytes_def post_event_def)
  show ?thesis
  proof (cases "callable s a b")
    case True
    then have r: "r = CallRequestOk" "status_of s' = (status_of s)(b \<mapsto> Occupied a, a \<mapsto> Occupied b)"
      "\<exists>log. streams s' sid = streams s sid @ log @ [server_message.CallIncoming a (received offer)]"
      using out assms(7,8) by (simp_all only: if_True)
    show ?thesis using True r c h cr by (simp del: map_of_eq_Some_iff) blast
  next
    case False
    then have r: "r \<noteq> CallRequestOk" "s' = s" using out by (simp_all only: if_False simp_thms)
    then show ?thesis using False c cr by (cases r) auto
  qed
qed

text \<open>Both users of the sample server available: Alice calls Bob.\<close>

definition sample_ready :: server where
  "sample_ready =
     sample_server\<lparr>users := [(''alice'', \<lparr>username = ''alice'', password = ''secret'', status = Available,
                             server_client_stream = Some 0\<rparr>),
                          (''bob'', \<lparr>username = ''bob'', password = ''pw'', status = Available,
                             server_client_stream = Some 1\<rparr>)]\<rparr>"

lemma sample_ready_ok:
  "server_wf sample_ready" "\<not> poisoned sample_ready" "has_stream sample_ready ''bob'' 1" "stream_state sample_ready 1 = Open"
  "callable sample_ready ''alice'' ''bob''"
  by (auto simp: sample_ready_def sample_server_def server_wf_def table_wf_def has_stream_def callable_def split: if_splits)

lemma sample_received: "received (sample_sdp ''H264'') = sample_sdp ''H264''"
  by (simp add: received_def sample_sdp_def sdp_new_def)

lemma sample_call_fits:
  "fits_wire sample_addr DiskOk (Some ''alice'') sample_ready sample_order sample_v6
     (CallRequest ''alice'' (sample_sdp ''H264'') ''bob'')"
proof -
  have t: "token ''alice''" "token ''bob''" by code_simp+
  obtain s' where r: "(call_request sample_ready ''alice'' ''bob'' (sample_sdp ''H264'') :: unit server_response \<times> server) = (CallRequestOk, s')"
    using call_request_outcome[OF sample_ready_ok(1,2), where a = "''alice''" and b = "''bob''" and d = "sample_sdp ''H264''",
        where ?'v6.0 = unit] sample_ready_ok(5) by (auto split: prod.splits)
  have "length (show_sdp sample_order (sample_sdp ''H264'')) \<le> 900"
  proof -
    have hex: "hex_byte 171 = ''AB''" "hex_byte 5 = ''05''" by code_simp+
    show ?thesis
      by (simp add: show_sdp_def sample_sdp_def sdp_new_def sdp_config_default_def show_media_def media_line_def sample_media_def
            show_attribute_def hex_value_def sample_order_def show_nat.simps hex)
  qed
  then have l: "length (client_message_to_bytes sample_order (CallRequest ''alice'' (sample_sdp ''H264'') ''bob'')) \<le> 1024"
    by (simp add: client_message_to_bytes_def)
  have "client_message_ok sample_order (CallRequest ''alice'' (sample_sdp ''H264'') ''bob'')"
    using t sample_sdp_field by (simp add: last_field_token last_field_field del: token_Cons)
  then show ?thesis
    using l r sample_order_enumerates sample_v6_ok
    by (simp add: fits_wire_def Let_def sample_received server_response_to_bytes_def r)
qed

text \<open>
  When the second connection, to the event channel, fails after the server accepted the login, the
  controller reports the failure and is logged in all the same.
\<close>
theorem failed_event_channel_logged_in:
  "\<exists>c'. log_in (served sample_addr DiskOk None sample_server sample_order sample_v6) (\<lambda>_. Inl (ConnectionSocketError ''refused''))
     ''alice'' ''secret'' (sample_controller None) = (c', [], Inl (ConnectionSocketError ''refused'')) \<and>
     logged_in c' \<and> ctl_token c' = Some ''alice''"
proof -
  show ?thesis
    using wire.log_in_reply[OF sample_login_fits, of "\<lambda>_. Inl (ConnectionSocketError ''refused'')" "sample_controller None"] sample_login_reply
    by simp
qed

end
