(* ===== verification/Data_Channel.thy ===== *)
theory Data_Channel
  imports Rust_Str
begin

text \<open>
  Data channels over SCTP: \<^verbatim>\<open>src/sctp_transport/data_channel/dc_type.rs\<close>, \<^verbatim>\<open>dcep.rs\<close>, \<^verbatim>\<open>channel.rs\<close> and
  \<^verbatim>\<open>error.rs\<close>. The streams belong to the \<^verbatim>\<open>sctp_proto\<close> library: what a call on a stream returned is an
  argument, and what a channel does to its stream is the list of effects it returns. A waiting loop
  takes the list of its rounds; \<open>None\<close> means that it still waits when they end.
\<close>

section \<open>Channel types and the establishment protocol\<close>

datatype data_channel_type = Reliable

definition data_channel_type_try_from :: "u8 \<Rightarrow> data_channel_type option" where
  "data_channel_type_try_from v = (if v = 0x00 then Some Reliable else None)"

fun data_channel_type_to_u8 :: "data_channel_type \<Rightarrow> u8" where
  "data_channel_type_to_u8 Reliable = 0x00"

fun ordered :: "data_channel_type \<Rightarrow> bool" where
  "ordered Reliable = True"

text \<open>The reliability modes of the library.\<close>

datatype reliability = ReliabilityReliable | ReliabilityRexmit | ReliabilityTimed

fun reliability_type :: "data_channel_type \<Rightarrow> reliability" where
  "reliability_type Reliable = ReliabilityReliable"

datatype dcep_message =
    DataChannelOpen data_channel_type u16 u32 string string
  | DataChannelAck

fun dcep_to_bytes :: "dcep_message \<Rightarrow> bytes" where
  "dcep_to_bytes (DataChannelOpen channel_type prio reliability_parameter label protocol) =
     [0x03, data_channel_type_to_u8 channel_type] @ to_be_bytes 2 prio @ to_be_bytes 4 reliability_parameter @
       to_be_bytes 2 (word_of_nat (length label) :: u16) @ to_be_bytes 2 (word_of_nat (length protocol) :: u16) @
       as_bytes label @ as_bytes protocol"
| "dcep_to_bytes DataChannelAck = [0x02]"

definition dcep_from_bytes :: "bytes \<Rightarrow> dcep_message option" where
  "dcep_from_bytes bs =
     (if bs = [] then None
      else
         (let tag = hd bs
          in if tag = 0x03 then
            (if length bs < 12 then None
             else
               (let label_end = 12 + unat (from_be_bytes (slice bs 8 10) :: u16);
                    protocol_end = label_end + unat (from_be_bytes (slice bs 10 12) :: u16)
                in if length bs < protocol_end then None
                   else case data_channel_type_try_from (bs ! 1) of
                          None \<Rightarrow> None
                        | Some ty \<Rightarrow>
                            (case from_utf8 (slice bs 12 label_end) of
                               None \<Rightarrow> None
                             | Some label \<Rightarrow>
                                 map_option
                                   (DataChannelOpen ty (from_be_bytes (slice bs 2 4)) (from_be_bytes (slice bs 4 8)) label)
                                   (from_utf8 (slice bs label_end protocol_end)))))
          else if tag = 0x02 then Some DataChannelAck
          else None))"

text \<open>The messages whose two texts fit their 16-bit lengths.\<close>

fun dcep_ok :: "dcep_message \<Rightarrow> bool" where
  "dcep_ok (DataChannelOpen ty prio rel label protocol) =
     (length label < 2 ^ 16 \<and> length protocol < 2 ^ 16 \<and> utf8_valid label \<and> utf8_valid protocol)"
| "dcep_ok DataChannelAck = True"

lemma two_slices:
  assumes "length h = n"
  shows "slice (h @ a @ b @ r) n (n + length a) = a" "slice (h @ a @ b @ r) (n + length a) (n + length a + length b) = b"
  using assms by (simp_all add: slice_def)

lemma dcep_decodes: "dcep_ok m \<Longrightarrow> dcep_from_bytes (dcep_to_bytes m @ rest) = Some m"
proof (induction m)
  case (DataChannelOpen ty prio rel label protocol)
  let ?h = "[0x03, data_channel_type_to_u8 ty]" and ?p = "to_be_bytes 2 prio" and ?r = "to_be_bytes 4 rel"
    and ?l = "to_be_bytes 2 (word_of_nat (length label) :: u16)" and ?q = "to_be_bytes 2 (word_of_nat (length protocol) :: u16)"
  let ?bs = "dcep_to_bytes (DataChannelOpen ty prio rel label protocol) @ rest"
  have s: "slice ?bs 2 4 = ?p" "slice ?bs 4 8 = ?r" "slice ?bs 8 10 = ?l" "slice ?bs 10 12 = ?q"
    by (simp_all add: slice_def)
  have l: "unat (word_of_nat (length label) :: u16) = length label" "unat (word_of_nat (length protocol) :: u16) = length protocol"
    using DataChannelOpen by (simp_all add: unat_of_nat)
  have t: "slice ?bs 12 (12 + length label) = as_bytes label"
    "slice ?bs (12 + length label) (12 + length label + length protocol) = as_bytes protocol"
    using two_slices[of "?h @ ?p @ ?r @ ?l @ ?q" 12 "as_bytes label" "as_bytes protocol" rest] by simp_all
  have ty: "?bs ! 1 = 0" "data_channel_type_try_from 0 = Some ty" by (cases ty; simp add: data_channel_type_try_from_def)+
  have hd: "?bs \<noteq> []" "hd ?bs = 0x03" "12 + length label + length protocol \<le> length ?bs" by simp_all
  have "dcep_from_bytes bs = map_option (DataChannelOpen ty prio rel label) (from_utf8 (as_bytes protocol))" if "bs = ?bs" for bs
    using DataChannelOpen s l t ty hd
    unfolding that[symmetric] dcep_from_bytes_def by (simp add: Let_def)
  then show ?case using DataChannelOpen by simp
qed (simp add: dcep_from_bytes_def)

interpretation dcep: prefix_codec dcep_to_bytes dcep_from_bytes dcep_ok
proof
  show "dcep_from_bytes (dcep_to_bytes x) = Some x" if "dcep_ok x" for x
    using dcep_decodes[OF that, of "[]"] by simp
qed (rule dcep_decodes)

section \<open>Calls on a stream\<close>

datatype data_channel_error =
    OpenError string
  | ReadStreamError string
  | OpenTimeout
  | SendError string
  | LockError string
  | GetStreamError string
  | ReadChunksError string

fun show_data_channel_error :: "data_channel_error \<Rightarrow> string" where
  "show_data_channel_error (OpenError e) = ''Error: \"Failed to open data channel\". Details: '' @ e"
| "show_data_channel_error OpenTimeout =
     ''Error: \"Failed to open data channel\". Details: Timed out waiting for acknowledgement''"
| "show_data_channel_error (ReadStreamError e) = ''Error: \"Failed to read from data channel\". Details: '' @ e"
| "show_data_channel_error (SendError e) = ''Error: \"Failed to send to data channel\". Details: '' @ e"
| "show_data_channel_error (LockError e) = ''Error: \"Lock error\". Details: '' @ e"
| "show_data_channel_error (GetStreamError e) = ''Error: \"Failed to get stream\". Details: '' @ e"
| "show_data_channel_error (ReadChunksError e) = ''Error: \"Failed to read from chunks\". Details: '' @ e"

text \<open>
  A call on the stream of a channel: the lock is poisoned, the association has no such stream, the
  call fails, or it returns.
\<close>

datatype 'v stream_call = LockFails string | NoStream string | CallFails string | CallOk 'v

datatype ppi = Dcep | Binary | OtherPpi nat

datatype stream_effect = Configured bool reliability u32 | Wrote ppi bytes

record data_channel =
  stream_id :: u16

text \<open>\<open>set_default_payload_type\<close> is the call, \<open>set_reliability_params\<close> the second result.\<close>

type_synonym configure_call = "unit stream_call \<times> (string + unit)"

definition configure_stream ::
  "data_channel_type \<Rightarrow> u32 \<Rightarrow> configure_call \<Rightarrow> data_channel_error + stream_effect list" where
  "configure_stream dc_type reliability_param call =
     (case fst call of
        LockFails e \<Rightarrow> Inl (LockError e)
      | NoStream e \<Rightarrow> Inl (GetStreamError e)
      | CallFails e \<Rightarrow> Inl (OpenError e)
      | CallOk _ \<Rightarrow>
          (case snd call of
             Inl e \<Rightarrow> Inl (OpenError e)
           | Inr _ \<Rightarrow> Inr [Configured (ordered dc_type) (reliability_type dc_type) reliability_param]))"

definition write_with_ppi :: "bytes \<Rightarrow> ppi \<Rightarrow> unit stream_call \<Rightarrow> data_channel_error + stream_effect list" where
  "write_with_ppi bs p call =
     (case call of
        LockFails e \<Rightarrow> Inl (LockError e)
      | NoStream e \<Rightarrow> Inl (GetStreamError e)
      | CallFails e \<Rightarrow> Inl (SendError e)
      | CallOk _ \<Rightarrow> Inr [Wrote p bs])"

definition write_dcep :: "dcep_message \<Rightarrow> unit stream_call \<Rightarrow> data_channel_error + stream_effect list" where
  "write_dcep m call =
     (case write_with_ppi (dcep_to_bytes m) Dcep call of
        Inl e \<Rightarrow> Inl (SendError (show_data_channel_error e))
      | Inr w \<Rightarrow> Inr w)"

text \<open>\<open>send\<close> writes with the default payload type of the stream, which \<open>configure_stream\<close> sets to binary.\<close>

definition channel_send :: "bytes \<Rightarrow> unit stream_call \<Rightarrow> data_channel_error + stream_effect list" where
  "channel_send message call = write_with_ppi message Binary call"

text \<open>A chunk: its payload type and what copying it into the caller's buffer returns.\<close>

type_synonym read_call = "(ppi \<times> (string + bytes)) option stream_call"

definition read_chunks :: "read_call \<Rightarrow> data_channel_error + (ppi \<times> (string + bytes)) option" where
  "read_chunks call =
     (case call of
        LockFails e \<Rightarrow> Inl (LockError e)
      | NoStream e \<Rightarrow> Inl (GetStreamError e)
      | CallFails e \<Rightarrow> Inl (ReadStreamError e)
      | CallOk c \<Rightarrow> Inr c)"

fun channel_recv :: "read_call list \<Rightarrow> (data_channel_error + bytes) option" where
  "channel_recv [] = None"
| "channel_recv (call # rest) =
     (case read_chunks call of
        Inl e \<Rightarrow> Some (Inl e)
      | Inr None \<Rightarrow> channel_recv rest
      | Inr (Some (p, Inl e)) \<Rightarrow> Some (Inl (ReadChunksError e))
      | Inr (Some (p, Inr bs)) \<Rightarrow> Some (Inr bs))"

section \<open>Opening a channel\<close>

definition ack_timed_out :: "nat \<Rightarrow> u16 \<Rightarrow> bool" where
  "ack_timed_out elapsed wait_timeout_millis = (unat wait_timeout_millis < elapsed \<and> 0 < wait_timeout_millis)"

definition open_timed_out :: "nat \<Rightarrow> u16 \<Rightarrow> bool" where
  "open_timed_out elapsed wait_timeout_millis = (unat wait_timeout_millis < elapsed \<and> 0 < wait_timeout_millis)"

text \<open>\<open>vec![0u8; 1024]\<close> after \<open>bs\<close> was read into it.\<close>

definition dcep_buffer :: "bytes \<Rightarrow> bytes" where
  "dcep_buffer bs = bs @ replicate (1024 - length bs) 0"

text \<open>A round of a waiting loop: the elapsed milliseconds and the read.\<close>

fun wait_for_ack :: "u16 \<Rightarrow> (nat \<times> read_call) list \<Rightarrow> (data_channel_error + unit) option" where
  "wait_for_ack timeout [] = None"
| "wait_for_ack timeout ((elapsed, call) # rest) =
     (if ack_timed_out elapsed timeout then Some (Inl OpenTimeout)
      else case read_chunks call of
             Inl e \<Rightarrow> Some (Inl e)
           | Inr None \<Rightarrow> wait_for_ack timeout rest
           | Inr (Some (p, content)) \<Rightarrow>
               if p = Dcep then
                 (case content of
                    Inl e \<Rightarrow> Some (Inl (ReadChunksError e))
                  | Inr bs \<Rightarrow>
                      if dcep_from_bytes (dcep_buffer bs) = Some DataChannelAck then Some (Inr ())
                      else wait_for_ack timeout rest)
               else wait_for_ack timeout rest)"

fun wait_for_open ::
  "u16 \<Rightarrow> configure_call \<Rightarrow> (nat \<times> read_call) list \<Rightarrow> (data_channel_error + stream_effect list) option" where
  "wait_for_open timeout conf [] = None"
| "wait_for_open timeout conf ((elapsed, call) # rest) =
     (if open_timed_out elapsed timeout then Some (Inl OpenTimeout)
      else case read_chunks call of
             Inl e \<Rightarrow> Some (Inl e)
           | Inr None \<Rightarrow> wait_for_open timeout conf rest
           | Inr (Some (p, content)) \<Rightarrow>
               if p = Dcep then
                 (case content of
                    Inl e \<Rightarrow> Some (Inl (ReadChunksError e))
                  | Inr bs \<Rightarrow>
                      (case dcep_from_bytes (dcep_buffer bs) of
                         Some (DataChannelOpen channel_type prio reliability_parameter label protocol) \<Rightarrow>
                           Some (configure_stream channel_type reliability_parameter conf)
                       | _ \<Rightarrow> wait_for_open timeout conf rest))
               else wait_for_open timeout conf rest)"

definition from_accepted_stream ::
  "u16 \<Rightarrow> u16 \<Rightarrow> configure_call \<Rightarrow> (nat \<times> read_call) list \<Rightarrow> unit stream_call \<Rightarrow>
     stream_effect list \<times> (data_channel_error + data_channel) option" where
  "from_accepted_stream sid open_wait_timeout_millis conf rounds ack_call =
     (case wait_for_open open_wait_timeout_millis conf rounds of
        None \<Rightarrow> ([], None)
      | Some (Inl e) \<Rightarrow> ([], Some (Inl e))
      | Some (Inr effects) \<Rightarrow>
          (case write_with_ppi (dcep_to_bytes DataChannelAck) Dcep ack_call of
             Inl e \<Rightarrow> (effects, Some (Inl e))
           | Inr w \<Rightarrow> (effects @ w, Some (Inr \<lparr>stream_id = sid\<rparr>))))"

text \<open>
  \<open>binary_name\<close> is the library's name of the binary payload type. The effects are those on the stream,
  also when the acknowledgement does not come.
\<close>

definition channel_open ::
  "string \<Rightarrow> string \<Rightarrow> u16 \<Rightarrow> data_channel_type \<Rightarrow> u32 \<Rightarrow> u16 \<Rightarrow> configure_call \<Rightarrow> unit stream_call \<Rightarrow> (nat \<times> read_call) list \<Rightarrow>
     stream_effect list \<times> (data_channel_error + data_channel) option" where
  "channel_open binary_name label sid dc_type reliability_param ack_wait_timeout_millis conf open_call rounds =
     (case configure_stream dc_type reliability_param conf of
        Inl e \<Rightarrow> ([], Some (Inl e))
      | Inr effects \<Rightarrow>
          (case write_dcep (DataChannelOpen Reliable 0 0 label binary_name) open_call of
             Inl e \<Rightarrow> (effects, Some (Inl e))
           | Inr w \<Rightarrow>
               (effects @ w,
                (case wait_for_ack ack_wait_timeout_millis rounds of
                   None \<Rightarrow> None
                 | Some (Inl e) \<Rightarrow> Some (Inl e)
                 | Some (Inr _) \<Rightarrow> Some (Inr \<lparr>stream_id = sid\<rparr>)))))"

section \<open>Both ends\<close>

text \<open>A round in which a waiting end neither times out nor sees a message of the protocol.\<close>

definition quiet :: "u16 \<Rightarrow> nat \<times> read_call \<Rightarrow> bool" where
  "quiet timeout r =
     (\<not> ack_timed_out (fst r) timeout \<and>
      (case snd r of CallOk None \<Rightarrow> True | CallOk (Some (p, _)) \<Rightarrow> p \<noteq> Dcep | _ \<Rightarrow> False))"

lemma wait_for_ack_quiet: "list_all (quiet t) rs \<Longrightarrow> wait_for_ack t (rs @ later) = wait_for_ack t later"
  by (induction rs) (auto simp: quiet_def read_chunks_def split: stream_call.splits option.splits)

lemma wait_for_open_quiet: "list_all (quiet t) rs \<Longrightarrow> wait_for_open t conf (rs @ later) = wait_for_open t conf later"
  by (induction rs)
     (auto simp: quiet_def read_chunks_def ack_timed_out_def open_timed_out_def split: stream_call.splits option.splits)

text \<open>A chunk arrives: the read of a round returns these bytes with the protocol's payload type.\<close>

definition arrives :: "u16 \<Rightarrow> bytes \<Rightarrow> nat \<times> read_call \<Rightarrow> bool" where
  "arrives timeout bs r = (\<not> ack_timed_out (fst r) timeout \<and> snd r = CallOk (Some (Dcep, Inr bs)))"

text \<open>
  C31. Opening a data channel: the opening end writes one establishment message on its stream; when it
  arrives at the accepting end before its timeout, that end configures its stream like the opening end
  does for a reliable channel and acknowledges; when the acknowledgement arrives, the opening end
  returns. Both ends then have a channel on the same stream. A label that fits the buffer is assumed.
\<close>
theorem data_channel_opens:
  assumes "utf8_valid label" and "utf8_valid binary_name" and "12 + length label + length binary_name \<le> 1024"
    and "list_all (quiet t1) before1" and "list_all (quiet t2) before2"
    and "conf1 = (CallOk (), Inr ())" and "conf2 = (CallOk (), Inr ())"
    and "m = dcep_to_bytes (DataChannelOpen Reliable 0 0 label binary_name)"
    and "arrives t2 m r2" and "arrives t1 (dcep_to_bytes DataChannelAck) r1"
  shows "from_accepted_stream sid t2 conf2 (before2 @ r2 # after2) (CallOk ()) =
       ([Configured True ReliabilityReliable 0, Wrote Dcep (dcep_to_bytes DataChannelAck)], Some (Inr \<lparr>stream_id = sid\<rparr>)) \<and>
     channel_open binary_name label sid Reliable 0 t1 conf1 (CallOk ()) (before1 @ r1 # after1) =
       ([Configured True ReliabilityReliable 0, Wrote Dcep m], Some (Inr \<lparr>stream_id = sid\<rparr>))"
proof -
  have ok: "dcep_ok (DataChannelOpen Reliable 0 0 label binary_name)" using assms(1-3) by simp
  have "dcep_from_bytes (dcep_buffer m) = Some (DataChannelOpen Reliable 0 0 label binary_name)"
    unfolding dcep_buffer_def assms(8) by (rule dcep.dec_zero_padded[OF ok])
  then have "wait_for_open t2 conf2 (before2 @ r2 # after2) = Some (Inr [Configured True ReliabilityReliable 0])"
    using assms(5,7,9)
    by (cases r2) (simp add: wait_for_open_quiet arrives_def read_chunks_def open_timed_out_def ack_timed_out_def configure_stream_def)
  moreover have "dcep_from_bytes (dcep_buffer (dcep_to_bytes DataChannelAck)) = Some DataChannelAck"
    unfolding dcep_buffer_def by (rule dcep.dec_zero_padded) simp
  then have "wait_for_ack t1 (before1 @ r1 # after1) = Some (Inr ())"
    using assms(4,10) by (cases r1) (simp add: wait_for_ack_quiet arrives_def read_chunks_def)
  ultimately show ?thesis
    using assms(6,8)
    by (simp add: from_accepted_stream_def channel_open_def configure_stream_def write_dcep_def write_with_ppi_def)
qed

definition sample_silence :: "nat \<times> read_call" where
  "sample_silence = (3, CallOk None)"

definition sample_open :: bytes where
  "sample_open = dcep_to_bytes (DataChannelOpen Reliable 0 0 ''files'' ''binary'')"

theorem data_channel_opens_witness:
  "from_accepted_stream 1 500 (CallOk (), Inr ()) ([sample_silence] @ (7, CallOk (Some (Dcep, Inr sample_open))) # []) (CallOk ()) =
       ([Configured True ReliabilityReliable 0, Wrote Dcep (dcep_to_bytes DataChannelAck)], Some (Inr \<lparr>stream_id = 1\<rparr>)) \<and>
   channel_open ''binary'' ''files'' 1 Reliable 0 0 (CallOk (), Inr ()) (CallOk ())
       ([] @ (900, CallOk (Some (Dcep, Inr (dcep_to_bytes DataChannelAck)))) # []) =
       ([Configured True ReliabilityReliable 0, Wrote Dcep sample_open], Some (Inr \<lparr>stream_id = 1\<rparr>))"
proof -
  have v: "utf8_valid ''files''" "utf8_valid ''binary''" by (rule utf8_valid_ascii; simp)+
  show ?thesis
    by (rule data_channel_opens[OF v _ _ _ refl refl sample_open_def])
       (simp_all add: quiet_def sample_silence_def arrives_def ack_timed_out_def)
qed

text \<open>
  Without an acknowledgement: with a timeout the opening end gives up in the first round after it, its
  stream already configured and the establishment message sent; with timeout 0 it waits forever.
\<close>

lemma open_times_out:
  "list_all (quiet t) rs \<Longrightarrow> 0 < t \<Longrightarrow> unat t < elapsed \<Longrightarrow>
     snd (channel_open binary_name label sid ty rel t (CallOk (), Inr ()) (CallOk ()) (rs @ (elapsed, r) # later)) =
       Some (Inl OpenTimeout)"
  by (simp add: channel_open_def configure_stream_def write_dcep_def write_with_ppi_def wait_for_ack_quiet ack_timed_out_def)

lemma open_waits:
  "list_all (quiet t) rs \<Longrightarrow>
     snd (channel_open binary_name label sid ty rel t (CallOk (), Inr ()) (CallOk ()) rs) = None"
  using wait_for_ack_quiet[of t rs "[]"]
  by (simp add: channel_open_def configure_stream_def write_dcep_def write_with_ppi_def)

end
