(* ===== verification/Sctp_Transport.thy ===== *)
theory Sctp_Transport
  imports Data_Channel
begin

text \<open>
  The SCTP transport of \<^verbatim>\<open>src/sctp_transport/transport.rs\<close>. Endpoint and association belong to the
  \<^verbatim>\<open>sctp_proto\<close> library: an association is a value of any type, the library's handling of an event
  on it is a function argument, and the results of all other calls (locks included) are arguments.
\<close>

section \<open>State and errors\<close>

datatype sctp_transport_error =
    ConnectError string
  | OpenStreamError string
  | OpenDataChannelError string
  | IOError string
  | PoisonedLock string
  | SocketConfigError string
  | MapError string

record 'a sctp_transport =
  association :: 'a
  association_handle :: "nat option"
  next_stream_id :: u16

text \<open>\<open>Association::default()\<close> is an argument.\<close>

definition sctp_transport_new :: "'a \<Rightarrow> 'a sctp_transport" where
  "sctp_transport_new fresh = \<lparr>association = fresh, association_handle = None, next_stream_id = 0\<rparr>"

text \<open>The result of taking a lock: poisoned, with the message, or not.\<close>

type_synonym lock_result = "string + unit"

text \<open>A call that may run on, panic or return.\<close>

datatype 'r call_outcome = Running | Panicked | Returned 'r

section \<open>Connecting\<close>

text \<open>The rounds of the waiting loop: poisoned lock, or whether the association is still handshaking.\<close>

fun await_handshake :: "(string + bool) list \<Rightarrow> (sctp_transport_error + unit) call_outcome" where
  "await_handshake [] = Running"
| "await_handshake (Inl e # rest) = Returned (Inl (PoisonedLock e))"
| "await_handshake (Inr handshaking # rest) = (if handshaking then await_handshake rest else Returned (Inr ()))"

definition sctp_connect ::
  "bool \<Rightarrow> lock_result \<Rightarrow> string + nat \<times> 'a \<Rightarrow> lock_result \<Rightarrow> string + unit \<Rightarrow> (string + bool) list \<Rightarrow> 'a sctp_transport \<Rightarrow>
     'a sctp_transport \<times> (sctp_transport_error + unit) call_outcome" where
  "sctp_connect is_client endpoint_lock connected handle_lock timeout_set handshake t =
     (case (if is_client then
              (case endpoint_lock of
                 Inl e \<Rightarrow> Inl (PoisonedLock e)
               | Inr _ \<Rightarrow>
                   (case connected of
                      Inl e \<Rightarrow> Inl (ConnectError e)
                    | Inr (h, a) \<Rightarrow>
                        (case handle_lock of
                           Inl e \<Rightarrow> Inl (PoisonedLock e)
                         | Inr _ \<Rightarrow> Inr (t\<lparr>association := a, association_handle := Some h, next_stream_id := 1\<rparr>))))
            else Inr t) of
        Inl e \<Rightarrow> (t, Returned (Inl e))
      | Inr t1 \<Rightarrow>
          (case timeout_set of
             Inl e \<Rightarrow> (t1, Returned (Inl (SocketConfigError e)))
           | Inr _ \<Rightarrow> (t1, await_handshake handshake)))"

section \<open>Channels\<close>

text \<open>
  Opening: \<open>open_stream\<close> on the association, then the channel with its calls. The stream number
  advances by 2 after success; the addition panics at the end of its range.
\<close>

definition open_data_channel ::
  "string \<Rightarrow> string \<Rightarrow> data_channel_type \<Rightarrow> u32 \<Rightarrow> u16 \<Rightarrow> lock_result \<Rightarrow> string + unit \<Rightarrow>
     configure_call \<Rightarrow> unit stream_call \<Rightarrow> (nat \<times> read_call) list \<Rightarrow> 'a sctp_transport \<Rightarrow>
     'a sctp_transport \<times> stream_effect list \<times> (sctp_transport_error + data_channel) call_outcome" where
  "open_data_channel binary_name label dc_type reliability_param timeout assoc_lock stream_opened conf open_call rounds t =
     (case assoc_lock of
        Inl e \<Rightarrow> (t, [], Returned (Inl (PoisonedLock e)))
      | Inr _ \<Rightarrow>
          (case stream_opened of
             Inl e \<Rightarrow> (t, [], Returned (Inl (OpenStreamError e)))
           | Inr _ \<Rightarrow>
               (case channel_open binary_name label (next_stream_id t) dc_type reliability_param timeout conf open_call rounds of
                  (effects, None) \<Rightarrow> (t, effects, Running)
                | (effects, Some (Inl e)) \<Rightarrow>
                    (t, effects, Returned (Inl (OpenDataChannelError (show_data_channel_error e))))
                | (effects, Some (Inr dc)) \<Rightarrow>
                    (case add_chk (next_stream_id t) 2 of
                       None \<Rightarrow> (t, effects, Panicked)
                     | Some n \<Rightarrow> (t\<lparr>next_stream_id := n\<rparr>, effects, Returned (Inr dc))))))"

text \<open>
  Accepting: per round the flag, the lock and the stream the association reports; the channel's calls
  for the stream that is accepted.
\<close>

fun accept_data_channel ::
  "u16 \<Rightarrow> configure_call \<Rightarrow> (nat \<times> read_call) list \<Rightarrow> unit stream_call \<Rightarrow> (bool \<times> (string + u16 option)) list \<Rightarrow>
     stream_effect list \<times> (sctp_transport_error + data_channel) call_outcome" where
  "accept_data_channel timeout conf reads ack_call [] = ([], Running)"
| "accept_data_channel timeout conf reads ack_call ((connected, polled) # rounds) =
     (if \<not> connected then ([], Returned (Inl (ConnectError [])))
      else case polled of
             Inl e \<Rightarrow> ([], Returned (Inl (PoisonedLock e)))
           | Inr None \<Rightarrow> accept_data_channel timeout conf reads ack_call rounds
           | Inr (Some sid) \<Rightarrow>
               (case from_accepted_stream sid timeout conf reads ack_call of
                  (effects, None) \<Rightarrow> (effects, Running)
                | (effects, Some (Inl e)) \<Rightarrow> (effects, Returned (Inl (MapError (show_data_channel_error e))))
                | (effects, Some (Inr dc)) \<Rightarrow> (effects, Returned (Inr dc))))"

section \<open>The event loop\<close>

datatype ('a, 'e) datagram_event = AssociationEvent 'e | NewAssociation 'a

text \<open>
  \<open>handle_incoming\<close>: what the endpoint made of the datagram, and the locks of the association and of
  the handle (for reading and for writing).
\<close>

definition sctp_handle_incoming ::
  "('a \<Rightarrow> 'e \<Rightarrow> 'a) \<Rightarrow> lock_result \<Rightarrow> (nat \<times> ('a, 'e) datagram_event) option \<Rightarrow> lock_result \<Rightarrow> lock_result \<Rightarrow> lock_result \<Rightarrow>
     'a sctp_transport \<Rightarrow> 'a sctp_transport \<times> (sctp_transport_error + unit)" where
  "sctp_handle_incoming assoc_handle_event endpoint_lock event assoc_lock handle_read handle_write t =
     (case endpoint_lock of
        Inl e \<Rightarrow> (t, Inl (PoisonedLock e))
      | Inr _ \<Rightarrow>
          (case event of
             None \<Rightarrow> (t, Inr ())
           | Some (h, AssociationEvent ev) \<Rightarrow>
               (case assoc_lock of
                  Inl e \<Rightarrow> (t, Inl (PoisonedLock e))
                | Inr _ \<Rightarrow> (t\<lparr>association := assoc_handle_event (association t) ev\<rparr>, Inr ()))
           | Some (h, NewAssociation a) \<Rightarrow>
               (case handle_read of
                  Inl e \<Rightarrow> (t, Inl (PoisonedLock e))
                | Inr _ \<Rightarrow>
                    if association_handle t = None then
                      (case assoc_lock of
                         Inl e \<Rightarrow> (t, Inl (PoisonedLock e))
                       | Inr _ \<Rightarrow>
                           (case handle_write of
                              Inl e \<Rightarrow> (t\<lparr>association := a\<rparr>, Inl (PoisonedLock e))
                            | Inr _ \<Rightarrow> (t\<lparr>association := a, association_handle := Some h\<rparr>, Inr ())))
                    else (t, Inr ()))))"

text \<open>The chunks of one transmission with the result of each \<open>send\<close>; \<open>None\<close>: not a raw payload.\<close>

fun send_chunks_raw :: "(bytes \<times> (string + unit)) list \<Rightarrow> bytes list \<times> (sctp_transport_error + unit)" where
  "send_chunks_raw [] = ([], Inr ())"
| "send_chunks_raw ((chunk, sent) # rest) =
     (case sent of
        Inl e \<Rightarrow> ([], Inl (IOError e))
      | Inr _ \<Rightarrow> apfst (Cons chunk) (send_chunks_raw rest))"

definition send_transmit ::
  "(bytes \<times> (string + unit)) list option \<Rightarrow> bytes list \<times> (sctp_transport_error + unit)" where
  "send_transmit payload = (case payload of None \<Rightarrow> ([], Inr ()) | Some cs \<Rightarrow> send_chunks_raw cs)"

text \<open>
  A transmit loop: each poll takes the lock and returns a transmission or, at the end, nothing. The
  result: the datagrams sent, and whether the thread goes on.
\<close>

fun transmit_loop ::
  "(lock_result \<times> (bytes \<times> (string + unit)) list option option) list \<Rightarrow> bytes list \<times> bool" where
  "transmit_loop [] = ([], True)"
| "transmit_loop ((lock, transmit) # polls) =
     (case lock of
        Inl e \<Rightarrow> ([], False)
      | Inr _ \<Rightarrow>
          (case transmit of
             None \<Rightarrow> ([], True)
           | Some p \<Rightarrow>
               (case send_transmit p of
                  (out, Inl e) \<Rightarrow> (out, False)
                | (out, Inr _) \<Rightarrow> apfst (append out) (transmit_loop polls))))"

text \<open>The endpoint events of the association: the handle and the endpoint are locked for each.\<close>

fun endpoint_events :: "nat option \<Rightarrow> (lock_result \<times> lock_result) list \<Rightarrow> bool" where
  "endpoint_events h [] = True"
| "endpoint_events h ((handle_read, endpoint_lock) # rest) =
     (case handle_read of
        Inl e \<Rightarrow> False
      | Inr _ \<Rightarrow>
          (case h of
             None \<Rightarrow> False
           | Some _ \<Rightarrow> (case endpoint_lock of Inl e \<Rightarrow> False | Inr _ \<Rightarrow> endpoint_events h rest)))"

text \<open>The events of the association are only logged.\<close>

fun handle_association_events :: "lock_result list \<Rightarrow> sctp_transport_error + unit" where
  "handle_association_events [] = Inr ()"
| "handle_association_events (Inl e # rest) = Inl (PoisonedLock e)"
| "handle_association_events (Inr _ # rest) = handle_association_events rest"

datatype 'd recv_result = Received 'd | WouldBlock | RecvError string

text \<open>
  A round of the event loop. \<open>timer\<close>: the association after \<open>handle_timeout\<close>, when its deadline has passed.
\<close>

record ('a, 'e) loop_round =
  still_connected :: bool
  received :: "(nat \<times> ('a, 'e) datagram_event) option recv_result"
  lock_endpoint :: lock_result
  lock_assoc_in :: lock_result
  lock_handle_in :: lock_result
  lock_handle_write :: lock_result
  lock_handle :: lock_result
  lock_assoc :: lock_result
  timer :: "('a \<Rightarrow> 'a) option"
  ep_events :: "(lock_result \<times> lock_result) list"
  assoc_polls :: "lock_result list"
  assoc_transmits :: "(lock_result \<times> (bytes \<times> (string + unit)) list option option) list"
  ep_transmits :: "(lock_result \<times> (bytes \<times> (string + unit)) list option option) list"

text \<open>The part of a round that runs once an association exists.\<close>

definition drive_association :: "('a, 'e) loop_round \<Rightarrow> 'a sctp_transport \<Rightarrow> 'a sctp_transport \<times> bytes list \<times> bool" where
  "drive_association r t =
     (case lock_assoc r of
        Inl e \<Rightarrow> (t, [], False)
      | Inr _ \<Rightarrow>
          (let t1 = (case timer r of None \<Rightarrow> t | Some f \<Rightarrow> t\<lparr>association := f (association t)\<rparr>)
           in if \<not> endpoint_events (association_handle t1) (ep_events r) then (t1, [], False)
              else case handle_association_events (assoc_polls r) of
                     Inl e \<Rightarrow> (t1, [], False)
                   | Inr _ \<Rightarrow>
                       (case transmit_loop (assoc_transmits r) of
                          (out, False) \<Rightarrow> (t1, out, False)
                        | (out, True) \<Rightarrow>
                            (case transmit_loop (ep_transmits r) of (out2, go) \<Rightarrow> (t1, out @ out2, go)))))"

definition sctp_receive_round :: "('a \<Rightarrow> 'e \<Rightarrow> 'a) \<Rightarrow> ('a, 'e) loop_round \<Rightarrow> 'a sctp_transport \<Rightarrow> 'a sctp_transport option" where
  "sctp_receive_round assoc_handle_event r t =
     (case received r of
        Received d \<Rightarrow>
          Some (fst (sctp_handle_incoming assoc_handle_event (lock_endpoint r) d (lock_assoc_in r) (lock_handle_in r)
                       (lock_handle_write r) t))
      | WouldBlock \<Rightarrow> Some t
      | RecvError e \<Rightarrow> None)"

definition loop_round_step ::
  "('a \<Rightarrow> 'e \<Rightarrow> 'a) \<Rightarrow> ('a, 'e) loop_round \<Rightarrow> 'a sctp_transport \<Rightarrow> 'a sctp_transport \<times> bytes list \<times> bool" where
  "loop_round_step assoc_handle_event r t =
     (case sctp_receive_round assoc_handle_event r t of
        None \<Rightarrow> (t, [], False)
      | Some t1 \<Rightarrow>
          (case lock_handle r of
             Inl e \<Rightarrow> (t1, [], False)
           | Inr _ \<Rightarrow> if association_handle t1 = None then (t1, [], True) else drive_association r t1))"

fun event_loop ::
  "('a \<Rightarrow> 'e \<Rightarrow> 'a) \<Rightarrow> ('a, 'e) loop_round list \<Rightarrow> 'a sctp_transport \<Rightarrow> bytes list \<Rightarrow> 'a sctp_transport \<times> bytes list" where
  "event_loop assoc_handle_event [] t out = (t, out)"
| "event_loop assoc_handle_event (r # rs) t out =
     (if \<not> still_connected r then (t, out)
      else case loop_round_step assoc_handle_event r t of
             (t1, o1, go) \<Rightarrow> if go then event_loop assoc_handle_event rs t1 (out @ o1) else (t1, out @ o1))"

section \<open>Stream numbers\<close>

text \<open>The arguments of one \<open>open_data_channel\<close>, and a sequence of openings: the streams of the channels obtained.\<close>

record open_args =
  oa_label :: string
  oa_type :: data_channel_type
  oa_reliability :: u32
  oa_lock :: lock_result
  oa_stream :: "string + unit"
  oa_conf :: configure_call
  oa_write :: "unit stream_call"
  oa_rounds :: "(nat \<times> read_call) list"

definition open_with :: "string \<Rightarrow> u16 \<Rightarrow> open_args \<Rightarrow> 'a sctp_transport \<Rightarrow>
    'a sctp_transport \<times> stream_effect list \<times> (sctp_transport_error + data_channel) call_outcome" where
  "open_with binary_name timeout x =
     open_data_channel binary_name (oa_label x) (oa_type x) (oa_reliability x) timeout (oa_lock x) (oa_stream x) (oa_conf x)
       (oa_write x) (oa_rounds x)"

fun opened_streams :: "string \<Rightarrow> u16 \<Rightarrow> open_args list \<Rightarrow> 'a sctp_transport \<Rightarrow> u16 list" where
  "opened_streams binary_name timeout [] t = []"
| "opened_streams binary_name timeout (x # xs) t =
     (case open_with binary_name timeout x t of
        (t1, effects, Returned (Inr dc)) \<Rightarrow> stream_id dc # opened_streams binary_name timeout xs t1
      | (t1, effects, Returned (Inl e)) \<Rightarrow> opened_streams binary_name timeout xs t1
      | (t1, effects, _) \<Rightarrow> [])"

lemma channel_open_stream: "channel_open bn l sid ty rel to conf w rs = (effects, Some (Inr dc)) \<Longrightarrow> stream_id dc = sid"
  by (auto simp: channel_open_def split: sum.splits option.splits)

lemma open_outcome:
  assumes "open_with bn to x t = (t1, effects, r)"
  shows "case r of
      Returned (Inr dc) \<Rightarrow> stream_id dc = next_stream_id t \<and> add_chk (next_stream_id t) 2 = Some (next_stream_id t1)
    | _ \<Rightarrow> t1 = t"
  using assms
  by (auto simp: open_with_def open_data_channel_def dest: channel_open_stream
        split: sum.splits option.splits prod.splits call_outcome.splits)

lemma opened_streams_cases:
  fixes t :: "'a sctp_transport"
  obtains (ended) "opened_streams bn to (x # xs) t = []"
    | (failed) "opened_streams bn to (x # xs) t = opened_streams bn to xs t"
    | (opened) t1 :: "'a sctp_transport" where "opened_streams bn to (x # xs) t = next_stream_id t # opened_streams bn to xs t1"
        "unat (next_stream_id t1) = unat (next_stream_id t) + 2"
proof -
  obtain t1 effects r where o: "open_with bn to x t = (t1, effects, r)" by (cases "open_with bn to x t") auto
  note out = open_outcome[OF o]
  show thesis
  proof (cases r)
    case (Returned v)
    then show thesis
      using o out that(2,3) add_chk_unat[of "next_stream_id t" 2 "next_stream_id t1"] by (cases v) simp_all
  qed (use o that(1) in simp_all)
qed

declare opened_streams.simps(2) [simp del]

text \<open>Later channels have larger stream numbers of the same parity.\<close>

lemma opened_above:
  "sid \<in> set (opened_streams bn to xs t) \<Longrightarrow>
     unat (next_stream_id t) \<le> unat sid \<and> unat sid mod 2 = unat (next_stream_id t) mod 2"
proof (induction xs arbitrary: t)
  case (Cons x xs)
  show ?case
  proof (cases rule: opened_streams_cases[of bn to x xs t])
    case (opened t1)
    then show ?thesis using Cons.prems Cons.IH[of t1] by fastforce
  qed (use Cons in simp_all)
qed simp

lemma opened_distinct: "distinct (opened_streams bn to xs t)"
proof (induction xs arbitrary: t)
  case (Cons x xs)
  show ?case
  proof (cases rule: opened_streams_cases[of bn to x xs t])
    case (opened t1)
    then show ?thesis using Cons[of t1] opened_above[of "next_stream_id t" bn to xs t1] by auto
  qed (use Cons in simp_all)
qed simp

text \<open>
  The connecting end starts at stream 1 and opens its channels on odd streams, the accepting end at 0 and on even ones: whatever
  both ends open, and whichever attempts fail in between, the streams of all channels are different.
\<close>

lemma opened_disjoint:
  assumes "next_stream_id client = 1" and "next_stream_id server = 0"
  shows "distinct (opened_streams bn t1 xs client @ opened_streams bn t2 ys server) \<and>
     (\<forall>sid \<in> set (opened_streams bn t1 xs client). odd (unat sid)) \<and>
     (\<forall>sid \<in> set (opened_streams bn t2 ys server). even (unat sid))"
proof -
  have "\<forall>sid \<in> set (opened_streams bn t1 xs client). odd (unat sid)"
    "\<forall>sid \<in> set (opened_streams bn t2 ys server). even (unat sid)"
    using assms opened_above[of _ bn t1 xs client] opened_above[of _ bn t2 ys server]
    by (auto simp: odd_iff_mod_2_eq_one even_iff_mod_2_eq_zero)
  then show ?thesis
    using opened_distinct[of bn t1 xs client] opened_distinct[of bn t2 ys server] by auto
qed

text \<open>Two openings of the client with a failed one between them, one of the server.\<close>

definition sample_args :: open_args where
  "sample_args = \<lparr>oa_label = ''files'', oa_type = Reliable, oa_reliability = 0, oa_lock = Inr (), oa_stream = Inr (),
     oa_conf = (CallOk (), Inr ()), oa_write = CallOk (),
     oa_rounds = [(1, CallOk (Some (Dcep, Inr (dcep_to_bytes DataChannelAck))))]\<rparr>"

definition sample_failed :: open_args where
  "sample_failed = sample_args\<lparr>oa_rounds := [(700, CallOk None)]\<rparr>"

lemma sample_open_ok:
  "open_with bn 500 sample_args t =
     (case add_chk (next_stream_id t) 2 of
        None \<Rightarrow> (t, fst (snd (open_with bn 500 sample_args t)), Panicked)
      | Some n \<Rightarrow>
          (t\<lparr>next_stream_id := n\<rparr>, fst (snd (open_with bn 500 sample_args t)), Returned (Inr \<lparr>stream_id = next_stream_id t\<rparr>)))"
proof -
  have "dcep_from_bytes (dcep_buffer [2]) = Some DataChannelAck"
    using dcep.dec_zero_padded[of DataChannelAck] by (simp add: dcep_buffer_def)
  then show ?thesis
    by (simp add: open_with_def open_data_channel_def sample_args_def channel_open_def configure_stream_def write_dcep_def
          write_with_ppi_def ack_timed_out_def read_chunks_def split: option.split)
qed

lemma sample_open_failed:
  "\<exists>e. open_with bn 500 sample_failed t = (t, fst (snd (open_with bn 500 sample_failed t)), Returned (Inl e)) \<and>
     length (fst (snd (open_with bn 500 sample_failed t))) = 2 \<and> (\<exists>m. e = OpenDataChannelError m)"
  by (simp add: open_with_def open_data_channel_def sample_failed_def sample_args_def channel_open_def configure_stream_def
        write_dcep_def write_with_ppi_def ack_timed_out_def)

lemma sample_streams:
  "unat (next_stream_id t) + 2 < 2 ^ 16 \<Longrightarrow>
     opened_streams bn 500 (sample_args # xs) t =
       next_stream_id t # opened_streams bn 500 xs (t\<lparr>next_stream_id := next_stream_id t + 2\<rparr>)"
  "opened_streams bn 500 (sample_failed # xs) t = opened_streams bn 500 xs t"
proof -
  assume n: "unat (next_stream_id t) + 2 < 2 ^ 16"
  obtain e where "open_with bn 500 sample_args t =
      (t\<lparr>next_stream_id := next_stream_id t + 2\<rparr>, e, Returned (Inr \<lparr>stream_id = next_stream_id t\<rparr>))"
    using sample_open_ok[of bn t] n by (auto simp: add_chk_def)
  then show "opened_streams bn 500 (sample_args # xs) t =
      next_stream_id t # opened_streams bn 500 xs (t\<lparr>next_stream_id := next_stream_id t + 2\<rparr>)"
    by (simp add: opened_streams.simps)
next
  obtain e w where "open_with bn 500 sample_failed t = (t, w, Returned (Inl e))" using sample_open_failed[of bn t] by blast
  then show "opened_streams bn 500 (sample_failed # xs) t = opened_streams bn 500 xs t" by (simp add: opened_streams.simps)
qed

section \<open>What the event loop keeps\<close>

lemma sctp_incoming_keeps:
  "association_handle t = Some h \<Longrightarrow> association_handle (fst (sctp_handle_incoming f l e al hr hw t)) = Some h"
  "next_stream_id (fst (sctp_handle_incoming f l e al hr hw t)) = next_stream_id t"
  by (auto simp: sctp_handle_incoming_def split: sum.splits option.splits datagram_event.splits)

lemma drive_keeps:
  "association_handle (fst (drive_association r t)) = association_handle t"
  by (auto simp: drive_association_def Let_def split: sum.splits option.splits prod.splits bool.splits)

lemma receive_keeps:
  "sctp_receive_round f r t = Some t1 \<Longrightarrow> association_handle t = Some h \<Longrightarrow> association_handle t1 = Some h"
  by (auto simp: sctp_receive_round_def sctp_incoming_keeps split: recv_result.splits)

lemma step_keeps:
  "association_handle t = Some h \<Longrightarrow> association_handle (fst (loop_round_step f r t)) = Some h"
  "association_handle (fst (loop_round_step f r t)) = None \<Longrightarrow> fst (snd (loop_round_step f r t)) = []"
  by (auto simp: loop_round_step_def drive_keeps dest: receive_keeps split: option.splits sum.splits if_splits)

text \<open>
  An association that exists is never replaced: later requests for a new one are ignored. As
  long as none exists, the event loop sends nothing.
\<close>
lemma association_adopted_once:
  "(\<forall>h. association_handle t = Some h \<longrightarrow> association_handle (fst (event_loop f rs t out)) = Some h) \<and>
   (association_handle (fst (event_loop f rs t out)) = None \<longrightarrow> snd (event_loop f rs t out) = out)"
proof (induction rs arbitrary: t out)
  case (Cons r rs)
  obtain t1 o1 go where s: "loop_round_step f r t = (t1, o1, go)" by (cases "loop_round_step f r t") auto
  have k: "association_handle t = Some h \<Longrightarrow> association_handle t1 = Some h" for h using step_keeps(1)[of t h f r] s by simp
  have e: "association_handle t1 = None \<Longrightarrow> o1 = []" using step_keeps(2)[of f r t] s by simp
  have none_before: "association_handle (fst (event_loop f rs t1 (out @ o1))) = None \<Longrightarrow> association_handle t1 = None"
    using Cons.IH[of t1 "out @ o1"] by (cases "association_handle t1") auto
  have step: "event_loop f (r # rs) t out =
      (if \<not> still_connected r then (t, out) else if go then event_loop f rs t1 (out @ o1) else (t1, out @ o1))"
    using s by simp
  show ?case
  proof (cases "still_connected r \<and> go")
    case True
    then have eq: "event_loop f (r # rs) t out = event_loop f rs t1 (out @ o1)" unfolding step by simp
    note IH = Cons.IH[of t1 "out @ o1"]
    have "association_handle (fst (event_loop f rs t1 (out @ o1))) = Some h" if "association_handle t = Some h" for h
      using IH k[OF that] by blast
    moreover have "snd (event_loop f rs t1 (out @ o1)) = out"
      if n: "association_handle (fst (event_loop f rs t1 (out @ o1))) = None"
    proof -
      have "snd (event_loop f rs t1 (out @ o1)) = out @ o1" using IH n by blast
      then show ?thesis using e[OF none_before[OF n]] by (simp only: append_Nil2)
    qed
    ultimately show ?thesis unfolding eq by blast
  next
    case False
    then show ?thesis unfolding step using k e by (cases "still_connected r") simp_all
  qed
qed simp

text \<open>
  An opening that fails after its message was sent leaves the stream number as it was: the next one
  uses the stream that is already open.
\<close>
theorem failed_open_reuses_stream:
  "case open_with bn 500 sample_failed t of
     (t1, effects, r) \<Rightarrow>
       (\<exists>e. r = Returned (Inl (OpenDataChannelError e))) \<and> length effects = 2 \<and> next_stream_id t1 = next_stream_id t"
  using sample_open_failed[of bn t] by (auto split: prod.splits)

end
