(* ===== verification/Error_Display.thy ===== *)
theory Error_Display
  imports Controller Sctp_Transport
begin

text \<open>
  The messages of the error types, their \<open>Display\<close> implementations: what the interface shows and the log records.
  The text of an error of the operating system or of the certificate library that the models keep without
  its message is the argument \<open>txt\<close>; an address that does not parse has the message of the standard library.
\<close>

section \<open>Sessions\<close>

fun show_sdp_error :: "sdp_error \<Rightarrow> string" where
  "show_sdp_error sdp_error.InvalidPriorityError = ''Error: \"Invalid priority\"''"
| "show_sdp_error sdp_error.InvalidPortError = ''Error: \"Invalid port number\"''"
| "show_sdp_error sdp_error.InvalidComponentIdError = ''Error: \"Invalid component id\"''"
| "show_sdp_error sdp_error.InvalidLineFormatError = ''Error: \"Invalid line format\"''"
| "show_sdp_error sdp_error.InvalidCandidateFormatError = ''Error: \"Invalid candidate format\"''"
| "show_sdp_error sdp_error.InvalidAttributeFormatError = ''Error: \"Invalid attribute format\"''"
| "show_sdp_error sdp_error.InvalidCandidateTypeError = ''Error: \"Invalid candidate type\"''"
| "show_sdp_error sdp_error.InvalidRtpMapFormatError = ''Error: \"Invalid RTP map format\"''"
| "show_sdp_error sdp_error.MissingEncodingNameError = ''Error: \"Missing encoding name\"''"
| "show_sdp_error sdp_error.MissingClockRateError = ''Error: \"Missing clock rate\"''"
| "show_sdp_error sdp_error.InvalidClockRateParsingError = ''Error: \"Invalid clock rate parsing error\"''"
| "show_sdp_error sdp_error.ExtraRtpFieldsError = ''Error: \"Extra RTP fields\"''"
| "show_sdp_error sdp_error.InvalidCandidateParsingError = ''Error: \"Invalid Candidate parsing error\"''"
| "show_sdp_error sdp_error.MissingFingerprintValueError = ''Error: \"Missing fingerprint value\"''"
| "show_sdp_error sdp_error.InvalidFingerprintFormatError = ''Error: \"Invalid fingerprint format\"''"
| "show_sdp_error sdp_error.InvalidSetupRoleError = ''Error: \"Invalid setup role\"''"
| "show_sdp_error sdp_error.MissingMediaDescriptionError = ''Error: \"Missing media description\"''"
| "show_sdp_error sdp_error.InvalidMediaDescriptionFormatError = ''Error: \"Invalid media description\"''"
| "show_sdp_error sdp_error.InvalidMediaDescriptionAttributeFormat =
     ''Error: \"Invalid media description attribute format\"''"
| "show_sdp_error sdp_error.InvalidFmtError = ''Error: \"Invalid fmt error\"''"
| "show_sdp_error sdp_error.UnmatchingMediaDescriptionAndAttributeError =
     ''Error: \"Unmatching media description and attribute\"''"

fun show_ice_error :: "ice_error \<Rightarrow> string" where
  "show_ice_error ice_error.NetworkInterfaceError = ''Error: \"could not obtain network interface\"''"
| "show_ice_error ice_error.NoNetworkInterfaceFound = ''Error: \"no network interface found\"''"
| "show_ice_error ice_error.InvalidCandidateAddress = ''Error: \"invalid candidate address\"''"
| "show_ice_error ice_error.InvalidCandidatePort = ''Error: \"invalid candidate port\"''"
| "show_ice_error ice_error.InvalidCandidateType = ''Error: \"invalid candidate type\"''"
| "show_ice_error ice_error.NoLocalCandidates = ''Error: \"no local candidate available\"''"
| "show_ice_error ice_error.NoRemoteCandidates = ''Error: \"no remote candidate available\"''"
| "show_ice_error ice_error.CandidatePairCreationFailed = ''Error: \"pair creation failed\"''"
| "show_ice_error ice_error.NoCandidatePairs = ''Error: \"no candidate pairs available\"''"
| "show_ice_error ice_error.InvalidConnectivityState = ''Error: \"invalid connectivity state\"''"
| "show_ice_error ice_error.UnsupportedCandidateType = ''Error: \"unsupported candidate type\"''"
| "show_ice_error ice_error.InternalError = ''Error: \"internal error\"''"
| "show_ice_error ice_error.NoSelectedPair = ''Error: \"no selected pair available\"''"

fun show_session_cause :: "string \<Rightarrow> session_cause \<Rightarrow> string" where
  "show_session_cause txt (FromSdp e) = show_sdp_error e"
| "show_session_cause txt (FromIce e) = show_ice_error e"
| "show_session_cause txt FromIo = txt"
| "show_session_cause txt FromCert = txt"

fun show_call_session_error :: "string \<Rightarrow> call_session_error \<Rightarrow> string" where
  "show_call_session_error txt call_session_error.BadAddress = ''Error: \"Bad address\"''"
| "show_call_session_error txt (call_session_error.SdpCreationError e) =
     ''Error: \"'' @ show_session_cause txt e @ ''\"''"
| "show_call_session_error txt (call_session_error.IceConnectionError e) =
     ''Error: \"'' @ show_session_cause txt e @ ''\"''"
| "show_call_session_error txt (call_session_error.SecurityInitializationError e) =
     ''Error: \"'' @ show_session_cause txt e @ ''\"''"
| "show_call_session_error txt (call_session_error.MapError e) = show_session_cause txt e"

section \<open>Transport and media\<close>

fun show_rtp_error :: "rtp_error \<Rightarrow> string" where
  "show_rtp_error rtp_error.AddrNotAvailable = ''Error: \"Address not available\"''"
| "show_rtp_error rtp_error.SocketConfigFailed = ''Error: \"Failed to configure socket\"''"
| "show_rtp_error rtp_error.SendFailed = ''Error: \"Failed to send RTP packet\"''"
| "show_rtp_error (rtp_error.ReceiveFailed e) = ''Error: \"Failed to receive RTP packet. Details: '' @ e @ ''\"''"
| "show_rtp_error rtp_error.InvalidRtpPacket = ''Error: \"Invalid or corrupted RTP packet\"''"
| "show_rtp_error rtp_error.SocketCloneFailed = ''Error: \"Failed to clone socket\"''"
| "show_rtp_error rtp_error.TerminateFailed = ''Error: \"Failed to terminate\"''"
| "show_rtp_error rtp_error.ConnectionClosed = ''Error: \"Connection closed\"''"
| "show_rtp_error (rtp_error.RTCPError e) = e"
| "show_rtp_error rtp_error.ConnectionStatusLockFailed = ''Error: \"Failed to acquire connection status lock\"''"
| "show_rtp_error rtp_error.PoisonedLock = ''Error: \"The mutex was poisoned\"''"
| "show_rtp_error (rtp_error.SrtpError e) = ''SRTP Error: \"'' @ e @ ''\"''"

fun show_rtcp_error :: "rtcp_error \<Rightarrow> string" where
  "show_rtcp_error rtcp_error.PoisonedLock = ''Error: Poisoned lock''"
| "show_rtcp_error rtcp_error.InvalidRTCPPacket = ''Error: \"Invalid or corrupted RTCP packet\"''"
| "show_rtcp_error rtcp_error.SocketCloneFailed = ''Error: \"Failed to clone socket\"''"
| "show_rtcp_error rtcp_error.SocketConfigFailed = ''Error: \"Failed to configure socket\"''"
| "show_rtcp_error rtcp_error.GoodbyeReceived = ''Error: \"Goodbye\"''"
| "show_rtcp_error rtcp_error.TimedOut = ''Error: \"Report receiver timed out\"''"
| "show_rtcp_error rtcp_error.ConnectionStatusLockFailed = ''Error: \"Failed to acquire connection status lock\"''"
| "show_rtcp_error rtcp_error.InvalidConfigDuration = ''Error: \"Invalid configuration duration\"''"
| "show_rtcp_error (rtcp_error.SendFailed e) = ''Error: \"Failed to send RTCP packet. Details: '' @ e @ ''\"''"
| "show_rtcp_error (rtcp_error.ReceiveFailed e) = ''Error: \"Failed to receive RTCP packet. Details: '' @ e @ ''\"''"
| "show_rtcp_error rtcp_error.UnexpectedMessage = ''Error: Unexpected message''"

fun show_srtp_error :: "string srtp_error \<Rightarrow> string" where
  "show_srtp_error srtp_error.KeyDerivationFailed = ''Key derivation failed''"
| "show_srtp_error srtp_error.EncryptionFailed = ''Encryption failed''"
| "show_srtp_error srtp_error.DecryptionFailed = ''Decryption failed''"
| "show_srtp_error srtp_error.AuthenticationFailed = ''Authentication failed''"
| "show_srtp_error srtp_error.PacketTooShort = ''Packet too short''"
| "show_srtp_error (srtp_error.OpenSslError e) = ''OpenSSL error: '' @ e"

fun show_media_transport_error :: "media_transport_error \<Rightarrow> string" where
  "show_media_transport_error (media_transport_error.BindingError e) =
     ''Error: \"Socket binding failed: '' @ e @ ''\"''"
| "show_media_transport_error (media_transport_error.SocketConnectionError e) =
     ''Error: \"Socket connection failed\": '' @ e"
| "show_media_transport_error (media_transport_error.MediaMapError e) = e"
| "show_media_transport_error (media_transport_error.CloningSocketError e) = ''Error: \"Socket clone failed\": '' @ e"
| "show_media_transport_error media_transport_error.ConnectionNotStarted = ''Error: \"Connection not started yet\"''"
| "show_media_transport_error media_transport_error.MediaSocketConfigFailed =
     ''Error: \"Failed to configure socket\"''"
| "show_media_transport_error (media_transport_error.ProtectionError e) =
     ''Error: \"Protection failed: '' @ e @ ''\"''"
| "show_media_transport_error (media_transport_error.MediaChannelSendError e) =
     ''Error: \"Failed to send through channel: '' @ e @ ''\"''"

fun show_sctp_error :: "sctp_transport_error \<Rightarrow> string" where
  "show_sctp_error (sctp_transport_error.ConnectError e) = ''Error: \"Failed to connect\". Details: '' @ e"
| "show_sctp_error (sctp_transport_error.OpenStreamError e) = ''Error: \"Failed to open stream\". Details: '' @ e"
| "show_sctp_error (sctp_transport_error.OpenDataChannelError e) = e"
| "show_sctp_error (sctp_transport_error.IOError e) = ''Error: \"I/O operation failed\". Details: '' @ e"
| "show_sctp_error (sctp_transport_error.PoisonedLock e) = ''Error: \"Poisoned lock\" . Details: '' @ e"
| "show_sctp_error (sctp_transport_error.SocketConfigError e) =
     ''Error: \"Failed to config socket\" . Details: '' @ e"
| "show_sctp_error (sctp_transport_error.MapError e) = e"

section \<open>Files and the controller\<close>

fun show_metadata_error :: "file_metadata_error \<Rightarrow> string" where
  "show_metadata_error file_metadata_error.MetadataError = ''Error: \"Failed to obtain metadata from file\"''"
| "show_metadata_error file_metadata_error.NameError = ''Error: \"Failed to obtain file name or invalid UTF-8\"''"

fun show_file_transferer_error :: "file_transferer_error \<Rightarrow> string" where
  "show_file_transferer_error (file_transferer_error.MapError e) = e"
| "show_file_transferer_error (file_transferer_error.FileReadError e) =
     ''Error: \"Error while reading a file\". Details: '' @ e"
| "show_file_transferer_error (file_transferer_error.FileWriteError e) =
     ''Error: \"Error while writing a file\". Details: '' @ e"
| "show_file_transferer_error (file_transferer_error.FileCreateError e) =
     ''Error: \"Error while creating a file\". Details: '' @ e"
| "show_file_transferer_error (file_transferer_error.ChannelSendError e) =
     ''Error: \"DataChannel send failed\". Details: '' @ e"
| "show_file_transferer_error file_transferer_error.UnexpectedIncomingMessage =
     ''Error: \"Unexpected Incoming Message\"''"
| "show_file_transferer_error file_transferer_error.UnknownIncomingMessage = ''Error: \"Unknown Incoming Message\"''"
| "show_file_transferer_error (file_transferer_error.LockError e) = ''Error: \"Lock error\". Details: '' @ e"
| "show_file_transferer_error (file_transferer_error.UnknownOfferId i) =
     ''Error: \"Unknown offer id\". Details: '' @ show_nat (unat i)"

fun show_controller_error :: "string \<Rightarrow> controller_error \<Rightarrow> string"
  and show_cause :: "string \<Rightarrow> error_cause \<Rightarrow> string" where
  "show_controller_error txt (controller_error.CtlError e) = e"
| "show_controller_error txt controller_error.ConnectingToServerFailed = ''Error: \"Connecting to server failed\"''"
| "show_controller_error txt (controller_error.IOError e) = ''Error: \"IO Error\". Details: '' @ e"
| "show_controller_error txt controller_error.BadResponse = ''Error: \"Unexpected response from the server\"''"
| "show_controller_error txt (controller_error.LogInFailed e) = ''Error: \"Failed to log in: '' @ e @ ''\"''"
| "show_controller_error txt (controller_error.SignUpFailed e) = ''Error: \"Failed to sign up: '' @ e @ ''\"''"
| "show_controller_error txt (controller_error.LogOutFailed e) = ''Error: \"Failed to log out: '' @ e @ ''\"''"
| "show_controller_error txt controller_error.ParsingSocketAddressError =
     ''Error: \"Failed to parse socket address\". Details: invalid socket address syntax''"
| "show_controller_error txt (controller_error.BindingAddressError e) =
     ''Error: \"Failed to bind socket\". Details: '' @ e"
| "show_controller_error txt (controller_error.ConnectionSocketError e) =
     ''Error: \"Failed to connect\". Details: '' @ e"
| "show_controller_error txt (controller_error.CtlCloningSocketError e) =
     ''Error: \"Failed to clone UDP socket\" Details: '' @ e"
| "show_controller_error txt controller_error.CtlPoisonedLock = ''Error: \"Poisoned lock\"''"
| "show_controller_error txt (controller_error.CtlMapError e) = show_cause txt e"
| "show_controller_error txt controller_error.CtlConnectionNotStarted = ''Error: \"Connection not started\"''"
| "show_controller_error txt controller_error.CtlConnectionClosed = ''Error: \"Connection closed\"''"
| "show_controller_error txt controller_error.NotLoggedInError = ''Error: \"Not logged in\"''"
| "show_controller_error txt (controller_error.CallError e) = ''Error: \"Start call failed\": '' @ e"
| "show_controller_error txt controller_error.CallRefused = ''Error: \"Call refused by peer\"''"
| "show_cause txt (FromText e) = e"
| "show_cause txt (FromController e) = show_controller_error txt e"
| "show_cause txt (FromSession e) = show_call_session_error txt e"
| "show_cause txt (FromMedia e) = show_media_transport_error e"
| "show_cause txt (FromFiles e) = show_file_transferer_error e"

section \<open>Candidates and reports in the log\<close>

definition show_candidate :: "candidate \<Rightarrow> string" where
  "show_candidate c =
     address c @ '':'' @ show_nat (unat (cand_port c)) @ ''@'' @ show_candidate_type (cand_type c) @ '' ('' @
     show_nat (unat (priority c)) @ '')''"

fun show_connectivity_state :: "connectivity_state \<Rightarrow> string" where
  "show_connectivity_state Waiting = ''Waiting''"
| "show_connectivity_state InProgress = ''In Progress''"
| "show_connectivity_state Succeeded = ''Succeeded''"
| "show_connectivity_state Failed = ''Failed''"

definition show_candidate_pair :: "candidate_pair \<Rightarrow> string" where
  "show_candidate_pair p =
     show_candidate (pair_local p) @ '' <-> '' @ show_candidate (pair_remote p) @ '' ['' @
     show_connectivity_state (pair_state p) @ ''] (priority: '' @ show_nat (unat (pair_priority p)) @ '')''"

end
