(* ===== verification/Widgets.thy ===== *)
theory Widgets
  imports Protocol Rtcp_Packet
begin

text \<open>
  The widgets of the graphical interface, \<^verbatim>\<open>src/ui/widget.rs\<close>: what each puts on the screen, as a list of
  elements in drawing order, and when it calls its callback. Sizes, fonts and spacing are left out, as
  are the pictographs (the strings have the ASCII part of a caption). Whether a button was clicked is
  reported by egui and is an argument.
\<close>

datatype color = Rgb nat nat nat | White | Gray | Khaki | Green | LightBlue | Red | Plain

datatype element =
    Image string
  | Text string color
  | Entry string bool string
  | Button string color
  | Circle color
  | Spinner

section \<open>Texts and buttons\<close>

definition logo :: element where
  "logo = Image ''assets/logo.png''"

definition title :: "string \<Rightarrow> element" where
  "title t = Text t White"

text \<open>A line of input with its hint, whether it is masked, and its contents.\<close>

definition text_input :: "string \<Rightarrow> string \<Rightarrow> bool \<Rightarrow> element" where
  "text_input v hint secret = Entry hint secret v"

definition primary_button :: "string \<Rightarrow> element" where
  "primary_button t = Button t (Rgb 45 120 255)"

definition neutral_button :: "string \<Rightarrow> element" where
  "neutral_button t = Button t (Rgb 60 60 60)"

definition danger_button :: "string \<Rightarrow> element" where
  "danger_button t = Button t (Rgb 180 50 50)"

definition call_action_button :: "string \<Rightarrow> element" where
  "call_action_button t = Button t (Rgb 0 122 255)"

definition big_avatar :: "element" where
  "big_avatar = Circle (Rgb 30 30 30)"

definition status_label :: "string \<Rightarrow> color \<Rightarrow> element" where
  "status_label t c = Text t c"

definition call_button :: "string \<Rightarrow> color \<Rightarrow> element" where
  "call_button t c = Button t c"

definition call_action_btn :: "string \<Rightarrow> color \<Rightarrow> element" where
  "call_action_btn t c = Button t c"

section \<open>The list of contacts\<close>

text \<open>The header of the user with the button to log out; the callback runs when it was clicked.\<close>

definition user_profile_header :: "string \<Rightarrow> element list" where
  "user_profile_header user = [Text user White, Image ''assets/exit_logo.png'']"

fun status_indicator :: "user_status \<Rightarrow> element" where
  "status_indicator Available = Circle (Rgb 50 200 50)"
| "status_indicator Offline = Circle (Rgb 60 60 60)"
| "status_indicator (Occupied p) = Circle (Rgb 200 50 50)"

definition contact_info :: "string \<Rightarrow> user_status \<Rightarrow> element list" where
  "contact_info user st =
     [status_indicator st, Text user White,
      Text (case split_on (CHR '':'') (show_user_status st) of [] \<Rightarrow> [] | s # _ \<Rightarrow> s) Gray]"

text \<open>The button to call is there for available users only. The second component: is the callback run?\<close>

fun contact_actions :: "user_status \<Rightarrow> bool \<Rightarrow> element list \<times> bool" where
  "contact_actions Available call_clicked = ([call_action_button ''Call''], call_clicked)"
| "contact_actions (Occupied p) call_clicked = ([Text (''In call with '' @ p) Gray], False)"
| "contact_actions Offline call_clicked = ([], False)"

definition contact_card :: "string \<Rightarrow> user_status \<Rightarrow> bool \<Rightarrow> element list \<times> bool" where
  "contact_card user st call_clicked =
     (case contact_actions st call_clicked of (els, called) \<Rightarrow> (contact_info user st @ els, called))"

section \<open>Statistics and files\<close>

definition network_stats_panel :: "call_stats \<Rightarrow> element list" where
  "network_stats_panel st =
     [Text ''NETWORK DIAGNOSTICS'' (Rgb 0 150 255),
      Text ''Jitter:'' Gray, Text (show_nat (unat (jitter (remote_receiver st))) @ '' ms'') Plain,
      Text ''Packets Lost:'' Gray,
      Text (show_nat (unat (packets_lost (remote_receiver st))))
        (if 0 < packets_lost (remote_receiver st) then Khaki else Green),
      Text ''Sent / Received:'' Gray,
      Text (show_nat (unat (packets_sent (local_sender st))) @ '' / '' @
            show_nat (unat (packets_received (local_receiver st)))) Plain]"

definition file_card :: "string \<Rightarrow> u64 \<Rightarrow> element list \<Rightarrow> element list" where
  "file_card name sz contents = [Text name White, Text (show_nat (unat sz) @ '' B'') Gray] @ contents"

section \<open>Who can be called\<close>

lemma split_on_hd:
  "d \<notin> set a \<Longrightarrow> (case split_on d (a @ d # s) of [] \<Rightarrow> [] | x # _ \<Rightarrow> x) = a"
  by simp

text \<open>
  A card shows the state of the contact by name, without the peer, and runs the callback exactly for a
  click on an available contact.
\<close>
lemma contact_card_correct:
  "contact_card user st clk =
     ([status_indicator st, Text user White,
       Text (case st of Available \<Rightarrow> ''Available'' | Occupied p \<Rightarrow> ''Occupied'' | Offline \<Rightarrow> ''Offline'') Gray] @
      (case st of Available \<Rightarrow> [call_action_button ''Call''] | Occupied p \<Rightarrow> [Text (''In call with '' @ p) Gray] | Offline \<Rightarrow> []),
      st = Available \<and> clk)"
proof (cases st)
  case (Occupied p)
  then show ?thesis
    using split_on_hd[of "CHR '':''" "''Occupied''" p] by (simp add: contact_card_def contact_info_def)
qed (simp_all add: contact_card_def contact_info_def)

end
