(* ===== verification/User_Interface.thy ===== *)
theory User_Interface
  imports Client_Server Error_Display Widgets "HOL-Library.AList"
begin

text \<open>
  The graphical interface, \<^verbatim>\<open>src/ui/interface.rs\<close> with the views of \<^verbatim>\<open>src/ui/views.rs\<close>, as a state machine: a frame of the
  interface drains the events of the background threads, looks after the file dialogs and draws the
  current view, whose buttons call the controller. What egui reports in a frame (clicks, typed text), the
  time, the answers of the file dialogs and the outcomes of the controller's calls are arguments. Textures
  are shared between the interface and the threads that fill them, so they live in a store. \<open>None\<close> is a
  panic of a controller operation.
\<close>

section \<open>State\<close>

datatype view =
    Welcome
  | SignUp
  | LogIn
  | CallHub
  | Calling string
  | CallIncoming string session_description
  | CallEnded
  | Call string string
  | Error
  | FatalError
  | FullServer

datatype gui_error = GuiMapError string | EmptyReceiver | ControllerDisconnected

fun show_gui_error :: "gui_error \<Rightarrow> string" where
  "show_gui_error (GuiMapError e) = ''Error: \"'' @ e @ ''\"''"
| "show_gui_error EmptyReceiver = ''Error: \"Receiver not started\"''"
| "show_gui_error ControllerDisconnected = ''Error: \"Controller disconnected\"''"

text \<open>
  Frame channels are numbers, textures addresses in \<open>textures\<close> (\<open>next_texture\<close> is the next free one), and
  \<open>texture_threads\<close> the channels read by texture threads with the texture they fill. \<open>file_send_rx\<close> is
  \<open>Some True\<close> while the dialog is open and \<open>Some False\<close> once it was cancelled; \<open>file_save_rx\<close> holds what the thread
  of the dialog sends back. \<open>closing\<close> and \<open>exited\<close> record the close command and \<open>process::exit\<close>.
\<close>

record app =
  app_view :: view
  ctl :: controller
  event_rx :: "app_event list"
  local_frame_rx :: "nat option"
  remote_frame_rx :: "nat option"
  username_buff :: string
  password_buff :: string
  local_texture :: nat
  remote_texture :: nat
  textures :: "nat \<Rightarrow> frame option"
  next_texture :: nat
  texture_threads :: "(nat \<times> nat) list"
  error_msg :: "string option"
  warning_msg :: "string option"
  last_stats :: "call_stats option"
  time_call_incoming :: "nat option"
  file_offers :: "(u32 \<times> file_metadata) list"
  file_downloads :: "(u32 \<times> file_metadata) list"
  file_send_rx :: "bool option"
  file_save_rx :: "(u32 \<times> file_metadata) option"
  is_muted :: bool
  closing :: bool
  exited :: bool

text \<open>What a call of the controller depends on; \<open>ce_frames\<close> are the channels of the pipeline when it starts.\<close>

record 'v6 call_env =
  ce_link :: "'v6 link_env"
  ce_second :: "'v6 socket_addr \<Rightarrow> controller_error + unit"
  ce_stop :: stop_calls
  ce_transport :: "(media_transport_error + media_transport) option"
  ce_cloned :: "string + unit"
  ce_session :: "(call_session_error + call_session) option"
  ce_timeout :: bool
  ce_pings :: "nat \<Rightarrow> ping_event list"
  ce_join :: join_calls
  ce_frames :: "nat \<times> nat"
  ce_opened :: "string + unit"
  ce_name :: "string option"
  ce_len :: "u64 option"
  ce_channel :: "string + nat"
  ce_sent :: "string + unit"
  ce_created :: "string + unit"
  ce_text :: string

text \<open>What a frame observes. Times are milliseconds.\<close>

record 'v6 frame_env =
  fe_clicked :: "string \<Rightarrow> bool"
  fe_typed :: "string \<Rightarrow> string \<Rightarrow> string"
  fe_dismiss :: bool
  fe_logout :: bool
  fe_call_clicked :: "string \<Rightarrow> bool"
  fe_accept_clicked :: "u32 \<Rightarrow> bool"
  fe_reject_clicked :: "u32 \<Rightarrow> bool"
  fe_table_poisoned :: bool
  fe_contacts :: "(string \<rightharpoonup> user_status) \<Rightarrow> (string \<times> user_status) list"
  fe_now :: nat
  fe_clock :: u128
  fe_save_answer :: "string option option"
  fe_send_answer :: "string option option"
  fe_events :: "nat \<Rightarrow> 'v6 call_env"
  fe_files :: "'v6 call_env"
  fe_view :: "'v6 call_env"
  fe_contact :: "string \<Rightarrow> 'v6 call_env"
  fe_offer :: "u32 \<Rightarrow> 'v6 call_env"

text \<open>\<open>RoomRTCApp::new\<close> with the controller of \<open>init_controller\<close>: \<open>None\<close> is the exit when it fails.\<close>

definition init_controller ::
  "'v6 link_env \<Rightarrow> string \<Rightarrow> (controller_error + controller) \<Rightarrow> app_event list \<times> (gui_error + controller)" where
  "init_controller env txt made =
     (case made of
        Inl e \<Rightarrow> ([], Inl (GuiMapError (show_controller_error txt e)))
      | Inr c \<Rightarrow>
          (case initial_handshake env True of
             (evs, Inl e) \<Rightarrow> (evs, Inl (GuiMapError (show_controller_error txt e)))
           | (evs, Inr _) \<Rightarrow> (evs, Inr c)))"

definition app_init :: "controller \<Rightarrow> app_event list \<Rightarrow> app" where
  "app_init c evs =
     \<lparr>app_view = Welcome, ctl = c, event_rx = evs, local_frame_rx = None, remote_frame_rx = None,
      username_buff = [], password_buff = [], local_texture = 0, remote_texture = 1, textures = (\<lambda>_. None),
      next_texture = 2, texture_threads = [], error_msg = None, warning_msg = None, last_stats = None,
      time_call_incoming = None, file_offers = [], file_downloads = [], file_send_rx = None,
      file_save_rx = None, is_muted = False, closing = False, exited = False\<rparr>"

definition app_new ::
  "'v6 link_env \<Rightarrow> string \<Rightarrow> (controller_error + controller) \<Rightarrow> app option" where
  "app_new env txt made =
     (case init_controller env txt made of
        (evs, Inl e) \<Rightarrow> None
      | (evs, Inr c) \<Rightarrow> Some (app_init c evs))"

section \<open>Calls of the controller\<close>

text \<open>The controller's events go to the channel the interface reads.\<close>

definition with_ctl :: "app \<Rightarrow> controller \<Rightarrow> app_event list \<Rightarrow> app" where
  "with_ctl a c evs = a\<lparr>ctl := c, event_rx := event_rx a @ evs\<rparr>"

definition app_hang_up :: "'v6 call_env \<Rightarrow> app \<Rightarrow> (app \<times> (controller_error + unit)) option" where
  "app_hang_up e a =
     map_option (\<lambda>(c, evs, r). (with_ctl a c evs, r))
       (hang_up (ce_link e) (ce_stop e) (ce_transport e) (ce_cloned e) (ce_session e) (ctl a))"

definition app_reject_call :: "'v6 call_env \<Rightarrow> string \<Rightarrow> app \<Rightarrow> app \<times> (controller_error + unit)" where
  "app_reject_call e peer_name a = (case reject_call (ce_link e) True peer_name (ctl a) of (c, evs, r) \<Rightarrow> (with_ctl a c evs, r))"

section \<open>After a call\<close>

definition reset_after_call :: "app \<Rightarrow> app" where
  "reset_after_call a =
     a\<lparr>local_frame_rx := None, remote_frame_rx := None,
       local_texture := next_texture a, remote_texture := next_texture a + 1,
       textures := (textures a)(next_texture a := None, next_texture a + 1 := None),
       next_texture := next_texture a + 2,
       time_call_incoming := None, file_offers := [], file_downloads := [], is_muted := False\<rparr>"

text \<open>A thread per channel that is there; the function never fails.\<close>

definition update_video_textures :: "app \<Rightarrow> app \<times> (gui_error + unit)" where
  "update_video_textures a =
     (let a1 = (case local_frame_rx a of
                  None \<Rightarrow> a
                | Some rx \<Rightarrow> a\<lparr>local_frame_rx := None, texture_threads := texture_threads a @ [(rx, local_texture a)]\<rparr>);
          a2 = (case remote_frame_rx a1 of
                  None \<Rightarrow> a1
                | Some rx \<Rightarrow> a1\<lparr>remote_frame_rx := None, texture_threads := texture_threads a1 @ [(rx, remote_texture a1)]\<rparr>)
      in (a2, Inr ()))"

text \<open>What follows a failed update of the textures, and the end of a call by its button.\<close>

definition leave_call :: "'v6 call_env \<Rightarrow> app \<Rightarrow> app option" where
  "leave_call e a =
     map_option
       (\<lambda>(a1, r). case r of
            Inl _ \<Rightarrow> a1\<lparr>app_view := FatalError\<rparr>
          | Inr _ \<Rightarrow> (reset_after_call a1)\<lparr>app_view := CallHub\<rparr>)
       (app_hang_up e a)"

definition handle_call_video_update :: "'v6 call_env \<Rightarrow> app \<Rightarrow> (app \<times> bool) option" where
  "handle_call_video_update e a =
     (case update_video_textures a of
        (a1, Inl err) \<Rightarrow> map_option (\<lambda>a2. (a2, False)) (leave_call e (a1\<lparr>warning_msg := Some (show_gui_error err)\<rparr>))
      | (a1, Inr _) \<Rightarrow> Some (a1, True))"

section \<open>Events\<close>

text \<open>The call view with the channels of the pipeline that has just started.\<close>

definition enter_call :: "'v6 call_env \<Rightarrow> string \<Rightarrow> string \<Rightarrow> app \<Rightarrow> app option" where
  "enter_call e user peer_name a =
     map_option fst
       (handle_call_video_update e
          (a\<lparr>local_frame_rx := Some (fst (ce_frames e)), remote_frame_rx := Some (snd (ce_frames e)),
             app_view := Call user peer_name\<rparr>))"

definition end_of_call :: "'v6 call_env \<Rightarrow> string option \<Rightarrow> app \<Rightarrow> app option" where
  "end_of_call e msg a =
     map_option
       (\<lambda>(a1, r). reset_after_call
          (case r of
             Inl _ \<Rightarrow> a1\<lparr>app_view := FatalError\<rparr>
           | Inr _ \<Rightarrow> a1\<lparr>warning_msg := (case msg of None \<Rightarrow> warning_msg a1 | Some m \<Rightarrow> Some m), app_view := CallEnded\<rparr>))
       (app_hang_up e a)"

fun handle_event :: "'v6 call_env \<Rightarrow> app_event \<Rightarrow> app \<Rightarrow> app option" where
  "handle_event e FullServerError a = Some (a\<lparr>app_view := FullServer\<rparr>)"
| "handle_event e (app_event.CallIncoming peer_name offer_sdp) a = Some (a\<lparr>app_view := CallIncoming peer_name offer_sdp\<rparr>)"
| "handle_event e app_event.CallEnded a = end_of_call e None a"
| "handle_event e (AppError m) a = end_of_call e (Some m) a"
| "handle_event e app_event.FatalError a =
     (case stop_media_components (ce_stop e) (ctl a) of
        (c, _, _) \<Rightarrow> Some ((with_ctl a c [])\<lparr>app_view := FatalError\<rparr>))"
| "handle_event e (app_event.CallAccepted answer_sdp user peer_name) a =
     (case get_in_call (le_v6 (ce_link e)) answer_sdp (ce_timeout e) (ce_pings e) (ce_join e) (ctl a) of
        None \<Rightarrow> None
      | Some (c, evs, Inr _) \<Rightarrow> enter_call e user peer_name (with_ctl a c evs)
      | Some (c, evs, Inl err) \<Rightarrow>
          Some ((with_ctl a c evs)\<lparr>warning_msg := Some (show_controller_error (ce_text e) err), app_view := CallHub\<rparr>))"
| "handle_event e app_event.CallRejected a = Some (a\<lparr>app_view := CallHub\<rparr>)"
| "handle_event e (LocalStatsUpdate st) a =
     Some (a\<lparr>last_stats := Some (case last_stats a of
        Some cur \<Rightarrow> cur\<lparr>local_sender := local_sender st, local_receiver := local_receiver st\<rparr> | None \<Rightarrow> st)\<rparr>)"
| "handle_event e (RemoteStatsUpdate st) a =
     Some (a\<lparr>last_stats := Some (case last_stats a of
        Some cur \<Rightarrow> cur\<lparr>remote_sender := remote_sender st, remote_receiver := remote_receiver st\<rparr> | None \<Rightarrow> st)\<rparr>)"
| "handle_event e (RemoteFileOffer i meta) a = Some (a\<lparr>file_offers := AList.update i meta (file_offers a)\<rparr>)"
| "handle_event e (FileDownloadCompleted i) a = Some (a\<lparr>file_downloads := AList.delete i (file_downloads a)\<rparr>)"

text \<open>
  The loop that empties the channel. Events a handler posts (a fatal error, when the request to hang up
  fails; an error, when the media pipeline cannot start after an accepted call) are handled in the same loop; it
  ends because a fatal error posts nothing and an error at most a fatal one. \<open>senders\<close>
  is whether a sender is left when the channel is empty.
\<close>

fun event_weight :: "app_event \<Rightarrow> nat" where
  "event_weight app_event.CallEnded = 2"
| "event_weight (AppError m) = 2"
| "event_weight (app_event.CallAccepted d u p) = 3"
| "event_weight _ = 1"

abbreviation queue_weight :: "app_event list \<Rightarrow> nat" where
  "queue_weight evs \<equiv> sum_list (map event_weight evs)"

lemma request_events: "request env m = (evs, r) \<Longrightarrow> evs = [] \<or> evs = [app_event.FatalError]"
  by (auto simp: request_def split: prod.splits sum.splits if_splits)

lemma hang_up_events:
  "hang_up env sc nt cl ns c = Some (c', evs, r) \<Longrightarrow> evs = [] \<or> evs = [app_event.FatalError]"
  by (auto simp: hang_up_def Let_def dest: request_events split: sum.splits prod.splits server_response.splits option.splits)

lemma app_hang_up_events:
  "app_hang_up e a = Some (a', r) \<Longrightarrow> \<exists>c evs. a' = with_ctl a c evs \<and> queue_weight evs < 2"
  by (fastforce simp: app_hang_up_def dest: hang_up_events)

lemma event_rx_with_ctl [simp]: "event_rx (with_ctl a c evs) = event_rx a @ evs"
  by (simp add: with_ctl_def)

lemma event_rx_reset [simp]: "event_rx (reset_after_call a) = event_rx a"
  by (simp add: reset_after_call_def)

lemma event_rx_video [simp]: "event_rx (fst (update_video_textures a)) = event_rx a"
  by (simp add: update_video_textures_def Let_def split: option.split)

lemma video_update_total [simp]: "handle_call_video_update e a = Some (fst (update_video_textures a), True)"
  by (simp add: handle_call_video_update_def update_video_textures_def Let_def)

lemma end_of_call_events:
  "end_of_call e m a = Some a' \<Longrightarrow> \<exists>evs. event_rx a' = event_rx a @ evs \<and> queue_weight evs < 2"
proof -
  assume "end_of_call e m a = Some a'"
  then obtain a1 r where "app_hang_up e a = Some (a1, r)" "event_rx a' = event_rx a1"
    by (cases "app_hang_up e a") (auto simp: end_of_call_def split: sum.splits)
  then show ?thesis using app_hang_up_events[of e a a1 r] by auto
qed

lemma join_call_events: "join_call v6 jc c = Some (c', evs, r) \<Longrightarrow> queue_weight evs < 3"
  by (auto simp: join_call_def dest!: pipeline_start_events split: option.splits sum.splits prod.splits)

lemma get_in_call_events: "get_in_call v6 d t p jc c = Some (c', evs, r) \<Longrightarrow> queue_weight evs < 3"
  by (auto simp: get_in_call_def check_and_join_def dest: join_call_events split: option.splits prod.splits sum.splits)

lemma handle_event_events:
  "handle_event e ev a = Some a' \<Longrightarrow> \<exists>evs. event_rx a' = event_rx a @ evs \<and> queue_weight evs < event_weight ev"
  by (cases ev)
     (auto simp: enter_call_def dest: end_of_call_events get_in_call_events split: prod.splits option.splits sum.splits)

function run_app_event_loop :: "(nat \<Rightarrow> 'v6 call_env) \<Rightarrow> bool \<Rightarrow> nat \<Rightarrow> app \<Rightarrow> app option" where
  "run_app_event_loop envs senders n a =
     (case event_rx a of
        [] \<Rightarrow> Some (if senders then a else a\<lparr>app_view := FatalError\<rparr>)
      | ev # rest \<Rightarrow>
          (case handle_event (envs n) ev (a\<lparr>event_rx := rest\<rparr>) of
             None \<Rightarrow> None
           | Some a1 \<Rightarrow> run_app_event_loop envs senders (Suc n) a1))"
  by pat_completeness auto

termination
  by (relation "measure (\<lambda>(envs, senders, n, a). queue_weight (event_rx a))")
     (auto dest: handle_event_events)

declare run_app_event_loop.simps [simp del]

section \<open>Files\<close>

definition manage_save :: "'v6 frame_env \<Rightarrow> app \<Rightarrow> app" where
  "manage_save f a =
     (case (file_save_rx a, fe_save_answer f) of
        (Some (i, meta), Some answer) \<Rightarrow>
          (case answer of
             None \<Rightarrow> a
           | Some path \<Rightarrow>
               (case ctl_accept_file i (ce_sent (fe_files f)) (ce_created (fe_files f)) (ctl a) of
                  (c, r) \<Rightarrow>
                    (let a1 = (case r of
                           Inl err \<Rightarrow> a\<lparr>ctl := c, warning_msg :=
                             Some (''Failed to accept file: '' @ show_controller_error (ce_text (fe_files f)) err)\<rparr>
                         | Inr _ \<Rightarrow> a\<lparr>ctl := c\<rparr>)
                     in a1\<lparr>file_downloads := AList.update i meta (file_downloads a1),
                           file_offers := AList.delete i (file_offers a1)\<rparr>)))
          \<lparr>file_save_rx := None\<rparr>
      | _ \<Rightarrow> a)"

definition manage_send :: "'v6 frame_env \<Rightarrow> app \<Rightarrow> app option" where
  "manage_send f a =
     (case (file_send_rx a, fe_send_answer f) of
        (Some True, Some None) \<Rightarrow> Some (a\<lparr>file_send_rx := Some False\<rparr>)
      | (Some True, Some (Some path)) \<Rightarrow>
          (case ctl_send_file (ce_opened (fe_files f)) (ce_name (fe_files f)) (ce_len (fe_files f)) (ce_channel (fe_files f)) (ctl a) of
             None \<Rightarrow> None
           | Some (c, r) \<Rightarrow>
               Some ((case r of
                        Inl err \<Rightarrow> a\<lparr>ctl := c, warning_msg := Some (show_controller_error (ce_text (fe_files f)) err)\<rparr>
                      | Inr _ \<Rightarrow> a\<lparr>ctl := c\<rparr>)\<lparr>file_send_rx := None\<rparr>))
      | _ \<Rightarrow> Some a)"

definition manage_files :: "'v6 frame_env \<Rightarrow> app \<Rightarrow> app option" where
  "manage_files f a = manage_send f (manage_save f a)"

definition show_downloading_files :: "'v6 frame_env \<Rightarrow> app \<Rightarrow> element list" where
  "show_downloading_files f a =
     (let dots = replicate (unat (fe_clock f div 1000 mod 4)) (CHR ''.'')
      in concat (map (\<lambda>(i, meta). file_card (file_name meta) (file_size meta) [Text (''Downloading'' @ dots) LightBlue])
           (file_downloads a)))"

text \<open>The buttons of an offer's card: the save dialog is opened, the offer is rejected and to be removed.\<close>

definition offer_clicks ::
  "'v6 frame_env \<Rightarrow> u32 \<Rightarrow> file_metadata \<Rightarrow> app \<Rightarrow> u32 option \<Rightarrow> app \<times> u32 option" where
  "offer_clicks f i offer a to_remove =
     (let a1 = (if fe_accept_clicked f i then a\<lparr>file_save_rx := Some (i, offer)\<rparr> else a)
      in if fe_reject_clicked f i then
           (case ctl_reject_file i (ce_sent (fe_offer f i)) (ctl a1) of
              (c, Inl err) \<Rightarrow>
                (a1\<lparr>ctl := c, warning_msg :=
                   Some (''Failed to reject file: '' @ show_controller_error (ce_text (fe_offer f i)) err)\<rparr>, Some i)
            | (c, Inr _) \<Rightarrow> (a1\<lparr>ctl := c\<rparr>, Some i))
         else (a1, to_remove))"

text \<open>The loop over the offers (a snapshot): the state, the offer to remove and the cards.\<close>

fun offer_cards ::
  "'v6 frame_env \<Rightarrow> (u32 \<times> file_metadata) list \<Rightarrow> app \<Rightarrow> u32 option \<Rightarrow> app \<times> u32 option \<times> element list" where
  "offer_cards f [] a to_remove = (a, to_remove, [])"
| "offer_cards f ((i, offer) # rest) a to_remove =
     (case offer_clicks f i offer a to_remove of
        (a1, rm) \<Rightarrow>
          (case offer_cards f rest a1 rm of
             (a2, rm2, els) \<Rightarrow>
               (a2, rm2,
                file_card (file_name offer) (file_size offer) [Button ''Accept'' Green, Button ''Reject'' Red] @ els)))"

definition show_file_offers :: "'v6 frame_env \<Rightarrow> app \<Rightarrow> app \<times> u32 option \<times> element list" where
  "show_file_offers f a =
     (case offer_cards f (file_offers a) a None of
        (a1, rm, els) \<Rightarrow>
          (a1, rm, (if file_offers a = [] \<and> file_downloads a = [] then [Text ''No pending files'' Gray] else []) @ els))"

definition remove_file_from_offers :: "u32 \<Rightarrow> app \<Rightarrow> app" where
  "remove_file_from_offers i a = a\<lparr>file_offers := AList.delete i (file_offers a)\<rparr>"

definition show_side_panel :: "'v6 frame_env \<Rightarrow> app \<Rightarrow> app \<times> element list" where
  "show_side_panel f a =
     (case show_file_offers f a of
        (a1, rm, els) \<Rightarrow>
          (case rm of
             Some i \<Rightarrow> if file_save_rx a1 = None then remove_file_from_offers i a1 else a1
           | None \<Rightarrow> a1,
           [Text ''FILES'' White] @ show_downloading_files f a @ els))"

section \<open>Views\<close>

definition clear_auth_buffers :: "app \<Rightarrow> app" where
  "clear_auth_buffers a = a\<lparr>username_buff := [], password_buff := []\<rparr>"

definition show_welcome :: "'v6 frame_env \<Rightarrow> app \<Rightarrow> app \<times> element list" where
  "show_welcome f a =
     (let a1 = (if fe_clicked f ''Sign Up'' then a\<lparr>app_view := SignUp\<rparr> else a);
          a2 = (if fe_clicked f ''Log In'' then a1\<lparr>app_view := LogIn\<rparr> else a1);
          a3 = (if fe_clicked f ''Quit'' then a2\<lparr>closing := True\<rparr> else a2)
      in (a3, [logo, primary_button ''Sign Up'', primary_button ''Log In'', danger_button ''Quit'']))"

definition handle_signup_action :: "'v6 call_env \<Rightarrow> app \<Rightarrow> app" where
  "handle_signup_action e a =
     (case sign_up (ce_link e) (username_buff a) (password_buff a) of
        (evs, r) \<Rightarrow>
          clear_auth_buffers
            (case r of
               Inr _ \<Rightarrow> (with_ctl a (ctl a) evs)\<lparr>app_view := LogIn\<rparr>
             | Inl err \<Rightarrow> (with_ctl a (ctl a) evs)\<lparr>warning_msg := Some (show_controller_error (ce_text e) err)\<rparr>))"

definition handle_login_action :: "'v6 call_env \<Rightarrow> app \<Rightarrow> app" where
  "handle_login_action e a =
     (case log_in (ce_link e) (ce_second e) (username_buff a) (password_buff a) (ctl a) of
        (c, evs, r) \<Rightarrow>
          clear_auth_buffers
            (case r of
               Inr _ \<Rightarrow> (with_ctl a c evs)\<lparr>app_view := CallHub\<rparr>
             | Inl err \<Rightarrow> (with_ctl a c evs)\<lparr>warning_msg := Some (show_controller_error (ce_text e) err)\<rparr>))"

text \<open>
  The two entry forms. The input lines come first; the action's button is disabled, hence not clicked,
  while one of them is empty.
\<close>

definition typed_fields :: "'v6 frame_env \<Rightarrow> app \<Rightarrow> app" where
  "typed_fields f a =
     a\<lparr>username_buff := fe_typed f ''Username'' (username_buff a),
       password_buff := fe_typed f ''Password'' (password_buff a)\<rparr>"

definition form_elements :: "string \<Rightarrow> string \<Rightarrow> app \<Rightarrow> element list" where
  "form_elements heading action a =
     [logo, title heading, text_input (username_buff a) ''Username'' False, text_input (password_buff a) ''Password'' True,
      primary_button action, neutral_button ''Back'']"

definition show_sign_up :: "'v6 frame_env \<Rightarrow> app \<Rightarrow> app \<times> element list" where
  "show_sign_up f a =
     (let a1 = typed_fields f a;
          can_sign_up = (username_buff a1 \<noteq> [] \<and> password_buff a1 \<noteq> []);
          a2 = (if can_sign_up \<and> fe_clicked f ''Sign Up'' then handle_signup_action (fe_view f) a1 else a1);
          a3 = (if fe_clicked f ''Back'' then (clear_auth_buffers a2)\<lparr>app_view := Welcome\<rparr> else a2)
      in (a3, form_elements ''SIGN UP'' ''Sign Up'' a1))"

definition show_log_in :: "'v6 frame_env \<Rightarrow> app \<Rightarrow> app \<times> element list" where
  "show_log_in f a =
     (let a1 = typed_fields f a;
          can_log_in = (username_buff a1 \<noteq> [] \<and> password_buff a1 \<noteq> []);
          a2 = (if can_log_in \<and> fe_clicked f ''Log In'' then handle_login_action (fe_view f) a1 else a1);
          a3 = (if fe_clicked f ''Back'' then (clear_auth_buffers a2)\<lparr>app_view := Welcome\<rparr> else a2)
      in (a3, form_elements ''LOG IN'' ''Log In'' a1))"

definition contact_click :: "'v6 call_env \<Rightarrow> string \<Rightarrow> app \<Rightarrow> app" where
  "contact_click e user a =
     (case call (ce_link e) user (ctl a) of
        (evs, Inr _) \<Rightarrow> (with_ctl a (ctl a) evs)\<lparr>app_view := Calling user\<rparr>
      | (evs, Inl _) \<Rightarrow> with_ctl a (ctl a) evs)"

text \<open>The loop over a snapshot of the table of users.\<close>

fun contact_cards :: "'v6 frame_env \<Rightarrow> (string \<times> user_status) list \<Rightarrow> app \<Rightarrow> app \<times> element list" where
  "contact_cards f [] a = (a, [])"
| "contact_cards f ((user, st) # rest) a =
     (case contact_card user st (fe_call_clicked f user) of
        (info, called) \<Rightarrow>
          (case contact_cards f rest (if called then contact_click (fe_contact f user) user a else a) of
             (a1, els) \<Rightarrow> (a1, info @ els)))"

definition get_users_status :: "bool \<Rightarrow> controller \<Rightarrow> controller_error + (string \<rightharpoonup> user_status)" where
  "get_users_status poisoned_table c = (if poisoned_table then Inl CtlPoisonedLock else Inr (users_status c))"

definition render_contacts_list :: "'v6 frame_env \<Rightarrow> app \<Rightarrow> app \<times> element list" where
  "render_contacts_list f a =
     (case get_users_status (fe_table_poisoned f) (ctl a) of
        Inl _ \<Rightarrow> (a, [])
      | Inr table \<Rightarrow> contact_cards f (fe_contacts f table) a)"

definition show_call_hub :: "'v6 frame_env \<Rightarrow> app \<Rightarrow> app \<times> element list" where
  "show_call_hub f a =
     (let user = (case get_username (ctl a) of Inl _ \<Rightarrow> [] | Inr u \<Rightarrow> u);
          a1 = (if fe_logout f then
                  (case log_out (ce_link (fe_view f)) (ctl a) of
                     (c, evs, Inr _) \<Rightarrow> (with_ctl a c evs)\<lparr>app_view := Welcome\<rparr>
                   | (c, evs, Inl _) \<Rightarrow> with_ctl a c evs)
                else a);
          (a2, els) = render_contacts_list f a1
      in (a2, [logo] @ user_profile_header user @ [Text ''CONTACTS'' Gray] @ els))"

definition show_calling :: "string \<Rightarrow> element list" where
  "show_calling peer_name = [big_avatar, Text peer_name White, status_label ''Calling...'' (Rgb 0 122 255)]"

definition handle_accept_logic :: "'v6 call_env \<Rightarrow> string \<Rightarrow> session_description \<Rightarrow> app \<Rightarrow> app option" where
  "handle_accept_logic e peer_name offer a =
     (case accept_call (ce_link e) peer_name offer (ce_timeout e) (ce_pings e) (ce_join e) (ctl a) of
        None \<Rightarrow> None
      | Some (c, evs, Inr _) \<Rightarrow>
          (case get_username c of
             Inr user \<Rightarrow> enter_call e user peer_name (with_ctl a c evs)
           | Inl _ \<Rightarrow> Some (with_ctl a c evs))
      | Some (c, evs, Inl err) \<Rightarrow>
          Some ((with_ctl a c evs)\<lparr>warning_msg := Some (show_controller_error (ce_text e) err), app_view := CallHub\<rparr>))"

definition handle_decline_logic :: "'v6 call_env \<Rightarrow> string \<Rightarrow> app \<Rightarrow> app" where
  "handle_decline_logic e peer_name a =
     (case app_reject_call e peer_name a of
        (a1, r) \<Rightarrow>
          (case r of Inr _ \<Rightarrow> a1 | Inl err \<Rightarrow> a1\<lparr>warning_msg := Some (show_controller_error (ce_text e) err)\<rparr>)
          \<lparr>app_view := CallHub, time_call_incoming := None\<rparr>)"

definition call_timeout :: "'v6 call_env \<Rightarrow> nat \<Rightarrow> string \<Rightarrow> app \<Rightarrow> app \<times> bool" where
  "call_timeout e now peer_name a =
     (let start = (case time_call_incoming a of Some t \<Rightarrow> t | None \<Rightarrow> now);
          a1 = a\<lparr>time_call_incoming := Some start\<rparr>
      in if 15 \<le> (now - start) div 1000 then
           ((fst (app_reject_call e peer_name (a1\<lparr>warning_msg := Some ''Time to accept call expired''\<rparr>)))
              \<lparr>time_call_incoming := None, app_view := CallHub\<rparr>, True)
         else (a1, False))"

definition show_call_incoming ::
  "'v6 frame_env \<Rightarrow> string \<Rightarrow> session_description \<Rightarrow> app \<Rightarrow> (app \<times> element list) option" where
  "show_call_incoming f peer_name offer a =
     (case call_timeout (fe_view f) (fe_now f) peer_name a of
        (a1, True) \<Rightarrow> Some (a1, [])
      | (a1, False) \<Rightarrow>
          (case (if fe_clicked f ''Accept'' then handle_accept_logic (fe_view f) peer_name offer a1 else Some a1) of
             None \<Rightarrow> None
           | Some a2 \<Rightarrow>
               Some (if fe_clicked f ''Decline'' then handle_decline_logic (fe_view f) peer_name a2 else a2,
                     [big_avatar, Text peer_name White, status_label ''Incoming call...'' (Rgb 0 122 255),
                      call_button ''Accept'' (Rgb 50 180 50), call_button ''Decline'' (Rgb 220 50 50)])))"

text \<open>The picture of a texture, or the text shown until there is one.\<close>

definition show_local_camera :: "app \<Rightarrow> frame option \<times> element list" where
  "show_local_camera a =
     (case textures a (local_texture a) of
        Some p \<Rightarrow> (Some p, [])
      | None \<Rightarrow> (None, [Text ''Waiting for local camera...'' Plain]))"

definition show_remote_camera :: "app \<Rightarrow> frame option \<times> element list" where
  "show_remote_camera a =
     (case textures a (remote_texture a) of
        Some p \<Rightarrow> (Some p, [])
      | None \<Rightarrow> (None, [Text ''Waiting for remote camera...'' Plain]))"

definition show_video_layout :: "string \<Rightarrow> string \<Rightarrow> app \<Rightarrow> element list" where
  "show_video_layout user peer_name a =
     [Text (''YOU ('' @ user @ '')'') Gray] @ snd (show_local_camera a) @
     [Text peer_name White] @ snd (show_remote_camera a)"

definition show_bottom_toolbar :: "'v6 frame_env \<Rightarrow> app \<Rightarrow> (app \<times> element list) option" where
  "show_bottom_toolbar f a =
     (let (text, col) = (if is_muted a then (''Unmute'', Rgb 200 100 0) else (''Mute'', Rgb 60 60 60));
          a1 = (if fe_clicked f text then a\<lparr>ctl := toggle_audio (ctl a), is_muted := \<not> is_muted a\<rparr> else a)
      in case (if fe_clicked f ''End Call'' then leave_call (fe_view f) a1 else Some a1) of
           None \<Rightarrow> None
         | Some a2 \<Rightarrow>
             Some (if fe_clicked f ''Send file'' then a2\<lparr>file_send_rx := Some True\<rparr> else a2,
                   [call_action_btn text col, call_action_btn ''End Call'' (Rgb 200 40 40),
                    call_action_btn ''Send file'' (Rgb 255 165 0)]))"

definition show_call :: "'v6 frame_env \<Rightarrow> string \<Rightarrow> string \<Rightarrow> app \<Rightarrow> (app \<times> element list) option" where
  "show_call f user peer_name a =
     (case show_side_panel f a of
        (a1, panel) \<Rightarrow>
          (case handle_call_video_update (fe_view f) a1 of
             None \<Rightarrow> None
           | Some (a2, False) \<Rightarrow> Some (a2, panel)
           | Some (a2, True) \<Rightarrow>
               (case show_bottom_toolbar f a2 of
                  None \<Rightarrow> None
                | Some (a3, bar) \<Rightarrow>
                    Some (a3, panel @ show_video_layout user peer_name a2 @ bar @
                      (case last_stats a3 of
                         Some st \<Rightarrow> network_stats_panel st
                       | None \<Rightarrow> [Spinner, Text ''Waiting for RTCP reports...'' Gray])))))"

definition show_call_ended :: "'v6 frame_env \<Rightarrow> app \<Rightarrow> app \<times> element list" where
  "show_call_ended f a =
     (if fe_clicked f ''Back to hub'' then a\<lparr>app_view := CallHub\<rparr> else a,
      [big_avatar, title ''Call Ended'', Text ''The other user has disconnected.'' (Rgb 140 140 140),
       primary_button ''Back to hub''])"

definition show_full_server :: "'v6 frame_env \<Rightarrow> app \<Rightarrow> app \<times> element list" where
  "show_full_server f a =
     (if fe_clicked f ''Close Application'' then a\<lparr>closing := True\<rparr> else a,
      [big_avatar, title ''Server Full'',
       Text (''Maximum capacity reached.'' @ [newline] @ ''Please try again in a few minutes.'') (Rgb 160 160 160),
       neutral_button ''Close Application''])"

definition show_error :: "'v6 frame_env \<Rightarrow> app \<Rightarrow> app \<times> element list" where
  "show_error f a =
     (if fe_clicked f ''Ok'' then (reset_after_call (a\<lparr>error_msg := None\<rparr>))\<lparr>app_view := CallHub\<rparr> else a,
      [Text (case error_msg a of Some m \<Rightarrow> m | None \<Rightarrow> ''An unknown error occurred'') Red, Button ''Ok'' Plain])"

definition show_fatal_error :: "'v6 frame_env \<Rightarrow> app \<Rightarrow> app \<times> element list" where
  "show_fatal_error f a =
     (if fe_clicked f ''Exit Application'' then a\<lparr>exited := True\<rparr> else a,
      [big_avatar, title ''Fatal Error'',
       Text (''An unexpected error occurred and the'' @ [newline] @ ''application needs to close.'') (Rgb 180 150 150),
       danger_button ''Exit Application''])"

definition show_warning_popup :: "'v6 frame_env \<Rightarrow> app \<Rightarrow> app \<times> element list" where
  "show_warning_popup f a =
     (case warning_msg a of
        None \<Rightarrow> (a, [])
      | Some m \<Rightarrow> (if fe_dismiss f then a\<lparr>warning_msg := None\<rparr> else a, [Text m White]))"

definition render_current_view :: "'v6 frame_env \<Rightarrow> app \<Rightarrow> (app \<times> element list) option" where
  "render_current_view f a =
     (case app_view a of
        Welcome \<Rightarrow> Some (show_welcome f a)
      | SignUp \<Rightarrow> Some (show_sign_up f a)
      | LogIn \<Rightarrow> Some (show_log_in f a)
      | Calling peer_name \<Rightarrow> Some (a, show_calling peer_name)
      | CallIncoming peer_name offer \<Rightarrow> show_call_incoming f peer_name offer a
      | CallHub \<Rightarrow> Some (show_call_hub f a)
      | Call user peer_name \<Rightarrow> show_call f user peer_name a
      | CallEnded \<Rightarrow> Some (show_call_ended f a)
      | Error \<Rightarrow> Some (show_error f a)
      | FatalError \<Rightarrow> Some (show_fatal_error f a)
      | FullServer \<Rightarrow> Some (show_full_server f a))"

text \<open>One frame of the application; the controller's own sender keeps the event channel connected.\<close>

definition update :: "'v6 frame_env \<Rightarrow> app \<Rightarrow> (app \<times> element list) option" where
  "update f a =
     (case run_app_event_loop (fe_events f) True 0 a of
        None \<Rightarrow> None
      | Some a1 \<Rightarrow>
          (case manage_files f a1 of
             None \<Rightarrow> None
           | Some a2 \<Rightarrow>
               (case show_warning_popup f a2 of
                  (a3, popup) \<Rightarrow> map_option (\<lambda>(a4, els). (a4, popup @ els)) (render_current_view f a3))))"

text \<open>
  A round of a texture thread: of the frames that are waiting the last one becomes the texture, unless its
  data do not fit its size, when building the image (\<open>from_rgb\<close>, whether it succeeds) stops the thread.
\<close>

definition texture_round :: "(frame \<Rightarrow> bool) \<Rightarrow> nat \<times> nat \<Rightarrow> frame \<Rightarrow> frame list \<Rightarrow> app \<Rightarrow> app" where
  "texture_round from_rgb th first later a =
     (let last_frame = last (first # later)
      in if from_rgb last_frame then a\<lparr>textures := (textures a)(snd th \<mapsto> last_frame)\<rparr>
         else a\<lparr>texture_threads := remove1 th (texture_threads a)\<rparr>)"

section \<open>Runs of the application\<close>

text \<open>
  What happens to the application: a frame, an event of a background thread, a round of a texture thread
  that is there.
\<close>

datatype 'v6 app_input =
    Frame "'v6 frame_env"
  | Posted app_event
  | Pictures "nat \<times> nat" frame "frame list"

fun app_step :: "(frame \<Rightarrow> bool) \<Rightarrow> app option \<Rightarrow> 'v6 app_input \<Rightarrow> app option" where
  "app_step from_rgb None i = None"
| "app_step from_rgb (Some a) (Frame f) = map_option fst (update f a)"
| "app_step from_rgb (Some a) (Posted ev) = Some (a\<lparr>event_rx := event_rx a @ [ev]\<rparr>)"
| "app_step from_rgb (Some a) (Pictures th first later) =
     Some (if th \<in> set (texture_threads a) then texture_round from_rgb th first later a else a)"

section \<open>The invariant\<close>

text \<open>
  The error view is never shown, both textures of the current call are allocated and distinct, texture
  threads fill allocated textures only, frame channels have been handed to their threads, every
  offer and download is listed once, and in the call view the media pipeline is running. The
  argument \<open>k\<close> bounds the textures in use from below: textures before \<open>k\<close> belong to earlier calls.
\<close>

definition core_ok :: "nat \<Rightarrow> app \<Rightarrow> bool" where
  "core_ok k a =
     (app_view a \<noteq> Error \<and> error_msg a = None \<and> k \<le> local_texture a \<and> k \<le> remote_texture a \<and> local_texture a \<noteq> remote_texture a \<and>
      local_texture a < next_texture a \<and> remote_texture a < next_texture a \<and>
      list_all (\<lambda>th. snd th < next_texture a) (texture_threads a) \<and>
      distinct (map fst (file_offers a)) \<and> distinct (map fst (file_downloads a)))"

abbreviation pipeline_running :: "controller \<Rightarrow> bool" where
  "pipeline_running c \<equiv> pipeline_on (ctl_pipeline c)"

definition app_ok :: "nat \<Rightarrow> app \<Rightarrow> bool" where
  "app_ok k a =
     (core_ok k a \<and> local_frame_rx a = None \<and> remote_frame_rx a = None \<and>
      (\<forall>u p. app_view a = Call u p \<longrightarrow> pipeline_running (ctl a)))"

lemma app_ok_with_ctl:
  "app_ok k a \<Longrightarrow> pipeline_running c = pipeline_running (ctl a) \<Longrightarrow> app_ok k (with_ctl a c evs)"
  by (simp add: app_ok_def core_ok_def with_ctl_def)

lemma core_ok_with_ctl [simp]: "core_ok k (with_ctl a c evs) = core_ok k a"
  by (simp add: core_ok_def with_ctl_def)

lemma core_ok_reset: "core_ok k a \<Longrightarrow> core_ok k (reset_after_call a)"
  by (auto simp: core_ok_def reset_after_call_def elim!: list.pred_mono_strong)

lemma core_ok_view: "core_ok k a \<Longrightarrow> v \<noteq> Error \<Longrightarrow> core_ok k (a\<lparr>app_view := v\<rparr>)"
  by (simp add: core_ok_def)

lemma core_ok_warning [simp]: "core_ok k (a\<lparr>warning_msg := m\<rparr>) = core_ok k a"
  by (simp add: core_ok_def)

lemma app_ok_leave:
  "app_ok k a \<Longrightarrow> v \<noteq> Error \<Longrightarrow> (\<And>u p. v \<noteq> Call u p) \<Longrightarrow> app_ok k (a\<lparr>app_view := v\<rparr>)"
  by (simp add: app_ok_def core_ok_view)

lemma app_ok_video:
  assumes "core_ok k a" and "\<And>u p. app_view a = Call u p \<Longrightarrow> pipeline_running (ctl a)"
  shows "app_ok k (fst (update_video_textures a))"
  using assms by (auto simp: app_ok_def core_ok_def update_video_textures_def Let_def split: option.split)

lemma join_call_running: "join_call v6 jc c = Some (c', evs, Inr r) \<Longrightarrow> pipeline_running c'"
  by (auto simp: join_call_def map_err_def dest: pipeline_start_on split: option.splits sum.splits prod.splits)

lemma check_and_join_running: "check_and_join v6 t p jc c = Some (c', evs, Inr r) \<Longrightarrow> pipeline_running c'"
  by (auto simp: check_and_join_def dest: join_call_running split: prod.splits sum.splits)

lemma get_in_call_running: "get_in_call v6 d t p jc c = Some (c', evs, Inr r) \<Longrightarrow> pipeline_running c'"
  by (auto simp: get_in_call_def dest: check_and_join_running split: option.splits prod.splits sum.splits)

lemma accept_call_running: "accept_call env u d t p jc c = Some (c', evs, Inr r) \<Longrightarrow> pipeline_running c'"
  by (auto simp: accept_call_def Let_def dest: check_and_join_running
      split: option.splits prod.splits sum.splits server_response.splits)

lemma app_hang_up_ctl:
  "app_hang_up e a = Some (a', r) \<Longrightarrow> \<exists>c evs. a' = with_ctl a c evs"
  using app_hang_up_events by blast

lemma app_ok_reset_view:
  "core_ok k a \<Longrightarrow> v \<noteq> Error \<Longrightarrow> (\<And>u p. v \<noteq> Call u p) \<Longrightarrow> app_ok k ((reset_after_call a)\<lparr>app_view := v\<rparr>)"
  by (simp add: app_ok_def core_ok_view core_ok_reset) (simp add: reset_after_call_def)

lemma reset_view_commute: "reset_after_call (a\<lparr>app_view := v\<rparr>) = (reset_after_call a)\<lparr>app_view := v\<rparr>"
  by (simp add: reset_after_call_def)

lemma app_ok_leave_call:
  assumes "app_ok k a" and "leave_call e a = Some a'"
  shows "app_ok k a'"
proof -
  obtain a1 r where h: "app_hang_up e a = Some (a1, r)"
    and a': "a' = (case r of Inl _ \<Rightarrow> a1\<lparr>app_view := FatalError\<rparr> | Inr _ \<Rightarrow> (reset_after_call a1)\<lparr>app_view := CallHub\<rparr>)"
    using assms(2) by (auto simp: leave_call_def)
  obtain c evs where "a1 = with_ctl a c evs" using app_hang_up_ctl[OF h] by auto
  then have "core_ok k a1" "local_frame_rx a1 = None" "remote_frame_rx a1 = None"
    using assms(1) by (simp_all add: app_ok_def with_ctl_def core_ok_def)
  then show ?thesis unfolding a' by (cases r) (simp_all add: app_ok_def core_ok_view core_ok_reset, simp_all add: reset_after_call_def)
qed

lemma app_ok_end_of_call:
  assumes "app_ok k a" and "end_of_call e m a = Some a'"
  shows "app_ok k a'"
proof -
  obtain a1 r where h: "app_hang_up e a = Some (a1, r)"
    and a': "a' = reset_after_call
          (case r of
             Inl _ \<Rightarrow> a1\<lparr>app_view := FatalError\<rparr>
           | Inr _ \<Rightarrow> a1\<lparr>warning_msg := (case m of None \<Rightarrow> warning_msg a1 | Some w \<Rightarrow> Some w), app_view := CallEnded\<rparr>)"
    using assms(2) by (auto simp: end_of_call_def)
  obtain c evs where "a1 = with_ctl a c evs" using app_hang_up_ctl[OF h] by auto
  then have "core_ok k a1" using assms(1) by (simp add: app_ok_def)
  then show ?thesis unfolding a' by (cases r) (simp_all add: app_ok_reset_view reset_view_commute)
qed

lemma app_ok_enter_call:
  assumes "app_ok k a" and "pipeline_running (ctl a)" and "enter_call e u p a = Some a'"
  shows "app_ok k a'"
proof -
  let ?a = "a\<lparr>local_frame_rx := Some (fst (ce_frames e)), remote_frame_rx := Some (snd (ce_frames e)), app_view := Call u p\<rparr>"
  have "app_ok k (fst (update_video_textures ?a))"
    using assms(1,2) by (intro app_ok_video) (auto simp: app_ok_def core_ok_def)
  then show ?thesis using assms(3) by (simp add: enter_call_def)
qed

lemma app_ok_handle_event: "app_ok k a \<Longrightarrow> handle_event e ev a = Some a' \<Longrightarrow> app_ok k a'"
proof (cases ev)
  case (CallAccepted d u p)
  assume a: "app_ok k a" and h: "handle_event e ev a = Some a'"
  show ?thesis
  proof (cases "get_in_call (le_v6 (ce_link e)) d (ce_timeout e) (ce_pings e) (ce_join e) (ctl a)")
    case (Some cr)
    obtain c evs r where cr: "cr = (c, evs, r)" by (rule prod_cases3)
    show ?thesis
    proof (cases r)
      case (Inr x)
      have "app_ok k ((with_ctl a c evs)\<lparr>app_view := CallHub\<rparr>)" using a by (simp add: app_ok_def core_ok_def with_ctl_def)
      moreover have "pipeline_running c" using get_in_call_running Some cr Inr by metis
      ultimately show ?thesis
        using h Some cr Inr CallAccepted
          app_ok_enter_call[where k = k and e = e and u = u and p = p and a = "(with_ctl a c evs)\<lparr>app_view := CallHub\<rparr>"]
        by (auto simp: enter_call_def with_ctl_def)
    qed (use a h Some cr CallAccepted in \<open>auto simp: app_ok_def core_ok_def with_ctl_def\<close>)
  qed (use h CallAccepted in simp)
next
  case FatalError
  assume "app_ok k a" "handle_event e ev a = Some a'"
  then show ?thesis using FatalError by (auto simp: app_ok_def core_ok_def with_ctl_def split: prod.splits)
next
  case (RemoteFileOffer i m)
  assume "app_ok k a" "handle_event e ev a = Some a'"
  then show ?thesis using RemoteFileOffer by (auto simp: app_ok_def core_ok_def distinct_update)
next
  case (FileDownloadCompleted i)
  assume "app_ok k a" "handle_event e ev a = Some a'"
  then show ?thesis using FileDownloadCompleted by (auto simp: app_ok_def core_ok_def AList.distinct_delete)
next
  case CallEnded
  assume "app_ok k a" "handle_event e ev a = Some a'"
  then show ?thesis using CallEnded app_ok_end_of_call by simp
next
  case (AppError m)
  assume "app_ok k a" "handle_event e ev a = Some a'"
  then show ?thesis using AppError app_ok_end_of_call by simp
qed (auto simp: app_ok_def core_ok_def)

text \<open>What every event handler keeps holds after the loop, which leaves the channel empty.\<close>

lemma event_loop_induct:
  fixes envs :: "nat \<Rightarrow> 'v6 call_env"
  assumes step: "\<And>(e :: 'v6 call_env) ev a a'. P a \<Longrightarrow> handle_event e ev a = Some a' \<Longrightarrow> P a'"
    and rx: "\<And>a q. P a \<Longrightarrow> P (a\<lparr>event_rx := q\<rparr>)"
  shows "P a \<Longrightarrow> run_app_event_loop envs True n a = Some a' \<Longrightarrow> P a' \<and> event_rx a' = []"
proof (induction envs True n a rule: run_app_event_loop.induct)
  case (1 envs n a)
  show ?case
  proof (cases "event_rx a")
    case Nil
    then show ?thesis using "1.prems" by (simp add: run_app_event_loop.simps[of envs True n a])
  next
    case (Cons ev rest)
    then obtain a1 where a1: "handle_event (envs n) ev (a\<lparr>event_rx := rest\<rparr>) = Some a1"
      "run_app_event_loop envs True (Suc n) a1 = Some a'"
      using "1.prems"(2) by (auto simp: run_app_event_loop.simps[of envs True n a] split: option.splits)
    then show ?thesis using "1.hyps"[OF Cons a1(1)] step[OF rx[OF "1.prems"(1), of rest] a1(1)] by blast
  qed
qed

lemma app_ok_rx [simp]: "app_ok k (a\<lparr>event_rx := q\<rparr>) = app_ok k a"
  by (simp add: app_ok_def core_ok_def)

lemma app_ok_loop: "app_ok k a \<Longrightarrow> run_app_event_loop envs True n a = Some a' \<Longrightarrow> app_ok k a' \<and> event_rx a' = []"
  by (rule event_loop_induct[where P = "app_ok k", OF app_ok_handle_event]) simp_all

section \<open>Files and views keep the invariant\<close>

lemma accept_file_running [simp]: "pipeline_running (fst (ctl_accept_file i s k c)) = pipeline_running c"
  by (simp add: ctl_accept_file_def split: option.split prod.split)

lemma reject_file_running [simp]: "pipeline_running (fst (ctl_reject_file i s c)) = pipeline_running c"
  by (simp add: ctl_reject_file_def split: option.split prod.split)

lemma send_file_running: "ctl_send_file op nm l ch c = Some (c', r) \<Longrightarrow> pipeline_running c' = pipeline_running c"
  by (auto simp: ctl_send_file_def split: option.splits prod.splits)

lemma app_ok_manage_save: "app_ok k a \<Longrightarrow> app_ok k (manage_save f a)"
proof -
  assume a: "app_ok k a"
  have "app_ok k (manage_save f a)" if "file_save_rx a = Some (i, m)" "fe_save_answer f = Some (Some path)" for i m path
  proof -
    obtain c r where c: "ctl_accept_file i (ce_sent (fe_files f)) (ce_created (fe_files f)) (ctl a) = (c, r)" by fastforce
    then have "pipeline_running c = pipeline_running (ctl a)" by (metis accept_file_running fst_conv)
    then show ?thesis using a that c
      by (cases r) (auto simp: manage_save_def app_ok_def core_ok_def Let_def distinct_update AList.distinct_delete)
  qed
  then show ?thesis
    using a by (auto simp: manage_save_def app_ok_def core_ok_def split: option.splits)
qed

lemma app_ok_manage_send: "app_ok k a \<Longrightarrow> manage_send f a = Some a' \<Longrightarrow> app_ok k a'"
  by (auto simp: manage_send_def app_ok_def core_ok_def dest!: send_file_running
      split: option.splits bool.splits prod.splits sum.splits)

lemma app_ok_offer_clicks: "app_ok k a \<Longrightarrow> app_ok k (fst (offer_clicks f i offer a rm))"
proof -
  assume a: "app_ok k a"
  define a1 where "a1 = (if fe_accept_clicked f i then a\<lparr>file_save_rx := Some (i, offer)\<rparr> else a)"
  obtain c r where c: "ctl_reject_file i (ce_sent (fe_offer f i)) (ctl a1) = (c, r)" by fastforce
  then have "pipeline_running c = pipeline_running (ctl a1)" by (metis reject_file_running fst_conv)
  moreover have "app_ok k a1" using a by (simp add: a1_def app_ok_def core_ok_def)
  ultimately show ?thesis using c
    by (cases r) (simp_all add: offer_clicks_def a1_def[symmetric] app_ok_def core_ok_def)
qed

lemma app_ok_offer_cards: "app_ok k a \<Longrightarrow> app_ok k (fst (offer_cards f offers a rm))"
proof (induction f offers a rm rule: offer_cards.induct)
  case (2 f i offer rest a rm)
  then show ?case using app_ok_offer_clicks[OF 2(2), of f i offer rm] by (auto split: prod.splits)
qed simp

lemma app_ok_side_panel: "app_ok k a \<Longrightarrow> app_ok k (fst (show_side_panel f a))"
proof -
  assume a: "app_ok k a"
  obtain a1 rm els where o: "offer_cards f (file_offers a) a None = (a1, rm, els)" by (cases "offer_cards f (file_offers a) a None") auto
  then have "app_ok k a1" using app_ok_offer_cards[OF a, of f "file_offers a" None] by simp
  then show ?thesis using o
    by (auto simp: show_side_panel_def show_file_offers_def remove_file_from_offers_def app_ok_def core_ok_def
        AList.distinct_delete split: option.split)
qed

lemma app_ok_contact_click: "app_ok k a \<Longrightarrow> app_ok k (contact_click e u a)"
  by (auto simp: contact_click_def app_ok_def core_ok_def with_ctl_def split: prod.split sum.split)

lemma app_ok_contact_cards: "app_ok k a \<Longrightarrow> app_ok k (fst (contact_cards f cs a))"
proof (induction cs arbitrary: a)
  case (Cons c cs)
  obtain u st where c: "c = (u, st)" by (cases c)
  show ?case
    using Cons.IH[OF Cons.prems] Cons.IH[OF app_ok_contact_click[OF Cons.prems, of "fe_contact f u" u]] c
    by (auto split: prod.splits)
qed simp

lemma app_ok_call_hub: "app_ok k a \<Longrightarrow> app_view a = CallHub \<Longrightarrow> app_ok k (fst (show_call_hub f a))"
proof -
  assume a: "app_ok k a" "app_view a = CallHub"
  define a1 where "a1 = (if fe_logout f then
                  (case log_out (ce_link (fe_view f)) (ctl a) of
                     (c, evs, Inr _) \<Rightarrow> (with_ctl a c evs)\<lparr>app_view := Welcome\<rparr>
                   | (c, evs, Inl _) \<Rightarrow> with_ctl a c evs)
                else a)"
  have "app_ok k a1" using a
    by (auto simp: a1_def app_ok_def core_ok_def with_ctl_def split: prod.split sum.split)
  then have "app_ok k (fst (render_contacts_list f a1))"
    using app_ok_contact_cards by (auto simp: render_contacts_list_def split: sum.split)
  then show ?thesis by (cases "render_contacts_list f a1") (simp add: show_call_hub_def a1_def[symmetric] Let_def)
qed

lemma app_ok_accept:
  assumes a: "app_ok k a" and h: "handle_accept_logic e p d a = Some a'"
  shows "app_ok k a'"
proof (cases "accept_call (ce_link e) p d (ce_timeout e) (ce_pings e) (ce_join e) (ctl a)")
  case (Some x)
  obtain c evs r where x: "x = (c, evs, r)" by (cases x) auto
  show ?thesis
  proof (cases r)
    case (Inr y)
    have run: "pipeline_running c" using accept_call_running Some x Inr by metis
    have "app_ok k (with_ctl a c evs)" using a run by (simp add: app_ok_def core_ok_def with_ctl_def)
    then show ?thesis
      using h Some x Inr run app_ok_enter_call[of k "with_ctl a c evs" e _ p]
      by (auto simp: handle_accept_logic_def with_ctl_def split: sum.splits)
  qed (use a h Some x in \<open>auto simp: handle_accept_logic_def app_ok_def core_ok_def with_ctl_def\<close>)
qed (use h in \<open>simp add: handle_accept_logic_def\<close>)

lemma app_ok_decline: "app_ok k a \<Longrightarrow> app_ok k (handle_decline_logic e p a)"
  by (auto simp: handle_decline_logic_def app_reject_call_def app_ok_def core_ok_def with_ctl_def split: prod.split sum.split)

lemma app_ok_timeout: "app_ok k a \<Longrightarrow> (\<And>u q. app_view a \<noteq> Call u q) \<Longrightarrow> app_ok k (fst (call_timeout e now p a))"
  by (auto simp: call_timeout_def Let_def app_reject_call_def app_ok_def core_ok_def with_ctl_def split: prod.split)

lemma app_ok_toolbar: "app_ok k a \<Longrightarrow> show_bottom_toolbar f a = Some (a', els) \<Longrightarrow> app_ok k a'"
proof -
  assume a: "app_ok k a" and s: "show_bottom_toolbar f a = Some (a', els)"
  define a1 where "a1 = (if fe_clicked f (if is_muted a then ''Unmute'' else ''Mute'')
    then a\<lparr>ctl := toggle_audio (ctl a), is_muted := \<not> is_muted a\<rparr> else a)"
  have "app_ok k a1" using a by (simp add: a1_def app_ok_def core_ok_def toggle_audio_def)
  moreover obtain a2 where "(if fe_clicked f ''End Call'' then leave_call (fe_view f) a1 else Some a1) = Some a2"
    "a' = (if fe_clicked f ''Send file'' then a2\<lparr>file_send_rx := Some True\<rparr> else a2)"
    using s by (auto simp: show_bottom_toolbar_def a1_def Let_def split: if_splits option.splits)
  ultimately show ?thesis using app_ok_leave_call[of k a1 "fe_view f" a2] by (auto simp: app_ok_def core_ok_def split: if_splits)
qed

lemma app_ok_call:
  assumes a: "app_ok k a" and s: "show_call f u p a = Some (a', els)"
  shows "app_ok k a'"
proof -
  define a1 where "a1 = fst (show_side_panel f a)"
  have "app_ok k a1" using app_ok_side_panel[OF a] by (simp add: a1_def)
  then have a2: "app_ok k (fst (update_video_textures a1))" by (intro app_ok_video) (auto simp: app_ok_def)
  obtain els1 where "show_bottom_toolbar f (fst (update_video_textures a1)) = Some (a', els1)"
    using s by (auto simp: show_call_def a1_def split: prod.splits option.splits)
  then show ?thesis using app_ok_toolbar[OF a2] by blast
qed

lemma app_ok_incoming:
  assumes a: "app_ok k a" "app_view a = CallIncoming p d" and s: "show_call_incoming f p d a = Some (a', els)"
  shows "app_ok k a'"
proof -
  obtain a1 b where t: "call_timeout (fe_view f) (fe_now f) p a = (a1, b)" by fastforce
  then have a1: "app_ok k a1" using app_ok_timeout[OF a(1), of "fe_view f" "fe_now f" p] a(2) by simp
  show ?thesis
  proof (cases b)
    case True
    then show ?thesis using s t a1 by (simp add: show_call_incoming_def)
  next
    case False
    then obtain a2 where "(if fe_clicked f ''Accept'' then handle_accept_logic (fe_view f) p d a1 else Some a1) = Some a2"
      "a' = (if fe_clicked f ''Decline'' then handle_decline_logic (fe_view f) p a2 else a2)"
      using s t by (auto simp: show_call_incoming_def split: option.splits)
    moreover from this(1) have "app_ok k a2" using a1 app_ok_accept[OF a1, of "fe_view f" p d] by (auto split: if_splits)
    ultimately show ?thesis using app_ok_decline[of k a2 "fe_view f" p] by simp
  qed
qed

lemma app_ok_forms:
  assumes "app_ok k a" and "\<And>u p. app_view a \<noteq> Call u p"
  shows "app_ok k (fst (show_welcome f a))" "app_ok k (fst (show_sign_up f a))" "app_ok k (fst (show_log_in f a))"
    "app_ok k (fst (show_call_ended f a))" "app_ok k (fst (show_full_server f a))" "app_ok k (fst (show_fatal_error f a))"
  using assms
  by (auto simp: show_welcome_def show_sign_up_def show_log_in_def show_call_ended_def show_full_server_def show_fatal_error_def
      typed_fields_def handle_signup_action_def handle_login_action_def clear_auth_buffers_def Let_def
      app_ok_def core_ok_def with_ctl_def split: prod.split sum.split)

lemma app_ok_render: "app_ok k a \<Longrightarrow> render_current_view f a = Some (a', els) \<Longrightarrow> app_ok k a'"
proof -
  assume a: "app_ok k a" and r: "render_current_view f a = Some (a', els)"
  have "app_ok k (fst (show_welcome f a))" "app_ok k (fst (show_sign_up f a))" "app_ok k (fst (show_log_in f a))"
    "app_ok k (fst (show_call_ended f a))" "app_ok k (fst (show_full_server f a))" "app_ok k (fst (show_fatal_error f a))"
    if "\<And>u p. app_view a \<noteq> Call u p"
    using app_ok_forms[OF a that] by blast+
  moreover have "app_view a \<noteq> Error" using a by (simp add: app_ok_def core_ok_def)
  ultimately show ?thesis
    using a r app_ok_call_hub[OF a, of f] app_ok_call[OF a]
    by (cases "app_view a") (auto simp: render_current_view_def intro: app_ok_incoming[OF a])
qed

lemma app_ok_update:
  assumes a: "app_ok k a" and u: "update f a = Some (a', els)"
  shows "app_ok k a'"
proof -
  obtain a1 a2 els1 where l: "run_app_event_loop (fe_events f) True 0 a = Some a1" "manage_files f a1 = Some a2"
    "render_current_view f (fst (show_warning_popup f a2)) = Some (a', els1)"
    using u by (auto simp: update_def split: option.splits prod.splits)
  have "app_ok k a1" using app_ok_loop[OF a l(1)] by simp
  then have "app_ok k a2" using app_ok_manage_send[OF app_ok_manage_save l(2)[unfolded manage_files_def]] by blast
  then have "app_ok k (fst (show_warning_popup f a2))"
    by (auto simp: show_warning_popup_def app_ok_def core_ok_def split: option.split)
  then show ?thesis using app_ok_render l(3) by blast
qed

lemma app_ok_pictures: "app_ok k a \<Longrightarrow> app_ok k (texture_round from_rgb th first later a)"
  by (auto simp: texture_round_def Let_def app_ok_def core_ok_def list_all_iff dest: notin_set_remove1)

lemma app_ok_init: "app_ok 0 (app_init c evs)"
  by (simp add: app_init_def app_ok_def core_ok_def)

definition app_inv :: "nat \<Rightarrow> app option \<Rightarrow> bool" where
  "app_inv k s = (case s of None \<Rightarrow> True | Some a \<Rightarrow> app_ok k a)"

interpretation app: step_system "app_step from_rgb" "app_inv k" for from_rgb :: "frame \<Rightarrow> bool" and k
proof
  fix s :: "app option" and i :: "'a app_input"
  assume "app_inv k s"
  then show "app_inv k (app_step from_rgb s i)"
    using app_ok_update app_ok_pictures
    by (cases s; cases i) (auto simp: app_inv_def split: option.splits)
qed

text \<open>
  C8. The state of the interface stays well formed: from the start of the application, through any
  sequence of frames (with any clicks, typed text, answers of the dialogs and of the server), events
  of the background threads and rounds of the texture threads, the generic error view is never
  shown, the two textures of the current call are allocated and distinct, texture threads fill allocated
  textures only, offers and downloads are listed once each, and whenever the call view is shown the media
  pipeline of the controller is on: the camera's flag set and the microphone's stream open.
\<close>
theorem interface_well_formed:
  assumes "app_new env txt made = Some a0"
    and "foldl (app_step from_rgb) (Some a0) is = Some a"
  shows "app_ok 0 a"
proof -
  have "app_inv 0 (Some a0)"
    using assms(1) app_ok_init by (auto simp: app_new_def app_inv_def split: prod.splits sum.splits)
  then have "app_inv 0 (foldl (app_step from_rgb) (Some a0) is)" by (rule app.run_inv)
  then show ?thesis using assms(2) by (simp add: app_inv_def)
qed

text \<open>An interface whose server welcomes it, and a frame without input.\<close>

definition sample_link :: "unit link_env" where
  "sample_link = \<lparr>le_ord = sample_order, le_v6 = sample_v6,
     le_conn = (\<lambda>_. (Inr (), Inr (server_response_to_bytes sample_v6 server_response.Welcome)))\<rparr>"

definition sample_app :: app where
  "sample_app = app_init (sample_controller None) []"

definition sample_call_env :: "unit link_env \<Rightarrow> unit call_env" where
  "sample_call_env l =
     \<lparr>ce_link = l, ce_second = (\<lambda>_. Inr ()),
      ce_stop = \<lparr>sc_mic_lock = True, sc_rtp_timeout = Inr (), sc_rtcp_timeout = Inr (), sc_lock = True, sc_bye = Inr ()\<rparr>,
      ce_transport = Some (Inr sample_transport), ce_cloned = Inr (),
      ce_session = Some (Inr (ctl_session (sample_controller None))),
      ce_timeout = True, ce_pings = (\<lambda>_. []),
      ce_join =
        \<lparr>jc_start = \<lparr>clone_for_dtls = Inr (), dtls_new = Inr (), connect_rtp = Inr (), connect_rtcp = Inr (),
           exported_keys = Inr (replicate 60 0), clone_for_rtcp = Inr (), report_handler_start = Inr (),
           flag_after_handshake = True, clone_for_sender = Inr (), sender_start = Inr (), clone_for_receiver = Inr (),
           receiver_start = Inr ()\<rparr>, jc_files = Inr (), jc_pipeline = sample_devices, jc_max_chunk = 1000\<rparr>,
      ce_frames = (0, 1), ce_opened = Inr (), ce_name = None, ce_len = None, ce_channel = Inr 0,
      ce_sent = Inr (), ce_created = Inr (), ce_text = []\<rparr>"

definition idle_frame :: "unit link_env \<Rightarrow> nat \<Rightarrow> unit frame_env" where
  "idle_frame l now =
     \<lparr>fe_clicked = (\<lambda>_. False), fe_typed = (\<lambda>_ v. v), fe_dismiss = False, fe_logout = False, fe_call_clicked = (\<lambda>_. False),
      fe_accept_clicked = (\<lambda>_. False), fe_reject_clicked = (\<lambda>_. False), fe_table_poisoned = False, fe_contacts = (\<lambda>_. []),
      fe_now = now, fe_clock = 0, fe_save_answer = None, fe_send_answer = None,
      fe_events = (\<lambda>_. sample_call_env l), fe_files = sample_call_env l, fe_view = sample_call_env l,
      fe_contact = (\<lambda>_. sample_call_env l), fe_offer = (\<lambda>_. sample_call_env l)\<rparr>"

lemma sample_app_new: "app_new sample_link [] (Inr (sample_controller None)) = Some sample_app"
proof -
  have "server_response_from_bytes sample_v6 (take 1024 (server_response_to_bytes sample_v6 (server_response.Welcome :: unit server_response)))
      = Some server_response.Welcome"
    by code_simp
  then show ?thesis
    by (simp add: app_new_def init_controller_def initial_handshake_def request_def sample_link_def sample_app_def)
qed

theorem interface_well_formed_witness:
  "\<exists>a. foldl (app_step (\<lambda>_. True)) (Some sample_app)
     [Posted app_event.CallRejected, Frame (idle_frame sample_link 0)] = Some a \<and> app_ok 0 a \<and> app_view a = CallHub"
proof -
  obtain a where a: "foldl (app_step (\<lambda>_. True)) (Some sample_app)
     [Posted app_event.CallRejected, Frame (idle_frame sample_link 0)] = Some a" "app_view a = CallHub"
    by (simp add: update_def sample_app_def app_init_def run_app_event_loop.simps manage_files_def manage_save_def manage_send_def
        show_warning_popup_def render_current_view_def show_call_hub_def render_contacts_list_def get_users_status_def
        idle_frame_def Let_def)
  then show ?thesis using interface_well_formed[OF sample_app_new a(1)] by blast
qed

lemma end_of_call_fields:
  assumes "end_of_call e w a = Some a1"
  shows "local_texture a1 = next_texture a \<and> remote_texture a1 = next_texture a + 1 \<and> last_stats a1 = last_stats a"
proof -
  obtain a' r where h: "app_hang_up e a = Some (a', r)"
    and a1: "a1 = reset_after_call
          (case r of
             Inl _ \<Rightarrow> a'\<lparr>app_view := FatalError\<rparr>
           | Inr _ \<Rightarrow> a'\<lparr>warning_msg := (case w of None \<Rightarrow> warning_msg a' | Some m \<Rightarrow> Some m), app_view := CallEnded\<rparr>)"
    using assms by (auto simp: end_of_call_def)
  obtain c evs where "a' = with_ctl a c evs" using app_hang_up_ctl[OF h] by auto
  then show ?thesis unfolding a1 by (cases r) (simp_all add: reset_after_call_def with_ctl_def)
qed

lemma offer_cards_textures: "next_texture (fst (offer_cards f offers a rm)) = next_texture a"
proof (induction f offers a rm rule: offer_cards.induct)
  case (2 f i offer rest a rm)
  obtain a1 rm1 where c: "offer_clicks f i offer a rm = (a1, rm1)" by fastforce
  then have "next_texture a1 = next_texture a"
    by (auto simp: offer_clicks_def Let_def split: if_splits prod.splits sum.splits)
  then show ?case using 2(1)[OF c[symmetric]] c by (auto split: prod.splits)
qed simp

lemma side_panel_textures: "next_texture (fst (show_side_panel f a)) = next_texture a"
proof -
  obtain a1 rm els where o: "offer_cards f (file_offers a) a None = (a1, rm, els)" by (rule prod_cases3)
  then show ?thesis using offer_cards_textures[of f "file_offers a" a None]
    by (auto simp: show_side_panel_def show_file_offers_def remove_file_from_offers_def split: option.split)
qed

lemma leave_call_textures:
  assumes "leave_call e a = Some a1" and "app_view a1 \<noteq> FatalError"
  shows "local_texture a1 = next_texture a \<and> remote_texture a1 = next_texture a + 1"
proof -
  obtain a' r where h: "app_hang_up e a = Some (a', r)"
    and a1: "a1 = (case r of Inl _ \<Rightarrow> a'\<lparr>app_view := FatalError\<rparr> | Inr _ \<Rightarrow> (reset_after_call a')\<lparr>app_view := CallHub\<rparr>)"
    using assms(1) by (auto simp: leave_call_def)
  obtain c evs where "a' = with_ctl a c evs" using app_hang_up_ctl[OF h] by auto
  then show ?thesis using assms(2) unfolding a1 by (cases r) (simp_all add: reset_after_call_def with_ctl_def)
qed

text \<open>The button that ends the call, in a frame of the call view.\<close>

lemma end_call_clicked_textures:
  assumes "show_call f u p a = Some (a1, els)" and "fe_clicked f ''End Call''" and "app_view a1 \<noteq> FatalError"
  shows "local_texture a1 = next_texture a \<and> remote_texture a1 = next_texture a + 1"
proof -
  let ?a2 = "fst (update_video_textures (fst (show_side_panel f a)))"
  obtain a3 bar where t: "show_bottom_toolbar f ?a2 = Some (a3, bar)" "a1 = a3"
    using assms(1) by (auto simp: show_call_def split: prod.splits option.splits)
  obtain a4 a5 where l: "leave_call (fe_view f) a4 = Some a5" "next_texture a4 = next_texture ?a2"
    "local_texture a3 = local_texture a5" "remote_texture a3 = remote_texture a5" "app_view a3 = app_view a5"
    using t(1) assms(2) by (fastforce simp: show_bottom_toolbar_def Let_def split: if_splits option.splits)
  have "next_texture ?a2 = next_texture a"
    using side_panel_textures[of f a] by (simp add: update_video_textures_def Let_def split: option.split)
  then show ?thesis using leave_call_textures[OF l(1)] l(2-5) t(2) assms(3) by simp
qed

text \<open>
  C18. Pictures of a finished call never show up again: when, in a well-formed state, a call ends because the peer left or an error
  was reported, or by the button of the call view that ends it with the hang-up succeeding, no thread that was filling
  textures before can change what the interface shows of a camera in any later state, whatever calls
  follow.
\<close>
theorem finished_call_not_shown:
  assumes "app_ok 0 a"
    and "(ev = app_event.CallEnded \<or> ev = AppError m) \<and> handle_event e ev a = Some a1 \<or>
      app_view a = Call u p \<and> fe_clicked f ''End Call'' \<and> render_current_view f a = Some (a1, els) \<and> app_view a1 \<noteq> FatalError"
    and "foldl (app_step from_rgb) (Some a1) is = Some b" and "th \<in> set (texture_threads a)"
  shows "show_local_camera (texture_round from_rgb th first later b) = show_local_camera b \<and>
    show_remote_camera (texture_round from_rgb th first later b) = show_remote_camera b"
proof -
  note a = assms(1)
  have "app_ok 0 a1" using assms(2) app_ok_handle_event[OF a] app_ok_render[OF a] by blast
  moreover have "next_texture a \<le> local_texture a1 \<and> next_texture a \<le> remote_texture a1"
    using assms(2)
  proof
    assume "(ev = app_event.CallEnded \<or> ev = AppError m) \<and> handle_event e ev a = Some a1"
    then show ?thesis using end_of_call_fields[of e] by fastforce
  next
    assume v: "app_view a = Call u p \<and> fe_clicked f ''End Call'' \<and> render_current_view f a = Some (a1, els) \<and> app_view a1 \<noteq> FatalError"
    then have "show_call f u p a = Some (a1, els)" by (elim conjE) (simp add: render_current_view_def)
    then show ?thesis using end_call_clicked_textures[of f u p a a1 els] v by simp
  qed
  ultimately have "app_inv (next_texture a) (Some a1)" by (simp add: app_inv_def app_ok_def core_ok_def)
  then have "app_inv (next_texture a) (Some b)" using app.run_inv assms(3) by metis
  moreover have "snd th < next_texture a" using a assms(4) by (simp add: app_ok_def core_ok_def list_all_iff)
  ultimately show ?thesis
    by (auto simp: app_inv_def app_ok_def core_ok_def texture_round_def show_local_camera_def show_remote_camera_def Let_def)
qed

definition sample_reply :: "unit server_response \<Rightarrow> unit link_env" where
  "sample_reply r = \<lparr>le_ord = sample_order, le_v6 = sample_v6, le_conn = (\<lambda>_. (Inr (), Inr (server_response_to_bytes sample_v6 r)))\<rparr>"

definition sample_in_call :: app where
  "sample_in_call = (app_init (sample_controller (Some ''alice'')) [])
     \<lparr>ctl := (sample_controller (Some ''alice''))
         \<lparr>ctl_pipeline := \<lparr>camera_running = True, mp_audio = Some \<lparr>muted = False, mic_stream = True\<rparr>, mp_threads = []\<rparr>\<rparr>,
       app_view := Call ''alice'' ''bob'',
       texture_threads := [(7, 0), (8, 1)]\<rparr>"

lemma sample_reply_hang_up: "request (sample_reply CallHangUpOk) m = ([], Inr CallHangUpOk)"
proof -
  have "server_response_from_bytes sample_v6 (take 1024 (server_response_to_bytes sample_v6 (CallHangUpOk :: unit server_response)))
      = Some CallHangUpOk"
    by code_simp
  then show ?thesis by (simp add: request_def sample_reply_def)
qed

definition sample_ending :: "unit frame_env" where
  "sample_ending = (idle_frame (sample_reply CallHangUpOk) 0)\<lparr>fe_clicked := (\<lambda>w. w = ''End Call'')\<rparr>"

definition sample_picture :: frame where
  "sample_picture = \<lparr>frame_data = [0, 0, 0], frame_width = 1, frame_height = 1, frame_time = 0\<rparr>"

theorem finished_call_not_shown_witness:
  "\<exists>a1 els b. render_current_view sample_ending sample_in_call = Some (a1, els) \<and> app_view a1 = CallHub \<and>
     foldl (app_step (\<lambda>_. True)) (Some a1) [Pictures (7, 0) sample_picture []] = Some b \<and>
     show_local_camera (texture_round (\<lambda>_. True) (7, 0) sample_picture [] b) = (None, [Text ''Waiting for local camera...'' Plain])"
proof -
  obtain a1 els where a1: "render_current_view sample_ending sample_in_call = Some (a1, els)"
    "app_view a1 = CallHub" "textures a1 = (\<lambda>_. None)" "local_texture a1 = 2" "texture_threads a1 = [(7, 0), (8, 1)]"
    by (simp add: render_current_view_def show_call_def show_side_panel_def show_file_offers_def show_bottom_toolbar_def leave_call_def
        app_hang_up_def hang_up_def get_token_def sample_reply_hang_up sample_call_env_def sample_in_call_def sample_ending_def idle_frame_def
        sample_controller_def stop_media_components_def media_stop_def sample_transport_def Let_def with_ctl_def reset_after_call_def
        app_init_def update_video_textures_def)
  obtain b where b: "foldl (app_step (\<lambda>_. True)) (Some a1) [Pictures (7, 0) sample_picture []] = Some b"
    "textures b 2 = None" "local_texture b = 2"
    using a1 by (simp add: texture_round_def Let_def)
  have "app_ok 0 sample_in_call" "(7, 0) \<in> set (texture_threads sample_in_call)"
    by (simp_all add: sample_in_call_def app_init_def app_ok_def core_ok_def pipeline_on_def)
  moreover have "app_view sample_in_call = Call ''alice'' ''bob''" "fe_clicked sample_ending ''End Call''"
    by (simp_all add: sample_in_call_def sample_ending_def)
  ultimately have "show_local_camera (texture_round (\<lambda>_. True) (7, 0) sample_picture [] b) = show_local_camera b"
    using finished_call_not_shown[OF _ disjI2 b(1)] a1 by force
  then show ?thesis using a1 b by (auto simp: show_local_camera_def)
qed

text \<open>
  A call that ends while the microphone is muted, with a hang-up the server refuses: the interface resets the
  mark of the mute but the microphone stays muted.
\<close>
theorem refused_hang_up_stays_muted:
  assumes "ctl_token (ctl a) = Some tok" and "request (ce_link e) (CallHangup tok) = (evs, Inr (CallHangUpError reason))"
    and "mp_audio (ctl_pipeline (ctl a)) = Some mic" and "muted mic"
  shows "\<exists>a1. handle_event e app_event.CallEnded a = Some a1 \<and> \<not> is_muted a1 \<and>
     mp_audio (ctl_pipeline (ctl a1)) = Some mic \<and> muted mic"
  using assms
  by (simp add: end_of_call_def app_hang_up_def hang_up_def get_token_def with_ctl_def reset_after_call_def)

text \<open>
  The stale timer of an incoming call: when accepting a call fails, the interface returns to the hub and
  keeps the time at which that call came in; the next incoming call, if it comes fifteen seconds or more
  after it, is rejected in its first frame, before the user sees it.
\<close>
theorem stale_timer_rejects_call:
  assumes "time_call_incoming a = Some t" and "t + 15000 \<le> fe_now f"
    and "handle_accept_logic e p d a = Some a1" and "app_view a1 = CallHub"
  shows "\<exists>a2. show_call_incoming f q d' (a1\<lparr>app_view := CallIncoming q d'\<rparr>) = Some (a2, []) \<and> app_view a2 = CallHub \<and>
      warning_msg a2 = Some ''Time to accept call expired''"
proof -
  have "time_call_incoming a1 = Some t"
    using assms(1,3,4)
    by (auto simp: handle_accept_logic_def enter_call_def with_ctl_def update_video_textures_def Let_def
        split: option.splits prod.splits sum.splits)
  moreover have "15 \<le> (fe_now f - t) div 1000" using assms(2) by linarith
  ultimately show ?thesis
    by (auto simp: show_call_incoming_def call_timeout_def app_reject_call_def with_ctl_def Let_def split: prod.split)
qed

text \<open>
  A file whose acceptance fails is listed among the downloads all the same, where nothing removes it before
  the call ends.
\<close>
theorem failed_accept_listed:
  assumes "file_save_rx a = Some (i, meta)" and "fe_save_answer f = Some (Some path)"
    and "ctl_accept_file i (ce_sent (fe_files f)) (ce_created (fe_files f)) (ctl a) = (c, Inl err)"
  shows "map_of (file_downloads (manage_save f a)) i = Some meta"
  using assms by (simp add: manage_save_def Let_def update_conv')

text \<open>
  An offer rejected while the dialog for saving a file is open is answered with a rejection but stays on the
  screen, where it can be accepted or rejected again without effect.
\<close>
theorem rejected_offer_stays:
  assumes "file_offers a = [(i, offer)]" and "file_save_rx a = Some x" and "fe_reject_clicked f i"
  shows "file_offers (fst (show_side_panel f a)) = [(i, offer)]"
  using assms
  by (auto simp: show_side_panel_def show_file_offers_def offer_clicks_def Let_def split: prod.split sum.split option.split)

text \<open>The statistics of a call are still there in the next one.\<close>
theorem stale_statistics: "end_of_call e w a = Some a1 \<Longrightarrow> last_stats a1 = last_stats a"
  using end_of_call_fields by blast

end
