(* ===== verification/Call_Screens.thy ===== *)
theory Call_Screens
  imports User_Interface
begin

text \<open>
  Signing in, calling and ending a call as the user sees them: a frame of the interface in which a button is
  clicked, through the controller, the bytes on the wire and the server, to the screen of the user who is called.
\<close>

section \<open>Frames without events\<close>

definition quiet :: "app \<Rightarrow> bool" where
  "quiet a = (file_save_rx a = None \<and> file_send_rx a = None \<and> warning_msg a = None)"

lemma quiet_update:
  "quiet a \<Longrightarrow> event_rx a = [] \<Longrightarrow> update f a = render_current_view f a"
  by (auto simp: update_def quiet_def run_app_event_loop.simps manage_files_def manage_save_def manage_send_def
      show_warning_popup_def option.map_id0 split: option.split)

lemma quiet_event:
  "quiet a \<Longrightarrow> handle_event (fe_events f 0) ev a = Some a1 \<Longrightarrow> event_rx a = [] \<Longrightarrow> event_rx a1 = [] \<Longrightarrow> quiet a1 \<Longrightarrow>
     update f (a\<lparr>event_rx := [ev]\<rparr>) = render_current_view f a1"
proof -
  assume a: "quiet a" "handle_event (fe_events f 0) ev a = Some a1" "event_rx a = []" "event_rx a1 = []" "quiet a1"
  have "a\<lparr>event_rx := []\<rparr> = a" using a(3) by simp
  then have "run_app_event_loop (fe_events f) True 0 (a\<lparr>event_rx := [ev]\<rparr>) = run_app_event_loop (fe_events f) True 1 a1"
    using a(2) by (subst run_app_event_loop.simps) simp
  also have "\<dots> = run_app_event_loop (fe_events f) True 0 a1"
    using a(4) by (simp add: run_app_event_loop.simps)
  finally have "update f (a\<lparr>event_rx := [ev]\<rparr>) = update f a1" by (simp add: update_def)
  then show ?thesis using quiet_update[OF a(5,4)] by simp
qed

section \<open>The hub\<close>

lemma contact_cards_Cons:
  "fst (contact_cards f ((u, st) # cs) a) =
     fst (contact_cards f cs (if st = Available \<and> fe_call_clicked f u then contact_click (fe_contact f u) u a else a))"
  by (simp add: contact_card_correct split: prod.split)

lemma contact_cards_skip:
  "\<forall>(u, st) \<in> set cs. \<not> fe_call_clicked f u \<Longrightarrow> fst (contact_cards f cs a) = a"
proof (induction cs arbitrary: a)
  case (Cons c cs)
  obtain u st where c: "c = (u, st)" by (cases c)
  show ?case unfolding c contact_cards_Cons using Cons c by simp
qed simp

lemma contact_cards_click:
  assumes "distinct (map fst cs)" and "(b, Available) \<in> set cs" and "\<And>u. fe_call_clicked f u \<longleftrightarrow> u = b"
  shows "fst (contact_cards f cs a) = contact_click (fe_contact f b) b a"
  using assms(1,2)
proof (induction cs arbitrary: a)
  case (Cons c cs)
  obtain u st where c: "c = (u, st)" by (cases c)
  show ?case
  proof (cases "u = b")
    case True
    then have st: "st = Available" "\<forall>(v, st) \<in> set cs. v \<noteq> b" using Cons.prems c by force+
    then have "\<forall>(v, st) \<in> set cs. \<not> fe_call_clicked f v" by (auto simp: assms(3))
    then show ?thesis unfolding c contact_cards_Cons by (simp add: contact_cards_skip st(1) True assms(3))
  next
    case False
    then have "(b, Available) \<in> set cs" using Cons.prems(2) c by auto
    moreover have "\<not> fe_call_clicked f u" using False by (simp add: assms(3))
    ultimately show ?thesis unfolding c contact_cards_Cons using Cons.IH Cons.prems(1) c by simp
  qed
qed simp

text \<open>
  In a frame of the hub the user clicks the call button of the contact \<open>b\<close> and nothing else; the contacts
  are drawn from the controller's table.
\<close>

definition clicks_call :: "'v6 frame_env \<Rightarrow> string \<Rightarrow> app \<Rightarrow> bool" where
  "clicks_call f b a =
     (let cs = fe_contacts f (users_status (ctl a))
      in \<not> fe_logout f \<and> \<not> fe_table_poisoned f \<and> distinct (map fst cs) \<and> (b, Available) \<in> set cs \<and>
         (\<forall>u. fe_call_clicked f u = (u = b)))"

lemma hub_call:
  assumes "clicks_call f b a"
  shows "fst (show_call_hub f a) = contact_click (fe_contact f b) b a"
proof -
  let ?cs = "fe_contacts f (users_status (ctl a))"
  have "fst (contact_cards f ?cs a) = contact_click (fe_contact f b) b a"
    using assms by (intro contact_cards_click) (auto simp: clicks_call_def Let_def)
  then show ?thesis using assms
    by (cases "contact_cards f ?cs a")
      (simp add: show_call_hub_def render_contacts_list_def get_users_status_def clicks_call_def Let_def)
qed

lemma contact_click_outcome:
  "call (ce_link e) b (ctl a) = ([], r) \<Longrightarrow>
     contact_click e b a = (case r of Inr _ \<Rightarrow> a\<lparr>app_view := Calling b\<rparr> | Inl _ \<Rightarrow> a)"
  by (auto simp: contact_click_def with_ctl_def split: sum.split)


section \<open>Calling\<close>

text \<open>
  C5. A call, from screen to screen: the user \<open>a\<close> clicks the call button of an available contact \<open>b\<close>. When the
  server finds both available, \<open>a\<close>'s screen turns to calling \<open>b\<close>, the server has both occupied with each
  other, and the last message on \<open>b\<close>'s event stream, read by \<open>b\<close>'s receiving thread, makes the next frame of \<open>b\<close>'s
  interface show the incoming call of \<open>a\<close> with \<open>a\<close>'s media descriptions and the buttons to accept and to
  decline. Otherwise \<open>a\<close> stays at the hub and the server is unchanged.
\<close>
theorem call_on_screen:
  assumes server: "server_wf s" "\<not> poisoned s" "has_stream s b sid" "stream_state s sid = Open"
    and caller: "quiet A" "event_rx A = []" "app_view A = CallHub" "clicks_call f b A" "ctl_token (ctl A) = Some a"
      "offer = get_offer (ctl_session (ctl A))" "ce_link (fe_contact f b) = served addr dsk un s ord v6"
    and wire: "fits_wire addr dsk un s ord v6 (CallRequest a offer b)"
      "server_message_ok ord (server_message.CallIncoming a (Protocol.received offer))"
    and callee: "quiet B" "event_rx B = []" "time_call_incoming B = None" "\<And>w. \<not> fe_clicked g w"
  shows "case handle_client_message addr dsk un s (client_received (CallRequest a offer b)) of (r, un', s') \<Rightarrow>
     if callable s a b then
       (\<exists>els. update f A = Some (A\<lparr>app_view := Calling b\<rparr>, els)) \<and>
       status_of s' = (status_of s)(b \<mapsto> Occupied a, a \<mapsto> Occupied b) \<and>
       (\<exists>log m ev B' els. streams s' sid = streams s sid @ log @ [m] \<and>
          handle_server_bytes False True w b (server_message_to_bytes ord m) tbl = (tbl, [ev], [], Inr ()) \<and>
          update g (B\<lparr>event_rx := [ev]\<rparr>) = Some (B', els) \<and> app_view B' = CallIncoming a (Protocol.received offer) \<and>
          {Text a White, call_button ''Accept'' (Rgb 50 180 50), call_button ''Decline'' (Rgb 220 50 50)} \<subseteq> set els)
     else (\<exists>els. update f A = Some (A, els)) \<and> s' = s"
proof -
  note over = call_over_wire[OF server(1,2) caller(5,6) wire server(3,4), of w tbl]
  have upd: "\<exists>els. update f A = Some (contact_click (fe_contact f b) b A, els)"
    using quiet_update[OF caller(1,2), of f] hub_call[OF caller(4)] caller(3)
    by (cases "show_call_hub f A") (simp add: render_current_view_def)
  have click: "contact_click (fe_contact f b) b A = (case r of Inr _ \<Rightarrow> A\<lparr>app_view := Calling b\<rparr> | Inl _ \<Rightarrow> A)"
    if "call (served addr dsk un s ord v6) b (ctl A) = ([], r)" for r
    using contact_click_outcome[of "fe_contact f b" b A r] that caller(7) by simp
  let ?B = "B\<lparr>app_view := CallIncoming a (Protocol.received offer)\<rparr>"
  have "update g (B\<lparr>event_rx := [app_event.CallIncoming a (Protocol.received offer)]\<rparr>) = render_current_view g ?B"
    using callee by (intro quiet_event) (auto simp: quiet_def)
  then have B: "\<exists>B' els. update g (B\<lparr>event_rx := [app_event.CallIncoming a (Protocol.received offer)]\<rparr>) = Some (B', els) \<and>
      app_view B' = CallIncoming a (Protocol.received offer) \<and>
      {Text a White, call_button ''Accept'' (Rgb 50 180 50), call_button ''Decline'' (Rgb 220 50 50)} \<subseteq> set els"
    using callee by (simp add: render_current_view_def show_call_incoming_def call_timeout_def Let_def)
  obtain r un' s' where h: "handle_client_message addr dsk un s (client_received (CallRequest a offer b)) = (r, un', s')"
    by (cases "handle_client_message addr dsk un s (client_received (CallRequest a offer b))") auto
  show ?thesis
  proof (cases "callable s a b")
    case True
    then have o: "call (served addr dsk un s ord v6) b (ctl A) = ([], Inr ())"
      "status_of s' = (status_of s)(b \<mapsto> Occupied a, a \<mapsto> Occupied b)"
      "\<exists>log m. streams s' sid = streams s sid @ log @ [m] \<and>
          handle_server_bytes False True w b (server_message_to_bytes ord m) tbl =
            (tbl, [app_event.CallIncoming a (Protocol.received offer)], [], Inr ())"
      using over unfolding h prod.case by (simp_all only: if_True)
    show ?thesis unfolding h prod.case if_P[OF True]
      using upd[unfolded click[OF o(1)]] o(2,3) B by (simp only: sum.case) blast
  next
    case False
    then obtain e where o: "call (served addr dsk un s ord v6) b (ctl A) = ([], Inl e)" "s' = s"
      using over unfolding h prod.case by (simp only: if_False) blast
    show ?thesis unfolding h prod.case if_not_P[OF False]
      using upd[unfolded click[OF o(1)]] o(2) by (simp only: sum.case simp_thms)
  qed
qed

definition sample_hub :: "string \<Rightarrow> app" where
  "sample_hub user = (app_init ((sample_controller (Some user))\<lparr>users_status := [''bob'' \<mapsto> Available]\<rparr>) [])\<lparr>app_view := CallHub\<rparr>"

definition sample_click_bob :: "unit frame_env" where
  "sample_click_bob =
     (idle_frame (served sample_addr DiskOk (Some ''alice'') sample_ready sample_order sample_v6) 0)
       \<lparr>fe_call_clicked := (\<lambda>u. u = ''bob''), fe_contacts := (\<lambda>_. [(''bob'', Available)])\<rparr>"

theorem call_on_screen_witness:
  "\<exists>els log m ev B' els'.
     update sample_click_bob (sample_hub ''alice'') = Some ((sample_hub ''alice'')\<lparr>app_view := Calling ''bob''\<rparr>, els) \<and>
     streams (snd (snd (handle_client_message sample_addr DiskOk (Some ''alice'') sample_ready
       (CallRequest ''alice'' (sample_sdp ''H264'') ''bob'')))) 1 = streams sample_ready 1 @ log @ [m] \<and>
     handle_server_bytes False True (Inr ()) ''bob'' (server_message_to_bytes sample_order m) Map.empty = (Map.empty, [ev], [], Inr ()) \<and>
     update (idle_frame sample_link 5) ((sample_hub ''bob'')\<lparr>event_rx := [ev]\<rparr>) = Some (B', els') \<and>
     app_view B' = CallIncoming ''alice'' (sample_sdp ''H264'')"
proof -
  have m: "server_message_ok sample_order (server_message.CallIncoming ''alice'' (Protocol.received (sample_sdp ''H264'')))"
  proof -
    have "token ''alice''" by code_simp
    then show ?thesis using sample_sdp_field by (simp add: sample_received last_field_token last_field_field del: token_Cons)
  qed
  have A: "quiet (sample_hub u)" "event_rx (sample_hub u) = []" "app_view (sample_hub u) = CallHub"
    "ctl_token (ctl (sample_hub u)) = Some u" "sample_sdp ''H264'' = get_offer (ctl_session (ctl (sample_hub u)))"
    "time_call_incoming (sample_hub u) = None" for u
    by (simp_all add: sample_hub_def app_init_def quiet_def sample_controller_def get_offer_def)
  have c: "clicks_call sample_click_bob ''bob'' (sample_hub ''alice'')"
    "ce_link (fe_contact sample_click_bob ''bob'') = served sample_addr DiskOk (Some ''alice'') sample_ready sample_order sample_v6"
    "\<And>w. \<not> fe_clicked (idle_frame sample_link 5) w"
    by (simp_all add: clicks_call_def sample_click_bob_def idle_frame_def sample_call_env_def Let_def)
  from call_on_screen[OF sample_ready_ok(1-4) A(1-3) c(1) A(4,5) c(2) sample_call_fits m A(1,2,6) c(3), of "Inr ()" Map.empty]
  show ?thesis using sample_ready_ok(5) unfolding sample_received by (auto simp: sample_received split: prod.splits) blast
qed

section \<open>Signing in\<close>

text \<open>
  In a frame of the login form the fields come to hold \<open>u\<close> and \<open>p\<close> and the user clicks the button to log in
  and nothing else.
\<close>

definition submits :: "'v6 frame_env \<Rightarrow> string \<Rightarrow> string \<Rightarrow> app \<Rightarrow> bool" where
  "submits f u p a =
     (fe_typed f ''Username'' (username_buff a) = u \<and> fe_typed f ''Password'' (password_buff a) = p \<and>
      fe_clicked f ''Log In'' \<and> \<not> fe_clicked f ''Back'')"

text \<open>
  C4. Signing in, from the form to the server: with the right password of an offline user the
  controller is logged in under that name with the server's table of the other users, and the server has
  the user available; the interface turns to the hub if the second connection, to the event channel,
  works, and otherwise shows that connection's error as a warning and stays at the form (although the
  controller and the server have the user logged in). With an unknown user, a wrong password or a user who
  is logged in already the form stays, the warning is the reason the server gave for that case, and
  controller and server keep their state. Either way the fields are emptied.
\<close>
theorem login_on_screen:
  assumes server: "server_wf s" "\<not> poisoned s" and wire: "fits_wire addr dsk un s ord v6 (client_message.LogIn u p)"
    and form: "quiet A" "event_rx A = []" "app_view A = LogIn" "u \<noteq> []" "p \<noteq> []" "submits f u p A"
      "ce_link (fe_view f) = served addr dsk un s ord v6"
  shows "case handle_client_message addr dsk un s (client_message.LogIn u p) of (r, un', s') \<Rightarrow>
     \<exists>A' els. update f A = Some (A', els) \<and> username_buff A' = [] \<and> password_buff A' = [] \<and>
       (if \<exists>d. user_of s u = Some d \<and> password d = p \<and> status d = Offline then
          (case ce_second (fe_view f) addr of
             Inr _ \<Rightarrow> app_view A' = CallHub \<and> warning_msg A' = None
           | Inl err \<Rightarrow> app_view A' = LogIn \<and> warning_msg A' = Some (show_controller_error (ce_text (fe_view f)) err)) \<and>
          ctl A' = (ctl A)\<lparr>users_status := other_users s u, ctl_token := Some u, logged_in := True, ctl_username := Some u\<rparr> \<and>
          status_of s' = (status_of s)(u \<mapsto> Available)
        else
          r = LoginError (login_refusal s u p) \<and> app_view A' = LogIn \<and>
          warning_msg A' = Some (''Error: \"Failed to log in: '' @ login_refusal s u p @ ''\"'') \<and>
          ctl A' = ctl A \<and> s' = s)"
proof -
  note over = login_over_wire[OF server wire, of "ce_second (fe_view f)" "ctl A"]
  let ?A = "typed_fields f A"
  have t: "username_buff ?A = u" "password_buff ?A = p" "ctl ?A = ctl A" "app_view ?A = LogIn" "event_rx ?A = []" "warning_msg ?A = None"
    using form by (simp_all add: typed_fields_def submits_def quiet_def)
  have upd: "\<exists>els. update f A = Some (handle_login_action (fe_view f) ?A, els)"
    using quiet_update[OF form(1,2), of f] form t by (simp add: render_current_view_def show_log_in_def submits_def Let_def)
  let ?li = "log_in (served addr dsk un s ord v6) (ce_second (fe_view f)) u p (ctl A)"
  have act: "handle_login_action (fe_view f) ?A =
      clear_auth_buffers (case snd (snd ?li) of
         Inr _ \<Rightarrow> (with_ctl ?A (fst ?li) (fst (snd ?li)))\<lparr>app_view := CallHub\<rparr>
       | Inl err \<Rightarrow> (with_ctl ?A (fst ?li) (fst (snd ?li)))\<lparr>warning_msg := Some (show_controller_error (ce_text (fe_view f)) err)\<rparr>)"
    using t form(6,7) by (simp add: handle_login_action_def submits_def case_prod_beta)
  obtain r un' s' where h: "handle_client_message addr dsk un s (client_message.LogIn u p) = (r, un', s')"
    by (cases "handle_client_message addr dsk un s (client_message.LogIn u p)") auto
  show ?thesis
  proof (cases "\<exists>d. user_of s u = Some d \<and> password d = p \<and> status d = Offline")
    case True
    then have o: "?li = ((ctl A)\<lparr>users_status := other_users s u, ctl_token := Some u, logged_in := True, ctl_username := Some u\<rparr>, [], ce_second (fe_view f) addr)"
      "status_of s' = (status_of s)(u \<mapsto> Available)"
      using over unfolding h prod.case by (simp_all only: if_True)
    show ?thesis unfolding h prod.case if_P[OF True]
      using upd o t by (auto simp: act clear_auth_buffers_def with_ctl_def split: sum.splits)
  next
    case False
    then have o: "r = LoginError (login_refusal s u p)" "?li = (ctl A, [], Inl (LogInFailed (login_refusal s u p)))" "s' = s"
      using over unfolding h prod.case by (simp_all only: if_False simp_thms)
    show ?thesis unfolding h prod.case if_not_P[OF False]
      using upd o t by (auto simp: act clear_auth_buffers_def with_ctl_def)
  qed
qed

definition sample_form :: app where
  "sample_form = sample_app\<lparr>app_view := LogIn\<rparr>"

definition sample_submit :: "unit frame_env" where
  "sample_submit =
     (idle_frame (served sample_addr DiskOk None sample_server sample_order sample_v6) 0)
       \<lparr>fe_clicked := (\<lambda>w. w = ''Log In''),
         fe_typed := (\<lambda>hint v. if hint = ''Username'' then ''alice'' else ''secret'')\<rparr>"

theorem login_on_screen_witness:
  "\<exists>A' els. update sample_submit sample_form = Some (A', els) \<and> app_view A' = CallHub \<and> ctl_token (ctl A') = Some ''alice'' \<and>
     users_status (ctl A') ''bob'' = Some Available"
proof -
  have A: "quiet sample_form" "event_rx sample_form = []" "app_view sample_form = LogIn" "submits sample_submit ''alice'' ''secret'' sample_form"
    "ce_link (fe_view sample_submit) = served sample_addr DiskOk None sample_server sample_order sample_v6"
    by (simp_all add: sample_form_def sample_app_def app_init_def quiet_def submits_def sample_submit_def idle_frame_def sample_call_env_def)
  have "\<exists>d. user_of sample_server ''alice'' = Some d \<and> password d = ''secret'' \<and> status d = Offline"
    by (simp add: sample_server_def)
  moreover have "other_users sample_server ''alice'' ''bob'' = Some Available"
    by (simp add: sample_server_def other_users_def)
  moreover have "ce_second (fe_view sample_submit) = (\<lambda>_. Inr ())"
    by (simp add: sample_submit_def idle_frame_def sample_call_env_def)
  ultimately show ?thesis
    using login_on_screen[OF sample_server_wf sample_login_fits A(1-3) _ _ A(4,5)] by (fastforce split: prod.splits)
qed

section \<open>Ending a call\<close>

text \<open>
  In a frame of the call view the user clicks the button that ends the call and nothing else; the sockets of the
  transport and the lock of the microphone work, and so does the construction of the transport \<open>t\<close> and the
  session \<open>ses\<close> for the next call.
\<close>

definition ends_call :: "'v6 frame_env \<Rightarrow> media_transport \<Rightarrow> call_session \<Rightarrow> bool" where
  "ends_call f t ses \<longleftrightarrow>
     (\<forall>w. fe_clicked f w = (w = ''End Call'')) \<and> (\<forall>i. \<not> fe_accept_clicked f i \<and> \<not> fe_reject_clicked f i) \<and>
     (let e = fe_view f; sc = ce_stop e
      in sc_mic_lock sc \<and> sc_rtp_timeout sc = Inr () \<and> sc_rtcp_timeout sc = Inr () \<and> sc_bye sc = Inr () \<and>
         ce_transport e = Some (Inr t) \<and> ce_cloned e = Inr () \<and> ce_session e = Some (Inr ses))"

lemma offer_cards_skip:
  "(\<And>i. \<not> fe_accept_clicked f i \<and> \<not> fe_reject_clicked f i) \<Longrightarrow> \<exists>els. offer_cards f offers a rm = (a, rm, els)"
  by (induction offers) (auto simp: offer_clicks_def Let_def split: prod.splits)

lemma side_panel_skip:
  "(\<And>i. \<not> fe_accept_clicked f i \<and> \<not> fe_reject_clicked f i) \<Longrightarrow> fst (show_side_panel f a) = a"
  using offer_cards_skip[of f "file_offers a" a None] by (auto simp: show_side_panel_def show_file_offers_def)

lemma video_textures_skip:
  "local_frame_rx a = None \<Longrightarrow> remote_frame_rx a = None \<Longrightarrow> fst (update_video_textures a) = a"
  by (simp add: update_video_textures_def Let_def)

lemma call_view_ends:
  assumes "ends_call f t ses" and "local_frame_rx a = None" and "remote_frame_rx a = None"
  shows "map_option fst (show_call f u p a) = leave_call (fe_view f) a"
proof -
  have c: "fe_clicked f = (\<lambda>w. w = ''End Call'')" and i: "\<And>i. \<not> fe_accept_clicked f i \<and> \<not> fe_reject_clicked f i"
    using assms(1) by (auto simp: ends_call_def)
  have "map_option fst (show_bottom_toolbar f a) = leave_call (fe_view f) a"
    by (cases "leave_call (fe_view f) a") (simp_all add: show_bottom_toolbar_def c Let_def)
  moreover have "map_option fst (show_call f u p a) = map_option fst (show_bottom_toolbar f a)"
    using side_panel_skip[OF i, of a] video_textures_skip[OF assms(2,3)]
    by (cases "show_bottom_toolbar f a") (auto simp: show_call_def split: prod.splits)
  ultimately show ?thesis by simp
qed

lemma hangup_outcome:
  assumes "\<not> poisoned s"
  shows "case (call_hangup s u :: 'v6 server_response \<times> server) of (r, s') \<Rightarrow>
    if \<exists>w. status_of s u = Some (Occupied w) then r = CallHangUpOk \<and> status_of s' = (status_of s)(u \<mapsto> Available)
    else (\<exists>e. r = CallHangUpError e) \<and> s' = s"
proof (cases "user_of s u")
  case None
  then show ?thesis using assms by (simp add: call_hangup_def del: map_of_eq_Some_iff)
next
  case (Some d)
  then show ?thesis
    using assms by (cases "status d") (auto simp: call_hangup_def fun_eq_iff simp del: map_of_eq_Some_iff)
qed

definition left_call :: "media_transport \<Rightarrow> call_session \<Rightarrow> app \<Rightarrow> bool" where
  "left_call t ses a \<longleftrightarrow>
     app_view a = CallHub \<and> \<not> is_muted a \<and> file_offers a = [] \<and> file_downloads a = [] \<and>
     \<not> camera_running (ctl_pipeline (ctl a)) \<and> mp_audio (ctl_pipeline (ctl a)) = Some microphone_new \<and>
     ctl_files (ctl a) = None \<and> ctl_transport (ctl a) = t \<and> ctl_session (ctl a) = ses"

lemma leave_call_outcome:
  assumes "ends_call f t ses" and "ctl_token (ctl a) = Some u" and "mp_audio (ctl_pipeline (ctl a)) = Some m"
    and "request (ce_link (fe_view f)) (CallHangup u) = ([], Inr r)"
  shows "r = CallHangUpOk \<Longrightarrow> \<exists>a'. leave_call (fe_view f) a = Some a' \<and> left_call t ses a'"
    and "r = CallHangUpError e \<Longrightarrow> leave_call (fe_view f) a = Some (a\<lparr>app_view := FatalError\<rparr>)"
  using assms
  by (simp_all add: ends_call_def left_call_def leave_call_def app_hang_up_def hang_up_def get_token_def stop_media_components_def
      media_stop_def media_pipeline_stop_def camera_stop_def audio_pipeline_stop_def microphone_stop_def microphone_new_def
      with_ctl_def reset_after_call_def Let_def)

text \<open>
  C15. Ending a call, from the button to the server: when the server has the user occupied, the next frame is the hub, not
  muted and without offers of files, the controller has the camera's flag off, the microphone closed and unmuted, no file
  transferer, and the transport and the session of the next call, and the server has the user available and everybody
  else as before. When the server does not have the user in a call, the error view is shown, and controller and
  server keep their state.
\<close>
theorem hang_up_on_screen:
  fixes addr :: "'v6 socket_addr"
  assumes server: "\<not> poisoned s" and wire: "fits_wire addr dsk un s ord v6 (CallHangup u)"
    and view: "quiet A" "event_rx A = []" "local_frame_rx A = None" "remote_frame_rx A = None" "app_view A = Call u v"
      "ctl_token (ctl A) = Some u" "mp_audio (ctl_pipeline (ctl A)) = Some m"
    and click: "ends_call f t ses" "ce_link (fe_view f) = served addr dsk un s ord v6"
  shows "case handle_client_message addr dsk un s (CallHangup u) of (r, un', s') \<Rightarrow>
     \<exists>A' els. update f A = Some (A', els) \<and>
       (if \<exists>w. status_of s u = Some (Occupied w) then
          left_call t ses A' \<and> status_of s' = (status_of s)(u \<mapsto> Available)
        else A' = A\<lparr>app_view := FatalError\<rparr> \<and> s' = s)"
proof -
  obtain r s' where h: "(call_hangup s u :: 'v6 server_response \<times> server) = (r, s')" by fastforce
  have req: "request (ce_link (fe_view f)) (CallHangup u) = ([], Inr r)"
    using wire.carries[OF wire] h click(2) by simp
  note leave = leave_call_outcome[OF click(1) view(6,7) req]
  note out = hangup_outcome[OF server, of u, where ?'v6.0 = 'v6, unfolded h prod.case]
  have "update f A = show_call f u v A"
    using quiet_update[OF view(1,2), of f] view(5) by (simp add: render_current_view_def)
  then have upd: "map_option fst (update f A) = leave_call (fe_view f) A"
    using call_view_ends[OF click(1) view(3,4), of u v] by simp
  show ?thesis
  proof (cases "\<exists>w. status_of s u = Some (Occupied w)")
    case True
    then have "r = CallHangUpOk" "status_of s' = (status_of s)(u \<mapsto> Available)"
      using out by (simp_all only: if_True)
    then show ?thesis using leave(1) upd True h by fastforce
  next
    case False
    then obtain e where "r = CallHangUpError e" "s' = s" using out by (simp only: if_False) blast
    then show ?thesis using leave(2) upd False h by fastforce
  qed
qed

definition sample_busy :: server where
  "sample_busy =
     sample_server\<lparr>users := [(''alice'', \<lparr>username = ''alice'', password = ''secret'', status = Occupied ''bob'',
                             server_client_stream = Some 0\<rparr>),
                          (''bob'', \<lparr>username = ''bob'', password = ''pw'', status = Occupied ''alice'',
                             server_client_stream = Some 1\<rparr>)]\<rparr>"

definition sample_hang_up :: "unit frame_env" where
  "sample_hang_up =
     (idle_frame (served sample_addr DiskOk (Some ''alice'') sample_busy sample_order sample_v6) 0)
       \<lparr>fe_clicked := (\<lambda>w. w = ''End Call'')\<rparr>"

lemma sample_hang_up_fits:
  "fits_wire sample_addr DiskOk (Some ''alice'') sample_busy sample_order sample_v6 (CallHangup ''alice'')"
proof -
  have "token ''alice''" by code_simp
  then show ?thesis
    using sample_order_enumerates sample_v6_ok
    by (simp add: fits_wire_def Let_def client_message_to_bytes_def server_response_to_bytes_def call_hangup_def
        sample_busy_def sample_server_def last_field_token del: token_Cons)
qed

theorem hang_up_on_screen_witness:
  "\<exists>A' els. update sample_hang_up sample_in_call = Some (A', els) \<and> app_view A' = CallHub \<and>
     mp_audio (ctl_pipeline (ctl A')) = Some microphone_new \<and>
     status_of (snd (call_hangup sample_busy ''alice'' :: unit server_response \<times> server)) ''alice'' = Some Available"
proof -
  have A: "quiet sample_in_call" "event_rx sample_in_call = []" "local_frame_rx sample_in_call = None"
    "remote_frame_rx sample_in_call = None" "app_view sample_in_call = Call ''alice'' ''bob''"
    "ctl_token (ctl sample_in_call) = Some ''alice''"
    "mp_audio (ctl_pipeline (ctl sample_in_call)) = Some \<lparr>muted = False, mic_stream = True\<rparr>"
    by (simp_all add: sample_in_call_def app_init_def quiet_def sample_controller_def)
  have f: "ends_call sample_hang_up sample_transport (ctl_session (sample_controller None))"
    "ce_link (fe_view sample_hang_up) = served sample_addr DiskOk (Some ''alice'') sample_busy sample_order sample_v6"
    by (simp_all add: ends_call_def sample_hang_up_def idle_frame_def sample_call_env_def Let_def)
  have s: "\<not> poisoned sample_busy" "\<exists>w. status_of sample_busy ''alice'' = Some (Occupied w)"
    by (simp_all add: sample_busy_def sample_server_def)
  obtain r s' where h: "(call_hangup sample_busy ''alice'' :: unit server_response \<times> server) = (r, s')" by fastforce
  then obtain A' els where "update sample_hang_up sample_in_call = Some (A', els)"
    "left_call sample_transport (ctl_session (sample_controller None)) A'"
    "status_of s' = (status_of sample_busy)(''alice'' \<mapsto> Available)"
    using hang_up_on_screen[OF s(1) sample_hang_up_fits A f] unfolding if_P[OF s(2)] by auto
  then show ?thesis using h fun_cong[of "status_of s'" _ "''alice''"] by (simp add: left_call_def)
qed

end
