(* ===== verification/Dtls.thy ===== *)
theory Dtls
  imports Call_Session Protocol
begin

text \<open>
  Certificates and the DTLS socket: \<^verbatim>\<open>src/dtls/key_manager.rs\<close>, \<^verbatim>\<open>src/dtls/dtls_socket.rs\<close> and
  \<^verbatim>\<open>src/dtls/error.rs\<close>. OpenSSL and \<^verbatim>\<open>udp_dtls\<close> are parameters: a call that only configures an object
  is given by its error (\<open>None\<close> when it succeeds), the others by functions. A certificate is the
  record of the fields the code sets. The streams live in a store, since the handles that
  \<open>try_clone\<close> returns share one stream and one lock.
\<close>

section \<open>The local certificate\<close>

text \<open>The configuring calls of key and certificate generation, in the order of the code.\<close>

datatype openssl_call =
    EcGroup_from_curve_name | PKey_from_ec_key | X509_builder | Set_version | BigNum_from_u32 | To_asn1_integer
  | Set_serial_number | X509NameBuilder_new | Append_entry_by_text | Set_subject_name | Set_issuer_name
  | Days_from_now nat | Set_not_before | Set_not_after | Set_pubkey | Sign
  | Mozilla_intermediate | Set_private_key | Set_certificate

record 'k x509 =
  x_version :: nat
  x_serial :: nat
  x_subject :: string
  x_issuer :: string
  x_not_before :: nat
  x_not_after :: nat
  x_pubkey :: 'k
  x_signed_by :: 'k

text \<open>
  The library calls with results: key generation, the digest of a certificate, the PKCS#12 archive
  (build and serialise; read and open), the identity, the handshakes, and the operations of a stream.
\<close>

record ('k, 'i, 's, 'v6) dtls_lib =
  call_error :: "openssl_call \<Rightarrow> string option"
  ec_generate :: "string + 'k"
  x509_digest :: "'k x509 \<Rightarrow> string + bytes"
  pkcs12_build2 :: "string \<Rightarrow> 'k \<Rightarrow> 'k x509 \<Rightarrow> string \<Rightarrow> string + bytes"
  pkcs12_parse :: "bytes \<Rightarrow> string \<Rightarrow> string + 'k \<times> 'k x509"
  from_pkcs12 :: "bytes \<Rightarrow> string \<Rightarrow> string + 'i"
  connector_build :: "'i \<Rightarrow> string + unit"
  connect :: "'i \<Rightarrow> string \<Rightarrow> 'v6 socket_addr \<Rightarrow> string + 's"
  check_private_key :: "'k \<Rightarrow> 'k x509 \<Rightarrow> string + unit"
  accept :: "'k \<Rightarrow> 'k x509 \<Rightarrow> 'v6 socket_addr \<Rightarrow> string + 's"
  peer_certificate :: "'s \<Rightarrow> string + 'k x509 option"
  certificate_fingerprint :: "'k x509 \<Rightarrow> string + bytes"
  ssl_export :: "'s \<Rightarrow> string \<Rightarrow> nat \<Rightarrow> string + bytes"
  stream_write :: "bytes \<Rightarrow> 's \<Rightarrow> (string + nat) \<times> 's"
  stream_read :: "nat \<Rightarrow> 's \<Rightarrow> (string + bytes) \<times> 's"
  stream_timeout :: "nat option \<Rightarrow> 's \<Rightarrow> (string + unit) \<times> 's"

definition PKCS12_PASSWORD :: string where "PKCS12_PASSWORD = ''roomrtc_pass''"
definition FRIENDLY_NAME :: string where "FRIENDLY_NAME = ''room-rtc-identity''"
definition SUBJECT_CN :: string where "SUBJECT_CN = ''RoomRTC-Peer''"
definition VALIDITY_DAYS :: nat where "VALIDITY_DAYS = 365"
definition SERIAL_NUMBER :: nat where "SERIAL_NUMBER = 1"

text \<open>An OpenSSL error is kept in its printed form.\<close>

datatype cert_error = Openssl string | Identity string

fun show_cert_error :: "cert_error \<Rightarrow> string" where
  "show_cert_error (Openssl err) = err"
| "show_cert_error (Identity err) = err"

record 'i local_cert =
  lc_identity :: 'i
  lc_fingerprint :: string
  pkcs12_der :: bytes

definition ossl :: "('k, 'i, 's, 'v6) dtls_lib \<Rightarrow> openssl_call \<Rightarrow> (unit \<Rightarrow> cert_error + 'a) \<Rightarrow> cert_error + 'a" where
  "ossl lib c k = (case call_error lib c of Some e \<Rightarrow> Inl (Openssl e) | None \<Rightarrow> k ())"

definition generate_ec_key :: "('k, 'i, 's, 'v6) dtls_lib \<Rightarrow> cert_error + 'k" where
  "generate_ec_key lib =
     ossl lib EcGroup_from_curve_name (\<lambda>_.
     result_bind (map_err Openssl (ec_generate lib)) (\<lambda>ec_key.
     ossl lib PKey_from_ec_key (\<lambda>_. Inr ec_key)))"

definition build_x509_cert :: "('k, 'i, 's, 'v6) dtls_lib \<Rightarrow> 'k \<Rightarrow> cert_error + 'k x509" where
  "build_x509_cert lib pkey =
     ossl lib X509_builder (\<lambda>_. ossl lib Set_version (\<lambda>_.
     ossl lib BigNum_from_u32 (\<lambda>_. ossl lib To_asn1_integer (\<lambda>_.
     ossl lib Set_serial_number (\<lambda>_.
     ossl lib X509NameBuilder_new (\<lambda>_. ossl lib Append_entry_by_text (\<lambda>_.
     ossl lib Set_subject_name (\<lambda>_. ossl lib Set_issuer_name (\<lambda>_.
     ossl lib (Days_from_now 0) (\<lambda>_. ossl lib Set_not_before (\<lambda>_.
     ossl lib (Days_from_now VALIDITY_DAYS) (\<lambda>_. ossl lib Set_not_after (\<lambda>_.
     ossl lib Set_pubkey (\<lambda>_. ossl lib Sign (\<lambda>_.
       Inr \<lparr>x_version = 2, x_serial = SERIAL_NUMBER, x_subject = SUBJECT_CN, x_issuer = SUBJECT_CN,
            x_not_before = 0, x_not_after = VALIDITY_DAYS, x_pubkey = pkey, x_signed_by = pkey\<rparr>)))))))))))))))"

definition fingerprint_from_digest :: "bytes \<Rightarrow> string" where
  "fingerprint_from_digest digest = join '':'' (map hex_byte digest)"

definition generate_self_signed_cert :: "('k, 'i, 's, 'v6) dtls_lib \<Rightarrow> cert_error + 'i local_cert" where
  "generate_self_signed_cert lib =
     result_bind (generate_ec_key lib) (\<lambda>pkey.
     result_bind (build_x509_cert lib pkey) (\<lambda>cert.
     result_bind (map_err Openssl (x509_digest lib cert)) (\<lambda>digest.
     result_bind (map_err Openssl (pkcs12_build2 lib FRIENDLY_NAME pkey cert PKCS12_PASSWORD)) (\<lambda>der.
     result_bind (map_err (\<lambda>e. Identity (''DTLS identity creation failed: '' @ e)) (from_pkcs12 lib der PKCS12_PASSWORD)) (\<lambda>identity.
       Inr \<lparr>lc_identity = identity, lc_fingerprint = fingerprint_from_digest digest, pkcs12_der = der\<rparr>)))))"

definition duplicate_identity :: "('k, 'i, 's, 'v6) dtls_lib \<Rightarrow> 'i local_cert \<Rightarrow> cert_error + 'i" where
  "duplicate_identity lib cert =
     map_err (\<lambda>e. Identity (''Failed to clone identity: '' @ e)) (from_pkcs12 lib (pkcs12_der cert) PKCS12_PASSWORD)"

section \<open>The socket\<close>

datatype dtls_error = InitializationSocketError | DtlsMapError string

fun show_dtls_error :: "dtls_error \<Rightarrow> string" where
  "show_dtls_error InitializationSocketError = ''Error: failed to initialize DTLS socket''"
| "show_dtls_error (DtlsMapError e) = ''Error: '' @ e"

text \<open>A stream behind its mutex; a store of them, and a socket: a reference into the store.\<close>

record 's stream_cell =
  cell_stream :: 's
  poisoned :: bool

type_synonym 's streams = "'s stream_cell list"

record 'v6 dtls_socket =
  stream_ref :: nat
  dtls_remote_addr :: "'v6 socket_addr"

fun normalize_role :: "dtls_setup_role \<Rightarrow> dtls_setup_role" where
  "normalize_role ActPass = Active"
| "normalize_role HoldConn = Passive"
| "normalize_role role = role"

definition establish_active_dtls ::
  "('k, 'i, 's, 'v6) dtls_lib \<Rightarrow> 'i local_cert \<Rightarrow> 'v6 socket_addr \<Rightarrow> dtls_error + 's" where
  "establish_active_dtls lib cert channel =
     result_bind (map_err (\<lambda>e. DtlsMapError (show_cert_error e)) (duplicate_identity lib cert)) (\<lambda>identity.
     result_bind (map_err (\<lambda>_. InitializationSocketError) (connector_build lib identity)) (\<lambda>_.
       map_err (\<lambda>_. InitializationSocketError) (connect lib identity ''roomrtc.local'' channel)))"

definition ossl_dtls :: "('k, 'i, 's, 'v6) dtls_lib \<Rightarrow> openssl_call \<Rightarrow> (unit \<Rightarrow> dtls_error + 'a) \<Rightarrow> dtls_error + 'a" where
  "ossl_dtls lib c k = (case call_error lib c of Some e \<Rightarrow> Inl (DtlsMapError e) | None \<Rightarrow> k ())"

definition establish_passive_dtls ::
  "('k, 'i, 's, 'v6) dtls_lib \<Rightarrow> 'i local_cert \<Rightarrow> 'v6 socket_addr \<Rightarrow> dtls_error + 's" where
  "establish_passive_dtls lib cert channel =
     result_bind (map_err DtlsMapError (pkcs12_parse lib (pkcs12_der cert) PKCS12_PASSWORD)) (\<lambda>(pkey, x).
     ossl_dtls lib Mozilla_intermediate (\<lambda>_.
     ossl_dtls lib Set_private_key (\<lambda>_.
     ossl_dtls lib Set_certificate (\<lambda>_.
     result_bind (map_err DtlsMapError (check_private_key lib pkey x)) (\<lambda>_.
       map_err (\<lambda>_. InitializationSocketError) (accept lib pkey x channel))))))"

definition verify_peer_fingerprint ::
  "('k, 'i, 's, 'v6) dtls_lib \<Rightarrow> 's \<Rightarrow> fingerprint \<Rightarrow> dtls_error + unit" where
  "verify_peer_fingerprint lib stream expected =
     (if to_ascii_lowercase (algorithm expected) \<noteq> ''sha-256'' then
        Inl (DtlsMapError (''Unsupported fingerprint algorithm: '' @ algorithm expected))
      else
        result_bind (map_err DtlsMapError (peer_certificate lib stream)) (\<lambda>c.
        case c of
          None \<Rightarrow> Inl (DtlsMapError ''Peer certificate missing'')
        | Some certificate \<Rightarrow>
            result_bind (map_err DtlsMapError (certificate_fingerprint lib certificate)) (\<lambda>fp.
            if fp \<noteq> fp_bytes expected then Inl (DtlsMapError ''Peer certificate fingerprint mismatch'')
            else Inr ())))"

text \<open>\<open>DtlsSocket::new\<close>; the role left by \<open>normalize_role\<close> is one of the two first.\<close>

definition dtls_socket_new ::
  "('k, 'i, 's, 'v6) dtls_lib \<Rightarrow> 's streams \<Rightarrow> 'v6 socket_addr \<Rightarrow> dtls_setup_role \<Rightarrow> fingerprint \<Rightarrow> 'i local_cert \<Rightarrow>
     (dtls_error + 'v6 dtls_socket \<times> 's streams) option" where
  "dtls_socket_new lib h remote_addr role expected cert =
     (case (case normalize_role role of
              Active \<Rightarrow> Some (establish_active_dtls lib cert remote_addr)
            | Passive \<Rightarrow> Some (establish_passive_dtls lib cert remote_addr)
            | _ \<Rightarrow> None) of
        None \<Rightarrow> None
      | Some established \<Rightarrow> Some (
          result_bind established (\<lambda>stream.
          result_bind (verify_peer_fingerprint lib stream expected) (\<lambda>_.
            Inr (\<lparr>stream_ref = length h, dtls_remote_addr = remote_addr\<rparr>,
                 h @ [\<lparr>cell_stream = stream, poisoned = False\<rparr>])))))"

text \<open>
  \<open>with_stream\<close>: the lock, then the operation on the stream. A reference that is not in the store
  does not occur (it stands for the poisoned lock's error here).
\<close>

definition with_stream ::
  "'v6 dtls_socket \<Rightarrow> ('s \<Rightarrow> (string + 'a) \<times> 's) \<Rightarrow> 's streams \<Rightarrow> (string + 'a) \<times> 's streams" where
  "with_stream sock f h =
     (if stream_ref sock < length h \<and> \<not> poisoned (h ! stream_ref sock) then
        (let (r, s) = f (cell_stream (h ! stream_ref sock))
         in (r, h[stream_ref sock := (h ! stream_ref sock)\<lparr>cell_stream := s\<rparr>]))
      else (Inl ''DTLS stream poisoned'', h))"

definition export_keying_material ::
  "('k, 'i, 's, 'v6) dtls_lib \<Rightarrow> 'v6 dtls_socket \<Rightarrow> string \<Rightarrow> nat \<Rightarrow> 's streams \<Rightarrow> (string + bytes) \<times> 's streams" where
  "export_keying_material lib sock label len = with_stream sock (\<lambda>s. (ssl_export lib s label len, s))"

definition dtls_send ::
  "('k, 'i, 's, 'v6) dtls_lib \<Rightarrow> 'v6 dtls_socket \<Rightarrow> bytes \<Rightarrow> 's streams \<Rightarrow> (string + nat) \<times> 's streams" where
  "dtls_send lib sock buf = with_stream sock (stream_write lib buf)"

text \<open>\<open>recv_from\<close> with a buffer of \<open>n\<close> bytes: the bytes read stand for their number.\<close>

definition dtls_recv_from ::
  "('k, 'i, 's, 'v6) dtls_lib \<Rightarrow> 'v6 dtls_socket \<Rightarrow> nat \<Rightarrow> 's streams \<Rightarrow>
     (string + bytes \<times> 'v6 socket_addr) \<times> 's streams" where
  "dtls_recv_from lib sock n h =
     (let (r, h') = with_stream sock (stream_read lib n) h
      in (result_bind r (\<lambda>data. Inr (data, dtls_remote_addr sock)), h'))"

definition dtls_set_read_timeout ::
  "('k, 'i, 's, 'v6) dtls_lib \<Rightarrow> 'v6 dtls_socket \<Rightarrow> nat option \<Rightarrow> 's streams \<Rightarrow> (string + unit) \<times> 's streams" where
  "dtls_set_read_timeout lib sock dur = with_stream sock (stream_timeout lib dur)"

definition dtls_try_clone :: "'v6 dtls_socket \<Rightarrow> string + 'v6 dtls_socket" where
  "dtls_try_clone sock =
     Inr \<lparr>stream_ref = stream_ref sock, dtls_remote_addr = dtls_remote_addr sock\<rparr>"

section \<open>What the library promises\<close>

text \<open>
  A SHA-256 digest has 32 bytes; the fingerprint \<^verbatim>\<open>udp_dtls\<close> computes of a certificate is that
  digest; an archive opened with its password gives back the key and the certificate put into it.
\<close>

definition dtls_lib_ok :: "('k, 'i, 's, 'v6) dtls_lib \<Rightarrow> bool" where
  "dtls_lib_ok lib \<longleftrightarrow>
     (\<forall>x d. x509_digest lib x = Inr d \<longrightarrow> length d = 32) \<and>
     (\<forall>x. certificate_fingerprint lib x = x509_digest lib x) \<and>
     (\<forall>n k x pw der. pkcs12_build2 lib n k x pw = Inr der \<longrightarrow> pkcs12_parse lib der pw = Inr (k, x))"

lemma dtls_lib_okD:
  assumes "dtls_lib_ok lib"
  shows "x509_digest lib x = Inr d \<Longrightarrow> length d = 32"
    and "certificate_fingerprint lib x = x509_digest lib x"
    and "pkcs12_build2 lib n k x pw = Inr der \<Longrightarrow> pkcs12_parse lib der pw = Inr (k, x)"
  using assms by (auto simp: dtls_lib_ok_def)

lemma ossl_eq_Inr: "ossl lib c k = Inr y \<longleftrightarrow> call_error lib c = None \<and> k () = Inr y"
  by (cases "call_error lib c") (simp_all add: ossl_def)

lemma ossl_dtls_eq_Inr: "ossl_dtls lib c k = Inr y \<longleftrightarrow> call_error lib c = None \<and> k () = Inr y"
  by (cases "call_error lib c") (simp_all add: ossl_dtls_def)

lemmas dtls_ok_simps = ossl_eq_Inr ossl_dtls_eq_Inr result_bind_eq_Inr

section \<open>Generated certificates\<close>

text \<open>What a generated certificate is: self-signed, with the digest the fingerprint prints.\<close>

definition certifies :: "('k, 'i, 's, 'v6) dtls_lib \<Rightarrow> 'i local_cert \<Rightarrow> 'k \<Rightarrow> 'k x509 \<Rightarrow> bytes \<Rightarrow> bool" where
  "certifies lib lc k x d \<longleftrightarrow>
     x_pubkey x = k \<and> x_signed_by x = k \<and> x_subject x = SUBJECT_CN \<and> x_issuer x = SUBJECT_CN \<and>
     x509_digest lib x = Inr d \<and> lc_fingerprint lc = fingerprint_from_digest d \<and>
     pkcs12_build2 lib FRIENDLY_NAME k x PKCS12_PASSWORD = Inr (pkcs12_der lc) \<and>
     from_pkcs12 lib (pkcs12_der lc) PKCS12_PASSWORD = Inr (lc_identity lc)"

lemma generated_cert:
  assumes "generate_self_signed_cert lib = Inr lc"
  obtains k x d where "ec_generate lib = Inr k" "build_x509_cert lib k = Inr x" "certifies lib lc k x d"
  using assms
  by (force simp: generate_self_signed_cert_def generate_ec_key_def build_x509_cert_def certifies_def dtls_ok_simps)

lemma generated_certifies:
  assumes "generate_self_signed_cert lib = Inr lc" and "ec_generate lib = Inr k" and "build_x509_cert lib k = Inr x"
  obtains d where "certifies lib lc k x d"
  using generated_cert[OF assms(1)] assms(2,3) by (metis sum.inject(2))

lemma duplicate_generated: "certifies lib lc k x d \<Longrightarrow> duplicate_identity lib lc = Inr (lc_identity lc)"
  by (simp add: duplicate_identity_def certifies_def)

text \<open>The printed fingerprint is read back by the parser of the session description.\<close>

lemma digest_fingerprint_parses:
  assumes "d \<noteq> []"
  shows "from_hash_string alg (fingerprint_from_digest d) = Inr \<lparr>algorithm = alg, fp_bytes = d\<rparr>"
  using hash_roundtrip(1)[of "\<lparr>algorithm = alg, fp_bytes = d\<rparr>"] assms
  by (simp add: hex_value_def fingerprint_from_digest_def)

lemma certified_fingerprint_parses:
  assumes "dtls_lib_ok lib" and "certifies lib lc k x d"
  shows "from_hash_string ''sha-256'' (lc_fingerprint lc) = Inr \<lparr>algorithm = ''sha-256'', fp_bytes = d\<rparr>"
  using assms dtls_lib_okD(1)[of lib x d] by (auto simp: certifies_def intro!: digest_fingerprint_parses)

section \<open>Handshake and verification\<close>

lemma verify_peer_iff:
  "verify_peer_fingerprint lib s expected = Inr () \<longleftrightarrow>
     to_ascii_lowercase (algorithm expected) = ''sha-256'' \<and>
     (\<exists>x. peer_certificate lib s = Inr (Some x) \<and> certificate_fingerprint lib x = Inr (fp_bytes expected))"
  by (auto simp: verify_peer_fingerprint_def dtls_ok_simps split: option.splits if_splits)

lemma normalize_role_cases:
  obtains "normalize_role role = Active" | "normalize_role role = Passive"
  by (cases role) simp_all

text \<open>The creation never reaches the code that is marked unreachable.\<close>

lemma dtls_socket_new_total: "\<exists>r. dtls_socket_new lib h addr role expected lc = Some r"
  by (cases role) (simp_all add: dtls_socket_new_def)

text \<open>A socket exists only over a stream whose peer presented a certificate with the expected digest.\<close>

lemma dtls_socket_authenticated:
  assumes "dtls_socket_new lib h addr role expected lc = Some (Inr (sock, h'))"
  obtains s x where "h' = h @ [\<lparr>cell_stream = s, poisoned = False\<rparr>]" "stream_ref sock = length h"
    "dtls_remote_addr sock = addr" "peer_certificate lib s = Inr (Some x)"
    "certificate_fingerprint lib x = Inr (fp_bytes expected)"
    "to_ascii_lowercase (algorithm expected) = ''sha-256''"
  using assms verify_peer_iff[of lib _ expected]
  by (auto simp: dtls_socket_new_def dtls_ok_simps split: option.splits dtls_setup_role.splits)

lemma active_handshake:
  assumes "certifies lib lc k x d" and "connector_build lib (lc_identity lc) = Inr ()"
    and "connect lib (lc_identity lc) ''roomrtc.local'' addr = Inr s"
  shows "establish_active_dtls lib lc addr = Inr s"
  using assms by (simp add: establish_active_dtls_def duplicate_generated)

lemma passive_handshake:
  assumes "dtls_lib_ok lib" and "certifies lib lc k x d"
    and "call_error lib Mozilla_intermediate = None" "call_error lib Set_private_key = None" "call_error lib Set_certificate = None"
    and "check_private_key lib k x = Inr ()" and "accept lib k x addr = Inr s"
  shows "establish_passive_dtls lib lc addr = Inr s"
  using assms dtls_lib_okD(3)[OF assms(1), of FRIENDLY_NAME k x PKCS12_PASSWORD "pkcs12_der lc"]
  by (simp add: establish_passive_dtls_def certifies_def ossl_dtls_def)

text \<open>The decision, once the handshake has produced a stream on which the peer presented \<open>x\<close>.\<close>

definition verdict :: "bytes \<Rightarrow> string + bytes \<Rightarrow> dtls_error option" where
  "verdict expected presented =
     (case presented of
        Inl e \<Rightarrow> Some (DtlsMapError e)
      | Inr d \<Rightarrow> if d = expected then None else Some (DtlsMapError ''Peer certificate fingerprint mismatch''))"

lemma dtls_socket_decides:
  assumes "dtls_lib_ok lib" and "peer_certificate lib s = Inr (Some x)"
    and "normalize_role role = Active \<and> establish_active_dtls lib lc addr = Inr s \<or>
         normalize_role role = Passive \<and> establish_passive_dtls lib lc addr = Inr s"
  shows "dtls_socket_new lib h addr role \<lparr>algorithm = ''sha-256'', fp_bytes = d\<rparr> lc =
    Some (case verdict d (x509_digest lib x) of
            Some e \<Rightarrow> Inl e
          | None \<Rightarrow> Inr (\<lparr>stream_ref = length h, dtls_remote_addr = addr\<rparr>,
                         h @ [\<lparr>cell_stream = s, poisoned = False\<rparr>]))"
proof -
  have "to_ascii_lowercase ''sha-256'' = ''sha-256''" by code_simp
  then have "verify_peer_fingerprint lib s \<lparr>algorithm = ''sha-256'', fp_bytes = d\<rparr> =
      (case verdict d (x509_digest lib x) of Some e \<Rightarrow> Inl e | None \<Rightarrow> Inr ())"
    using assms(1,2) by (simp add: verify_peer_fingerprint_def dtls_lib_okD(2) verdict_def split: sum.splits)
  then show ?thesis
    using assms(3) by (elim disjE conjE) (simp_all add: dtls_socket_new_def split: option.splits)
qed

section \<open>Shared streams\<close>

text \<open>A clone acts on the stream of the original: every operation through it has the same effect.\<close>

lemma clone_shares_stream:
  assumes "dtls_try_clone sock = Inr sock'"
  shows "dtls_send lib sock' buf h = dtls_send lib sock buf h"
    and "dtls_recv_from lib sock' n h = dtls_recv_from lib sock n h"
    and "export_keying_material lib sock' l m h = export_keying_material lib sock l m h"
  using assms
  by (auto simp: dtls_try_clone_def dtls_send_def dtls_recv_from_def export_keying_material_def with_stream_def)

text \<open>Once the lock is poisoned every operation fails and nothing is sent or read.\<close>

lemma poisoned_stream_fails:
  assumes "stream_ref sock < length h" and "poisoned (h ! stream_ref sock)"
  shows "dtls_send lib sock buf h = (Inl ''DTLS stream poisoned'', h)"
    and "dtls_recv_from lib sock n h = (Inl ''DTLS stream poisoned'', h)"
  using assms by (simp_all add: dtls_send_def dtls_recv_from_def with_stream_def)

text \<open>The other streams of the store are left alone.\<close>

lemma with_stream_frame:
  "i \<noteq> stream_ref sock \<Longrightarrow> snd (with_stream sock f h) ! i = h ! i"
  by (auto simp: with_stream_def split: prod.splits)

section \<open>The negotiated handshake\<close>

text \<open>What the exchange leaves on both sides: complementary roles and each other's digest.\<close>

lemma negotiated_digests:
  assumes cfg: "config_wf mcfg icfg scfg" and "enumerates ordA" and "enumerates ordB"
    and lib: "dtls_lib_ok libA" "dtls_lib_ok libB"
    and cert: "certifies libA lcA kA certA dA" "certifies libB lcB kB certB dB"
    and A: "call_session_new mcfg icfg scfg ifsA (Some prtA) stunA (Some (lc_fingerprint lcA)) = Some (Inr A)"
    and B: "call_session_new mcfg icfg scfg ifsB (Some prtB) stunB (Some (lc_fingerprint lcB)) = Some (Inr B)"
    and "gathered A" and "gathered B"
    and fit: "pairs_fit (local_candidates (cs_ice A)) (local_candidates (cs_ice B))"
  obtains offer B' ans ans' A' where
    "sdp_from_str (show_sdp ordA (get_offer A)) = Inr offer" "process_offer B offer = Some (B', Inr ans)"
    "sdp_from_str (show_sdp ordB ans) = Inr ans'" "process_answer A ans' = Some (A', Inr ())"
    "local_setup_role A' = Passive" "local_setup_role B' = Active"
    "remote_fingerprint B' = Some \<lparr>algorithm = ''sha-256'', fp_bytes = dA\<rparr>"
    "remote_fingerprint A' = Some \<lparr>algorithm = ''sha-256'', fp_bytes = dB\<rparr>"
  using offer_answer_ok[OF cfg \<open>enumerates ordA\<close> \<open>enumerates ordB\<close> A B \<open>gathered A\<close> \<open>gathered B\<close> fit]
    certified_fingerprint_parses[OF lib(1) cert(1)] certified_fingerprint_parses[OF lib(2) cert(2)]
  by auto

text \<open>
  C11. Two fresh sessions, each with its own generated certificate, exchange offer and answer over the
  printed descriptions. The caller then is the DTLS server and the callee the client, and whatever
  certificate the other end of the handshake presents, a side gets its socket if and only if that
  certificate has the SHA-256 digest of the one the other session generated: a third party with
  another certificate is refused by both, with the mismatch as the reason.
\<close>

theorem negotiated_handshake:
  assumes cfg: "config_wf mcfg icfg scfg" and "enumerates ordA" and "enumerates ordB"
    and lib: "dtls_lib_ok libA" "dtls_lib_ok libB"
    and gen: "generate_self_signed_cert libA = Inr lcA" "generate_self_signed_cert libB = Inr lcB"
    and A: "call_session_new mcfg icfg scfg ifsA (Some prtA) stunA (Some (lc_fingerprint lcA)) = Some (Inr A)"
    and B: "call_session_new mcfg icfg scfg ifsB (Some prtB) stunB (Some (lc_fingerprint lcB)) = Some (Inr B)"
    and "gathered A" and "gathered B"
    and fit: "pairs_fit (local_candidates (cs_ice A)) (local_candidates (cs_ice B))"
    and hs: "establish_passive_dtls libA lcA addrB = Inr sA" "establish_active_dtls libB lcB addrA = Inr sB"
    and peer: "peer_certificate libA sA = Inr (Some xB)" "peer_certificate libB sB = Inr (Some xA)"
  shows "\<exists>offer B' ans ans' A' kA kB certA certB dA dB.
    sdp_from_str (show_sdp ordA (get_offer A)) = Inr offer \<and> process_offer B offer = Some (B', Inr ans) \<and>
    sdp_from_str (show_sdp ordB ans) = Inr ans' \<and> process_answer A ans' = Some (A', Inr ()) \<and>
    certifies libA lcA kA certA dA \<and> certifies libB lcB kB certB dB \<and>
    dtls_socket_new libA hA addrB (local_setup_role A') (the (remote_fingerprint A')) lcA =
      Some (case verdict dB (x509_digest libA xB) of
              Some e \<Rightarrow> Inl e
            | None \<Rightarrow> Inr (\<lparr>stream_ref = length hA, dtls_remote_addr = addrB\<rparr>, hA @ [\<lparr>cell_stream = sA, poisoned = False\<rparr>])) \<and>
    dtls_socket_new libB hB addrA (local_setup_role B') (the (remote_fingerprint B')) lcB =
      Some (case verdict dA (x509_digest libB xA) of
              Some e \<Rightarrow> Inl e
            | None \<Rightarrow> Inr (\<lparr>stream_ref = length hB, dtls_remote_addr = addrA\<rparr>, hB @ [\<lparr>cell_stream = sB, poisoned = False\<rparr>]))"
proof -
  obtain kA certA dA where a: "certifies libA lcA kA certA dA" using generated_cert[OF gen(1)] by blast
  obtain kB certB dB where b: "certifies libB lcB kB certB dB" using generated_cert[OF gen(2)] by blast
  obtain offer B' ans ans' A' where x:
    "sdp_from_str (show_sdp ordA (get_offer A)) = Inr offer" "process_offer B offer = Some (B', Inr ans)"
    "sdp_from_str (show_sdp ordB ans) = Inr ans'" "process_answer A ans' = Some (A', Inr ())"
    "local_setup_role A' = Passive" "local_setup_role B' = Active"
    "remote_fingerprint B' = Some \<lparr>algorithm = ''sha-256'', fp_bytes = dA\<rparr>"
    "remote_fingerprint A' = Some \<lparr>algorithm = ''sha-256'', fp_bytes = dB\<rparr>"
    by (rule negotiated_digests[OF cfg \<open>enumerates ordA\<close> \<open>enumerates ordB\<close> lib a b A B \<open>gathered A\<close> \<open>gathered B\<close> fit])
  have "dtls_socket_new libA hA addrB (local_setup_role A') (the (remote_fingerprint A')) lcA =
      Some (case verdict dB (x509_digest libA xB) of
              Some e \<Rightarrow> Inl e
            | None \<Rightarrow> Inr (\<lparr>stream_ref = length hA, dtls_remote_addr = addrB\<rparr>, hA @ [\<lparr>cell_stream = sA, poisoned = False\<rparr>]))"
    using dtls_socket_decides[OF lib(1) peer(1), of Passive lcA addrB hA dB] hs(1) x(5,8) by simp
  moreover have "dtls_socket_new libB hB addrA (local_setup_role B') (the (remote_fingerprint B')) lcB =
      Some (case verdict dA (x509_digest libB xA) of
              Some e \<Rightarrow> Inl e
            | None \<Rightarrow> Inr (\<lparr>stream_ref = length hB, dtls_remote_addr = addrA\<rparr>, hB @ [\<lparr>cell_stream = sB, poisoned = False\<rparr>]))"
    using dtls_socket_decides[OF lib(2) peer(2), of Active lcB addrA hB dA] hs(2) x(6,7) by simp
  ultimately show ?thesis using x(1-4) a b by blast
qed

text \<open>
  A library to run on: keys and identities are numbers, the archive of a generated certificate is its
  key, a digest repeats the key 32 times, and a stream is the certificate the peer presented.
\<close>

definition sample_x509 :: "nat \<Rightarrow> nat x509" where
  "sample_x509 k = \<lparr>x_version = 2, x_serial = SERIAL_NUMBER, x_subject = SUBJECT_CN, x_issuer = SUBJECT_CN,
     x_not_before = 0, x_not_after = VALIDITY_DAYS, x_pubkey = k, x_signed_by = k\<rparr>"

definition sample_lib :: "nat \<Rightarrow> nat \<Rightarrow> bytes \<Rightarrow> (nat, nat, nat x509, unit) dtls_lib" where
  "sample_lib me peer km =
     \<lparr>call_error = \<lambda>_. None, ec_generate = Inr me,
      x509_digest = \<lambda>x. Inr (replicate 32 (word_of_nat (x_pubkey x))),
      pkcs12_build2 = \<lambda>n k x pw. if k < 256 \<and> x = sample_x509 k then Inr [word_of_nat k] else Inl [],
      pkcs12_parse = \<lambda>der pw. Inr (unat (hd der), sample_x509 (unat (hd der))),
      from_pkcs12 = \<lambda>der pw. Inr (unat (hd der)),
      connector_build = \<lambda>_. Inr (), connect = \<lambda>_ _ _. Inr (sample_x509 peer),
      check_private_key = \<lambda>_ _. Inr (), accept = \<lambda>_ _ _. Inr (sample_x509 peer),
      peer_certificate = \<lambda>s. Inr (Some s), certificate_fingerprint = \<lambda>x. Inr (replicate 32 (word_of_nat (x_pubkey x))),
      ssl_export = \<lambda>_ _ n. Inr (take n km), stream_write = \<lambda>buf s. (Inr (length buf), s),
      stream_read = \<lambda>_ s. (Inr [], s), stream_timeout = \<lambda>_ s. (Inr (), s)\<rparr>"

definition sample_cert :: "nat \<Rightarrow> nat local_cert" where
  "sample_cert k = \<lparr>lc_identity = k, lc_fingerprint = fingerprint_from_digest (replicate 32 (word_of_nat k)), pkcs12_der = [word_of_nat k]\<rparr>"

lemma sample_lib_ok: "dtls_lib_ok (sample_lib me peer km)"
  by (auto simp: dtls_lib_ok_def sample_lib_def unsigned_of_nat take_bit_nat_eq_self split: if_splits)

lemma sample_certifies:
  assumes "k < 256"
  shows "certifies (sample_lib k peer km) (sample_cert k) k (sample_x509 k) (replicate 32 (word_of_nat k))"
  using assms by (simp add: certifies_def sample_lib_def sample_cert_def sample_x509_def unsigned_of_nat take_bit_nat_eq_self)

lemma sample_generates: "k < 256 \<Longrightarrow> generate_self_signed_cert (sample_lib k peer km) = Inr (sample_cert k)"
  by (simp add: generate_self_signed_cert_def generate_ec_key_def build_x509_cert_def ossl_def sample_lib_def
      sample_x509_def sample_cert_def unsigned_of_nat take_bit_nat_eq_self)

lemma sample_handshake:
  assumes "k < 256"
  shows "establish_passive_dtls (sample_lib k peer km) (sample_cert k) addr = Inr (sample_x509 peer)"
    and "establish_active_dtls (sample_lib k peer km) (sample_cert k) addr = Inr (sample_x509 peer)"
    and "peer_certificate (sample_lib k peer km) (sample_x509 peer) = Inr (Some (sample_x509 peer))"
  by (simp_all add: establish_passive_dtls_def establish_active_dtls_def ossl_dtls_def duplicate_identity_def sample_lib_def)

lemma sample_fingerprint:
  "from_hash_string ''sha-256'' (lc_fingerprint (sample_cert k)) =
     Inr \<lparr>algorithm = ''sha-256'', fp_bytes = replicate 32 (word_of_nat k)\<rparr>"
  by (simp add: sample_cert_def digest_fingerprint_parses)

text \<open>The caller meets the callee's certificate; the callee meets that of a third party and refuses.\<close>

theorem negotiated_handshake_witness:
  "\<exists>(A' :: call_session) (B' :: call_session).
    dtls_socket_new (sample_lib 1 2 []) [] (V4 10 0 0 2 5000) (local_setup_role A') (the (remote_fingerprint A')) (sample_cert 1) =
      Some (Inr (\<lparr>stream_ref = 0, dtls_remote_addr = V4 10 0 0 2 5000\<rparr>, [\<lparr>cell_stream = sample_x509 2, poisoned = False\<rparr>])) \<and>
    dtls_socket_new (sample_lib 2 3 []) [] (V4 10 0 0 1 5000) (local_setup_role B') (the (remote_fingerprint B')) (sample_cert 2) =
      Some (Inl (DtlsMapError ''Peer certificate fingerprint mismatch''))"
proof -
  obtain A B where AB:
    "call_session_new sample_mcfg sample_icfg sdp_config_default
      (Some [(True, Some ''127.0.0.1''), (False, Some ''10.0.0.1'')]) (Some 5000) (Inl ''timeout'')
      (Some (lc_fingerprint (sample_cert 1))) = Some (Inr A)"
    "call_session_new sample_mcfg sample_icfg sdp_config_default
      (Some [(True, Some ''127.0.0.1''), (False, Some ''10.0.0.2'')]) (Some 5000) (Inl ''timeout'')
      (Some (lc_fingerprint (sample_cert 2))) = Some (Inr B)"
    "gathered A" "gathered B" "pairs_fit (local_candidates (cs_ice A)) (local_candidates (cs_ice B))"
    using sample_sessions[OF sample_fingerprint sample_fingerprint] by blast
  have gen: "generate_self_signed_cert (sample_lib 1 2 []) = Inr (sample_cert 1)"
    "generate_self_signed_cert (sample_lib 2 3 []) = Inr (sample_cert 2)" by (simp_all add: sample_generates)
  have one: "(1::nat) < 256" and two: "(2::nat) < 256" by simp_all
  have d: "certifies (sample_lib k q []) (sample_cert k) k' x d \<Longrightarrow> d = replicate 32 (word_of_nat k)"
    if "k < 256" for k k' q x d
    using that certified_fingerprint_parses[OF sample_lib_ok, of k q "[]" "sample_cert k" k' x d]
    by (simp add: sample_fingerprint)
  from negotiated_handshake[where hA = "[]" and hB = "[]" and addrA = "V4 10 0 0 1 5000" and addrB = "V4 10 0 0 2 5000",
      OF sample_config_wf sample_order_enumerates sample_order_enumerates sample_lib_ok sample_lib_ok gen AB
        sample_handshake(1)[OF one] sample_handshake(2)[OF two] sample_handshake(3)[OF one] sample_handshake(3)[OF two]]
  obtain A' B' :: call_session and kA kB certA certB dA dB where n:
    "certifies (sample_lib 1 2 []) (sample_cert 1) kA certA dA" "certifies (sample_lib 2 3 []) (sample_cert 2) kB certB dB"
    "dtls_socket_new (sample_lib 1 2 []) [] (V4 10 0 0 2 5000) (local_setup_role A') (the (remote_fingerprint A')) (sample_cert 1) =
      Some (case verdict dB (x509_digest (sample_lib 1 2 []) (sample_x509 2)) of
              Some e \<Rightarrow> Inl e
            | None \<Rightarrow> Inr (\<lparr>stream_ref = length ([] :: nat x509 streams), dtls_remote_addr = V4 10 0 0 2 5000\<rparr>,
                [] @ [\<lparr>cell_stream = sample_x509 2, poisoned = False\<rparr>]))"
    "dtls_socket_new (sample_lib 2 3 []) [] (V4 10 0 0 1 5000) (local_setup_role B') (the (remote_fingerprint B')) (sample_cert 2) =
      Some (case verdict dA (x509_digest (sample_lib 2 3 []) (sample_x509 3)) of
              Some e \<Rightarrow> Inl e
            | None \<Rightarrow> Inr (\<lparr>stream_ref = length ([] :: nat x509 streams), dtls_remote_addr = V4 10 0 0 1 5000\<rparr>,
                [] @ [\<lparr>cell_stream = sample_x509 3, poisoned = False\<rparr>]))"
    by (elim exE conjE) (rule that)
  have "verdict dB (x509_digest (sample_lib 1 2 []) (sample_x509 2)) = None"
    "verdict dA (x509_digest (sample_lib 2 3 []) (sample_x509 3)) = Some (DtlsMapError ''Peer certificate fingerprint mismatch'')"
    using d[OF one n(1)] d[OF two n(2)] by (simp_all add: verdict_def sample_lib_def sample_x509_def)
  then show ?thesis using n(3,4) by (intro exI[of _ A'] exI[of _ B']) simp
qed

end
