(* ===== verification/Secure_Call.thy ===== *)
theory Secure_Call
  imports Dtls Error_Display
begin

text \<open>
  The secured call: the DTLS sockets of the media transport (\<open>MediaTransport::start\<close>) and of the file
  transferer (\<open>FileTransferer::new\<close> in \<^verbatim>\<open>src/file/file_transferer/transferer.rs\<close>, with the listener
  \<open>wait_for_incoming\<close>), over the session that was negotiated. The media start and the SCTP transport are those
  of their own theories; here their DTLS calls are the ones of the DTLS socket.
\<close>

section \<open>Media over the negotiated session\<close>

text \<open>
  The calls of \<open>start\<close> that go through DTLS: the socket, and the keys exported from it by
  \<open>generate_srtp_ctx\<close>. The other outcomes are those of \<open>c\<close>.
\<close>

definition dtls_start_calls ::
  "('k, 'i, 's, 'v6) dtls_lib \<Rightarrow> 's streams \<Rightarrow> 'v6 socket_addr \<Rightarrow> dtls_setup_role \<Rightarrow> fingerprint \<Rightarrow> 'i local_cert \<Rightarrow>
     start_calls \<Rightarrow> start_calls option" where
  "dtls_start_calls lib h addr role expected lc c =
     (case dtls_socket_new lib h addr role expected lc of
        None \<Rightarrow> None
      | Some (Inl e) \<Rightarrow> Some (c\<lparr>dtls_new := Inl (show_dtls_error e)\<rparr>)
      | Some (Inr (sock, h')) \<Rightarrow>
          Some (c\<lparr>dtls_new := Inr (),
                  exported_keys := fst (export_keying_material lib sock ''EXTRACTOR-dtls_srtp'' 60 h')\<rparr>))"

definition media_start_dtls ::
  "('k, 'i, 's, 'v6) dtls_lib \<Rightarrow> 's streams \<Rightarrow> 'v6 socket_addr \<Rightarrow> dtls_setup_role \<Rightarrow> fingerprint \<Rightarrow> 'i local_cert \<Rightarrow>
     start_calls \<Rightarrow> media_transport \<Rightarrow> ((media_transport_error + srtp_context \<times> bool) \<times> media_transport) option" where
  "media_start_dtls lib h addr role expected lc c t =
     (case dtls_start_calls lib h addr role expected lc c of
        None \<Rightarrow> None
      | Some c' \<Rightarrow> Some (media_start c' role t))"

section \<open>The file transferer\<close>

text \<open>
  The calls of \<open>connect\<close> that are not on the DTLS socket: the locks, the endpoint's \<open>connect\<close> and the
  rounds of the wait for the handshake; \<open>fresh\<close> is the default association.
\<close>

record 'a sctp_calls =
  sc_bind :: "string + unit"
  sc_endpoint_lock :: lock_result
  sc_connect :: "string + nat \<times> 'a"
  sc_handle_lock :: lock_result
  sc_handshake :: "(string + bool) list"
  sc_fresh :: 'a

definition file_transferer_create ::
  "('k, 'i, 's, 'v6) dtls_lib \<Rightarrow> 's streams \<Rightarrow> 'v6 socket_addr \<Rightarrow> dtls_setup_role \<Rightarrow> fingerprint \<Rightarrow> 'i local_cert \<Rightarrow>
     'a sctp_calls \<Rightarrow> (file_transferer_error + 'a sctp_transport \<times> file_transferer) call_outcome" where
  "file_transferer_create lib h peer_address role expected lc sc =
     (let is_client = (role = Active)
      in case sc_bind sc of
           Inl e \<Rightarrow> Returned (Inl (File_Transfer.MapError e))
         | Inr _ \<Rightarrow>
             (case dtls_socket_new lib h peer_address role expected lc of
                None \<Rightarrow> Panicked
              | Some (Inl e) \<Rightarrow> Returned (Inl (File_Transfer.MapError (show_dtls_error e)))
              | Some (Inr (socket, h')) \<Rightarrow>
                  (case sctp_connect is_client (sc_endpoint_lock sc) (sc_connect sc) (sc_handle_lock sc)
                          (fst (dtls_set_read_timeout lib socket (Some 20) h')) (sc_handshake sc)
                          (sctp_transport_new (sc_fresh sc)) of
                     (t, Running) \<Rightarrow> Running
                   | (t, Panicked) \<Rightarrow> Panicked
                   | (t, Returned (Inl e)) \<Rightarrow> Returned (Inl (File_Transfer.MapError (show_sctp_error e)))
                   | (t, Returned (Inr _)) \<Rightarrow> Returned (Inr (t, file_transferer_new)))))"

text \<open>
  A round of the listener: the flag, what accepting a channel gave (\<open>None\<close>: still waiting), what
  sending the event and reading the channel gave. The result: the offers announced, the transferer, and
  whether the listener is still running.
\<close>

record listen_round =
  lr_connected :: bool
  lr_accept :: "(sctp_transport_error + nat) option"
  lr_event :: "string + unit"
  lr_reads :: "received_bytes list"

fun wait_for_incoming ::
  "listen_round list \<Rightarrow> file_transferer \<Rightarrow> (u32 \<times> file_metadata) list \<times> file_transferer \<times> bool" where
  "wait_for_incoming [] t = ([], t, True)"
| "wait_for_incoming (r # rounds) t =
     (if \<not> lr_connected r then ([], t, False)
      else case lr_accept r of
             None \<Rightarrow> ([], t, True)
           | Some (Inl e) \<Rightarrow> wait_for_incoming rounds t
           | Some (Inr dc) \<Rightarrow>
               (case handle_incoming t dc (lr_event r) (lr_reads r) of
                  None \<Rightarrow> ([], t, True)
                | Some (Inl e, t1) \<Rightarrow> ([], t1, False)
                | Some (Inr offer, t1) \<Rightarrow>
                    (case wait_for_incoming rounds t1 of (evs, t2, running) \<Rightarrow> (offer # evs, t2, running))))"

section \<open>The listener\<close>

lemma handle_incoming_pending:
  "handle_incoming t dc event reads = Some (r, t1) \<Longrightarrow>
     dom (pending_data_channels t) \<subseteq> dom (pending_data_channels t1) \<and>
     (\<forall>offer md. r = Inr (offer, md) \<longrightarrow> pending_data_channels t1 offer = Some dc)"
  by (induction t dc event reads rule: handle_incoming.induct)
    (auto simp: Let_def split: option.splits ftp_message.splits if_splits sum.splits)

text \<open>Every offer the listener announces can be answered: its channel is pending.\<close>

lemma announced_pending:
  "wait_for_incoming rounds t = (evs, t', running) \<Longrightarrow>
     dom (pending_data_channels t) \<subseteq> dom (pending_data_channels t') \<and>
     fst ` set evs \<subseteq> dom (pending_data_channels t')"
proof (induction rounds t arbitrary: evs t' running rule: wait_for_incoming.induct)
  case (2 r rounds t)
  show ?case
  proof (cases "lr_connected r \<and> (\<exists>dc offer t1. lr_accept r = Some (Inr dc) \<and>
      handle_incoming t dc (lr_event r) (lr_reads r) = Some (Inr offer, t1))")
    case True
    then obtain dc offer t1 where h: "lr_connected r" "lr_accept r = Some (Inr dc)"
      "handle_incoming t dc (lr_event r) (lr_reads r) = Some (Inr offer, t1)" by blast
    obtain evs' where w: "wait_for_incoming rounds t1 = (evs', t', running)" "evs = offer # evs'"
      using 2(3) h by (auto split: prod.splits)
    have "dom (pending_data_channels t1) \<subseteq> dom (pending_data_channels t') \<and> fst ` set evs' \<subseteq> dom (pending_data_channels t')"
      using 2(2) h w(1) by simp
    moreover have "dom (pending_data_channels t) \<subseteq> dom (pending_data_channels t1)" "fst offer \<in> dom (pending_data_channels t1)"
      using handle_incoming_pending[OF h(3)] by (cases offer; auto)+
    ultimately show ?thesis using w(2) by auto
  next
    case False
    then show ?thesis
      using 2(1,3) handle_incoming_pending[of t _ "lr_event r" "lr_reads r"]
      by (fastforce split: if_splits option.splits sum.splits prod.splits)
  qed
qed auto

text \<open>
  A channel whose reading fails before it makes an offer ends the listener: no later offer is
  announced while the call goes on.
\<close>

lemma failed_channel_ends_listener:
  "wait_for_incoming (\<lparr>lr_connected = True, lr_accept = Some (Inr dc), lr_event = Inr (), lr_reads = [Inl e]\<rparr> # rounds) t =
     ([], t, False)"
  by simp

section \<open>Keys on both sides\<close>

text \<open>All calls of the start other than those through DTLS succeed.\<close>

definition start_calls_ok :: "start_calls \<Rightarrow> bool" where
  "start_calls_ok c \<longleftrightarrow> clone_for_dtls c = Inr () \<and> connect_rtp c = Inr () \<and> connect_rtcp c = Inr () \<and>
     clone_for_rtcp c = Inr () \<and> report_handler_start c = Inr () \<and> clone_for_sender c = Inr () \<and>
     sender_start c = Inr () \<and> clone_for_receiver c = Inr () \<and> receiver_start c = Inr ()"

lemma media_start_dtls_ok:
  assumes "start_calls_ok c" and "srtp_new km = (Inr ctx :: unit srtp_error + srtp_context)"
    and "dtls_socket_new lib h addr role expected lc =
      Some (Inr (\<lparr>stream_ref = length h, dtls_remote_addr = addr\<rparr>, h @ [\<lparr>cell_stream = s, poisoned = False\<rparr>]))"
    and "ssl_export lib s ''EXTRACTOR-dtls_srtp'' 60 = Inr km"
  shows "\<exists>t'. media_start_dtls lib h addr role expected lc c t = Some (Inr (ctx, role = Active), t')"
  using assms
  by (simp add: media_start_dtls_def dtls_start_calls_def export_keying_material_def with_stream_def media_start_defs
      start_calls_ok_def)

text \<open>A handshake in which the peer presents the certificate with the expected digest gives the socket.\<close>

lemma expected_peer_accepted:
  assumes "dtls_lib_ok lib" and "peer_certificate lib s = Inr (Some x)" and "x509_digest lib x = Inr d"
    and "normalize_role role = Active \<and> establish_active_dtls lib lc addr = Inr s \<or>
         normalize_role role = Passive \<and> establish_passive_dtls lib lc addr = Inr s"
  shows "dtls_socket_new lib h addr role \<lparr>algorithm = ''sha-256'', fp_bytes = d\<rparr> lc =
    Some (Inr (\<lparr>stream_ref = length h, dtls_remote_addr = addr\<rparr>, h @ [\<lparr>cell_stream = s, poisoned = False\<rparr>]))"
  using dtls_socket_decides[OF assms(1,2,4)] assms(3) by (simp add: verdict_def)

text \<open>
  The sockets after the exchange: whatever their addresses, both ends accept the certificates that were announced, the
  offering end as the DTLS server and the answering end as the client.
\<close>

lemma negotiated_sockets:
  assumes cfg: "config_wf mcfg icfg scfg" and "enumerates ordA" and "enumerates ordB"
    and lib: "dtls_lib_ok libA" "dtls_lib_ok libB" and sha: "x509_digest libA = x509_digest libB"
    and gen: "generate_self_signed_cert libA = Inr lcA" "ec_generate libA = Inr kA" "build_x509_cert libA kA = Inr certA"
      "generate_self_signed_cert libB = Inr lcB" "ec_generate libB = Inr kB" "build_x509_cert libB kB = Inr certB"
    and A: "call_session_new mcfg icfg scfg ifsA (Some prtA) stunA (Some (lc_fingerprint lcA)) = Some (Inr A)"
    and B: "call_session_new mcfg icfg scfg ifsB (Some prtB) stunB (Some (lc_fingerprint lcB)) = Some (Inr B)"
    and "gathered A" and "gathered B"
    and fit: "pairs_fit (local_candidates (cs_ice A)) (local_candidates (cs_ice B))"
    and hs: "establish_passive_dtls libA lcA addrB = Inr sA" "establish_active_dtls libB lcB addrA = Inr sB"
    and peer: "peer_certificate libA sA = Inr (Some certB)" "peer_certificate libB sB = Inr (Some certA)"
  obtains offer B' ans ans' A' where
    "sdp_from_str (show_sdp ordA (get_offer A)) = Inr offer" "process_offer B offer = Some (B', Inr ans)"
    "sdp_from_str (show_sdp ordB ans) = Inr ans'" "process_answer A ans' = Some (A', Inr ())"
    "local_setup_role A' = Passive" "local_setup_role B' = Active"
    "dtls_socket_new libA hA addrB Passive (the (remote_fingerprint A')) lcA =
      Some (Inr (\<lparr>stream_ref = length hA, dtls_remote_addr = addrB\<rparr>, hA @ [\<lparr>cell_stream = sA, poisoned = False\<rparr>]))"
    "dtls_socket_new libB hB addrA Active (the (remote_fingerprint B')) lcB =
      Some (Inr (\<lparr>stream_ref = length hB, dtls_remote_addr = addrA\<rparr>, hB @ [\<lparr>cell_stream = sB, poisoned = False\<rparr>]))"
proof -
  obtain dA where a: "certifies libA lcA kA certA dA" by (rule generated_certifies[OF gen(1-3)])
  obtain dB where b: "certifies libB lcB kB certB dB" by (rule generated_certifies[OF gen(4-6)])
  have "x509_digest libA certB = Inr dB" "x509_digest libB certA = Inr dA"
    using a b by (simp_all add: certifies_def sha)
  then have sock: "dtls_socket_new libA hA addrB Passive \<lparr>algorithm = ''sha-256'', fp_bytes = dB\<rparr> lcA =
      Some (Inr (\<lparr>stream_ref = length hA, dtls_remote_addr = addrB\<rparr>, hA @ [\<lparr>cell_stream = sA, poisoned = False\<rparr>]))"
    "dtls_socket_new libB hB addrA Active \<lparr>algorithm = ''sha-256'', fp_bytes = dA\<rparr> lcB =
      Some (Inr (\<lparr>stream_ref = length hB, dtls_remote_addr = addrA\<rparr>, hB @ [\<lparr>cell_stream = sB, poisoned = False\<rparr>]))"
    using expected_peer_accepted[OF lib(1) peer(1)] expected_peer_accepted[OF lib(2) peer(2)] hs by simp_all
  obtain offer B' ans ans' A' where x:
    "sdp_from_str (show_sdp ordA (get_offer A)) = Inr offer" "process_offer B offer = Some (B', Inr ans)"
    "sdp_from_str (show_sdp ordB ans) = Inr ans'" "process_answer A ans' = Some (A', Inr ())"
    "local_setup_role A' = Passive" "local_setup_role B' = Active"
    "remote_fingerprint B' = Some \<lparr>algorithm = ''sha-256'', fp_bytes = dA\<rparr>"
    "remote_fingerprint A' = Some \<lparr>algorithm = ''sha-256'', fp_bytes = dB\<rparr>"
    by (rule negotiated_digests[OF cfg \<open>enumerates ordA\<close> \<open>enumerates ordB\<close> lib a b A B \<open>gathered A\<close> \<open>gathered B\<close> fit])
  show thesis by (rule that[OF x(1-6)]) (simp_all add: x(7,8) sock)
qed

text \<open>
  C10. From the signalling to the media: two sessions exchange offer and answer, both handshakes present the
  certificates that were announced and export the same keys, and nothing else fails. Then both media
  transports start, with the same SRTP context and on opposite sides of it, so that every packet that one side
  protects the other unprotects to the same packet, in both directions.
\<close>

theorem secure_call:
  assumes cfg: "config_wf mcfg icfg scfg" and "enumerates ordA" and "enumerates ordB"
    and lib: "dtls_lib_ok libA" "dtls_lib_ok libB" and sha: "x509_digest libA = x509_digest libB"
    and gen: "generate_self_signed_cert libA = Inr lcA" "ec_generate libA = Inr kA" "build_x509_cert libA kA = Inr certA"
      "generate_self_signed_cert libB = Inr lcB" "ec_generate libB = Inr kB" "build_x509_cert libB kB = Inr certB"
    and A: "call_session_new mcfg icfg scfg ifsA (Some prtA) stunA (Some (lc_fingerprint lcA)) = Some (Inr A)"
    and B: "call_session_new mcfg icfg scfg ifsB (Some prtB) stunB (Some (lc_fingerprint lcB)) = Some (Inr B)"
    and "gathered A" and "gathered B"
    and fit: "pairs_fit (local_candidates (cs_ice A)) (local_candidates (cs_ice B))"
    and hs: "establish_passive_dtls libA lcA addrB = Inr sA" "establish_active_dtls libB lcB addrA = Inr sB"
    and peer: "peer_certificate libA sA = Inr (Some certB)" "peer_certificate libB sB = Inr (Some certA)"
    and keys: "ssl_export libA sA ''EXTRACTOR-dtls_srtp'' 60 = Inr km" "ssl_export libB sB ''EXTRACTOR-dtls_srtp'' 60 = Inr km"
      "length km = 60"
    and calls: "start_calls_ok cA" "start_calls_ok cB" and ssl: "openssl_ok ssl"
  shows "\<exists>offer B' ans ans' A' ctx tA' tB'.
    sdp_from_str (show_sdp ordA (get_offer A)) = Inr offer \<and> process_offer B offer = Some (B', Inr ans) \<and>
    sdp_from_str (show_sdp ordB ans) = Inr ans' \<and> process_answer A ans' = Some (A', Inr ()) \<and>
    media_start_dtls libA hA addrB (local_setup_role A') (the (remote_fingerprint A')) lcA cA tA = Some (Inr (ctx, False), tA') \<and>
    media_start_dtls libB hB addrA (local_setup_role B') (the (remote_fingerprint B')) lcB cB tB = Some (Inr (ctx, True), tB') \<and>
    (\<forall>p. version p < 4 \<longrightarrow>
      (\<exists>d. protect ssl ctx p False = Inr d \<and> unprotect ssl ctx d True = Inr p) \<and>
      (\<exists>d. protect ssl ctx p True = Inr d \<and> unprotect ssl ctx d False = Inr p))"
proof -
  obtain ctx where ctx: "srtp_new km = (Inr ctx :: 'e srtp_error + srtp_context)"
    "srtp_new km = (Inr ctx :: unit srtp_error + srtp_context)" using keys(3) by (simp add: srtp_new_def)
  obtain offer B' ans ans' A' where x:
    "sdp_from_str (show_sdp ordA (get_offer A)) = Inr offer" "process_offer B offer = Some (B', Inr ans)"
    "sdp_from_str (show_sdp ordB ans) = Inr ans'" "process_answer A ans' = Some (A', Inr ())"
    "local_setup_role A' = Passive" "local_setup_role B' = Active"
    "dtls_socket_new libA hA addrB Passive (the (remote_fingerprint A')) lcA =
      Some (Inr (\<lparr>stream_ref = length hA, dtls_remote_addr = addrB\<rparr>, hA @ [\<lparr>cell_stream = sA, poisoned = False\<rparr>]))"
    "dtls_socket_new libB hB addrA Active (the (remote_fingerprint B')) lcB =
      Some (Inr (\<lparr>stream_ref = length hB, dtls_remote_addr = addrA\<rparr>, hB @ [\<lparr>cell_stream = sB, poisoned = False\<rparr>]))"
    by (rule negotiated_sockets[OF assms(1-21)])
  obtain tA' tB' where
    "media_start_dtls libA hA addrB Passive (the (remote_fingerprint A')) lcA cA tA = Some (Inr (ctx, False), tA')"
    "media_start_dtls libB hB addrA Active (the (remote_fingerprint B')) lcB cB tB = Some (Inr (ctx, True), tB')"
    using media_start_dtls_ok[OF calls(1) ctx(2) x(7) keys(1), of tA] media_start_dtls_ok[OF calls(2) ctx(2) x(8) keys(2), of tB]
    by auto
  moreover have "(\<exists>d. protect ssl ctx p False = Inr d \<and> unprotect ssl ctx d True = Inr p) \<and>
      (\<exists>d. protect ssl ctx p True = Inr d \<and> unprotect ssl ctx d False = Inr p)" if "version p < 4" for p
    using srtp_path[OF ssl ctx(1) that, of False] srtp_path[OF ssl ctx(1) that, of True] by simp blast
  ultimately show ?thesis using x by (intro exI[of _ offer] exI[of _ B'] exI[of _ ans] exI[of _ ans'] exI[of _ A']) auto
qed

section \<open>Files on both sides\<close>

text \<open>All calls of the transferer other than those on the DTLS socket succeed, and the SCTP handshake ends.\<close>

definition sctp_calls_ok :: "'a sctp_calls \<Rightarrow> bool" where
  "sctp_calls_ok sc \<longleftrightarrow> sc_bind sc = Inr () \<and> sc_endpoint_lock sc = Inr () \<and> \<not> isl (sc_connect sc) \<and> sc_handle_lock sc = Inr () \<and>
     await_handshake (sc_handshake sc) = Returned (Inr ())"

lemma file_transferer_create_ok:
  assumes "sctp_calls_ok sc"
    and "dtls_socket_new lib h addr role expected lc =
      Some (Inr (\<lparr>stream_ref = length h, dtls_remote_addr = addr\<rparr>, h @ [\<lparr>cell_stream = s, poisoned = False\<rparr>]))"
    and "stream_timeout lib (Some 20) s = (Inr (), s')"
  shows "\<exists>t. file_transferer_create lib h addr role expected lc sc = Returned (Inr (t, file_transferer_new)) \<and>
    next_stream_id t = (if role = Active then 1 else 0)"
  using assms
  by (cases "sc_connect sc")
    (auto simp: file_transferer_create_def sctp_calls_ok_def dtls_set_read_timeout_def with_stream_def sctp_connect_def
       sctp_transport_new_def Let_def)

text \<open>
  From the signalling to the file channels: after the exchange of offer and answer and two handshakes that present
  the announced certificates, both file transferers are created, and because the negotiated roles are opposite
  the data channels that the two ends open are all on different streams, whatever they open and whichever attempts fail.
\<close>

theorem secure_file_channels:
  assumes cfg: "config_wf mcfg icfg scfg" and "enumerates ordA" and "enumerates ordB"
    and lib: "dtls_lib_ok libA" "dtls_lib_ok libB" and sha: "x509_digest libA = x509_digest libB"
    and gen: "generate_self_signed_cert libA = Inr lcA" "ec_generate libA = Inr kA" "build_x509_cert libA kA = Inr certA"
      "generate_self_signed_cert libB = Inr lcB" "ec_generate libB = Inr kB" "build_x509_cert libB kB = Inr certB"
    and A: "call_session_new mcfg icfg scfg ifsA (Some prtA) stunA (Some (lc_fingerprint lcA)) = Some (Inr A)"
    and B: "call_session_new mcfg icfg scfg ifsB (Some prtB) stunB (Some (lc_fingerprint lcB)) = Some (Inr B)"
    and "gathered A" and "gathered B"
    and fit: "pairs_fit (local_candidates (cs_ice A)) (local_candidates (cs_ice B))"
    and hs: "establish_passive_dtls libA lcA addrB = Inr sA" "establish_active_dtls libB lcB addrA = Inr sB"
    and peer: "peer_certificate libA sA = Inr (Some certB)" "peer_certificate libB sB = Inr (Some certA)"
    and timeout: "stream_timeout libA (Some 20) sA = (Inr (), sA')" "stream_timeout libB (Some 20) sB = (Inr (), sB')"
    and calls: "sctp_calls_ok scA" "sctp_calls_ok scB"
  shows "\<exists>offer B' ans ans' A' server client.
    sdp_from_str (show_sdp ordA (get_offer A)) = Inr offer \<and> process_offer B offer = Some (B', Inr ans) \<and>
    sdp_from_str (show_sdp ordB ans) = Inr ans' \<and> process_answer A ans' = Some (A', Inr ()) \<and>
    file_transferer_create libA hA addrB (local_setup_role A') (the (remote_fingerprint A')) lcA scA =
      Returned (Inr (server, file_transferer_new)) \<and>
    file_transferer_create libB hB addrA (local_setup_role B') (the (remote_fingerprint B')) lcB scB =
      Returned (Inr (client, file_transferer_new)) \<and>
    (\<forall>bn t1 xs t2 ys. distinct (opened_streams bn t1 xs client @ opened_streams bn t2 ys server))"
proof -
  obtain offer B' ans ans' A' where x:
    "sdp_from_str (show_sdp ordA (get_offer A)) = Inr offer" "process_offer B offer = Some (B', Inr ans)"
    "sdp_from_str (show_sdp ordB ans) = Inr ans'" "process_answer A ans' = Some (A', Inr ())"
    "local_setup_role A' = Passive" "local_setup_role B' = Active"
    "dtls_socket_new libA hA addrB Passive (the (remote_fingerprint A')) lcA =
      Some (Inr (\<lparr>stream_ref = length hA, dtls_remote_addr = addrB\<rparr>, hA @ [\<lparr>cell_stream = sA, poisoned = False\<rparr>]))"
    "dtls_socket_new libB hB addrA Active (the (remote_fingerprint B')) lcB =
      Some (Inr (\<lparr>stream_ref = length hB, dtls_remote_addr = addrA\<rparr>, hB @ [\<lparr>cell_stream = sB, poisoned = False\<rparr>]))"
    by (rule negotiated_sockets[OF assms(1-21)])
  obtain server where "file_transferer_create libA hA addrB Passive (the (remote_fingerprint A')) lcA scA =
      Returned (Inr (server, file_transferer_new))" "next_stream_id server = 0"
    using file_transferer_create_ok[OF calls(1) x(7) timeout(1)] by auto
  moreover obtain client where "file_transferer_create libB hB addrA Active (the (remote_fingerprint B')) lcB scB =
      Returned (Inr (client, file_transferer_new))" "next_stream_id client = 1"
    using file_transferer_create_ok[OF calls(2) x(8) timeout(2)] by auto
  ultimately show ?thesis
    using x opened_disjoint[of client server]
    by (intro exI[of _ offer] exI[of _ B'] exI[of _ ans] exI[of _ ans'] exI[of _ A'] exI[of _ server] exI[of _ client]) auto
qed

text \<open>
  Only \<open>DtlsSocket::new\<close> normalises the role. A side whose role is still \<open>actpass\<close> (an answer without the
  attribute leaves it so) makes the handshake as the client but takes the server's keys.
\<close>

lemma actpass_client_server_keys:
  assumes "dtls_socket_new lib h addr ActPass expected lc = Some (Inr (sock, h'))"
    and "media_start_dtls lib h addr ActPass expected lc c t = Some (Inr (ctx, is_client), t')"
  shows "\<not> is_client" and "\<exists>s. establish_active_dtls lib lc addr = Inr s"
proof -
  show "\<not> is_client"
    using assms by (auto simp: media_start_dtls_def dest: media_start_flag split: option.splits)
  show "\<exists>s. establish_active_dtls lib lc addr = Inr s"
    using assms(1) by (auto simp: dtls_socket_new_def result_bind_eq_Inr)
qed

definition sample_start :: start_calls where
  "sample_start = \<lparr>clone_for_dtls = Inr (), dtls_new = Inr (), connect_rtp = Inr (), connect_rtcp = Inr (), exported_keys = Inr [],
     clone_for_rtcp = Inr (), report_handler_start = Inr (), flag_after_handshake = True, clone_for_sender = Inr (),
     sender_start = Inr (), clone_for_receiver = Inr (), receiver_start = Inr ()\<rparr>"

definition sample_transport :: "u16 \<Rightarrow> media_transport" where
  "sample_transport p = \<lparr>rtp_address = (''10.0.0.1'', p), rtcp_address = (''10.0.0.1'', p + 1), rtcp_handler = False,
     transport_connected = False\<rparr>"

definition sample_keys :: bytes where
  "sample_keys = replicate 16 1 @ replicate 16 2 @ replicate 14 3 @ replicate 14 4"

lemma sample_builds: "build_x509_cert (sample_lib me other km) k = Inr (sample_x509 k)"
  by (simp add: build_x509_cert_def ossl_def sample_lib_def sample_x509_def)

lemma sample_exports: "ssl_export (sample_lib me other sample_keys) s l 60 = Inr sample_keys"
  by (simp add: sample_lib_def sample_keys_def)

theorem secure_call_witness:
  "\<exists>(A' :: call_session) (B' :: call_session) ctx tA' tB' d.
    media_start_dtls (sample_lib 1 2 sample_keys) [] (V4 10 0 0 2 5000) (local_setup_role A') (the (remote_fingerprint A'))
      (sample_cert 1) sample_start (sample_transport 5000) = Some (Inr (ctx, False), tA') \<and>
    media_start_dtls (sample_lib 2 1 sample_keys) [] (V4 10 0 0 1 5000) (local_setup_role B') (the (remote_fingerprint B'))
      (sample_cert 2) sample_start (sample_transport 6000) = Some (Inr (ctx, True), tB') \<and>
    protect xor_ssl ctx sample_packet True = Inr d \<and> unprotect xor_ssl ctx d False = Inr sample_packet"
proof -
  obtain A B where AB:
    "call_session_new sample_mcfg sample_icfg sdp_config_default
      (Some [(True, Some ''127.0.0.1''), (False, Some ''10.0.0.1'')]) (Some 5000) (Inl ''timeout'')
      (Some (lc_fingerprint (sample_cert 1))) = Some (Inr A)"
    "call_session_new sample_mcfg sample_icfg sdp_config_default
      (Some [(True, Some ''127.0.0.1''), (False, Some ''10.0.0.2'')]) (Some 5000) (Inl ''timeout'')
      (Some (lc_fingerprint (sample_cert 2))) = Some (Inr B)"
    "gathered A" "gathered B" "pairs_fit (local_candidates (cs_ice A)) (local_candidates (cs_ice B))"
    using sample_sessions[OF sample_fingerprint sample_fingerprint] by blast
  have one: "(1::nat) < 256" and two: "(2::nat) < 256" by simp_all
  have sha: "x509_digest (sample_lib 1 2 sample_keys) = x509_digest (sample_lib 2 1 sample_keys)"
    and ec: "ec_generate (sample_lib k q sample_keys) = Inr k" for k q by (simp_all add: sample_lib_def)
  have ok: "start_calls_ok sample_start" and km: "length sample_keys = 60" and v: "version sample_packet < 4"
    by (simp_all add: start_calls_ok_def sample_start_def sample_keys_def sample_packet_def)
  from secure_call[where hA = "[]" and hB = "[]" and addrA = "V4 10 0 0 1 5000" and addrB = "V4 10 0 0 2 5000"
      and tA = "sample_transport 5000" and tB = "sample_transport 6000",
      OF sample_config_wf sample_order_enumerates sample_order_enumerates sample_lib_ok sample_lib_ok sha
        sample_generates[OF one] ec sample_builds sample_generates[OF two] ec sample_builds AB
        sample_handshake(1)[OF one] sample_handshake(2)[OF two] sample_handshake(3)[OF one] sample_handshake(3)[OF two]
        sample_exports sample_exports km ok ok xor_ssl_ok]
  show ?thesis using v by (elim exE conjE) (metis (no_types, lifting))
qed

definition sample_sctp :: "nat sctp_calls" where
  "sample_sctp = \<lparr>sc_bind = Inr (), sc_endpoint_lock = Inr (), sc_connect = Inr (4, 7), sc_handle_lock = Inr (),
     sc_handshake = [Inr True, Inr False], sc_fresh = 0\<rparr>"

theorem secure_file_channels_witness:
  "\<exists>(A' :: call_session) (B' :: call_session) client server.
    file_transferer_create (sample_lib 1 2 []) [] (V4 10 0 0 2 5000) (local_setup_role A') (the (remote_fingerprint A'))
      (sample_cert 1) sample_sctp = Returned (Inr (server, file_transferer_new)) \<and>
    file_transferer_create (sample_lib 2 1 []) [] (V4 10 0 0 1 5000) (local_setup_role B') (the (remote_fingerprint B'))
      (sample_cert 2) sample_sctp = Returned (Inr (client, file_transferer_new)) \<and>
    distinct (opened_streams ''binary'' 500 [sample_args, sample_failed, sample_args] client @
      opened_streams ''binary'' 500 [sample_args] server)"
proof -
  obtain A B where AB:
    "call_session_new sample_mcfg sample_icfg sdp_config_default
      (Some [(True, Some ''127.0.0.1''), (False, Some ''10.0.0.1'')]) (Some 5000) (Inl ''timeout'')
      (Some (lc_fingerprint (sample_cert 1))) = Some (Inr A)"
    "call_session_new sample_mcfg sample_icfg sdp_config_default
      (Some [(True, Some ''127.0.0.1''), (False, Some ''10.0.0.2'')]) (Some 5000) (Inl ''timeout'')
      (Some (lc_fingerprint (sample_cert 2))) = Some (Inr B)"
    "gathered A" "gathered B" "pairs_fit (local_candidates (cs_ice A)) (local_candidates (cs_ice B))"
    using sample_sessions[OF sample_fingerprint sample_fingerprint] by blast
  have one: "(1::nat) < 256" and two: "(2::nat) < 256" by simp_all
  have sha: "x509_digest (sample_lib 1 2 []) = x509_digest (sample_lib 2 1 [])"
    and ec: "ec_generate (sample_lib k q []) = Inr k" and st: "stream_timeout (sample_lib k q []) d s = (Inr (), s)" for k q d s
    by (simp_all add: sample_lib_def)
  have ok: "sctp_calls_ok sample_sctp" by (simp add: sctp_calls_ok_def sample_sctp_def)
  from secure_file_channels[where hA = "[]" and hB = "[]" and addrA = "V4 10 0 0 1 5000" and addrB = "V4 10 0 0 2 5000",
      OF sample_config_wf sample_order_enumerates sample_order_enumerates sample_lib_ok sample_lib_ok sha
        sample_generates[OF one] ec sample_builds sample_generates[OF two] ec sample_builds AB
        sample_handshake(1)[OF one] sample_handshake(2)[OF two] sample_handshake(3)[OF one] sample_handshake(3)[OF two]
        st st ok ok]
  show ?thesis by (elim exE conjE) blast
qed

end
