(* ===== verification/Call_Setup.thy ===== *)
theory Call_Setup
  imports Secure_Call
begin

text \<open>
  The establishment of a call, across the components that \<open>Controller::join_call\<close> of \<^verbatim>\<open>src/controller/control.rs\<close>
  puts together: the session with its ICE agent, the media transport over DTLS and SRTP, the file transferer over DTLS and SCTP, the media pipeline with
  the devices. The operations of the controller that join a call are written again with the operations of
  the DTLS, SRTP and SCTP components in place of given outcomes; they refine those of the theory of the controller. The last
  section has the theorem about two clients.
\<close>

section \<open>The agents after the exchange\<close>

text \<open>Every local candidate is paired with every remote one.\<close>

definition all_paired :: "ice_agent \<Rightarrow> bool" where
  "all_paired ag \<longleftrightarrow>
     (\<forall>l\<in>set (local_candidates ag). \<forall>r\<in>set (remote_candidates ag).
        \<exists>p\<in>set (candidate_pairs ag). pair_local p = l \<and> pair_remote p = r)"

definition ice_ready :: "ice_agent \<Rightarrow> bool" where
  "ice_ready ag \<longleftrightarrow> agent_wf ag \<and> all_paired ag"

lemma all_pairs_complete:
  assumes "all_pairs ls rs = Some ps" and "l \<in> set ls" and "r \<in> set rs"
  shows "\<exists>p\<in>set ps. pair_local p = l \<and> pair_remote p = r"
proof -
  have "(l, r) \<in> set (map (\<lambda>p. (pair_local p, pair_remote p)) ps)"
    using all_pairs_wf[OF assms(1)] assms(2,3) by simp
  then show ?thesis by auto
qed

lemma create_pairs_ready:
  assumes "agent_wf ag" and "create_candidate_pair ag = Some (ag', Inr u)"
  shows "ice_ready ag' \<and> local_candidates ag' = local_candidates ag"
  using create_candidate_pair_wf[OF assms] assms(2)
  by (auto simp: ice_ready_def create_candidate_pair_def all_paired_def Let_def dest!: all_pairs_complete
      split: if_splits option.splits)

lemma add_candidates_ready:
  "ice_ready ag \<Longrightarrow> add_candidates ag cs = Some (ag', Inr u) \<Longrightarrow> ice_ready ag' \<and> local_candidates ag' = local_candidates ag"
proof (induction cs arbitrary: ag)
  case (Cons c cs)
  then obtain ag1 u1 where a: "add_remote_candidate ag c = Some (ag1, Inr u1)" "add_candidates ag1 cs = Some (ag', Inr u)"
    by (auto split: option.splits sum.splits)
  have wf: "agent_wf (ag\<lparr>remote_candidates := remote_candidates ag @ [c]\<rparr>)"
    using Cons.prems(1) by (simp add: ice_ready_def agent_wf_more_remote)
  have "create_candidate_pair (ag\<lparr>remote_candidates := remote_candidates ag @ [c]\<rparr>) = Some (ag1, Inr u1)"
    using a(1) by (simp add: add_remote_candidate_def)
  from create_pairs_ready[OF wf this] have "ice_ready ag1 \<and> local_candidates ag1 = local_candidates ag" by simp
  then show ?case using Cons.IH[OF _ a(2)] by simp
qed simp

lemma set_role_ice: "set_local_setup_role s role = Inr s' \<Longrightarrow> cs_ice s' = cs_ice s"
  by (auto simp: set_local_setup_role_def split: if_splits sum.splits)

lemma process_media_ready:
  "ice_ready (cs_ice s) \<Longrightarrow> process_remote_media s mds ty = Some (s', Inr u) \<Longrightarrow>
     ice_ready (cs_ice s') \<and> local_candidates (cs_ice s') = local_candidates (cs_ice s)"
proof (induction mds arbitrary: s)
  case (Cons md mds)
  obtain ag v where ag: "add_candidates (cs_ice s) (get_candidates md) = Some (ag, Inr v)"
    using Cons.prems(2) by (auto split: option.splits sum.splits)
  obtain s1 where s1: "process_remote_media s1 mds ty = Some (s', Inr u)" "cs_ice s1 = ag"
    using Cons.prems(2) ag set_role_ice by (fastforce simp: Let_def split: option.splits sum.splits)
  show ?case using Cons.IH[OF _ s1(1)] add_candidates_ready[OF Cons.prems(1) ag] s1(2) by simp
qed simp

lemma process_answer_ready:
  "ice_ready (cs_ice s) \<Longrightarrow> process_answer s d = Some (s', Inr u) \<Longrightarrow>
     ice_ready (cs_ice s') \<and> local_candidates (cs_ice s') = local_candidates (cs_ice s)"
  unfolding process_answer_def process_remote_sdp_def by (rule process_media_ready)

lemma process_offer_ready:
  assumes "ice_ready (cs_ice s)" and "process_offer s d = Some (s', Inr ans)"
  shows "ice_ready (cs_ice s') \<and> local_candidates (cs_ice s') = local_candidates (cs_ice s)"
proof -
  obtain s1 where "set_local_setup_role s (determine_local_role s d Offer) = Inr s1"
    "process_remote_media s1 (media_descriptions d) Offer = Some (s', Inr ())"
    using assms(2) by (auto simp: process_offer_def process_remote_sdp_def split: sum.splits option.splits)
  then show ?thesis using process_media_ready[of s1] set_role_ice[of s] assms(1) by fastforce
qed

lemma fresh_session_ready:
  assumes "call_session_new mcfg icfg scfg ifs (Some prt) stun (Some cert_fp) = Some (Inr s)"
  shows "ice_ready (cs_ice s)"
proof -
  obtain ag where g: "gather_candidates ice_agent_new ifs (Some prt) stun icfg = Some ag" "cs_ice s = ag"
    using call_session_new_result[OF assms] by auto
  have "remote_candidates ag = []"
    using g(1) by (auto simp: gather_candidates_def ice_agent_new_def Let_def split: sum.splits option.splits if_splits prod.splits)
  then show ?thesis using gather_candidates_wf[OF ice_new_wf g(1)] g(2) by (simp add: ice_ready_def all_paired_def)
qed

section \<open>Checks that are answered\<close>

text \<open>A ping to any host candidate among \<open>cs\<close> is answered.\<close>

definition answered :: "(nat \<Rightarrow> ping_event list) \<Rightarrow> candidate list \<Rightarrow> bool" where
  "answered env cs \<longleftrightarrow>
     (\<forall>i. \<forall>r\<in>set cs. cand_type r = Host \<longrightarrow>
        fst (verify_candidate_pair (address r @ '':'' @ show_nat (unat (cand_port r))) (env i)))"

definition has_host :: "candidate list \<Rightarrow> bool" where
  "has_host cs \<longleftrightarrow> (\<exists>c\<in>set cs. cand_type c = Host)"

lemma answered_checks_select:
  assumes "ice_ready ag" and "has_host (local_candidates ag)" and "has_host (remote_candidates ag)"
    and "answered env (remote_candidates ag)"
  shows "\<exists>ag' p. start_connectivity_checks ag True env = (ag', Inr ()) \<and> selected_pair ag' = Some p \<and>
    pair_remote p \<in> set (remote_candidates ag)"
proof -
  let ?ps = "sort_pairs (candidate_pairs ag)"
  have ps: "set ?ps = set (candidate_pairs ag)" by (metis set_mset_mset sort_pairs_mset)
  obtain p where p: "p \<in> set ?ps" "cand_type (pair_local p) = Host" "cand_type (pair_remote p) = Host"
    using assms(1-3) by (fastforce simp: ice_ready_def all_paired_def has_host_def ps)
  have rem: "q \<in> set ?ps \<Longrightarrow> pair_remote q \<in> set (remote_candidates ag)" for q
    using assms(1) by (auto simp: ice_ready_def agent_wf_def pair_wf_def ps)
  obtain k where k: "k < length ?ps" "p = ?ps ! k" using p(1) by (auto simp: in_set_conv_nth)
  then have "passes env k (?ps ! k)"
    using p rem[OF p(1)] assms(4) by (simp add: passes_def is_host_pair_def answered_def pair_target_def)
  then obtain q where q: "snd (check_pairs env 0 ?ps) = Some q"
    using check_pairs_None[of env 0 ?ps] k(1) by fastforce
  then have "pair_remote q \<in> set (remote_candidates ag)"
    using check_pairs_Some[OF q] rem by (force simp: in_set_conv_nth)
  moreover have "candidate_pairs ag \<noteq> []" using p(1) ps by auto
  ultimately show ?thesis
    using q by (auto simp: start_connectivity_checks_def Let_def split: prod.splits)
qed

section \<open>Joining with the components themselves\<close>

text \<open>
  \<open>join_call\<close> with the calls of the components it starts: the transport over its DTLS socket, the file transferer over
  another one, the media pipeline with its devices. A join that succeeds returns what it has handed on: the SRTP
  context with its side, which the transport's threads get, and the SCTP transport, which the file transferer gets. \<open>None\<close>: a
  panic, or an SCTP handshake that does not end.
\<close>

type_synonym 'a joined = "(srtp_context \<times> bool) \<times> 'a sctp_transport"

definition join_call_full ::
  "'v6 v6_text \<Rightarrow> ('k, 'i, 's, 'v6) dtls_lib \<Rightarrow> 'i local_cert \<Rightarrow> start_calls \<Rightarrow> 'a sctp_calls \<Rightarrow> pipeline_calls \<Rightarrow> nat \<Rightarrow>
     controller \<Rightarrow> (controller \<times> app_event list \<times> (controller_error + 'a joined)) option" where
  "join_call_full v6 lib lc mc sc pc max_chunk c =
     (let role = local_setup_role (ctl_session c)
      in case get_remote_addresses v6 c of
           None \<Rightarrow> None
         | Some (Inl e) \<Rightarrow> Some (c, [], Inl (CtlMapError (FromController e)))
         | Some (Inr (rtp, rtcp, sctp)) \<Rightarrow>
             (case remote_fingerprint (ctl_session c) of
                None \<Rightarrow> Some (c, [], Inl NotLoggedInError)
              | Some fp \<Rightarrow>
                  (case media_start_dtls lib [] rtp role fp lc mc (ctl_transport c) of
                     None \<Rightarrow> None
                   | Some (Inl e, t) \<Rightarrow> Some (c\<lparr>ctl_transport := t\<rparr>, [], Inl (CtlMapError (FromMedia e)))
                   | Some (Inr keys, t) \<Rightarrow>
                       (let c1 = c\<lparr>ctl_transport := t\<rparr>
                        in if add_chk (snd (rtp_address t)) 2 = None then None
                           else case file_transferer_create lib [] sctp role fp lc sc of
                             Running \<Rightarrow> None
                           | Panicked \<Rightarrow> None
                           | Returned (Inl e) \<Rightarrow> Some (c1, [], Inl (CtlMapError (FromText (show_file_transferer_error e))))
                           | Returned (Inr (transport, files)) \<Rightarrow>
                               (case media_pipeline_start pc max_chunk (ctl_pipeline c1) of
                                  (Inl e, p, evs) \<Rightarrow>
                                    Some (c1\<lparr>ctl_files := Some files, ctl_pipeline := p\<rparr>, evs,
                                          Inl (CtlMapError (FromText (show_pipeline_error e))))
                                | (Inr _, p, evs) \<Rightarrow>
                                    Some (c1\<lparr>ctl_files := Some files, ctl_pipeline := p\<rparr>, evs, Inr (keys, transport)))))))"

definition check_and_join_full ::
  "'v6 v6_text \<Rightarrow> ('k, 'i, 's, 'v6) dtls_lib \<Rightarrow> 'i local_cert \<Rightarrow> start_calls \<Rightarrow> 'a sctp_calls \<Rightarrow> pipeline_calls \<Rightarrow> nat \<Rightarrow>
     bool \<Rightarrow> (nat \<Rightarrow> ping_event list) \<Rightarrow> controller \<Rightarrow>
     (controller \<times> app_event list \<times> (controller_error + 'a joined)) option" where
  "check_and_join_full v6 lib lc mc sc pc max_chunk timeout_ok pings c =
     (case start_ice_checks (ctl_session c) timeout_ok pings of
        (ses, Inl e) \<Rightarrow> Some (c\<lparr>ctl_session := ses\<rparr>, [], Inl (CtlMapError (FromSession e)))
      | (ses, Inr _) \<Rightarrow> join_call_full v6 lib lc mc sc pc max_chunk (c\<lparr>ctl_session := ses\<rparr>))"

text \<open>The caller's side of an accepted call, and the callee's.\<close>

definition get_in_call_full ::
  "'v6 v6_text \<Rightarrow> ('k, 'i, 's, 'v6) dtls_lib \<Rightarrow> 'i local_cert \<Rightarrow> start_calls \<Rightarrow> 'a sctp_calls \<Rightarrow> pipeline_calls \<Rightarrow> nat \<Rightarrow>
     bool \<Rightarrow> (nat \<Rightarrow> ping_event list) \<Rightarrow> session_description \<Rightarrow> controller \<Rightarrow>
     (controller \<times> app_event list \<times> (controller_error + 'a joined)) option" where
  "get_in_call_full v6 lib lc mc sc pc max_chunk timeout_ok pings sdp_answer c =
     (case process_answer (ctl_session c) sdp_answer of
        None \<Rightarrow> None
      | Some (ses, Inl e) \<Rightarrow> Some (c\<lparr>ctl_session := ses\<rparr>, [], Inl (CtlMapError (FromSession e)))
      | Some (ses, Inr _) \<Rightarrow>
          check_and_join_full v6 lib lc mc sc pc max_chunk timeout_ok pings (c\<lparr>ctl_session := ses\<rparr>))"

definition accept_call_full ::
  "'v6 link_env \<Rightarrow> ('k, 'i, 's, 'v6) dtls_lib \<Rightarrow> 'i local_cert \<Rightarrow> start_calls \<Rightarrow> 'a sctp_calls \<Rightarrow> pipeline_calls \<Rightarrow> nat \<Rightarrow>
     bool \<Rightarrow> (nat \<Rightarrow> ping_event list) \<Rightarrow> string \<Rightarrow> session_description \<Rightarrow> controller \<Rightarrow>
     (controller \<times> app_event list \<times> (controller_error + 'a joined)) option" where
  "accept_call_full env lib lc mc sc pc max_chunk timeout_ok pings to_usr offer_sdp c =
     (case process_offer (ctl_session c) offer_sdp of
        None \<Rightarrow> None
      | Some (ses, Inl e) \<Rightarrow> Some (c\<lparr>ctl_session := ses\<rparr>, [], Inl (CtlMapError (FromSession e)))
      | Some (ses, Inr sdp_answer) \<Rightarrow>
          (let c1 = c\<lparr>ctl_session := ses\<rparr>
           in case get_token c1 of
                Inl e \<Rightarrow> Some (c1, [], Inl e)
              | Inr tok \<Rightarrow>
                  (case request env (CallAccept tok to_usr sdp_answer) of
                     (evs, Inl e) \<Rightarrow> Some (c1, evs, Inl e)
                   | (evs, Inr CallAcceptOk) \<Rightarrow>
                       map_option (\<lambda>(c2, evs2, r). (c2, evs @ evs2, r))
                         (check_and_join_full (le_v6 env) lib lc mc sc pc max_chunk timeout_ok pings c1)
                   | (evs, Inr (CallAcceptError e)) \<Rightarrow> Some (c1, evs, Inl (CallError e))
                   | (evs, Inr _) \<Rightarrow> Some (c1, evs, Inl BadResponse))))"

section \<open>The controller's operations are refined\<close>

lemma created_transferer: "file_transferer_create lib h addr role fp lc sc = Returned (Inr (t, f)) \<Longrightarrow> f = file_transferer_new"
  by (auto simp: file_transferer_create_def Let_def split: sum.splits option.splits prod.splits call_outcome.splits)

text \<open>Joining is the controller's \<open>join_call\<close> for the outcomes the components have.\<close>

abbreviation unit_result :: "'e + 'b \<Rightarrow> 'e + unit" where
  "unit_result r \<equiv> map_sum id (\<lambda>_. ()) r"

lemma join_refines:
  assumes "join_call_full v6 lib lc mc sc pc k c = Some (c', evs, r)"
  shows "\<exists>jc. join_call v6 jc c = Some (c', evs, unit_result r)"
proof -
  let ?role = "local_setup_role (ctl_session c)"
  consider (addr) e where "get_remote_addresses v6 c = Some (Inl e)"
    | (fp) a where "get_remote_addresses v6 c = Some (Inr a)" "remote_fingerprint (ctl_session c) = None"
    | (start) rtp rtcp sctp fp mc' where "get_remote_addresses v6 c = Some (Inr (rtp, rtcp, sctp))"
        "remote_fingerprint (ctl_session c) = Some fp" "dtls_start_calls lib [] rtp ?role fp lc mc = Some mc'"
    using assms by (fastforce simp: join_call_full_def media_start_dtls_def Let_def split: option.splits sum.splits)
  then show ?thesis
  proof cases
    case addr
    then show ?thesis using assms by (auto simp: join_call_full_def join_call_def)
  next
    case fp
    then show ?thesis using assms by (auto simp: join_call_full_def join_call_def)
  next
    case start
    let ?jc = "\<lparr>jc_start = mc',
      jc_files = (case file_transferer_create lib [] sctp ?role fp lc sc of
        Returned (Inl e) \<Rightarrow> Inl (show_file_transferer_error e) | _ \<Rightarrow> Inr ()),
      jc_pipeline = pc, jc_max_chunk = k\<rparr>"
    have "join_call v6 ?jc c = Some (c', evs, unit_result r)"
      using assms start
      by (auto simp: join_call_full_def join_call_def media_start_dtls_def setup_file_transferer_def Let_def map_err_def
          dest!: created_transferer split: sum.splits option.splits prod.splits call_outcome.splits if_splits)
    then show ?thesis by blast
  qed
qed

lemma check_and_join_refines:
  assumes "check_and_join_full v6 lib lc mc sc pc k timeout_ok pings c = Some (c', evs, r)"
  shows "\<exists>jc. check_and_join v6 timeout_ok pings jc c = Some (c', evs, unit_result r)"
  using assms join_refines
  by (fastforce simp: check_and_join_full_def check_and_join_def split: prod.splits sum.splits)

lemma get_in_call_refines:
  assumes "get_in_call_full v6 lib lc mc sc pc k timeout_ok pings sdp c = Some (c', evs, r)"
  shows "\<exists>jc. get_in_call v6 sdp timeout_ok pings jc c = Some (c', evs, unit_result r)"
  using assms check_and_join_refines
  by (fastforce simp: get_in_call_full_def get_in_call_def split: option.splits prod.splits sum.splits)

lemma accept_call_refines:
  assumes "accept_call_full env lib lc mc sc pc k timeout_ok pings to_usr sdp c = Some (c', evs, r)"
  shows "\<exists>jc. accept_call env to_usr sdp timeout_ok pings jc c = Some (c', evs, unit_result r)"
proof (cases "\<exists>ses ans tok evs1. process_offer (ctl_session c) sdp = Some (ses, Inr ans) \<and>
    get_token (c\<lparr>ctl_session := ses\<rparr>) = Inr tok \<and> request env (CallAccept tok to_usr ans) = (evs1, Inr CallAcceptOk)")
  case True
  then obtain ses ans tok evs1 where t: "process_offer (ctl_session c) sdp = Some (ses, Inr ans)"
    "get_token (c\<lparr>ctl_session := ses\<rparr>) = Inr tok" "request env (CallAccept tok to_usr ans) = (evs1, Inr CallAcceptOk)" by blast
  obtain evs2 where "check_and_join_full (le_v6 env) lib lc mc sc pc k timeout_ok pings (c\<lparr>ctl_session := ses\<rparr>) = Some (c', evs2, r)"
    "evs = evs1 @ evs2"
    using assms t by (auto simp: accept_call_full_def Let_def)
  then show ?thesis using check_and_join_refines[of "le_v6 env"] t by (fastforce simp: accept_call_def Let_def)
next
  case False
  then show ?thesis
    using assms
    by (auto simp: accept_call_full_def accept_call_def Let_def split: option.splits prod.splits sum.splits server_response.splits)
qed

section \<open>A call between two clients\<close>

text \<open>
  The network and the libraries of one side, towards a candidate of the peer: its addresses can be read, and both handshakes, for the
  media and for the files, present the certificate \<open>cert\<close>; \<open>km\<close> is exported from the first.
\<close>

definition handshake ::
  "('k, 'i, 's, 'v6) dtls_lib \<Rightarrow> 'i local_cert \<Rightarrow> dtls_setup_role \<Rightarrow> 'v6 socket_addr \<Rightarrow> dtls_error + 's" where
  "handshake lib lc role addr =
     (if role = Active then establish_active_dtls lib lc addr else establish_passive_dtls lib lc addr)"

definition connects ::
  "'v6 v6_text \<Rightarrow> ('k, 'i, 's, 'v6) dtls_lib \<Rightarrow> 'i local_cert \<Rightarrow> dtls_setup_role \<Rightarrow> 'k x509 \<Rightarrow> bytes \<Rightarrow> candidate \<Rightarrow> bool" where
  "connects v6 lib lc role cert km r \<longleftrightarrow>
     (\<exists>rtp rtcp sctp s s2 s3.
        remote_address v6 r 0 = Some (Inr rtp) \<and> remote_address v6 r 1 = Some (Inr rtcp) \<and> remote_address v6 r 2 = Some (Inr sctp) \<and>
        handshake lib lc role rtp = Inr s \<and> peer_certificate lib s = Inr (Some cert) \<and>
        ssl_export lib s ''EXTRACTOR-dtls_srtp'' 60 = Inr km \<and>
        handshake lib lc role sctp = Inr s2 \<and> peer_certificate lib s2 = Inr (Some cert) \<and>
        stream_timeout lib (Some 20) s2 = (Inr (), s3))"

text \<open>The devices, codecs and sockets of one side work.\<close>

definition works :: "start_calls \<Rightarrow> 'a sctp_calls \<Rightarrow> pipeline_calls \<Rightarrow> bool" where
  "works mc sc pc \<longleftrightarrow> start_calls_ok mc \<and> flag_after_handshake mc \<and> sctp_calls_ok sc \<and>
     pc_encoder pc \<and> pc_decoder pc \<and> audio_ok (pc_audio pc)"

text \<open>
  A side of an established call: the controller after a join that returned \<open>j\<close>. The camera's flag is set; whether its device
  could be opened is not said.
\<close>

definition in_call :: "srtp_context \<Rightarrow> bool \<Rightarrow> controller \<Rightarrow> 'a joined \<Rightarrow> bool" where
  "in_call ctx is_client c j \<longleftrightarrow>
     fst j = (ctx, is_client) \<and> next_stream_id (snd j) = (if is_client then 1 else 0) \<and>
     ctl_files c = Some file_transferer_new \<and>
     transport_connected (ctl_transport c) \<and> rtcp_handler (ctl_transport c) \<and>
     camera_running (ctl_pipeline c) \<and> mp_audio (ctl_pipeline c) = Some \<lparr>muted = False, mic_stream = True\<rparr>"

lemma media_start_dtls_state:
  assumes "start_calls_ok mc" and "srtp_new km = (Inr ctx :: unit srtp_error + srtp_context)"
    and "dtls_socket_new lib h addr role expected lc =
      Some (Inr (\<lparr>stream_ref = length h, dtls_remote_addr = addr\<rparr>, h @ [\<lparr>cell_stream = s, poisoned = False\<rparr>]))"
    and "ssl_export lib s ''EXTRACTOR-dtls_srtp'' 60 = Inr km"
  shows "media_start_dtls lib h addr role expected lc mc t =
    Some (Inr (ctx, role = Active), t\<lparr>transport_connected := flag_after_handshake mc, rtcp_handler := True\<rparr>)"
  using assms
  by (simp add: media_start_dtls_def dtls_start_calls_def export_keying_material_def with_stream_def media_start_defs
      start_calls_ok_def)

lemma join_ok:
  assumes "dtls_lib_ok lib" and "works mc sc pc" and "connects v6 lib lc role cert km (pair_remote p)"
    and ses: "local_setup_role (ctl_session c) = role" "role = Active \<or> role = Passive"
      "remote_fingerprint (ctl_session c) = Some \<lparr>algorithm = ''sha-256'', fp_bytes = d\<rparr>"
      "selected_pair (cs_ice (ctl_session c)) = Some p"
    and "x509_digest lib cert = Inr d" and ctx: "srtp_new km = (Inr ctx :: unit srtp_error + srtp_context)"
    and "ctl_pipeline c = media_pipeline_new" and "unat (snd (rtp_address (ctl_transport c))) + 2 < 2 ^ 16"
  shows "\<exists>c' j. join_call_full v6 lib lc mc sc pc k c = Some (c', [], Inr j) \<and> in_call ctx (role = Active) c' j"
proof -
  obtain rtp rtcp sctp sm sf s3 where cn: "remote_address v6 (pair_remote p) 0 = Some (Inr rtp)"
    "remote_address v6 (pair_remote p) 1 = Some (Inr rtcp)" "remote_address v6 (pair_remote p) 2 = Some (Inr sctp)"
    "handshake lib lc role rtp = Inr sm" "peer_certificate lib sm = Inr (Some cert)"
    "ssl_export lib sm ''EXTRACTOR-dtls_srtp'' 60 = Inr km"
    "handshake lib lc role sctp = Inr sf" "peer_certificate lib sf = Inr (Some cert)"
    "stream_timeout lib (Some 20) sf = (Inr (), s3)"
    using assms(3) by (auto simp: connects_def)
  have addr: "get_remote_addresses v6 c = Some (Inr (rtp, rtcp, sctp))"
    using cn(1-3) ses(4) by (simp add: get_remote_addresses_def get_selected_pair_def)
  have hs: "normalize_role role = Active \<and> establish_active_dtls lib lc a = Inr x \<or>
      normalize_role role = Passive \<and> establish_passive_dtls lib lc a = Inr x" if "handshake lib lc role a = Inr x" for a x
    using that ses(2) by (auto simp: handshake_def)
  let ?fp = "\<lparr>algorithm = ''sha-256'', fp_bytes = d\<rparr>" and ?t = "ctl_transport c"
  have start: "media_start_dtls lib [] rtp role ?fp lc mc ?t =
      Some (Inr (ctx, role = Active), ?t\<lparr>transport_connected := True, rtcp_handler := True\<rparr>)"
    using media_start_dtls_state[OF _ ctx expected_peer_accepted[OF assms(1) cn(5) assms(8) hs[OF cn(4)]] cn(6), of mc "[]"] assms(2)
    by (simp add: works_def)
  obtain t where files: "file_transferer_create lib [] sctp role ?fp lc sc = Returned (Inr (t, file_transferer_new))"
    "next_stream_id t = (if role = Active then 1 else 0)"
    using file_transferer_create_ok[OF _ expected_peer_accepted[OF assms(1) cn(8) assms(8) hs[OF cn(7)], of "[]"] cn(9)] assms(2)
    by (auto simp: works_def)
  have port: "add_chk (snd (rtp_address ?t)) 2 \<noteq> None" using assms(11) by (simp add: add_chk_def)
  show ?thesis
    using addr start files port ses assms(10) pipeline_started[of pc k] assms(2)
    by (simp add: join_call_full_def in_call_def works_def Let_def)
qed

lemma check_and_join_ok:
  assumes "dtls_lib_ok lib" and "works mc sc pc" and "\<forall>r\<in>set (remote_candidates (cs_ice ses)). connects v6 lib lc role cert km r"
    and ice: "ice_ready (cs_ice ses)" "has_host (local_candidates (cs_ice ses))" "has_host (remote_candidates (cs_ice ses))"
      "answered pings (remote_candidates (cs_ice ses))"
    and ses: "ctl_session c = ses" "local_setup_role ses = role" "role = Active \<or> role = Passive"
      "remote_fingerprint ses = Some \<lparr>algorithm = ''sha-256'', fp_bytes = d\<rparr>"
    and "x509_digest lib cert = Inr d" and ctx: "srtp_new km = (Inr ctx :: unit srtp_error + srtp_context)"
    and "ctl_pipeline c = media_pipeline_new" and "unat (snd (rtp_address (ctl_transport c))) + 2 < 2 ^ 16"
  shows "\<exists>c' j. check_and_join_full v6 lib lc mc sc pc k True pings c = Some (c', [], Inr j) \<and> in_call ctx (role = Active) c' j"
proof -
  obtain ag' p where ag: "start_connectivity_checks (cs_ice ses) True pings = (ag', Inr ())" "selected_pair ag' = Some p"
    "pair_remote p \<in> set (remote_candidates (cs_ice ses))"
    using answered_checks_select[OF ice] by blast
  let ?c = "c\<lparr>ctl_session := ses\<lparr>cs_ice := ag'\<rparr>\<rparr>"
  have "connects v6 lib lc role cert km (pair_remote p)" using ag(3) assms(3) by blast
  from join_ok[OF assms(1,2) this, of ?c d ctx k] show ?thesis
    using ag(1,2) ses assms(12-15) by (simp add: check_and_join_full_def start_ice_checks_def)
qed

text \<open>
  C1. A call is established. Two clients with fresh sessions exchange the printed offer and answer, the server acknowledges the
  acceptance, pings to the host candidates are answered, both DTLS handshakes with the peer's candidate, for the media and for the files,
  present the certificate that was announced and export the same keys, and the devices and sockets work. Then accepting the
  offer and getting in with the answer both succeed: both sides have the connected transport with one SRTP context on its
  opposite sides, so that every packet one protects the other unprotects, the camera's flag is set and the microphone is
  open and not muted, and both have a file transferer, whose data channels never share a stream.
\<close>

theorem call_established:
  fixes scA :: "'a sctp_calls" and scB :: "'b sctp_calls" and ssl :: "'e openssl"
  assumes cfg: "config_wf mcfg icfg scfg" and "enumerates ordA" and "enumerates ordB"
    and lib: "dtls_lib_ok libA" "dtls_lib_ok libB" and sha: "x509_digest libA = x509_digest libB"
    and gen: "generate_self_signed_cert libA = Inr lcA" "ec_generate libA = Inr kA" "build_x509_cert libA kA = Inr certA"
      "generate_self_signed_cert libB = Inr lcB" "ec_generate libB = Inr kB" "build_x509_cert libB kB = Inr certB"
    and A: "call_session_new mcfg icfg scfg ifsA (Some prtA) stunA (Some (lc_fingerprint lcA)) = Some (Inr A)"
    and B: "call_session_new mcfg icfg scfg ifsB (Some prtB) stunB (Some (lc_fingerprint lcB)) = Some (Inr B)"
    and "gathered A" and "gathered B"
    and fit: "pairs_fit (local_candidates (cs_ice A)) (local_candidates (cs_ice B))"
    and host: "has_host (local_candidates (cs_ice A))" "has_host (local_candidates (cs_ice B))"
    and ping: "answered pingsA (local_candidates (cs_ice B))" "answered pingsB (local_candidates (cs_ice A))"
    and conn: "\<forall>r\<in>set (local_candidates (cs_ice B)). connects v6 libA lcA Passive certB km r"
      "\<forall>r\<in>set (local_candidates (cs_ice A)). connects (le_v6 env) libB lcB Active certA km r"
    and km: "length km = 60" and ok: "works mcA scA pcA" "works mcB scB pcB" and ssl: "openssl_ok ssl"
    and cA: "ctl_session cA = A" "ctl_pipeline cA = media_pipeline_new" "unat (snd (rtp_address (ctl_transport cA))) + 2 < 2 ^ 16"
    and cB: "ctl_session cB = B" "ctl_pipeline cB = media_pipeline_new" "unat (snd (rtp_address (ctl_transport cB))) + 2 < 2 ^ 16" "ctl_token cB = Some tok"
    and server: "\<And>ans. request env (CallAccept tok caller ans) = ([], Inr CallAcceptOk)"
  shows "\<exists>offer B' ans ans' ctx cA' cB' jA jB.
    sdp_from_str (show_sdp ordA (get_offer A)) = Inr offer \<and>
    process_offer B offer = Some (B', Inr ans) \<and> sdp_from_str (show_sdp ordB ans) = Inr ans' \<and>
    accept_call_full env libB lcB mcB scB pcB nB True pingsB caller offer cB = Some (cB', [], Inr jB) \<and>
    get_in_call_full v6 libA lcA mcA scA pcA nA True pingsA ans' cA = Some (cA', [], Inr jA) \<and>
    in_call ctx False cA' jA \<and> in_call ctx True cB' jB \<and>
    (\<forall>p. version p < 4 \<longrightarrow>
      (\<exists>d. protect ssl ctx p False = Inr d \<and> unprotect ssl ctx d True = Inr p) \<and>
      (\<exists>d. protect ssl ctx p True = Inr d \<and> unprotect ssl ctx d False = Inr p)) \<and>
    (\<forall>bn t1 xs t2 ys. distinct (opened_streams bn t1 xs (snd jB) @ opened_streams bn t2 ys (snd jA)))"
proof -
  obtain dA where a: "certifies libA lcA kA certA dA" by (rule generated_certifies[OF gen(1-3)])
  obtain dB where b: "certifies libB lcB kB certB dB" by (rule generated_certifies[OF gen(4-6)])
  have dig: "x509_digest libA certB = Inr dB" "x509_digest libB certA = Inr dA" using a b by (simp_all add: certifies_def sha)
  obtain offer B' ans ans' A' where x:
    "sdp_from_str (show_sdp ordA (get_offer A)) = Inr offer" "process_offer B offer = Some (B', Inr ans)"
    "sdp_from_str (show_sdp ordB ans) = Inr ans'" "process_answer A ans' = Some (A', Inr ())"
    "local_setup_role A' = Passive" "local_setup_role B' = Active"
    "remote_fingerprint B' = Some \<lparr>algorithm = ''sha-256'', fp_bytes = dA\<rparr>"
    "remote_fingerprint A' = Some \<lparr>algorithm = ''sha-256'', fp_bytes = dB\<rparr>"
    "remote_candidates (cs_ice A') = local_candidates (cs_ice B) @ local_candidates (cs_ice B)"
    "remote_candidates (cs_ice B') = local_candidates (cs_ice A) @ local_candidates (cs_ice A)"
    using offer_answer_ok[OF cfg \<open>enumerates ordA\<close> \<open>enumerates ordB\<close> A B \<open>gathered A\<close> \<open>gathered B\<close> fit]
      certified_fingerprint_parses[OF lib(1) a] certified_fingerprint_parses[OF lib(2) b] by auto
  have iA: "ice_ready (cs_ice A')" "local_candidates (cs_ice A') = local_candidates (cs_ice A)"
    and iB: "ice_ready (cs_ice B')" "local_candidates (cs_ice B') = local_candidates (cs_ice B)"
    using process_answer_ready[OF fresh_session_ready[OF A] x(4)] process_offer_ready[OF fresh_session_ready[OF B] x(2)] by auto
  obtain ctx where ctx: "srtp_new km = (Inr ctx :: 'e srtp_error + srtp_context)"
    "srtp_new km = (Inr ctx :: unit srtp_error + srtp_context)" using km by (simp add: srtp_new_def)
  let ?cA = "cA\<lparr>ctl_session := A'\<rparr>" and ?cB = "cB\<lparr>ctl_session := B'\<rparr>"
  obtain cA' jA where sA: "check_and_join_full v6 libA lcA mcA scA pcA nA True pingsA ?cA = Some (cA', [], Inr jA)" "in_call ctx False cA' jA"
    using check_and_join_ok[of libA mcA scA pcA A' v6 lcA Passive certB km pingsA ?cA dB ctx nA]
      lib ok conn x iA host ping dig ctx cA by (auto simp: has_host_def answered_def)
  obtain cB' jB where sB: "check_and_join_full (le_v6 env) libB lcB mcB scB pcB nB True pingsB ?cB = Some (cB', [], Inr jB)" "in_call ctx True cB' jB"
    using check_and_join_ok[of libB mcB scB pcB B' "le_v6 env" lcB Active certA km pingsB ?cB dA ctx nB]
      lib ok conn x iB host ping dig ctx cB by (auto simp: has_host_def answered_def)
  have "get_in_call_full v6 libA lcA mcA scA pcA nA True pingsA ans' cA = Some (cA', [], Inr jA)"
    using sA(1) x(4) cA(1) by (simp add: get_in_call_full_def)
  moreover have "accept_call_full env libB lcB mcB scB pcB nB True pingsB caller offer cB = Some (cB', [], Inr jB)"
    using sB(1) x(2) cB server by (simp add: accept_call_full_def get_token_def)
  moreover have "(\<exists>d. protect ssl ctx p False = Inr d \<and> unprotect ssl ctx d True = Inr p) \<and>
      (\<exists>d. protect ssl ctx p True = Inr d \<and> unprotect ssl ctx d False = Inr p)" if "version p < 4" for p
    using srtp_path[OF ssl ctx(1) that, of False] srtp_path[OF ssl ctx(1) that, of True] by simp blast
  moreover have "next_stream_id (snd jB) = 1" "next_stream_id (snd jA) = 0"
    using sA(2) sB(2) by (auto simp: in_call_def)
  ultimately show ?thesis using x(1-3) sA(2) sB(2) opened_disjoint[of "snd jB" "snd jA"] by blast
qed

text \<open>Two clients at 10.0.0.1 and 10.0.0.2; a ping is answered at once.\<close>

definition sample_ctl :: "call_session \<Rightarrow> controller" where
  "sample_ctl ses =
     \<lparr>users_status = Map.empty, ctl_token = Some ''token'', ctl_username = None, logged_in = True, ctl_files = None,
      ctl_transport = sample_transport 5000, ctl_session = ses, ctl_pipeline = media_pipeline_new\<rparr>"

definition sample_accepting :: "unit link_env" where
  "sample_accepting = \<lparr>le_ord = sample_order, le_v6 = sample_v6,
     le_conn = (\<lambda>_. (Inr (), Inr (server_response_to_bytes sample_v6 CallAcceptOk)))\<rparr>"

definition sample_host :: "string \<Rightarrow> candidate" where
  "sample_host ip = (new_host ip 1 sample_icfg)\<lparr>cand_port := 5000\<rparr>"

definition sample_pings :: "string \<Rightarrow> nat \<Rightarrow> ping_event list" where
  "sample_pings ip = (\<lambda>_. [ping_event.Datagram ip (as_bytes ''PONG'')])"

lemma sample_candidates:
  assumes "call_session_new sample_mcfg sample_icfg sdp_config_default
      (Some [(True, Some ''127.0.0.1''), (False, Some ip)]) (Some 5000) (Inl ''timeout'') (Some cert) = Some (Inr s)"
  shows "local_candidates (cs_ice s) = [sample_host ip]"
  using call_session_new_result[OF assms]
  by (auto simp: gather_candidates_def get_local_ip_def ice_agent_new_def sample_icfg_def sample_host_def)

lemma sample_answered: "contains_sub (ip @ '':5000'') ip \<Longrightarrow> answered (sample_pings ip) [sample_host ip]"
  by (simp add: answered_def sample_pings_def sample_host_def new_host_def show_nat.simps)

lemma sample_address:
  "socket_addr_from_str sample_v6 (''10.0.0.1:'' @ show_nat (unat prt)) = Some (V4 10 0 0 1 prt)"
  "socket_addr_from_str sample_v6 (''10.0.0.2:'' @ show_nat (unat prt)) = Some (V4 10 0 0 2 prt)"
proof -
  have "show_nat 10 = ''10''" "show_nat 0 = ''0''" "show_nat 1 = ''1''" "show_nat 2 = ''2''" by (simp_all add: show_nat.simps)
  then show "socket_addr_from_str sample_v6 (''10.0.0.1:'' @ show_nat (unat prt)) = Some (V4 10 0 0 1 prt)"
    "socket_addr_from_str sample_v6 (''10.0.0.2:'' @ show_nat (unat prt)) = Some (V4 10 0 0 2 prt)"
    using socket_addr_roundtrip[OF sample_v6_ok, of "V4 10 0 0 1 prt"] socket_addr_roundtrip[OF sample_v6_ok, of "V4 10 0 0 2 prt"]
    by simp_all
qed

lemma sample_resolves:
  assumes "ip = ''10.0.0.1'' \<or> ip = ''10.0.0.2''" and "unat d \<le> 2"
  shows "\<exists>a. remote_address sample_v6 (sample_host ip) d = Some (Inr a)"
  using assms sample_address[of "5000 + d"]
  by (auto simp: remote_address_def sample_host_def new_host_def add_chk_def)

lemma sample_connects:
  assumes "k < 256" and "ip = ''10.0.0.1'' \<or> ip = ''10.0.0.2''"
  shows "connects sample_v6 (sample_lib k q sample_keys) (sample_cert k) role (sample_x509 q) sample_keys (sample_host ip)"
proof -
  have "handshake (sample_lib k q sample_keys) (sample_cert k) role a = Inr (sample_x509 q)" for a
    using sample_handshake[OF assms(1)] by (simp add: handshake_def)
  moreover have "stream_timeout (sample_lib k q sample_keys) (Some 20) x = (Inr (), x)" for x by (simp add: sample_lib_def)
  moreover obtain rtp rtcp sctp where "remote_address sample_v6 (sample_host ip) 0 = Some (Inr rtp)"
      "remote_address sample_v6 (sample_host ip) 1 = Some (Inr rtcp)" "remote_address sample_v6 (sample_host ip) 2 = Some (Inr sctp)"
    using sample_resolves[OF assms(2), of 0] sample_resolves[OF assms(2), of 1] sample_resolves[OF assms(2), of 2] by auto
  ultimately show ?thesis
    using sample_handshake(3)[OF assms(1)] sample_exports[of k q] by (fastforce simp: connects_def)
qed

lemma sample_works: "works sample_start sample_sctp sample_devices"
  by (simp add: works_def start_calls_ok_def sample_start_def sctp_calls_ok_def sample_sctp_def sample_devices_def audio_ok_def)

lemma sample_accepts: "request sample_accepting msg = ([], Inr CallAcceptOk)"
proof -
  have "server_response_from_bytes sample_v6 (take 1024 (server_response_to_bytes sample_v6 CallAcceptOk)) = Some CallAcceptOk"
    and "server_response_to_bytes sample_v6 CallAcceptOk \<noteq> []" by code_simp+
  then show ?thesis by (simp add: request_def sample_accepting_def)
qed

theorem call_established_witness:
  "\<exists>A B offer ans' ctx cA cB jA jB.
    accept_call_full sample_accepting (sample_lib 2 1 sample_keys) (sample_cert 2) sample_start sample_sctp sample_devices 1000 True
      (sample_pings ''10.0.0.1'') ''alice'' offer (sample_ctl B) = Some (cB, [], Inr jB) \<and>
    get_in_call_full sample_v6 (sample_lib 1 2 sample_keys) (sample_cert 1) sample_start sample_sctp sample_devices 1000 True
      (sample_pings ''10.0.0.2'') ans' (sample_ctl A) = Some (cA, [], Inr jA) \<and>
    in_call ctx False cA jA \<and> in_call ctx True cB jB \<and>
    (\<exists>d. protect xor_ssl ctx sample_packet True = Inr d \<and> unprotect xor_ssl ctx d False = Inr sample_packet)"
proof -
  obtain A B where AB:
    "call_session_new sample_mcfg sample_icfg sdp_config_default
      (Some [(True, Some ''127.0.0.1''), (False, Some ''10.0.0.1'')]) (Some 5000) (Inl ''timeout'')
      (Some (lc_fingerprint (sample_cert 1))) = Some (Inr A)"
    "call_session_new sample_mcfg sample_icfg sdp_config_default
      (Some [(True, Some ''127.0.0.1''), (False, Some ''10.0.0.2'')]) (Some 5000) (Inl ''timeout'')
      (Some (lc_fingerprint (sample_cert 2))) = Some (Inr B)"
    "gathered A" "gathered B" "pairs_fit (local_candidates (cs_ice A)) (local_candidates (cs_ice B))"
    using sample_sessions[OF sample_fingerprint sample_fingerprint] by blast
  have cand: "local_candidates (cs_ice A) = [sample_host ''10.0.0.1'']" "local_candidates (cs_ice B) = [sample_host ''10.0.0.2'']"
    using sample_candidates[OF AB(1)] sample_candidates[OF AB(2)] by simp_all
  have one: "(1::nat) < 256" and two: "(2::nat) < 256" by simp_all
  have sha: "x509_digest (sample_lib 1 2 sample_keys) = x509_digest (sample_lib 2 1 sample_keys)"
    and ec: "ec_generate (sample_lib k q sample_keys) = Inr k" for k q by (simp_all add: sample_lib_def)
  have host: "has_host (local_candidates (cs_ice A))" "has_host (local_candidates (cs_ice B))"
    by (simp_all add: cand has_host_def sample_host_def new_host_def)
  have sub: "contains_sub (''10.0.0.1'' @ '':5000'') ''10.0.0.1''" "contains_sub (''10.0.0.2'' @ '':5000'') ''10.0.0.2''" by code_simp+
  have ping: "answered (sample_pings ''10.0.0.2'') (local_candidates (cs_ice B))"
    "answered (sample_pings ''10.0.0.1'') (local_candidates (cs_ice A))"
    unfolding cand by (rule sample_answered[OF sub(2)], rule sample_answered[OF sub(1)])
  have conn: "\<forall>r\<in>set (local_candidates (cs_ice B)). connects sample_v6 (sample_lib 1 2 sample_keys) (sample_cert 1) Passive
      (sample_x509 2) sample_keys r"
    "\<forall>r\<in>set (local_candidates (cs_ice A)). connects (le_v6 sample_accepting) (sample_lib 2 1 sample_keys) (sample_cert 2) Active
      (sample_x509 1) sample_keys r"
    using sample_connects[OF one] sample_connects[OF two] by (simp_all add: cand sample_accepting_def)
  have km: "length sample_keys = 60" and v: "version sample_packet < 4" by (simp_all add: sample_keys_def sample_packet_def)
  have ctl: "ctl_session (sample_ctl ses) = ses" "ctl_pipeline (sample_ctl ses) = media_pipeline_new" "unat (snd (rtp_address (ctl_transport (sample_ctl ses)))) + 2 < 2 ^ 16"
    "ctl_token (sample_ctl ses) = Some ''token''" for ses by (simp_all add: sample_ctl_def sample_transport_def)
  obtain offer B' ans ans' ctx cA cB jA jB where w:
    "accept_call_full sample_accepting (sample_lib 2 1 sample_keys) (sample_cert 2) sample_start sample_sctp sample_devices 1000 True
      (sample_pings ''10.0.0.1'') ''alice'' offer (sample_ctl B) = Some (cB, [], Inr jB)"
    "get_in_call_full sample_v6 (sample_lib 1 2 sample_keys) (sample_cert 1) sample_start sample_sctp sample_devices 1000 True
      (sample_pings ''10.0.0.2'') ans' (sample_ctl A) = Some (cA, [], Inr jA)"
    "in_call ctx False cA jA" "in_call ctx True cB jB"
    "\<And>p. version p < 4 \<Longrightarrow> \<exists>d. protect xor_ssl ctx p True = Inr d \<and> unprotect xor_ssl ctx d False = Inr p"
    using call_established[where nA = 1000 and nB = 1000 and caller = "''alice''",
      OF sample_config_wf sample_order_enumerates sample_order_enumerates sample_lib_ok sample_lib_ok sha
        sample_generates[OF one] ec sample_builds sample_generates[OF two] ec sample_builds AB host ping conn km
        sample_works sample_works xor_ssl_ok ctl(1-3) ctl sample_accepts]
    by (elim exE conjE) metis
  show ?thesis using w(1-4) w(5)[OF v] by blast
qed

end
