(* ===== verification/Frame_Path.thy ===== *)
theory Frame_Path
  imports Media_Pipeline
begin

text \<open>
  The path of a video frame from the packetiser to the decoder: the packets of one frame go
  through \<open>add\<close> and \<open>pop\<close> of the jitter buffer, one after the other as in
  \<open>run_frame_pipeline_loop\<close>, and come out as the frame.
\<close>

section \<open>Statistics that do not overflow\<close>

text \<open>Room in the statistics for \<open>n\<close> more packets.\<close>

definition stats_room :: "jitter_buffer \<Rightarrow> nat \<Rightarrow> bool" where
  "stats_room b n =
     (metrics_poisoned b \<or>
      unat (packets_received (metrics b)) + n < 2 ^ 32 \<and> unat (packets_lost (metrics b)) + 1000 * n < 2 ^ 32 \<and>
      (\<forall>t. last_transit b = Some t \<longrightarrow> \<bar>t\<bar> < 2 ^ 62))"

lemma as_i64_small: "w < 2 ^ 62 \<Longrightarrow> as_i64 w = uint w" for w :: u128
proof -
  assume w: "w < 2 ^ 62"
  then have u: "uint w < 2 ^ 62" by (simp add: word_less_def)
  then have "uint (ucast w :: u64) = uint w" by (simp add: unsigned_ucast_eq take_bit_int_eq_self)
  moreover have "signed_take_bit 63 (uint w) = uint w"
    using u by (intro signed_take_bit_int_eq_self) (simp_all add: order_trans[OF _ uint_ge_0])
  ultimately show ?thesis by (simp add: as_i64_def sint_uint)
qed

lemma update_loss_room:
  assumes "unat (packets_lost (metrics b)) + 1000 \<le> n" and "n < 2 ^ 32"
  shows "\<exists>b'. update_loss b p = Some b' \<and> unat (packets_lost (metrics b')) \<le> unat (packets_lost (metrics b)) + 1000 \<and>
     packets_received (metrics b') = packets_received (metrics b) \<and> last_transit b' = last_transit b \<and>
     metrics_poisoned b' = metrics_poisoned b \<and> tick b' = tick b"
proof -
  let ?gap = "sequence_number p - max_seq_seen b - 1" and ?l = "packets_lost (metrics b)"
  have gap: "unat (ucast ?gap :: u32) < 1000" if "?gap < 1000"
  proof -
    have "unat ?gap < 1000" using that by (simp add: word_less_nat_alt)
    then show ?thesis by (simp add: unsigned_ucast_eq take_bit_nat_eq_self)
  qed
  have chk: "\<exists>l. add_chk ?l (ucast ?gap) = Some l \<and> unat l \<le> unat ?l + 1000" if "?gap < 1000"
  proof -
    have "unat ?l + unat (ucast ?gap :: u32) < 2 ^ LENGTH(32)" using gap[OF that] assms by simp
    then have c: "add_chk ?l (ucast ?gap) = Some (?l + ucast ?gap)" by (rule add_chk_fits)
    then show ?thesis using add_chk_unat[OF c] gap[OF that] by simp
  qed
  have dec: "unat (?l - 1) \<le> unat ?l" if "0 < ?l"
  proof -
    have "0 < unat ?l" using that unfolding word_less_nat_alt by simp
    then have "1 \<le> ?l" unfolding word_le_nat_alt by simp
    then show ?thesis using sub_chk_unat[of ?l 1] by (simp add: sub_chk_def)
  qed
  show ?thesis
    using chk dec by (auto simp: update_loss_def Let_def)
qed

lemma update_transit_room:
  assumes "\<bar>transit\<bar> < 2 ^ 62" and "\<forall>t. last_transit b = Some t \<longrightarrow> \<bar>t\<bar> < 2 ^ 62"
  shows "\<exists>b'. update_transit b transit = Some b' \<and> last_transit b' = Some transit \<and>
     packets_lost (metrics b') = packets_lost (metrics b) \<and>
     packets_received (metrics b') = packets_received (metrics b) \<and>
     metrics_poisoned b' = metrics_poisoned b \<and> tick b' = tick b"
proof (cases "last_transit b")
  case None
  then show ?thesis by (simp add: update_transit_def)
next
  case (Some t)
  then have "\<bar>t\<bar> < 2 ^ 62" using assms(2) by simp
  then have d: "\<bar>transit - t\<bar> < 2 ^ 63" using assms(1) by simp
  then have "i64_chk (transit - t) = Some (transit - t)" "i64_chk \<bar>transit - t\<bar> = Some \<bar>transit - t\<bar>"
    unfolding i64_chk_def by auto
  then show ?thesis using Some by (simp add: update_transit_def)
qed

lemma update_stats_room:
  assumes "stats_room b (Suc n)" and "clk (tick b) < 2 ^ 62" and "timestamp p < 2 ^ 62"
  shows "\<exists>b'. update_stats clk b p = Some b' \<and> stats_room b' n \<and> tick b' = Suc (tick b)"
proof (cases "metrics_poisoned b")
  case True
  then show ?thesis by (simp add: update_stats_def stats_room_def Let_def)
next
  case False
  let ?m = "metrics b"
  have m: "unat (packets_received ?m) + Suc n < 2 ^ 32" "unat (packets_lost ?m) + 1000 * Suc n < 2 ^ 32"
    "\<forall>t. last_transit b = Some t \<longrightarrow> \<bar>t\<bar> < 2 ^ 62"
    using assms(1) False by (auto simp: stats_room_def)
  have "unat (packets_received ?m) + unat (1 :: u32) < 2 ^ LENGTH(32)" using m(1) by simp
  then have n: "add_chk (packets_received ?m) 1 = Some (packets_received ?m + 1)" by (rule add_chk_fits)
  let ?b0 = "b\<lparr>tick := Suc (tick b), metrics := ?m\<lparr>packets_received := packets_received ?m + 1\<rparr>\<rparr>"
  obtain b1 where b1: "update_loss ?b0 p = Some b1" "unat (packets_lost (metrics b1)) \<le> unat (packets_lost ?m) + 1000"
    "packets_received (metrics b1) = packets_received ?m + 1" "last_transit b1 = last_transit b"
    "metrics_poisoned b1 = metrics_poisoned b" "tick b1 = Suc (tick b)"
    using update_loss_room[of ?b0 "unat (packets_lost ?m) + 1000" p] m(2) by auto
  have tr: "\<bar>as_i64 (clk (tick b)) - as_i64 (timestamp p)\<bar> < 2 ^ 62"
    using as_i64_small[OF assms(2)] as_i64_small[OF assms(3)] assms(2,3)
    by (simp add: word_less_def abs_less_iff) (smt (verit) uint_ge_0)
  then have chk: "i64_chk (as_i64 (clk (tick b)) - as_i64 (timestamp p)) =
      Some (as_i64 (clk (tick b)) - as_i64 (timestamp p))"
    unfolding i64_chk_def by auto
  obtain b2 where b2: "update_transit b1 (as_i64 (clk (tick b)) - as_i64 (timestamp p)) = Some b2"
    "last_transit b2 = Some (as_i64 (clk (tick b)) - as_i64 (timestamp p))"
    "packets_lost (metrics b2) = packets_lost (metrics b1)"
    "packets_received (metrics b2) = packets_received (metrics b1)" "tick b2 = tick b1"
    "metrics_poisoned b2 = metrics_poisoned b1"
    using update_transit_room[OF tr, of b1] m(3) b1(4) by auto
  have "update_stats clk b p = Some b2"
    using False n b1(1) chk b2(1) by (simp add: update_stats_def Let_def)
  moreover have "unat (packets_received ?m + 1) = unat (packets_received ?m) + 1"
    using add_chk_unat[OF n] by simp
  ultimately show ?thesis
    using b1 b2 m tr by (auto simp: stats_room_def)
qed

lemma should_discard_room:
  assumes "stats_room b (Suc n)" and "clk (tick b) < 2 ^ 62" and "timestamp p < 2 ^ 62"
    and "i_frame_needed b \<longrightarrow> is_i_frame p" and "last_frame_completed_timestamp b \<le> timestamp p"
    and "read_idx b < cap b" and "valid_packet_seq_num b (sequence_number p)"
  shows "\<exists>b'. should_discard_packet clk b p = Some (b', False) \<and> stats_room b' n \<and> tick b' = Suc (tick b)"
proof -
  obtain b' where b': "update_stats clk b p = Some b'" "stats_room b' n" "tick b' = Suc (tick b)"
    using update_stats_room[of b n clk p] assms(1-3) by blast
  note fr = update_stats_frame[OF b'(1)]
  then have eqs: "packets b' = packets b" "read_idx b' = read_idx b" "write_idx b' = write_idx b"
    by simp_all
  have v: "valid_packet_seq_num b' (sequence_number p)"
    using assms(7) unfolding valid_packet_seq_num_def eqs .
  show ?thesis
    using b' fr assms(4-6) v by (auto simp: should_discard_packet_def)
qed

section \<open>Filling the ring with a frame\<close>

text \<open>
  After \<open>i\<close> packets of a frame that starts with sequence number \<open>s\<close>: they are in their slots and nothing
  else is stored.
\<close>

definition part_stored :: "nat \<Rightarrow> rtp_packet list \<Rightarrow> nat \<Rightarrow> jitter_buffer \<Rightarrow> bool" where
  "part_stored s ps i b =
     ((\<forall>j<i. packets b ! ((s + j) mod cap b) = Some (ps ! j)) \<and>
      (\<forall>x<cap b. (\<forall>j<i. x \<noteq> (s + j) mod cap b) \<longrightarrow> packets b ! x = None) \<and>
      read_idx b = s mod cap b \<and> write_idx b = (s + i - 1) mod cap b \<and>
      read_seq b = Some (word_of_nat s) \<and> write_seq b = Some (word_of_nat (s + i - 1)) \<and>
      \<not> i_frame_needed b)"

text \<open>Nothing stored and nothing expected: the state before the first frame and between frames.\<close>

definition idle :: "jitter_buffer \<Rightarrow> bool" where
  "idle b = (jitter_wf b \<and> (\<forall>x<cap b. packets b ! x = None) \<and> read_seq b = None)"

text \<open>A run of consecutive packets with one timestamp.\<close>

definition numbered :: "nat \<Rightarrow> u128 \<Rightarrow> rtp_packet list \<Rightarrow> bool" where
  "numbered s ts ps =
     (s + length ps < 2 ^ 64 \<and>
      (\<forall>i<length ps. unat (sequence_number (ps ! i)) = s + i \<and> timestamp (ps ! i) = ts))"

lemma ring_offset:
  fixes n :: nat
  assumes "0 < n" and "j \<le> n"
  shows "(s + j) mod n = (if s mod n + j < n then s mod n + j else s mod n + j - n)"
proof -
  have eq: "(s + j) mod n = (s mod n + j) mod n" by (simp add: mod_add_left_eq)
  have r: "s mod n < n" using assms(1) by simp
  show ?thesis
  proof (cases "s mod n + j < n")
    case False
    then have "(s mod n + j) mod n = (s mod n + j - n) mod n" by (intro le_mod_geq) simp
    also have "\<dots> = s mod n + j - n" using r assms(2) by (intro mod_less) linarith
    finally show ?thesis using eq False by simp
  qed (use eq in simp)
qed

lemma numbered_nth:
  "numbered s ts ps \<Longrightarrow> i < length ps \<Longrightarrow> unat (sequence_number (ps ! i)) = s + i"
  "numbered s ts ps \<Longrightarrow> i < length ps \<Longrightarrow> timestamp (ps ! i) = ts"
  by (simp_all add: numbered_def)

lemma window_accepts:
  assumes "part_stored s ps i b" and "numbered s ts ps" and "0 < i" and "i < length ps" and "length ps < cap b"
    and "cap b < 2 ^ 62" and "cap b \<le> s \<or> s + 2 * length ps \<le> cap b + 2"
  shows "valid_packet_seq_num b (sequence_number (ps ! i))"
proof -
  let ?n = "cap b" and ?r = "s mod cap b" and ?w = "(s + (i - 1)) mod cap b"
  have n: "0 < ?n" using assms(5) by linarith
  have w: "?w = (if ?r + (i - 1) < ?n then ?r + (i - 1) else ?r + (i - 1) - ?n)"
    using assms(4,5) by (intro ring_offset[OF n]) simp
  have idx: "read_idx b = ?r" "write_idx b = ?w"
    using assms(1,3) by (auto simp: part_stored_def)
  have first: "packets b ! ?r = Some (ps ! 0)" using assms(1,3) by (auto simp: part_stored_def)
  have "ps \<noteq> []" using assms(4) by auto
  then have seq0: "unat (sequence_number (ps ! 0)) = s" and seqi: "unat (sequence_number (ps ! i)) = s + i"
    using numbered_nth(1)[OF assms(2), of 0] numbered_nth(1)[OF assms(2), of i] assms(3,4) by simp_all
  let ?W = "?r + ?n - ?w"
  have rn: "?r < ?n" using n by simp
  have "?W < 2 ^ 64" using rn assms(6) by simp
  then have W: "unat (word_of_nat ?W :: u64) = ?W" by (simp add: unat_of_nat)
  have ok: "s + i < ?W \<or> ?W \<le> s"
  proof (cases "?n \<le> s")
    case True
    then have "?n + ?r \<le> s" using le_mod_geq[of ?n s] mod_less_eq_dividend[of "s - ?n" ?n] by linarith
    then show ?thesis using w rn assms(3-5) by (auto split: if_splits)
  next
    case False
    then have r: "?r = s" by simp
    have "s + 2 * length ps \<le> ?n + 2" using assms(7) False by linarith
    then have "s + (i - 1) < ?n" "s + i < s + ?n - (s + (i - 1))" using assms(3,4) by linarith+
    moreover have "?w = s + (i - 1)" using w r calculation(1) by (simp only: if_True)
    ultimately show ?thesis using r by (simp only: simp_thms)
  qed
  have "s + i < ?W \<Longrightarrow> sequence_number (ps ! i) < (word_of_nat ?W :: u64)"
    using W seqi by (simp add: word_less_nat_alt)
  moreover have "sequence_number (ps ! 0) - word_of_nat ?W < sequence_number (ps ! i)" if "?W \<le> s"
  proof -
    have "(word_of_nat ?W :: u64) \<le> sequence_number (ps ! 0)" using that W seq0 by (simp add: word_le_nat_alt)
    then have "unat (sequence_number (ps ! 0) - word_of_nat ?W) = s - ?W" using W seq0 by (simp add: unat_sub)
    then show ?thesis using seqi assms(3) by (simp add: word_less_nat_alt)
  qed
  ultimately show ?thesis
    using ok first by (auto simp: valid_packet_seq_num_def idx Let_def)
qed

text \<open>The next packet does not reach the read position.\<close>

lemma next_slot_free:
  fixes n :: nat
  assumes "0 < i" and "i < n"
  shows "\<not> (if s mod n \<le> (s + i - 1) mod n then s mod n \<le> (s + i) mod n \<and> (s + i) mod n \<le> (s + i - 1) mod n
            else s mod n \<le> (s + i) mod n \<or> (s + i) mod n \<le> (s + i - 1) mod n)"
proof -
  have n: "0 < n" using assms by simp
  have r: "s mod n < n" using n by simp
  have i1: "s + i - 1 = s + (i - 1)" using assms(1) by simp
  show ?thesis
    using ring_offset[OF n, of i s] ring_offset[OF n, of "i - 1" s] r assms unfolding i1
    by (auto split: if_splits)
qed

lemma add_next_packet:
  assumes "part_stored s ps i b" and "numbered s ts ps" and "0 < i" and "i < length ps" and "length ps < cap b"
    and "cap b < 2 ^ 62" and "cap b \<le> s \<or> s + 2 * length ps \<le> cap b + 2"
    and "stats_room b (Suc n)" and "clk (tick b) < 2 ^ 62" and "ts < 2 ^ 62"
    and "last_frame_completed_timestamp b \<le> ts"
  shows "\<exists>b'. add clk b (ps ! i) = Some b' \<and> part_stored s ps (Suc i) b' \<and> cap b' = cap b \<and> stats_room b' n \<and>
     tick b' = Suc (tick b) \<and> last_frame_completed_timestamp b' = last_frame_completed_timestamp b \<and>
     last_deliver_timestamp b' = last_deliver_timestamp b"
proof -
  let ?p = "ps ! i" and ?n = "cap b" and ?pos = "(s + i) mod cap b"
  have n0: "0 < ?n" using assms(5) by linarith
  have idx: "read_idx b = s mod ?n" "write_idx b = (s + i - 1) mod ?n" "read_seq b = Some (word_of_nat s)"
    "write_seq b = Some (word_of_nat (s + i - 1))" "\<not> i_frame_needed b"
    using assms(1) by (simp_all add: part_stored_def)
  have seq: "unat (sequence_number ?p) = s + i" "timestamp ?p = ts"
    using numbered_nth[OF assms(2,4)] by simp_all
  have big: "s + length ps < 2 ^ 64" using assms(2) by (simp add: numbered_def)
  obtain b1 where b1: "should_discard_packet clk b ?p = Some (b1, False)" "stats_room b1 n" "tick b1 = Suc (tick b)"
    using should_discard_room[of b n clk ?p] assms(8-11) idx seq n0 window_accepts[OF assms(1-7)] by auto
  note fr = should_discard_frame[OF b1(1)]
  have u: "unat (word_of_nat s :: u64) = s" "unat (word_of_nat (s + i - 1) :: u64) = s + i - 1"
    using big assms(4) by (simp_all add: unat_of_nat)
  have cmp: "\<not> sequence_number ?p < word_of_nat s" "sequence_number ?p > word_of_nat (s + i - 1)"
    using u seq(1) assms(3) by (simp_all add: word_less_nat_alt)
  let ?b2 = "b1\<lparr>write_idx := ?pos, write_seq := Some (sequence_number ?p)\<rparr>"
  have head: "handle_new_write_head b1 (sequence_number ?p) ?pos = Some ?b2"
  proof -
    have eqs: "read_idx b1 = s mod ?n" "write_idx b1 = (s + i - 1) mod ?n" using fr idx by simp_all
    have "i < ?n" using assms(4,5) by linarith
    then show ?thesis
      unfolding handle_new_write_head_def Let_def eqs
      by (simp only: next_slot_free[OF assms(3)] if_False)
  qed
  let ?b' = "?b2\<lparr>packets := (packets b)[?pos := Some ?p]\<rparr>"
  have "add clk b ?p = Some ?b'"
    using b1(1) fr idx cmp head seq(1) n0
    by (simp add: add_def Let_def del: of_nat_add of_nat_diff)
  moreover have "part_stored s ps (Suc i) ?b'"
  proof -
    have pos: "?pos < ?n" using n0 by simp
    have other: "(s + j) mod ?n \<noteq> ?pos" if "j < i" for j
      using ring_distinct[of s j ?n i] that assms(4,5) by auto
    have "\<forall>j<Suc i. (packets b)[?pos := Some ?p] ! ((s + j) mod ?n) = Some (ps ! j)"
      using assms(1) pos other by (auto simp: part_stored_def less_Suc_eq nth_list_update)
    moreover have "\<forall>x<?n. (\<forall>j<Suc i. x \<noteq> (s + j) mod ?n) \<longrightarrow> (packets b)[?pos := Some ?p] ! x = None"
      using assms(1) pos by (auto simp: part_stored_def less_Suc_eq nth_list_update)
    moreover have "word_of_nat (unat (sequence_number ?p)) = sequence_number ?p" by simp
    then have "sequence_number ?p = word_of_nat (s + i)" unfolding seq(1) by (rule sym)
    ultimately show ?thesis using idx fr by (simp add: part_stored_def)
  qed
  ultimately show ?thesis using b1 fr by (intro exI[of _ ?b']) (simp add: stats_room_def)
qed

lemma add_first_packet:
  assumes "idle b" and "numbered s ts ps" and "ps \<noteq> []" and "i_frame_needed b \<longrightarrow> is_i_frame (ps ! 0)"
    and "stats_room b (Suc n)" and "clk (tick b) < 2 ^ 62" and "ts < 2 ^ 62"
    and "last_frame_completed_timestamp b \<le> ts"
  shows "\<exists>b'. add clk b (ps ! 0) = Some b' \<and> part_stored s ps 1 b' \<and> cap b' = cap b \<and> stats_room b' n \<and>
     tick b' = Suc (tick b) \<and> last_frame_completed_timestamp b' = last_frame_completed_timestamp b \<and>
     last_deliver_timestamp b' = last_deliver_timestamp b"
proof -
  let ?p = "ps ! 0" and ?n = "cap b" and ?pos = "s mod cap b"
  have wf: "read_idx b < ?n" "\<forall>x<?n. packets b ! x = None" "read_seq b = None"
    using assms(1) by (simp_all add: idle_def jitter_wf_def)
  have n0: "0 < ?n" using wf(1) by linarith
  have seq: "unat (sequence_number ?p) = s" "timestamp ?p = ts"
    using numbered_nth[OF assms(2), of 0] assms(3) by simp_all
  have "valid_packet_seq_num b (sequence_number ?p)" using wf by (simp add: valid_packet_seq_num_def)
  then obtain b1 where b1: "should_discard_packet clk b ?p = Some (b1, False)" "stats_room b1 n" "tick b1 = Suc (tick b)"
    using should_discard_room[of b n clk ?p] assms(4-8) wf seq by auto
  note fr = should_discard_frame[OF b1(1)]
  let ?b' = "initialize_buffer b1 ?p ?pos"
  have "add clk b ?p = Some ?b'"
    using b1(1) fr wf seq(1) n0 by (simp add: add_def Let_def split: option.split)
  moreover have "word_of_nat (unat (sequence_number ?p)) = sequence_number ?p" by simp
  then have "sequence_number ?p = word_of_nat s" unfolding seq(1) by (rule sym)
  then have "part_stored s ps 1 ?b'"
    using fr wf n0 by (auto simp: part_stored_def initialize_buffer_def nth_list_update)
  ultimately show ?thesis
    using b1 fr by (intro exI[of _ ?b']) (simp add: stats_room_def initialize_buffer_def)
qed

section \<open>Extracting the frame\<close>

text \<open>Every clock reading before \<open>T\<close> is within the playout deadline of a frame with timestamp \<open>ts\<close>.\<close>

definition on_time :: "(nat \<Rightarrow> u128) \<Rightarrow> nat \<Rightarrow> jitter_buffer \<Rightarrow> u128 \<Rightarrow> bool" where
  "on_time clk T b ts =
     (last_deliver_timestamp b = 0 \<or>
      in_time b ts \<and>
      (\<forall>t<T. clk t \<le> last_deliver_timestamp b + (ts - last_frame_completed_timestamp b) + TOLERANCE_MILLIS))"

lemma on_time_cong:
  "last_deliver_timestamp b' = last_deliver_timestamp b \<Longrightarrow>
   last_frame_completed_timestamp b' = last_frame_completed_timestamp b \<Longrightarrow> on_time clk T b' ts = on_time clk T b ts"
  by (simp add: on_time_def in_time_def)

lemma on_time_playout:
  assumes "on_time clk T b ts" and "tick b < T"
  shows "\<exists>b1. valid_playout_time clk b ts = Some (b1, True) \<and> (b1 = b \<or> b1 = b\<lparr>tick := Suc (tick b)\<rparr>)"
proof (cases "last_deliver_timestamp b = 0")
  case True
  then show ?thesis by (simp add: valid_playout_time_def)
next
  case False
  then have t: "in_time b ts" "clk (tick b) \<le> last_deliver_timestamp b + (ts - last_frame_completed_timestamp b) + TOLERANCE_MILLIS"
    using assms by (auto simp: on_time_def)
  obtain b1 v where v: "valid_playout_time clk b ts = Some (b1, v)" using valid_playout_some[OF t(1)] by blast
  then have "v" using t False
    by (auto simp: valid_playout_time_def panic_simps split: option.splits)
  then show ?thesis using v valid_playout_time_frame[OF v] by auto
qed

lemma prepare_on_time:
  assumes "on_time clk T b ts" and "tick b < T" and "read_idx b < cap b" and "packets b ! read_idx b = Some p" and "timestamp p = ts"
  shows "\<exists>b1. prepare_next_frame_ts clk b = Some (b1, Some ts) \<and> (b1 = b \<or> b1 = b\<lparr>tick := Suc (tick b)\<rparr>)"
proof -
  obtain b1 where "valid_playout_time clk b ts = Some (b1, True)" "b1 = b \<or> b1 = b\<lparr>tick := Suc (tick b)\<rparr>"
    using on_time_playout[OF assms(1,2)] by blast
  then show ?thesis using assms(3-5) by (simp add: prepare_next_frame_ts.simps[of clk b])
qed

text \<open>The loop of \<open>pop\<close> walks over packets that are not the last of their frame.\<close>

lemma pop_loop_walk:
  "in_slots b idx ps \<Longrightarrow> idx < cap b \<Longrightarrow> \<forall>p\<in>set ps. timestamp p = ts \<and> marker p \<noteq> 1 \<Longrightarrow>
     pop_loop clk ts (length ps + k) idx data c b =
       pop_loop clk ts k ((idx + length ps) mod cap b) (data @ concat (map payload ps)) (c + length ps) b"
proof (induction ps arbitrary: idx data c)
  case (Cons p ps)
  let ?i = "(idx + 1) mod cap b"
  have n: "0 < cap b" using Cons.prems(2) by linarith
  have p: "packets b ! idx = Some p" using Cons.prems(1,2) by (auto simp: in_slots_def)
  have "in_slots b ?i ps"
  proof (unfold in_slots_def, intro allI impI)
    fix j assume "j < length ps"
    then have "packets b ! ((idx + Suc j) mod cap b) = Some (ps ! j)"
      using Cons.prems(1) by (auto simp: in_slots_def)
    then show "packets b ! ((?i + j) mod cap b) = Some (ps ! j)" by (simp add: mod_add_left_eq)
  qed
  then show ?case
    using Cons p n by (simp add: Let_def mod_add_left_eq)
qed simp

definition frame_shape :: "u128 \<Rightarrow> rtp_packet list \<Rightarrow> bool" where
  "frame_shape ts ps =
     (ps \<noteq> [] \<and> (\<forall>i<length ps. timestamp (ps ! i) = ts \<and> (marker (ps ! i) = 1 \<longleftrightarrow> i = length ps - 1)) \<and>
      unat (total_chunks (last ps)) = length ps)"

lemma part_stored_slots:
  assumes "part_stored s ps i b" and "i \<le> length ps" and "0 < cap b"
  shows "in_slots b (s mod cap b) (take i ps)"
  using assms by (auto simp: part_stored_def in_slots_def mod_add_left_eq)

lemma frame_shape_take:
  "frame_shape ts ps \<Longrightarrow> i < length ps \<Longrightarrow> \<forall>p\<in>set (take i ps). timestamp p = ts \<and> marker p \<noteq> 1"
  by (auto simp: frame_shape_def in_set_conv_nth)

lemma pop_part:
  assumes "part_stored s ps i b" and "frame_shape ts ps" and "0 < i" and "i < length ps" and "length ps < cap b"
    and "on_time clk T b ts" and "tick b < T"
  shows "\<exists>b'. pop clk b = Some (b', None) \<and> (b' = b \<or> b' = b\<lparr>tick := Suc (tick b)\<rparr>)"
proof -
  have n: "0 < cap b" using assms(5) by linarith
  have idx: "read_idx b = s mod cap b" using assms(1) by (simp add: part_stored_def)
  have first: "packets b ! read_idx b = Some (ps ! 0)" using assms(1,3) idx by (auto simp: part_stored_def)
  have ts0: "timestamp (ps ! 0) = ts" using assms(2) by (auto simp: frame_shape_def)
  obtain b1 where p: "prepare_next_frame_ts clk b = Some (b1, Some ts)" "b1 = b \<or> b1 = b\<lparr>tick := Suc (tick b)\<rparr>"
    using prepare_on_time[OF assms(6,7) _ first ts0] idx n by auto
  have eq: "packets b1 = packets b" "read_idx b1 = s mod cap b" using p(2) idx by auto
  have sl: "in_slots b1 (s mod cap b) (take i ps)"
    using part_stored_slots[OF assms(1)] assms(4) n eq(1) by (auto simp: in_slots_def)
  have next_none: "packets b ! ((s + i) mod cap b) = None"
  proof -
    have "(s + i) mod cap b \<noteq> (s + j) mod cap b" if "j < i" for j
      using ring_distinct[of s i "cap b" j] that assms(4,5) by auto
    then show ?thesis using assms(1) n by (auto simp: part_stored_def)
  qed
  have len: "cap b1 = length (take i ps) + (cap b - i)" using eq(1) assms(4,5) by simp
  obtain k where k: "cap b - i = Suc k" using assms(4,5) by (cases "cap b - i") auto
  have "pop_loop clk ts (length (take i ps) + Suc k) (s mod cap b) [] 0 b1 =
      pop_loop clk ts (Suc k) ((s mod cap b + length (take i ps)) mod cap b1) ([] @ concat (map payload (take i ps))) (0 + length (take i ps)) b1"
    by (rule pop_loop_walk[OF sl]) (use n eq(1) frame_shape_take[OF assms(2,4)] in auto)
  also have "\<dots> = Some (b1, None)"
    using next_none eq(1) assms(4) by (simp add: mod_add_left_eq)
  finally have "pop clk b = Some (b1, None)" using p(1) eq(2) len k by (simp add: pop_def)
  then show ?thesis using p(2) by blast
qed

definition same_rest :: "jitter_buffer \<Rightarrow> jitter_buffer \<Rightarrow> bool" where
  "same_rest b' b =
     (metrics b' = metrics b \<and> metrics_poisoned b' = metrics_poisoned b \<and> last_transit b' = last_transit b \<and>
      tick b' = tick b \<and> i_frame_needed b' = i_frame_needed b \<and> write_idx b' = write_idx b \<and>
      last_deliver_timestamp b' = last_deliver_timestamp b \<and>
      last_frame_completed_timestamp b' = last_frame_completed_timestamp b)"

lemma clear_slots_rest: "same_rest ((clear_slot ^^ d) b) b"
  by (induction d) (auto simp: same_rest_def clear_slot_def)

lemma find_next_nothing:
  "\<forall>x<cap b. packets b ! x = None \<Longrightarrow> read_idx b < cap b \<Longrightarrow>
     \<exists>r<cap b. find_next k b = (b\<lparr>read_idx := r\<rparr>, False)"
proof (induction k arbitrary: b)
  case 0
  then show ?case by (intro exI[of _ "read_idx b"]) simp
next
  case (Suc k)
  have n: "0 < cap b" using Suc.prems(2) by linarith
  let ?b = "b\<lparr>read_idx := (read_idx b + 1) mod cap b\<rparr>"
  obtain r where "r < cap ?b" "find_next k ?b = (?b\<lparr>read_idx := r\<rparr>, False)"
    using Suc.IH[of ?b] Suc.prems n by auto
  then show ?case using Suc.prems by (intro exI[of _ r]) simp
qed

lemma advance_clears:
  assumes "jitter_wf b" and "d < cap b"
    and "\<forall>x<cap b. (\<forall>j<d. x \<noteq> (read_idx b + j) mod cap b) \<longrightarrow> packets b ! x = None"
  shows "\<exists>b'. advance_read_pointers b ((read_idx b + d) mod cap b) = Some b' \<and> idle b' \<and> same_rest b' b \<and> cap b' = cap b"
proof -
  let ?c = "(clear_slot ^^ d) b"
  have r: "read_idx b < cap b" "0 < cap b" using assms(1) by (auto simp: jitter_wf_def)
  have cap: "cap ?c = cap b" by (rule clear_slots_frame)
  have none: "\<forall>x<cap ?c. packets ?c ! x = None"
    using assms(3) r by (auto simp: cap clear_slots_nth)
  have "read_idx ?c < cap ?c" using r by (simp add: cap clear_slots_read_idx)
  then obtain i where i: "i < cap ?c" "find_next (cap ?c) ?c = (?c\<lparr>read_idx := i\<rparr>, False)"
    using find_next_nothing[OF none] by blast
  let ?b' = "?c\<lparr>read_idx := i, read_seq := None, write_seq := None\<rparr>"
  have "advance_read_pointers b ((read_idx b + d) mod cap b) = Some ?b'"
    using clear_while[OF r(1) assms(2)] i(2) by (simp add: advance_read_pointers_def)
  moreover have "same_rest ?b' b" using clear_slots_rest[of d b] by (simp add: same_rest_def)
  moreover have "idle ?b'"
    using i(1) none assms(1) cap clear_slots_frame(2)[of d b] slots_ok_clears[of b d]
    by (auto simp: idle_def jitter_wf_def)
  ultimately show ?thesis using cap by auto
qed

lemma part_stored_wf:
  assumes "part_stored s ps (length ps) b" and "numbered s ts ps" and "0 < cap b"
  shows "jitter_wf b"
proof -
  have "unat (sequence_number p) mod cap b = x" if x: "x < cap b" "packets b ! x = Some p" for x p
  proof -
    have "\<exists>j<length ps. x = (s + j) mod cap b"
    proof (rule ccontr)
      assume "\<not> ?thesis"
      then have "packets b ! x = None" using assms(1) x(1) unfolding part_stored_def by blast
      then show False using x(2) by simp
    qed
    then obtain j where j: "j < length ps" "x = (s + j) mod cap b" by blast
    then have "p = ps ! j" using assms(1) x(2) by (auto simp: part_stored_def)
    then show ?thesis using numbered_nth(1)[OF assms(2) j(1)] j(2) by simp
  qed
  then show ?thesis using assms(1,3) by (auto simp: jitter_wf_def slots_ok_def part_stored_def)
qed


lemma synchronize_on_time:
  assumes "on_time clk T b (timestamp p)"
  shows "\<exists>b'. synchronize_playout clk b p = Some b' \<and> tick b' = Suc (tick b)"
proof (cases "last_deliver_timestamp b = 0")
  case False
  then have "in_time b (timestamp p)" using assms by (simp add: on_time_def)
  then show ?thesis
    using False by (auto simp: synchronize_playout_def sat_sub_def in_time_def add_chk_fits)
qed (simp add: synchronize_playout_def)

lemma pop_full:
  assumes "part_stored s ps (length ps) b" and "frame_shape ts ps" and "numbered s ts ps" and "length ps < cap b"
    and "on_time clk T b ts" and "tick b < T"
  shows "\<exists>b'. pop clk b = Some (b', Some (concat (map payload ps))) \<and> idle b' \<and> cap b' = cap b \<and>
     last_frame_completed_timestamp b' = ts \<and> \<not> i_frame_needed b' \<and> (\<forall>n. stats_room b n \<longrightarrow> stats_room b' n)"
proof -
  let ?q = "butlast ps" and ?p = "last ps" and ?r = "s mod cap b"
  have ne: "ps \<noteq> []" using assms(2) by (simp add: frame_shape_def)
  then have split: "ps = ?q @ [?p]" by simp
  have lq: "Suc (length ?q) = length ps" using ne by simp
  have n: "0 < cap b" using assms(4) by linarith
  have idx: "read_idx b = ?r" "\<not> i_frame_needed b" using assms(1) by (simp_all add: part_stored_def)
  have first: "packets b ! read_idx b = Some (ps ! 0)" using assms(1) ne idx by (auto simp: part_stored_def)
  have ts0: "timestamp (ps ! 0) = ts" using assms(2) ne by (auto simp: frame_shape_def)
  obtain b1 where p: "prepare_next_frame_ts clk b = Some (b1, Some ts)" "b1 = b \<or> b1 = b\<lparr>tick := Suc (tick b)\<rparr>"
    using prepare_on_time[OF assms(5,6) _ first ts0] idx n by auto
  have eq: "packets b1 = packets b" "read_idx b1 = ?r" "part_stored s ps (length ps) b1" "\<not> i_frame_needed b1"
    using p(2) idx assms(1) by (auto simp: part_stored_def)
  have sl: "in_slots b1 ?r ?q"
    using part_stored_slots[OF eq(3), of ] n eq(1) by (auto simp: in_slots_def nth_butlast)
  have lastp: "packets b1 ! ((s + length ?q) mod cap b1) = Some ?p" "timestamp ?p = ts" "marker ?p = 1"
    "unat (total_chunks ?p) = length ps"
    using eq(3) assms(2) ne lq by (auto simp: part_stored_def frame_shape_def last_conv_nth)
  have wf: "jitter_wf b1" by (rule part_stored_wf[OF eq(3) assms(3)]) (use eq(1) n in auto)
  have at: "packets b1 ! ((?r + length ?q) mod cap b1) = Some ?p"
    using lastp(1) eq(1) by (simp add: mod_add_left_eq del: length_butlast)
  have nx: "Suc ((?r + length ?q) mod cap b1) mod cap b1 = (read_idx b1 + length ps) mod cap b1"
    using lq[symmetric] by (simp add: mod_Suc_eq eq(2) del: length_butlast)
  obtain b2 where b2: "advance_read_pointers b1 ((read_idx b1 + length ps) mod cap b1) = Some b2" "idle b2"
    "same_rest b2 b1" "cap b2 = cap b1"
    using advance_clears[OF wf, of "length ps"] eq assms(4) by (auto simp: part_stored_def mod_add_left_eq)
  have ot: "on_time clk T b2 (timestamp ?p)"
    using assms(5) lastp(2) b2(3) p(2) on_time_cong[of b2 b clk T ts] by (auto simp: same_rest_def)
  obtain b3 where b3: "synchronize_playout clk b2 ?p = Some b3" using synchronize_on_time[OF ot] by blast
  note fr = synchronize_frame[OF b3]
  let ?b' = "b3\<lparr>last_frame_completed_timestamp := ts, i_frame_needed := (if is_i_frame ?p then False else i_frame_needed b3)\<rparr>"
  obtain k where k: "cap b1 = length ?q + Suc k" using eq(1) assms(4) lq
    by (metis add_Suc_right add_Suc less_iff_Suc_add)
  have "pop_loop clk ts (length ?q + Suc k) ?r [] 0 b1 =
      pop_loop clk ts (Suc k) ((?r + length ?q) mod cap b1) ([] @ concat (map payload ?q)) (0 + length ?q) b1"
    by (rule pop_loop_walk[OF sl])
       (use n eq(1) frame_shape_take[OF assms(2), of "length ps - 1"] ne in \<open>auto simp: butlast_conv_take\<close>)
  also have "\<dots> = Some (?b', Some (concat (map payload ?q) @ payload ?p))"
    using at nx lastp(2-4) b2(1) b3 lq by (simp add: Let_def del: length_butlast)
  also have "concat (map payload ?q) @ payload ?p = concat (map payload ps)"
    by (subst (3) split) simp
  finally have "pop clk b = Some (?b', Some (concat (map payload ps)))"
    using p(1) eq(2) k by (simp add: pop_def)
  moreover have "idle ?b'" "cap ?b' = cap b" "\<not> i_frame_needed ?b'"
    using b2 fr eq b3 by (auto simp: idle_def jitter_wf_def same_rest_def synchronize_playout_def split: if_splits option.splits)
  moreover have "stats_room ?b' m" if "stats_room b m" for m
    using that b2(3) p(2) b3 by (auto simp: stats_room_def same_rest_def synchronize_playout_def split: if_splits option.splits)
  ultimately show ?thesis by (intro exI[of _ ?b']) simp
qed

section \<open>A frame through the pipeline\<close>

lemma frame_packets_numbered:
  "s + length (chunks f) < 2 ^ 64 \<Longrightarrow> numbered s (encoded_time f) (frame_packets cfg f s)"
  by (auto simp: numbered_def frame_packets_def chunk_packet_def unat_of_nat simp del: of_nat_add)

lemma frame_packets_shape:
  "chunks f \<noteq> [] \<Longrightarrow> length (chunks f) < 256 \<Longrightarrow> frame_shape (encoded_time f) (frame_packets cfg f s)"
  by (auto simp: frame_shape_def frame_packets_def chunk_packet_def last_map unat_of_nat)

lemma frame_packets_payload: "concat (map payload (frame_packets cfg f s)) = concat (chunks f)"
proof -
  have "map payload (frame_packets cfg f s) = map (\<lambda>i. chunks f ! i) [0..<length (chunks f)]"
    by (simp add: frame_packets_def chunk_packet_def)
  also have "\<dots> = chunks f" by (rule map_nth)
  finally show ?thesis by simp
qed

lemma frame_packets_length [simp]: "length (frame_packets cfg f s) = length (chunks f)"
  by (simp add: frame_packets_def)

text \<open>The rounds of the reassembly thread that receive \<open>ps\<close> with all channels open.\<close>

definition frame_rounds :: "rtp_packet list \<Rightarrow> (bool \<times> rtp_packet option \<times> bool) list" where
  "frame_rounds ps = map (\<lambda>p. (True, Some p, True)) ps"

text \<open>What the thread does with a complete frame.\<close>

definition frame_shown ::
  "(nat \<Rightarrow> u128) \<Rightarrow> 'd decoder \<Rightarrow> bool \<Rightarrow> (bool \<times> rtp_packet option \<times> bool) list \<Rightarrow> jitter_buffer \<Rightarrow> 'd \<Rightarrow> frame list \<Rightarrow> bytes \<Rightarrow>
     (jitter_buffer \<times> 'd \<times> frame list \<times> app_event list) option" where
  "frame_shown clk dec after rounds b st shown d =
     (case generate_frame_from_chunks dec d st of
        (st1, shown_frame) \<Rightarrow>
          run_frame_pipeline_loop clk dec after rounds b st1 (shown @ (case shown_frame of None \<Rightarrow> [] | Some g \<Rightarrow> [g])))"

text \<open>The state between two frames, after a frame with timestamp \<open>ts\<close>.\<close>

definition frame_done :: "u128 \<Rightarrow> nat \<Rightarrow> nat \<Rightarrow> jitter_buffer \<Rightarrow> bool" where
  "frame_done ts n k b =
     (idle b \<and> cap b = k \<and> last_frame_completed_timestamp b = ts \<and> \<not> i_frame_needed b \<and> stats_room b n)"

text \<open>One round per packet: all but the last only fill the ring, the last one delivers.\<close>

lemma round_part:
  assumes "add clk b p = Some b1" and "pop clk b1 = Some (b2, None)"
  shows "run_frame_pipeline_loop clk dec after ((True, Some p, True) # rounds) b st shown =
     run_frame_pipeline_loop clk dec after rounds b2 st shown"
  using assms by simp

lemma round_full:
  assumes "add clk b p = Some b1" and "pop clk b1 = Some (b2, Some d)"
  shows "run_frame_pipeline_loop clk dec after ((True, Some p, True) # rounds) b st shown =
     frame_shown clk dec after rounds b2 st shown d"
  using assms by (auto simp: frame_shown_def split: prod.split option.split)

declare run_frame_pipeline_loop.simps [simp del]

lemma round_last:
  assumes "add clk b (ps ! i) = Some b1" and "part_stored s ps (Suc i) b1" and "Suc i = length ps"
    and "frame_shape ts ps" and "numbered s ts ps" and "length ps < cap b1" and "on_time clk T b1 ts" and "tick b1 < T"
    and "stats_room b1 n"
  shows "\<exists>b'. run_frame_pipeline_loop clk dec after ((True, Some (ps ! i), True) # rounds) b st shown =
     frame_shown clk dec after rounds b' st shown (concat (map payload ps)) \<and> frame_done ts n (cap b1) b'"
proof -
  have full: "part_stored s ps (length ps) b1" using assms(2,3) by simp
  obtain b' where b': "pop clk b1 = Some (b', Some (concat (map payload ps)))" "idle b'" "cap b' = cap b1"
    "last_frame_completed_timestamp b' = ts" "\<not> i_frame_needed b'" "\<forall>n. stats_room b1 n \<longrightarrow> stats_room b' n"
    using pop_full[OF full assms(4-8)] by blast
  show ?thesis
    by (intro exI[of _ b'] conjI round_full[OF assms(1) b'(1)]) (use b' assms(9) in \<open>simp add: frame_done_def\<close>)
qed

lemma round_not_last:
  assumes "add clk b (ps ! i) = Some b1" and "part_stored s ps (Suc i) b1" and "Suc i < length ps"
    and "frame_shape ts ps" and "length ps < cap b1" and "on_time clk T b1 ts" and "tick b1 < T"
  shows "\<exists>b2. run_frame_pipeline_loop clk dec after ((True, Some (ps ! i), True) # rounds) b st shown =
       run_frame_pipeline_loop clk dec after rounds b2 st shown \<and>
     part_stored s ps (Suc i) b2 \<and> cap b2 = cap b1 \<and> (\<forall>n. stats_room b2 n = stats_room b1 n) \<and> on_time clk T b2 ts \<and>
     last_frame_completed_timestamp b2 = last_frame_completed_timestamp b1 \<and> tick b2 \<le> Suc (tick b1)"
proof -
  obtain b2 where b2: "pop clk b1 = Some (b2, None)" "b2 = b1 \<or> b2 = b1\<lparr>tick := Suc (tick b1)\<rparr>"
    using pop_part[OF assms(2,4) zero_less_Suc assms(3,5-7)] by blast
  show ?thesis
    by (intro exI[of _ b2] conjI round_part[OF assms(1) b2(1)])
       (use b2(2) assms(2,6) in \<open>auto simp: part_stored_def stats_room_def on_time_def in_time_def\<close>)
qed

lemma rounds_deliver:
  assumes "numbered s ts ps" and "frame_shape ts ps" and "length ps < m" and "m < 2 ^ 62"
    and "m \<le> s \<or> s + 2 * length ps \<le> m + 2" and "\<forall>t<T. clk t < 2 ^ 62" and "ts < 2 ^ 62"
  shows "part_stored s ps i b \<Longrightarrow> 0 < i \<Longrightarrow> length ps = i + Suc k \<Longrightarrow> cap b = m \<Longrightarrow> stats_room b (Suc k + n) \<Longrightarrow>
     last_frame_completed_timestamp b \<le> ts \<Longrightarrow> on_time clk T b ts \<Longrightarrow> tick b + 2 * Suc k \<le> T \<Longrightarrow>
     \<exists>b'. run_frame_pipeline_loop clk dec after (frame_rounds (drop i ps) @ rounds) b st shown =
       frame_shown clk dec after rounds b' st shown (concat (map payload ps)) \<and> frame_done ts n m b'"
proof (induction k arbitrary: i b)
  case (0 i b)
  have i: "i < length ps" "Suc i = length ps" "length ps < cap b" "stats_room b (Suc n)" "tick b < T" "Suc (tick b) < T"
    using 0 assms(3) by simp_all
  have d: "frame_rounds (drop i ps) @ rounds = (True, Some (ps ! i), True) # rounds"
    using i by (simp add: frame_rounds_def Cons_nth_drop_Suc[symmetric])
  obtain b1 where b1: "add clk b (ps ! i) = Some b1" "part_stored s ps (Suc i) b1" "cap b1 = cap b" "stats_room b1 n"
    "tick b1 = Suc (tick b)" "last_frame_completed_timestamp b1 = last_frame_completed_timestamp b"
    "last_deliver_timestamp b1 = last_deliver_timestamp b"
    using add_next_packet[OF 0(1) assms(1) 0(2) i(1) i(3) _ _ i(4) _ assms(7) 0(6), of clk] assms(4-6) 0(4) i(5) by auto
  have "on_time clk T b1 ts" using 0(7) on_time_cong[OF b1(7,6)] by simp
  then show ?case
    unfolding d using round_last[OF b1(1,2) i(2) assms(2,1) _ _ _ b1(4), of T dec after rounds st shown] b1(3,5) 0(4) i(3,6) by simp
next
  case (Suc k i b)
  have i: "i < length ps" "Suc i < length ps" "length ps < cap b" "stats_room b (Suc (Suc k + n))" "tick b < T" "Suc (tick b) < T"
    using Suc.prems assms(3) by simp_all
  have d: "frame_rounds (drop i ps) @ rounds = (True, Some (ps ! i), True) # frame_rounds (drop (Suc i) ps) @ rounds"
    using i by (simp add: frame_rounds_def Cons_nth_drop_Suc[symmetric])
  obtain b1 where b1: "add clk b (ps ! i) = Some b1" "part_stored s ps (Suc i) b1" "cap b1 = cap b"
    "stats_room b1 (Suc k + n)"
    "tick b1 = Suc (tick b)" "last_frame_completed_timestamp b1 = last_frame_completed_timestamp b"
    "last_deliver_timestamp b1 = last_deliver_timestamp b"
    using add_next_packet[OF Suc.prems(1) assms(1) Suc.prems(2) i(1) i(3) _ _ i(4) _ assms(7) Suc.prems(6), of clk]
      assms(4-6) Suc.prems(4) i(5) by auto
  have ot: "on_time clk T b1 ts" using Suc.prems(7) on_time_cong[OF b1(7,6)] by simp
  have c1: "length ps < cap b1" "tick b1 < T" using b1(3,5) i by simp_all
  obtain b2 where b2: "run_frame_pipeline_loop clk dec after ((True, Some (ps ! i), True) # frame_rounds (drop (Suc i) ps) @ rounds) b st shown =
      run_frame_pipeline_loop clk dec after (frame_rounds (drop (Suc i) ps) @ rounds) b2 st shown"
    "part_stored s ps (Suc i) b2" "cap b2 = cap b1" "\<forall>n. stats_room b2 n = stats_room b1 n" "on_time clk T b2 ts"
    "last_frame_completed_timestamp b2 = last_frame_completed_timestamp b1" "tick b2 \<le> Suc (tick b1)"
    using round_not_last[OF b1(1,2) i(2) assms(2) c1(1) ot c1(2), of dec after "frame_rounds (drop (Suc i) ps) @ rounds" st shown]
    by (elim exE conjE) (rule that)
  have "cap b2 = m" "stats_room b2 (Suc k + n)" "last_frame_completed_timestamp b2 \<le> ts" "tick b2 + 2 * Suc k \<le> T"
    using b2 b1 Suc.prems(4,6,8) by simp_all
  then show ?case unfolding d b2(1) using Suc.IH[OF b2(2) _ _ _ _ _ b2(5)] Suc.prems(3) by simp
qed

lemma frame_through_pipeline:
  assumes "numbered s ts ps" and "frame_shape ts ps" and "length ps < cap b" and "cap b < 2 ^ 62"
    and "cap b \<le> s \<or> s + 2 * length ps \<le> cap b + 2" and "\<forall>t<T. clk t < 2 ^ 62" and "ts < 2 ^ 62"
    and "idle b" and "i_frame_needed b \<longrightarrow> is_i_frame (ps ! 0)" and "stats_room b (length ps + n)"
    and "last_frame_completed_timestamp b \<le> ts" and "on_time clk T b ts" and "tick b + 2 * length ps \<le> T"
  shows "\<exists>b'. run_frame_pipeline_loop clk dec after (frame_rounds ps @ rounds) b st shown =
     frame_shown clk dec after rounds b' st shown (concat (map payload ps)) \<and> frame_done ts n (cap b) b'"
proof -
  have ne: "ps \<noteq> []" using assms(2) by (simp add: frame_shape_def)
  then obtain k where k: "length ps = Suc k" by (cases ps) auto
  have d: "frame_rounds ps @ rounds = (True, Some (ps ! 0), True) # frame_rounds (drop 1 ps) @ rounds"
    using ne by (cases ps) (simp_all add: frame_rounds_def)
  obtain b1 where b1: "add clk b (ps ! 0) = Some b1" "part_stored s ps (Suc 0) b1" "cap b1 = cap b" "stats_room b1 (k + n)"
    "tick b1 = Suc (tick b)" "last_frame_completed_timestamp b1 = last_frame_completed_timestamp b"
    "last_deliver_timestamp b1 = last_deliver_timestamp b"
    using add_first_packet[OF assms(8,1) ne assms(9), of "k + n" clk] assms(6,7,10,11,13) k by auto
  have ot: "on_time clk T b1 ts" using assms(12) on_time_cong[OF b1(7,6)] by simp
  have c1: "length ps < cap b1" "tick b1 < T" using b1(3,5) assms(3,13) k by simp_all
  show ?thesis
  proof (cases "k = 0")
    case True
    then have "frame_rounds (drop 1 ps) = []" "Suc 0 = length ps" "stats_room b1 n" using k b1(4) by (simp_all add: frame_rounds_def)
    then show ?thesis
      unfolding d using round_last[OF b1(1,2) _ assms(2,1) c1(1) ot c1(2), of n dec after rounds st shown] b1(3) by simp
  next
    case False
    then obtain j where j: "length ps = 1 + Suc j" "k = Suc j" using k by (cases k) auto
    then have l: "Suc 0 < length ps" by simp
    obtain b2 where b2: "run_frame_pipeline_loop clk dec after ((True, Some (ps ! 0), True) # frame_rounds (drop 1 ps) @ rounds) b st shown =
        run_frame_pipeline_loop clk dec after (frame_rounds (drop 1 ps) @ rounds) b2 st shown"
      "part_stored s ps (Suc 0) b2" "cap b2 = cap b1" "\<forall>n. stats_room b2 n = stats_room b1 n" "on_time clk T b2 ts"
      "last_frame_completed_timestamp b2 = last_frame_completed_timestamp b1" "tick b2 \<le> Suc (tick b1)"
      using round_not_last[OF b1(1,2) l assms(2) c1(1) ot c1(2), of dec after "frame_rounds (drop 1 ps) @ rounds" st shown]
      by (elim exE conjE) (rule that)
    have "part_stored s ps 1 b2" "cap b2 = cap b" "stats_room b2 (Suc j + n)"
      "last_frame_completed_timestamp b2 \<le> ts" "tick b2 + 2 * Suc j \<le> T"
      using b2 b1 assms(11,13) j by simp_all
    then show ?thesis
      unfolding d b2(1) using rounds_deliver[OF assms(1-7), of 1 b2 j n dec after rounds st shown] j(1) b2(5) by simp
  qed
qed

text \<open>
  C7. End to end, a video frame: the encoder's bit stream is cut into chunks and sent as packets; when
  these arrive in order at a jitter buffer that is empty between two frames, the reassembly thread
  hands the decoder exactly the bit stream, shows the decoded frame, and leaves the buffer empty and
  ready for the next frame. Conditions: at most 255 chunks and fewer than the ring has slots; an
  intra frame if one is needed; a frame that starts in the first round of the ring ends in its first
  half; the frame is not older than the previous one and on time; clocks and counters do not overflow.
\<close>
theorem video_frame_delivered:
  assumes "encode (Inr (nalus, intra)) sz time = Some (Inr f)" and "nalus \<noteq> []"
    and "length (chunks f) \<le> 255" and "length (chunks f) < cap b" and "cap b < 2 ^ 62"
    and "length (chunks f) \<le> room" and "s + length (chunks f) < 2 ^ 64"
    and "cap b \<le> s \<or> s + 2 * length (chunks f) \<le> cap b + 2"
    and "\<forall>t<T. clk t < 2 ^ 62" and "time < 2 ^ 62"
    and "idle b" and "i_frame_needed b \<longrightarrow> intra" and "stats_room b (length (chunks f) + n)"
    and "last_frame_completed_timestamp b \<le> time" and "on_time clk T b time" and "tick b + 2 * length (chunks f) \<le> T"
  shows "\<exists>ps b'. send_encoded_frame cfg f True room (word_of_nat s) = (Inr (), word_of_nat (s + length (chunks f)), ps) \<and>
     run_frame_pipeline_loop clk dec after (frame_rounds ps @ rounds) b st shown =
       frame_shown clk dec after rounds b' st shown nalus \<and> frame_done time n (cap b) b'"
proof -
  let ?ps = "frame_packets cfg f s"
  have f: "chunks f = chunk_list sz nalus" "0 < sz" "encoded_time f = time" "encoded_i_frame f = intra"
    using assms(1) by (auto simp: encode_def generate_chunks_from_bitstream_def split: if_splits)
  have bs: "concat (chunks f) = nalus" using f chunk_list_concat by simp
  then have ne: "chunks f \<noteq> []" using assms(2) by auto
  have shape: "frame_shape time ?ps" and num: "numbered s time ?ps"
    using frame_packets_shape[OF ne, of cfg s] frame_packets_numbered[OF assms(7), of cfg] assms(3) f(3) by simp_all
  have "is_i_frame (?ps ! 0) = intra" using ne f(4) by (simp add: frame_packets_def chunk_packet_def)
  then obtain b' where "run_frame_pipeline_loop clk dec after (frame_rounds ?ps @ rounds) b st shown =
     frame_shown clk dec after rounds b' st shown (concat (map payload ?ps)) \<and> frame_done time n (cap b) b'"
    using frame_through_pipeline[OF num shape, of b T clk n dec after rounds st shown] assms by auto
  then show ?thesis
    using send_encoded_frame_packets[OF assms(6,7), of cfg] bs by (auto simp: frame_packets_payload)
qed

text \<open>A frame of three bytes in chunks of two, through a new buffer of eight slots.\<close>

definition sample_pcfg :: pipeline_config where
  "sample_pcfg = media_config.extend sample_mcfg (pipeline_config.fields 2 1 2)"

definition sample_frame :: encoded_frame where
  "sample_frame = \<lparr>chunks = [[1, 2], [3]], encoded_time = 500, encoded_i_frame = True\<rparr>"

definition sample_decoder :: "unit decoder" where
  "sample_decoder st d = (st, Inr (d, 1, 1))"

lemma sample_buffer_idle: "idle (jitter_new 8)"
  using jitter_new_wf[of 8] by (simp add: idle_def) (simp add: jitter_new_def)

theorem video_frame_delivered_witness:
  "\<exists>ps b'. send_encoded_frame sample_pcfg sample_frame True 5 0 = (Inr (), 2, ps) \<and>
     run_frame_pipeline_loop sample_clock sample_decoder True (frame_rounds ps @ []) (jitter_new 8) () [] =
       Some (b', (), [\<lparr>frame_data = [1, 2, 3], frame_width = 1, frame_height = 1, frame_time = 0\<rparr>], []) \<and>
     frame_done 500 10 8 b'"
proof -
  have e: "encode (Inr ([1, 2, 3], True)) 2 500 = Some (Inr sample_frame)"
    by (simp add: encode_def generate_chunks_from_bitstream_def chunk_list.simps sample_frame_def)
  have j: "cap (jitter_new 8) = 8" "i_frame_needed (jitter_new 8)" "stats_room (jitter_new 8) (2 + 10)"
    "last_frame_completed_timestamp (jitter_new 8) = 0" "on_time sample_clock 4 (jitter_new 8) 500" "tick (jitter_new 8) = 0"
    by (simp_all add: jitter_new_def stats_room_def on_time_def receiver_stats_default_def)
  have l: "length (chunks sample_frame) = 2" by (simp add: sample_frame_def)
  from video_frame_delivered[OF e, of "jitter_new 8" 5 0 4 sample_clock 10 sample_pcfg sample_decoder True "[]" "()" "[]"]
  obtain ps b' where p: "send_encoded_frame sample_pcfg sample_frame True 5 0 = (Inr (), 2, ps)"
    "run_frame_pipeline_loop sample_clock sample_decoder True (frame_rounds ps @ []) (jitter_new 8) () [] =
       frame_shown sample_clock sample_decoder True [] b' () [] [1, 2, 3]" "frame_done 500 10 8 b'"
    using j l sample_buffer_idle by (auto simp: sample_clock_def)
  then show ?thesis
    by (auto simp: frame_shown_def generate_frame_from_chunks_def sample_decoder_def run_frame_pipeline_loop.simps)
qed

end
