(* ===== verification/Mock_Socket.thy ===== *)
theory Mock_Socket
  imports Media_Transport
begin

text \<open>
  The mock socket of \<^verbatim>\<open>src/tools/mock_socket.rs\<close> behind the trait of \<^verbatim>\<open>src/tools/socket.rs\<close>, with the RTP receiver that
  reads from it. The trait is the locale \<open>datagram_source\<close>; for a UDP socket its calls are those of the standard library. A clone of the mock shares its
  two buffers, so one state stands for all clones.
\<close>

section \<open>The trait\<close>

datatype io_error = IoOther string | IoWouldBlock

text \<open>
  What a reader relies on: a socket in order (\<open>good\<close>) with datagrams waiting delivers the first, cut to the size of the buffer, and
  one without reports that it would block.
\<close>

text \<open>
  The observations \<open>receive\<close> of the RTP receiver makes on a socket, into a buffer of 65535 bytes, with the flag read in each round; and
  the datagrams of \<open>k\<close> calls of it.
\<close>

fun socket_script ::
  "(nat \<Rightarrow> 's \<Rightarrow> (io_error + bytes \<times> 'a) \<times> 's) \<Rightarrow> bool list \<Rightarrow> 's \<Rightarrow> (rtp_recv \<times> bool) list" where
  "socket_script recv [] s = []"
| "socket_script recv (conn # conns) s =
     (case recv 65535 s of
        (Inr (d, a), s') \<Rightarrow> (rtp_recv.Datagram d, conn) # socket_script recv conns s'
      | (Inl IoWouldBlock, s') \<Rightarrow> (rtp_recv.WouldBlock, conn) # socket_script recv conns s'
      | (Inl (IoOther e), s') \<Rightarrow> (rtp_recv.RecvError e, conn) # socket_script recv conns s')"

fun receive_times :: "nat \<Rightarrow> (rtp_recv \<times> bool) list \<Rightarrow> bytes list" where
  "receive_times 0 obs = []"
| "receive_times (Suc k) obs =
     (case rtp_receive obs True (Inr ()) of
        Some (Inr d, obs') \<Rightarrow> d # receive_times k obs'
      | _ \<Rightarrow> [])"

locale datagram_source =
  fixes recv :: "nat \<Rightarrow> 's \<Rightarrow> (io_error + bytes \<times> 'a) \<times> 's"
    and waiting :: "'s \<Rightarrow> bytes list"
    and good :: "'s \<Rightarrow> bool"
  assumes recv_waiting: "good s \<Longrightarrow> waiting s = d # ds \<Longrightarrow>
      (\<exists>a. fst (recv n s) = Inr (take n d, a)) \<and> waiting (snd (recv n s)) = ds \<and> good (snd (recv n s))"
    and recv_none: "good s \<Longrightarrow> waiting s = [] \<Longrightarrow> recv n s = (Inl IoWouldBlock, s)"
begin

lemma receives_all:
  "\<lbrakk>good s; waiting s = ds; length ds \<le> length conns\<rbrakk> \<Longrightarrow>
     receive_times (length ds) (socket_script recv conns s) = map (take 65535) ds"
proof (induction ds arbitrary: s conns)
  case (Cons d ds)
  then obtain conn conns' where c: "conns = conn # conns'" by (cases conns) auto
  obtain a s' where "recv 65535 s = (Inr (take 65535 d, a), s')" "waiting s' = ds" "good s'"
    using recv_waiting[OF Cons.prems(1,2), of 65535] by (metis prod.collapse)
  then show ?case using Cons.IH[of s' conns'] Cons.prems(3) c by simp
qed simp

text \<open>An empty socket whose connection ends: the receiver stops.\<close>

lemma receive_ends: "good s \<Longrightarrow> waiting s = [] \<Longrightarrow>
    rtp_receive (socket_script recv (replicate k True @ [False]) s) lock bye = Some (Inl ConnectionClosed, [])"
  using recv_none[of s 65535] by (induction k) simp_all

end

section \<open>The mock\<close>

record mock_socket =
  data_to_receive :: "bytes list"
  sent_data :: "bytes list"
  receive_poisoned :: bool
  sent_poisoned :: bool

definition mock_socket_new :: "bytes list \<Rightarrow> mock_socket" where
  "mock_socket_new data = \<lparr>data_to_receive = data, sent_data = [], receive_poisoned = False, sent_poisoned = False\<rparr>"

definition mock_send :: "bytes \<Rightarrow> mock_socket \<Rightarrow> (io_error + nat) \<times> mock_socket" where
  "mock_send buf s =
     (if sent_poisoned s then (Inl (IoOther ''sent_data poisoned''), s)
      else (Inr (length buf), s\<lparr>sent_data := sent_data s @ [buf]\<rparr>))"

text \<open>The address of the sender is a constant.\<close>

definition mock_recv_from :: "nat \<Rightarrow> mock_socket \<Rightarrow> (io_error + bytes \<times> string) \<times> mock_socket" where
  "mock_recv_from n s =
     (if receive_poisoned s then (Inl (IoOther ''data_to_receive poisoned''), s)
      else case data_to_receive s of
             [] \<Rightarrow> (Inl IoWouldBlock, s)
           | packet # rest \<Rightarrow>
               (let len = min (length packet) n
                in (Inr (take len packet, ''127.0.0.1:1234''), s\<lparr>data_to_receive := rest\<rparr>)))"

definition mock_set_read_timeout :: "nat option \<Rightarrow> mock_socket \<Rightarrow> (io_error + unit) \<times> mock_socket" where
  "mock_set_read_timeout dur s = (Inr (), s)"

interpretation mock: datagram_source mock_recv_from data_to_receive "\<lambda>s. \<not> receive_poisoned s"
  by unfold_locales (auto simp: mock_recv_from_def Let_def min_def)

text \<open>The RTP receiver on a mock gets every datagram the mock was given, in order and whole unless it is larger than a UDP datagram can be.\<close>

theorem mock_delivers:
  assumes "length data \<le> length conns" and "\<forall>d\<in>set data. length d \<le> 65535"
  shows "receive_times (length data) (socket_script mock_recv_from conns (mock_socket_new data)) = data"
proof -
  have "receive_times (length data) (socket_script mock_recv_from conns (mock_socket_new data)) = map (take 65535) data"
    using assms(1) by (intro mock.receives_all) (simp_all add: mock_socket_new_def)
  then show ?thesis using assms(2) by (simp add: map_idI)
qed

text \<open>What is sent is kept in order.\<close>

lemma mock_keeps_sent:
  "\<not> sent_poisoned s \<Longrightarrow> sent_data (fold (\<lambda>buf s. snd (mock_send buf s)) bufs s) = sent_data s @ bufs"
  by (induction bufs arbitrary: s) (simp_all add: mock_send_def)
end
