(* ===== verification/Config.thy ===== *)
theory Config
  imports Media_Pipeline
begin

text \<open>
  The configuration, \<^verbatim>\<open>src/config.rs\<close>: the records of its sections and \<open>Config::load\<close>, which reads them from the sections
  of an INI file. The INI parser is a library: its result, an error or the sections with their properties,
  is an argument. So are the parsers of floating-point numbers, whose type is a type variable. A
  \<open>usize\<close> is a natural number below \<open>2 ^ 64\<close>.
\<close>

section \<open>Records\<close>

record network_config =
  bind_address :: string
  max_udp_packet_size :: nat

record 'f media_section =
  camera_index :: nat
  frame_width :: "'f"
  frame_height :: "'f"
  frame_rate :: "'f"
  h264_idr_interval :: u32
  rtp_max_chunk_size :: nat
  frame_ssrc :: u32
  audio_ssrc :: u32
  video_payload_type :: u8
  video_codec_name :: string
  clock_rate :: u32
  rtp_version :: u8
  video_media_type :: string
  audio_media_type :: string
  media_protocol :: string
  jitter_buffer_size :: nat
  audio_channels :: u8
  audio_sample_rate :: u32
  audio_frame_size :: nat
  audio_payload_type :: u8
  audio_codec_name :: string

record rtcp_config =
  report_period_millis :: u64
  receive_limit_millis :: u64
  retry_limit :: nat

record rtp_config =
  max_packet_size :: nat
  read_timeout_millis :: u64

record sdp_section =
  version :: u8
  origin_id :: nat
  session_name :: string
  timing :: string
  connection_data_net_type :: string
  connection_data_addr_type :: string
  connection_data_address :: string

record ice_section =
  foundation :: string
  transport :: string
  component_id :: u8
  host_priority_preference :: u32
  srflx_priority_preference :: u32
  host_local_preference :: u16

record server_config =
  users_file :: string
  client_server_addr :: string
  server_client_addr :: string
  server_private_key_file :: string
  server_certification_file :: string
  server_name :: string
  max_amount_of_users_connected :: nat

record dcep_config =
  ack_wait_timeout_millis :: u16
  open_wait_timeout_millis :: u16

record 'f config =
  network :: network_config
  media :: "'f media_section"
  rtcp :: rtcp_config
  rtp :: rtp_config
  sdp :: sdp_section
  ice :: ice_section
  server :: server_config
  dcep :: dcep_config

section \<open>Reading values\<close>

datatype config_error = IniError string | Missing string | ParseIntError | ParseFloatError

type_synonym properties = "string \<Rightarrow> string option"
type_synonym ini = "string \<Rightarrow> properties option"

definition with_section :: "ini \<Rightarrow> string \<Rightarrow> string \<Rightarrow> (properties \<Rightarrow> config_error + 'b) \<Rightarrow> config_error + 'b" where
  "with_section conf name msg k = (case conf name of None \<Rightarrow> Inl (Missing msg) | Some sec \<Rightarrow> k sec)"

definition read_string :: "properties \<Rightarrow> string \<Rightarrow> string \<Rightarrow> (string \<Rightarrow> config_error + 'b) \<Rightarrow> config_error + 'b" where
  "read_string sec key msg k = (case sec key of None \<Rightarrow> Inl (Missing msg) | Some v \<Rightarrow> k v)"

definition read_uint ::
  "properties \<Rightarrow> string \<Rightarrow> string \<Rightarrow> ('a::len word \<Rightarrow> config_error + 'b) \<Rightarrow> config_error + 'b" where
  "read_uint sec key msg k =
     read_string sec key msg (\<lambda>v.
       case parse_uint 10 (2 ^ LENGTH('a)) v of None \<Rightarrow> Inl ParseIntError | Some n \<Rightarrow> k (word_of_nat n))"

definition read_usize :: "properties \<Rightarrow> string \<Rightarrow> string \<Rightarrow> (nat \<Rightarrow> config_error + 'b) \<Rightarrow> config_error + 'b" where
  "read_usize sec key msg k =
     read_string sec key msg (\<lambda>v.
       case parse_uint 10 (2 ^ 64) v of None \<Rightarrow> Inl ParseIntError | Some n \<Rightarrow> k n)"

definition read_float ::
  "(string \<Rightarrow> 'f option) \<Rightarrow> properties \<Rightarrow> string \<Rightarrow> string \<Rightarrow> ('f \<Rightarrow> config_error + 'b) \<Rightarrow> config_error + 'b" where
  "read_float p sec key msg k =
     read_string sec key msg (\<lambda>v. case p v of None \<Rightarrow> Inl ParseFloatError | Some x \<Rightarrow> k x)"

section \<open>Loading\<close>

definition load_network :: "properties \<Rightarrow> config_error + network_config" where
  "load_network sec =
     read_string sec ''bind_address'' ''Missing bind_address'' (\<lambda>v0.
     read_usize sec ''max_udp_packet_size'' ''Missing max_udp_packet_size'' (\<lambda>v1.
     Inr \<lparr>bind_address = v0, max_udp_packet_size = v1\<rparr>))"


definition load_media :: "(string \<Rightarrow> 'f option) \<Rightarrow> (string \<Rightarrow> 'f option) \<Rightarrow> properties \<Rightarrow> config_error + 'f media_section" where
  "load_media p64 p32 sec =
     read_usize sec ''camera_index'' ''Missing camera_index'' (\<lambda>v0.
     read_float p64 sec ''frame_width'' ''Missing frame_width'' (\<lambda>v1.
     read_float p64 sec ''frame_height'' ''Missing frame_height'' (\<lambda>v2.
     read_float p32 sec ''frame_rate'' ''Missing frame_rate'' (\<lambda>v3.
     read_uint sec ''h264_idr_interval'' ''Missing h264_idr_interval'' (\<lambda>v4.
     read_usize sec ''rtp_max_chunk_size'' ''Missing rtp_max_chunk_size'' (\<lambda>v5.
     read_uint sec ''frame_ssrc'' ''Missing frame_ssrc'' (\<lambda>v6.
     read_uint sec ''audio_ssrc'' ''Missing audio_ssrc'' (\<lambda>v7.
     read_uint sec ''video_payload_type'' ''Missing video_payload_type'' (\<lambda>v8.
     read_string sec ''video_codec_name'' ''Missing video_codec_name'' (\<lambda>v9.
     read_uint sec ''clock_rate'' ''Missing clock_rate'' (\<lambda>v10.
     read_uint sec ''rtp_version'' ''Missing rtp_version'' (\<lambda>v11.
     read_string sec ''video_media_type'' ''Missing video_media_type'' (\<lambda>v12.
     read_string sec ''audio_media_type'' ''Missing audio_media_type'' (\<lambda>v13.
     read_string sec ''media_protocol'' ''Missing media_protocol'' (\<lambda>v14.
     read_usize sec ''jitter_buffer_size'' ''Missing jitter_buffer_size'' (\<lambda>v15.
     read_uint sec ''audio_channels'' ''Missing audio_channels'' (\<lambda>v16.
     read_uint sec ''audio_sample_rate'' ''Missing audio_sample_rate'' (\<lambda>v17.
     read_usize sec ''audio_frame_size'' ''Missing audio_frame_size'' (\<lambda>v18.
     read_uint sec ''audio_payload_type'' ''Missing audio_payload_type'' (\<lambda>v19.
     read_string sec ''audio_codec_name'' ''Missing audio_codec_name'' (\<lambda>v20.
     Inr \<lparr>camera_index = v0, frame_width = v1, frame_height = v2, frame_rate = v3, h264_idr_interval = v4,
            rtp_max_chunk_size = v5, frame_ssrc = v6, audio_ssrc = v7, video_payload_type = v8, video_codec_name = v9,
            clock_rate = v10, rtp_version = v11, video_media_type = v12, audio_media_type = v13, media_protocol = v14,
            jitter_buffer_size = v15, audio_channels = v16, audio_sample_rate = v17, audio_frame_size = v18,
            audio_payload_type = v19, audio_codec_name = v20\<rparr>)))))))))))))))))))))"

definition load_rtcp :: "properties \<Rightarrow> config_error + rtcp_config" where
  "load_rtcp sec =
     read_uint sec ''report_period_millis'' ''Missing report_period_millis'' (\<lambda>v0.
     read_uint sec ''receive_limit_millis'' ''Missing receive_limit_millis'' (\<lambda>v1.
     read_usize sec ''retry_limit'' ''Missing retry_limit'' (\<lambda>v2.
     Inr \<lparr>report_period_millis = v0, receive_limit_millis = v1, retry_limit = v2\<rparr>)))"

definition load_rtp :: "properties \<Rightarrow> config_error + rtp_config" where
  "load_rtp sec =
     read_usize sec ''max_packet_size'' ''Missing max_packet_size'' (\<lambda>v0.
     read_uint sec ''read_timeout_millis'' ''Missing read_timeout_millis'' (\<lambda>v1.
     Inr \<lparr>max_packet_size = v0, read_timeout_millis = v1\<rparr>))"

definition load_sdp :: "properties \<Rightarrow> config_error + sdp_section" where
  "load_sdp sec =
     read_uint sec ''version'' ''Missing version'' (\<lambda>v0.
     read_usize sec ''origin_id'' ''Missing origin_id'' (\<lambda>v1.
     read_string sec ''session_name'' ''Missing session_name'' (\<lambda>v2.
     read_string sec ''timing'' ''Missing timing'' (\<lambda>v3.
     read_string sec ''connection_data_net_type'' ''Missing connection_data_net_type'' (\<lambda>v4.
     read_string sec ''connection_data_addr_type'' ''Missing connection_data_addr_type'' (\<lambda>v5.
     read_string sec ''connection_data_address'' ''Missing connection_data_address'' (\<lambda>v6.
     Inr \<lparr>version = v0, origin_id = v1, session_name = v2, timing = v3, connection_data_net_type = v4,
            connection_data_addr_type = v5, connection_data_address = v6\<rparr>)))))))"

definition load_ice :: "properties \<Rightarrow> config_error + ice_section" where
  "load_ice sec =
     read_string sec ''foundation'' ''Missing foundation'' (\<lambda>v0.
     read_string sec ''transport'' ''Missing transport'' (\<lambda>v1.
     read_uint sec ''component_id'' ''Missing component_id'' (\<lambda>v2.
     read_uint sec ''host_priority_preference'' ''Missing host_priority_preference'' (\<lambda>v3.
     read_uint sec ''srflx_priority_preference'' ''Missing srflx_priority_preference'' (\<lambda>v4.
     read_uint sec ''host_local_preference'' ''Missing host_local_preference'' (\<lambda>v5.
     Inr \<lparr>foundation = v0, transport = v1, component_id = v2, host_priority_preference = v3,
            srflx_priority_preference = v4, host_local_preference = v5\<rparr>))))))"

definition load_server :: "properties \<Rightarrow> config_error + server_config" where
  "load_server sec =
     read_string sec ''users_file'' ''Missing path to users file'' (\<lambda>v0.
     read_string sec ''client_server_addr'' ''Missing client-server address'' (\<lambda>v1.
     read_string sec ''server_client_addr'' ''Missing server-client address'' (\<lambda>v2.
     read_string sec ''server_private_key_file'' ''Missing key file address'' (\<lambda>v3.
     read_string sec ''server_certification_file'' ''Missing certification file address'' (\<lambda>v4.
     read_string sec ''server_name'' ''Missing server_name'' (\<lambda>v5.
     read_usize sec ''max_amount_of_users_connected'' ''Missing max amount of users connected'' (\<lambda>v6.
     Inr \<lparr>users_file = v0, client_server_addr = v1, server_client_addr = v2, server_private_key_file = v3,
            server_certification_file = v4, server_name = v5, max_amount_of_users_connected = v6\<rparr>)))))))"

definition load_dcep :: "properties \<Rightarrow> config_error + dcep_config" where
  "load_dcep sec =
     read_uint sec ''ack_wait_timeout_millis'' ''Missing ack_wait_timeout_millis'' (\<lambda>v0.
     read_uint sec ''open_wait_timeout_millis'' ''Missing open_wait_timeout_millis'' (\<lambda>v1.
     Inr \<lparr>ack_wait_timeout_millis = v0, open_wait_timeout_millis = v1\<rparr>))"

definition load ::
  "(string \<Rightarrow> 'f option) \<Rightarrow> (string \<Rightarrow> 'f option) \<Rightarrow> string + ini \<Rightarrow> config_error + 'f config" where
  "load p64 p32 file =
     result_bind (case file of Inl e \<Rightarrow> Inl (IniError e) | Inr conf \<Rightarrow> Inr conf) (\<lambda>conf.
     with_section conf ''network'' ''Missing [network] section'' (\<lambda>network_section.
     with_section conf ''media'' ''Missing [media] section'' (\<lambda>media_section.
     with_section conf ''rtp'' ''Missing [rtp] section'' (\<lambda>rtp_section.
     with_section conf ''rtcp'' ''Missing [rtcp] section'' (\<lambda>rtcp_section.
     with_section conf ''sdp'' ''Missing [sdp] section'' (\<lambda>sdp_section.
     with_section conf ''ice'' ''Missing [ice] section'' (\<lambda>ice_section.
     with_section conf ''server'' ''Missing [server] section'' (\<lambda>server_section.
     with_section conf ''dcep'' ''Missing [dcep] section'' (\<lambda>dcep_section.
     result_bind (load_network network_section) (\<lambda>network_c.
     result_bind (load_media p64 p32 media_section) (\<lambda>media_c.
     result_bind (load_rtcp rtcp_section) (\<lambda>rtcp_c.
     result_bind (load_rtp rtp_section) (\<lambda>rtp_c.
     result_bind (load_sdp sdp_section) (\<lambda>sdp_c.
     result_bind (load_ice ice_section) (\<lambda>ice_c.
     result_bind (load_server server_section) (\<lambda>server_c.
     result_bind (load_dcep dcep_section) (\<lambda>dcep_c.
     Inr \<lparr>network = network_c, media = media_c, rtcp = rtcp_c, rtp = rtp_c, sdp = sdp_c, ice = ice_c,
            server = server_c, dcep = dcep_c\<rparr>)))))))))))))))))"

section \<open>What a configuration file must have\<close>

datatype value_kind = Str | Usize | UInt nat | F64 | F32

fun value_ok :: "(string \<Rightarrow> 'f option) \<Rightarrow> (string \<Rightarrow> 'f option) \<Rightarrow> value_kind \<Rightarrow> string \<Rightarrow> bool" where
  "value_ok p64 p32 Str v = True"
| "value_ok p64 p32 Usize v = (parse_uint 10 (2 ^ 64) v \<noteq> None)"
| "value_ok p64 p32 (UInt w) v = (parse_uint 10 (2 ^ w) v \<noteq> None)"
| "value_ok p64 p32 F64 v = (p64 v \<noteq> None)"
| "value_ok p64 p32 F32 v = (p32 v \<noteq> None)"

definition config_schema :: "(string \<times> string \<times> value_kind) list" where
  "config_schema =
    [(''network'', ''bind_address'', Str), (''network'', ''max_udp_packet_size'', Usize),
     (''media'', ''camera_index'', Usize), (''media'', ''frame_width'', F64),
     (''media'', ''frame_height'', F64), (''media'', ''frame_rate'', F32),
     (''media'', ''h264_idr_interval'', UInt 32), (''media'', ''rtp_max_chunk_size'', Usize),
     (''media'', ''frame_ssrc'', UInt 32), (''media'', ''audio_ssrc'', UInt 32),
     (''media'', ''video_payload_type'', UInt 8), (''media'', ''video_codec_name'', Str),
     (''media'', ''clock_rate'', UInt 32), (''media'', ''rtp_version'', UInt 8),
     (''media'', ''video_media_type'', Str), (''media'', ''audio_media_type'', Str),
     (''media'', ''media_protocol'', Str), (''media'', ''jitter_buffer_size'', Usize),
     (''media'', ''audio_channels'', UInt 8), (''media'', ''audio_sample_rate'', UInt 32),
     (''media'', ''audio_frame_size'', Usize), (''media'', ''audio_payload_type'', UInt 8),
     (''media'', ''audio_codec_name'', Str), (''rtcp'', ''report_period_millis'', UInt 64),
     (''rtcp'', ''receive_limit_millis'', UInt 64), (''rtcp'', ''retry_limit'', Usize),
     (''rtp'', ''max_packet_size'', Usize), (''rtp'', ''read_timeout_millis'', UInt 64),
     (''sdp'', ''version'', UInt 8), (''sdp'', ''origin_id'', Usize),
     (''sdp'', ''session_name'', Str), (''sdp'', ''timing'', Str),
     (''sdp'', ''connection_data_net_type'', Str), (''sdp'', ''connection_data_addr_type'', Str),
     (''sdp'', ''connection_data_address'', Str), (''ice'', ''foundation'', Str),
     (''ice'', ''transport'', Str), (''ice'', ''component_id'', UInt 8),
     (''ice'', ''host_priority_preference'', UInt 32), (''ice'', ''srflx_priority_preference'', UInt 32),
     (''ice'', ''host_local_preference'', UInt 16), (''server'', ''users_file'', Str),
     (''server'', ''client_server_addr'', Str), (''server'', ''server_client_addr'', Str),
     (''server'', ''server_private_key_file'', Str), (''server'', ''server_certification_file'', Str),
     (''server'', ''server_name'', Str), (''server'', ''max_amount_of_users_connected'', Usize),
     (''dcep'', ''ack_wait_timeout_millis'', UInt 16), (''dcep'', ''open_wait_timeout_millis'', UInt 16)]"

definition entry_present ::
  "(string \<Rightarrow> 'f option) \<Rightarrow> (string \<Rightarrow> 'f option) \<Rightarrow> ini \<Rightarrow> string \<times> string \<times> value_kind \<Rightarrow> bool" where
  "entry_present p64 p32 conf e =
     (case e of (s, k, t) \<Rightarrow> (case conf s of None \<Rightarrow> False | Some sec \<Rightarrow>
        (case sec k of None \<Rightarrow> False | Some v \<Rightarrow> value_ok p64 p32 t v)))"

text \<open>The file with the values of a configuration; \<open>sf\<close> prints floating-point numbers.\<close>

definition config_file :: "('f \<Rightarrow> string) \<Rightarrow> 'f config \<Rightarrow> ini" where
  "config_file sf c =
     [''network'' \<mapsto> [''bind_address'' \<mapsto> bind_address (network c),
         ''max_udp_packet_size'' \<mapsto> show_nat (max_udp_packet_size (network c))],
      ''media'' \<mapsto> [''camera_index'' \<mapsto> show_nat (camera_index (media c)),
         ''frame_width'' \<mapsto> sf (frame_width (media c)),
         ''frame_height'' \<mapsto> sf (frame_height (media c)),
         ''frame_rate'' \<mapsto> sf (frame_rate (media c)),
         ''h264_idr_interval'' \<mapsto> show_nat (unat (h264_idr_interval (media c))),
         ''rtp_max_chunk_size'' \<mapsto> show_nat (rtp_max_chunk_size (media c)),
         ''frame_ssrc'' \<mapsto> show_nat (unat (frame_ssrc (media c))),
         ''audio_ssrc'' \<mapsto> show_nat (unat (audio_ssrc (media c))),
         ''video_payload_type'' \<mapsto> show_nat (unat (video_payload_type (media c))),
         ''video_codec_name'' \<mapsto> video_codec_name (media c),
         ''clock_rate'' \<mapsto> show_nat (unat (clock_rate (media c))),
         ''rtp_version'' \<mapsto> show_nat (unat (rtp_version (media c))),
         ''video_media_type'' \<mapsto> video_media_type (media c),
         ''audio_media_type'' \<mapsto> audio_media_type (media c),
         ''media_protocol'' \<mapsto> media_protocol (media c),
         ''jitter_buffer_size'' \<mapsto> show_nat (jitter_buffer_size (media c)),
         ''audio_channels'' \<mapsto> show_nat (unat (audio_channels (media c))),
         ''audio_sample_rate'' \<mapsto> show_nat (unat (audio_sample_rate (media c))),
         ''audio_frame_size'' \<mapsto> show_nat (audio_frame_size (media c)),
         ''audio_payload_type'' \<mapsto> show_nat (unat (audio_payload_type (media c))),
         ''audio_codec_name'' \<mapsto> audio_codec_name (media c)],
      ''rtcp'' \<mapsto> [''report_period_millis'' \<mapsto> show_nat (unat (report_period_millis (rtcp c))),
         ''receive_limit_millis'' \<mapsto> show_nat (unat (receive_limit_millis (rtcp c))),
         ''retry_limit'' \<mapsto> show_nat (retry_limit (rtcp c))],
      ''rtp'' \<mapsto> [''max_packet_size'' \<mapsto> show_nat (max_packet_size (rtp c)),
         ''read_timeout_millis'' \<mapsto> show_nat (unat (read_timeout_millis (rtp c)))],
      ''sdp'' \<mapsto> [''version'' \<mapsto> show_nat (unat (version (sdp c))),
         ''origin_id'' \<mapsto> show_nat (origin_id (sdp c)),
         ''session_name'' \<mapsto> session_name (sdp c),
         ''timing'' \<mapsto> timing (sdp c),
         ''connection_data_net_type'' \<mapsto> connection_data_net_type (sdp c),
         ''connection_data_addr_type'' \<mapsto> connection_data_addr_type (sdp c),
         ''connection_data_address'' \<mapsto> connection_data_address (sdp c)],
      ''ice'' \<mapsto> [''foundation'' \<mapsto> foundation (ice c),
         ''transport'' \<mapsto> transport (ice c),
         ''component_id'' \<mapsto> show_nat (unat (component_id (ice c))),
         ''host_priority_preference'' \<mapsto> show_nat (unat (host_priority_preference (ice c))),
         ''srflx_priority_preference'' \<mapsto> show_nat (unat (srflx_priority_preference (ice c))),
         ''host_local_preference'' \<mapsto> show_nat (unat (host_local_preference (ice c)))],
      ''server'' \<mapsto> [''users_file'' \<mapsto> users_file (server c),
         ''client_server_addr'' \<mapsto> client_server_addr (server c),
         ''server_client_addr'' \<mapsto> server_client_addr (server c),
         ''server_private_key_file'' \<mapsto> server_private_key_file (server c),
         ''server_certification_file'' \<mapsto> server_certification_file (server c),
         ''server_name'' \<mapsto> server_name (server c),
         ''max_amount_of_users_connected'' \<mapsto> show_nat (max_amount_of_users_connected (server c))],
      ''dcep'' \<mapsto> [''ack_wait_timeout_millis'' \<mapsto> show_nat (unat (ack_wait_timeout_millis (dcep c))),
         ''open_wait_timeout_millis'' \<mapsto> show_nat (unat (open_wait_timeout_millis (dcep c)))]]"

section \<open>Success and errors\<close>

definition is_ok :: "'e + 'a \<Rightarrow> bool" where
  "is_ok m = (case m of Inl _ \<Rightarrow> False | Inr _ \<Rightarrow> True)"

definition key_ok :: "properties \<Rightarrow> string \<Rightarrow> (string \<Rightarrow> bool) \<Rightarrow> bool" where
  "key_ok sec key P = (case sec key of None \<Rightarrow> False | Some v \<Rightarrow> P v)"

named_theorems load_simps \<open>when a read succeeds\<close>

lemma is_ok_Inr [load_simps]: "is_ok (Inr x)"
  by (simp add: is_ok_def)

lemma is_ok_iff: "is_ok m \<longleftrightarrow> (\<exists>x. m = Inr x)"
  by (auto simp: is_ok_def split: sum.splits)

lemma is_ok_bind [load_simps]: "is_ok (result_bind m k) \<longleftrightarrow> is_ok m \<and> is_ok (k (projr m))"
  by (cases m) (simp_all add: is_ok_def result_bind_def)

lemma is_ok_section [load_simps]: "is_ok (with_section conf s msg k) \<longleftrightarrow> conf s \<noteq> None \<and> is_ok (k (the (conf s)))"
  by (simp add: with_section_def is_ok_def split: option.splits)

lemma is_ok_string [load_simps]:
  "is_ok (read_string sec key msg k) \<longleftrightarrow> key_ok sec key (\<lambda>v. True) \<and> is_ok (k (the (sec key)))"
  by (simp add: read_string_def key_ok_def is_ok_def split: option.splits)

lemma is_ok_uint [load_simps]:
  "is_ok (read_uint sec key msg k) \<longleftrightarrow>
     key_ok sec key (\<lambda>v. parse_uint 10 (2 ^ LENGTH('a)) v \<noteq> None) \<and>
     is_ok (k (word_of_nat (the (parse_uint 10 (2 ^ LENGTH('a)) (the (sec key))))))"
  for k :: "'a::len word \<Rightarrow> config_error + 'b"
  by (auto simp: read_uint_def read_string_def key_ok_def is_ok_def split: option.splits)

lemma is_ok_usize [load_simps]:
  "is_ok (read_usize sec key msg k) \<longleftrightarrow>
     key_ok sec key (\<lambda>v. parse_uint 10 (2 ^ 64) v \<noteq> None) \<and> is_ok (k (the (parse_uint 10 (2 ^ 64) (the (sec key)))))"
  by (auto simp: read_usize_def read_string_def key_ok_def is_ok_def split: option.splits)

lemma is_ok_float [load_simps]:
  "is_ok (read_float p sec key msg k) \<longleftrightarrow> key_ok sec key (\<lambda>v. p v \<noteq> None) \<and> is_ok (k (the (p (the (sec key)))))"
  by (auto simp: read_float_def read_string_def key_ok_def is_ok_def split: option.splits)

lemma entry_present_iff:
  "entry_present p64 p32 conf (s, k, t) \<longleftrightarrow> conf s \<noteq> None \<and> key_ok (the (conf s)) k (value_ok p64 p32 t)"
  by (auto simp: entry_present_def key_ok_def split: option.split)

lemma value_ok_fun:
  "value_ok p64 p32 Str = (\<lambda>v. True)" "value_ok p64 p32 Usize = (\<lambda>v. parse_uint 10 (2 ^ 64) v \<noteq> None)"
  "value_ok p64 p32 (UInt w) = (\<lambda>v. parse_uint 10 (2 ^ w) v \<noteq> None)" "value_ok p64 p32 F64 = (\<lambda>v. p64 v \<noteq> None)"
  "value_ok p64 p32 F32 = (\<lambda>v. p32 v \<noteq> None)"
  by (simp_all add: fun_eq_iff)

text \<open>
  C38. Loading succeeds exactly when the INI file was read and has every section and key of the schema
  with a value that parses at its type: fifty keys in eight sections, each integer within its width.
\<close>
theorem load_iff_schema:
  "(\<exists>c. load p64 p32 read = Inr c) \<longleftrightarrow>
     (case read of Inl _ \<Rightarrow> False | Inr conf \<Rightarrow> list_all (entry_present p64 p32 conf) config_schema)"
proof (cases read)
  case (Inr conf)
  show ?thesis
    unfolding is_ok_iff[symmetric] Inr sum.case load_def config_schema_def list.pred_inject entry_present_iff value_ok_fun
    by (simp add: load_simps load_network_def load_media_def load_rtcp_def load_rtp_def load_sdp_def load_ice_def
        load_server_def load_dcep_def) blast
qed (simp add: load_def result_bind_def)

section \<open>Every value from its own key\<close>

lemma read_string_Some: "sec key = Some v \<Longrightarrow> read_string sec key msg k = k v"
  by (simp add: read_string_def)

lemma read_uint_show: "sec key = Some (show_nat (unat w)) \<Longrightarrow> read_uint sec key msg k = k w" for w :: "'a::len word"
proof -
  have "unat w < 2 ^ LENGTH('a)" by (rule unsigned_less)
  then have "parse_uint 10 (2 ^ LENGTH('a)) (show_nat (unat w)) = Some (unat w)" by (rule parse_show_nat)
  then show "sec key = Some (show_nat (unat w)) \<Longrightarrow> read_uint sec key msg k = k w"
    by (simp add: read_uint_def read_string_def)
qed

lemma read_usize_show: "sec key = Some (show_nat n) \<Longrightarrow> n < 2 ^ 64 \<Longrightarrow> read_usize sec key msg k = k n"
  by (simp add: read_usize_def read_string_def parse_show_nat)

lemma read_float_show: "sec key = Some (sf x) \<Longrightarrow> p (sf x) = Some x \<Longrightarrow> read_float p sec key msg k = k x"
  by (simp add: read_float_def read_string_def)

definition config_fits :: "'f config \<Rightarrow> bool" where
  "config_fits c =
     list_all (\<lambda>n. n < 2 ^ 64)
       [max_udp_packet_size (network c), camera_index (media c), rtp_max_chunk_size (media c), jitter_buffer_size (media c),
        audio_frame_size (media c), retry_limit (rtcp c), max_packet_size (rtp c), origin_id (sdp c),
        max_amount_of_users_connected (server c)]"

text \<open>
  Every field is read from its own key: loading a file that has the values of a configuration under
  the keys of its fields gives that configuration back, when its sizes are sizes of the machine and the
  floating-point numbers are read as they are printed.
\<close>
theorem config_roundtrip:
  assumes "config_fits c" and "\<And>x. p64 (sf x) = Some x" and "\<And>x. p32 (sf x) = Some x"
  shows "load p64 p32 (Inr (config_file sf c)) = Inr c"
  using assms unfolding load_def
  by (simp add: config_file_def with_section_def result_bind_def load_network_def load_media_def load_rtcp_def load_rtp_def
      load_sdp_def load_ice_def load_server_def load_dcep_def config_fits_def read_string_Some read_uint_show read_usize_show
      read_float_show)

text \<open>
  The configuration in \<^verbatim>\<open>room_rtc.conf\<close> at the root of the repository, its floating-point numbers as text.
\<close>

definition shipped_config :: "string config" where
  "shipped_config =
     \<lparr>network = \<lparr>bind_address = ''0.0.0.0'', max_udp_packet_size = 1200\<rparr>,
      media = \<lparr>camera_index = 0, frame_width = ''1280.0'', frame_height = ''720.0'', frame_rate = ''30'',
         h264_idr_interval = 15, rtp_max_chunk_size = 1200, frame_ssrc = 42, audio_ssrc = 43,
         video_payload_type = 96, video_codec_name = ''H264'', clock_rate = 90000, rtp_version = 2,
         video_media_type = ''video'', audio_media_type = ''audio'', media_protocol = ''RTP/AVP'',
         jitter_buffer_size = 512, audio_channels = 2, audio_sample_rate = 48000, audio_frame_size = 960,
         audio_payload_type = 111, audio_codec_name = ''OPUS''\<rparr>,
      rtcp = \<lparr>report_period_millis = 1000, receive_limit_millis = 3000, retry_limit = 5\<rparr>,
      rtp = \<lparr>max_packet_size = 1200, read_timeout_millis = 3000\<rparr>,
      sdp = \<lparr>version = 0, origin_id = 0, session_name = ''-'', timing = ''0 0'',
         connection_data_net_type = ''IN'', connection_data_addr_type = ''IP4'',
         connection_data_address = ''0.0.0.0''\<rparr>,
      ice = \<lparr>foundation = ''1'', transport = ''UDP'', component_id = 1, host_priority_preference = 126,
         srflx_priority_preference = 100, host_local_preference = 65535\<rparr>,
      server = \<lparr>users_file = ''src/server/data.txt'', client_server_addr = ''0.0.0.0:8080'',
         server_client_addr = ''0.0.0.0:8081'', server_private_key_file = ''./tls_server/key.pem'',
         server_certification_file = ''./tls_server/cert.pem'', server_name = ''web_rtc_server'',
         max_amount_of_users_connected = 10\<rparr>,
      dcep = \<lparr>ack_wait_timeout_millis = 0, open_wait_timeout_millis = 0\<rparr>\<rparr>"

theorem config_roundtrip_witness:
  "load Some Some (Inr (config_file (\<lambda>x. x) shipped_config)) = Inr shipped_config"
proof (rule config_roundtrip)
  show "config_fits shipped_config" by (simp add: config_fits_def shipped_config_def)
qed simp_all

section \<open>What the components read\<close>

text \<open>The parts of a configuration the models of the other components use.\<close>

definition pipeline_config_of :: "'f config \<Rightarrow> pipeline_config" where
  "pipeline_config_of c =
     \<lparr>media_config.video_payload_type = video_payload_type (media c), media_config.video_codec_name = video_codec_name (media c),
      media_config.clock_rate = clock_rate (media c), media_config.video_media_type = video_media_type (media c),
      media_config.audio_media_type = audio_media_type (media c), media_config.media_protocol = media_protocol (media c),
      media_config.audio_channels = audio_channels (media c), media_config.audio_sample_rate = audio_sample_rate (media c),
      media_config.audio_payload_type = audio_payload_type (media c), media_config.audio_codec_name = audio_codec_name (media c),
      pipeline_config.rtp_version = rtp_version (media c), pipeline_config.frame_ssrc = frame_ssrc (media c),
      pipeline_config.audio_ssrc = audio_ssrc (media c)\<rparr>"

definition ice_config_of :: "'f config \<Rightarrow> ice_config" where
  "ice_config_of c =
     \<lparr>cfg_foundation = foundation (ice c), cfg_transport = transport (ice c), cfg_component_id = component_id (ice c),
      ice_config.host_priority_preference = host_priority_preference (ice c),
      ice_config.srflx_priority_preference = srflx_priority_preference (ice c),
      ice_config.host_local_preference = host_local_preference (ice c)\<rparr>"

definition sdp_config_of :: "'f config \<Rightarrow> sdp_config" where
  "sdp_config_of c =
     \<lparr>sc_version = version (sdp c), sc_origin_id = origin_id (sdp c), sc_session_name = session_name (sdp c),
      sc_timing = timing (sdp c), sdp_config.connection_data_net_type = connection_data_net_type (sdp c),
      sdp_config.connection_data_addr_type = connection_data_addr_type (sdp c),
      sdp_config.connection_data_address = connection_data_address (sdp c)\<rparr>"

text \<open>
  With the shipped configuration the packets of a frame start with a byte the receiver takes for RTP and
  are told from audio, no chunk size or audio frame size is zero (both would stop their threads), the session
  part is the default one, and priorities are the recommended ones.
\<close>
lemma shipped_config_works:
  "is_rtp_packet (hd (rtp_to_bytes (chunk_packet (pipeline_config_of shipped_config) f i s)))"
  "video_payload_type (media shipped_config) \<noteq> audio_payload_type (media shipped_config)"
  "0 < rtp_max_chunk_size (media shipped_config)" "0 < audio_frame_size (media shipped_config)"
  "sdp_config_of shipped_config = sdp_config_default"
  "ice_config.host_priority_preference (ice_config_of shipped_config) = candidate_type_priority Host"
  "ice_config.srflx_priority_preference (ice_config_of shipped_config) = candidate_type_priority ServerReflexive"
  by (simp_all add: shipped_config_def pipeline_config_of_def rtp_to_bytes_def rtp_header_def chunk_packet_def is_rtp_packet_def
      sdp_config_of_def sdp_config_default_def ice_config_of_def)

end
