(* ===== verification/Runtime.thy ===== *)
theory Runtime
  imports Server_Concurrency Config Client_Server
begin

text \<open>
  The processes and their services: the set-up and the main loop of the signalling server
  (\<^verbatim>\<open>src/server/central_server.rs\<close>, \<^verbatim>\<open>src/bin/server/main.rs\<close>), the entry of the client (\<^verbatim>\<open>src/bin/client/main.rs\<close>)
  and its TLS connections (\<^verbatim>\<open>src/controller/control.rs\<close>), the logger (\<^verbatim>\<open>src/logger/mod.rs\<close>) and the clock
  (\<^verbatim>\<open>src/clock/clock_timer.rs\<close>). The operating system, TLS and the calendar are given by the outcomes of
  their calls.
\<close>

section \<open>Clock\<close>

record clock =
  clock_start :: u128

text \<open>The arguments are the milliseconds elapsed since the instant of creation; subtraction is checked.\<close>

definition clock_new :: "u128 \<Rightarrow> clock" where
  "clock_new elapsed = \<lparr>clock_start = elapsed\<rparr>"

definition clock_now :: "u128 \<Rightarrow> clock \<Rightarrow> u128 option" where
  "clock_now elapsed c = sub_chk elapsed (clock_start c)"

section \<open>Logger\<close>

datatype log_level = Debug | Info | Warn | ErrorLevel

fun show_log_level :: "log_level \<Rightarrow> string" where
  "show_log_level Info = ''INFO''"
| "show_log_level Warn = ''WARN''"
| "show_log_level ErrorLevel = ''ERROR''"
| "show_log_level Debug = ''DEBUG''"

record log_message =
  log_level :: log_level
  log_text :: string
  log_context :: string
  log_time :: string

text \<open>The handles share one channel; a handle is its context.\<close>

record logger =
  logger_context :: string

definition with_context :: "string \<Rightarrow> logger \<Rightarrow> logger" where
  "with_context ctx l = \<lparr>logger_context = ctx\<rparr>"

text \<open>\<open>send\<close>: the channel with the message at its end; \<open>time\<close> is the formatted local time.\<close>

definition log_send :: "log_level \<Rightarrow> string \<Rightarrow> string \<Rightarrow> logger \<Rightarrow> log_message list \<Rightarrow> log_message list" where
  "log_send lvl msg time l ch =
     ch @ [\<lparr>log_level = lvl, log_text = msg, log_context = logger_context l, log_time = time\<rparr>]"

definition log_line :: "log_message \<Rightarrow> string" where
  "log_line m =
     ''['' @ log_time m @ ''] ['' @ show_log_level (log_level m) @ ''] ['' @ log_context m @ ''] '' @ log_text m @ [CHR 0x0A]"

text \<open>The thread: lines are appended until a write fails; \<open>oks\<close> are the outcomes.\<close>

fun logging_thread :: "log_message list \<Rightarrow> bool list \<Rightarrow> string \<Rightarrow> string" where
  "logging_thread (m # ms) (ok # oks) content = (if ok then logging_thread ms oks (content @ log_line m) else content)"
| "logging_thread _ _ content = content"

definition logger_new :: "string + string \<Rightarrow> string + logger \<times> string" where
  "logger_new opened = result_bind opened (\<lambda>content. Inr (\<lparr>logger_context = []\<rparr>, content))"

section \<open>The signalling server\<close>

fun collect_certs :: "(string + 'c) list \<Rightarrow> server_error + 'c list" where
  "collect_certs [] = Inr []"
| "collect_certs (Inr c # rest) = result_bind (collect_certs rest) (\<lambda>cs. Inr (c # cs))"
| "collect_certs (Inl e # rest) = Inl (MapError e)"

definition generate_certs_and_key ::
  "(string \<Rightarrow> string + (string + 'c) list) \<Rightarrow> (string \<Rightarrow> string + 'k) \<Rightarrow> 'f config \<Rightarrow> server_error + 'c list \<times> 'k" where
  "generate_certs_and_key pem_file_iter from_pem_file cfg =
     result_bind (map_err MapError (pem_file_iter (server_certification_file (server cfg)))) (\<lambda>cert_iter.
     result_bind (collect_certs cert_iter) (\<lambda>certs.
     result_bind (map_err MapError (from_pem_file (server_private_key_file (server cfg)))) (\<lambda>key.
       Inr (certs, key))))"

fun first_server_ip :: "interface list \<Rightarrow> server_error + string" where
  "first_server_ip [] = Inl (IPNotFound [])"
| "first_server_ip ((is_loopback, ipv4) # rest) =
     (case ipv4 of
        Some ip \<Rightarrow> if \<not> is_loopback then Inr ip else first_server_ip rest
      | None \<Rightarrow> first_server_ip rest)"

definition get_server_ip :: "string + interface list \<Rightarrow> server_error + string" where
  "get_server_ip interfaces = result_bind (map_err MapError interfaces) first_server_ip"

text \<open>
  The environment of \<open>CentralServer::new\<close>: the certificate and key files, the users file (its contents, or
  the creation of an empty one), the TLS set-up and the network interfaces.
\<close>

record ('c, 'k) server_env =
  se_certs :: "string \<Rightarrow> string + (string + 'c) list"
  se_key :: "string \<Rightarrow> string + 'k"
  se_users :: "string \<Rightarrow> string option"
  se_create :: "string + unit"
  se_tls :: "'c list \<Rightarrow> 'k \<Rightarrow> string + unit"
  se_interfaces :: "string + interface list"

definition server_addr :: "'v6 v6_text \<Rightarrow> string \<Rightarrow> nat \<Rightarrow> server_error + 'v6 socket_addr" where
  "server_addr v6 ip prt =
     (case socket_addr_from_str v6 (ip @ '':'' @ show_nat prt) of
        None \<Rightarrow> Inl (MapError ''invalid socket address syntax'')
      | Some a \<Rightarrow> Inr a)"

text \<open>
  The whole of \<open>new\<close>: the state of the server, and the address that logged-in clients are told to connect to
  for their events. The first of the two addresses is only printed.
\<close>

definition central_server_create ::
  "'v6 v6_text \<Rightarrow> ('c, 'k) server_env \<Rightarrow> 'f config \<Rightarrow> server_error + server \<times> 'v6 socket_addr" where
  "central_server_create v6 env cfg =
     result_bind (generate_certs_and_key (se_certs env) (se_key env) cfg) (\<lambda>(certs, key).
     result_bind (central_server_new (se_users env (server_config.users_file (server cfg))) (se_create env)) (\<lambda>s.
     result_bind (map_err MapError (se_tls env certs key)) (\<lambda>_.
     result_bind (map_err (\<lambda>e. MapError (show_server_error e)) (get_server_ip (se_interfaces env))) (\<lambda>local_ip.
     result_bind (server_addr v6 local_ip 8080) (\<lambda>_.
     result_bind (server_addr v6 local_ip 8081) (\<lambda>event_addr.
       Inr (s, event_addr)))))))"

text \<open>
  The process: the flag, and the addresses on which the two listeners accept. The listener threads
  bind when they run; a failed bind of the first only clears the flag, of the second only ends the thread.
\<close>

record server_process =
  sp_on :: bool
  cs_listener :: "string option"
  sc_listener :: "string option"

definition await_for_connections :: "'f config \<Rightarrow> (string \<Rightarrow> bool) \<Rightarrow> server_process \<Rightarrow> server_process" where
  "await_for_connections cfg bind_ok p =
     (if bind_ok (client_server_addr (server cfg)) then p\<lparr>cs_listener := Some (client_server_addr (server cfg))\<rparr>
      else p\<lparr>sp_on := False\<rparr>)"

definition spawn_server_client_thread :: "'f config \<Rightarrow> (string \<Rightarrow> bool) \<Rightarrow> server_process \<Rightarrow> server_process" where
  "spawn_server_client_thread cfg bind_ok p =
     (if bind_ok (server_client_addr (server cfg)) then p\<lparr>sc_listener := Some (server_client_addr (server cfg))\<rparr>
      else p)"

text \<open>Reading standard input to its end: bytes read per line or an error; \<open>None\<close>: still reading.\<close>

fun read_stdin :: "(string + nat) list \<Rightarrow> server_process \<Rightarrow> server_process option" where
  "read_stdin [] p = None"
| "read_stdin (Inr 0 # rest) p = Some (p\<lparr>sp_on := False\<rparr>)"
| "read_stdin (Inr (Suc n) # rest) p = read_stdin rest p"
| "read_stdin (Inl e # rest) p = Some (p\<lparr>sp_on := False\<rparr>)"

definition server_start ::
  "'f config \<Rightarrow> (string \<Rightarrow> bool) \<Rightarrow> (string + nat) list \<Rightarrow> server_process \<Rightarrow> server_process option" where
  "server_start cfg bind_ok stdin p =
     read_stdin stdin
       (await_for_connections cfg bind_ok (spawn_server_client_thread cfg bind_ok (p\<lparr>sp_on := True\<rparr>)))"

text \<open>The accepting loop: per incoming connection the flag and the stream; the streams that get a worker.\<close>

fun run_connections_loop :: "(bool \<times> (string + 's)) list \<Rightarrow> 's list" where
  "run_connections_loop [] = []"
| "run_connections_loop ((on, stream) # rest) =
     (if \<not> on then []
      else case stream of Inl e \<Rightarrow> run_connections_loop rest | Inr s \<Rightarrow> s # run_connections_loop rest)"

section \<open>The executables\<close>

text \<open>
  Exit codes; \<open>None\<close>: still running. \<open>provider\<close>: installing the crypto provider. The configuration is read
  from the file named by the first argument.
\<close>

definition server_main ::
  "bool \<Rightarrow> string list \<Rightarrow> (string \<Rightarrow> config_error + 'f config) \<Rightarrow> string + logger \<times> string \<Rightarrow>
     ('f config \<Rightarrow> server_error + 'a) \<Rightarrow> ('f config \<Rightarrow> server_process option) \<Rightarrow> nat option" where
  "server_main provider args load_config logger_made new start =
     (if \<not> provider then Some 1
      else if length args \<noteq> 2 then Some 1
      else case load_config (args ! 1) of
             Inl e \<Rightarrow> Some 1
           | Inr cfg \<Rightarrow>
               (case logger_made of
                  Inl e \<Rightarrow> Some 1
                | Inr _ \<Rightarrow>
                    (case new cfg of
                       Inl e \<Rightarrow> Some 1
                     | Inr _ \<Rightarrow> (case start cfg of None \<Rightarrow> None | Some _ \<Rightarrow> Some 0))))"

definition client_main ::
  "'v6 v6_text \<Rightarrow> bool \<Rightarrow> string list \<Rightarrow> (string \<Rightarrow> config_error + 'f config) \<Rightarrow> string + logger \<times> string \<Rightarrow>
     ('f config \<Rightarrow> 'v6 socket_addr \<Rightarrow> nat option) \<Rightarrow> nat option" where
  "client_main v6 provider args load_config logger_made run =
     (if \<not> provider then Some 1
      else if length args \<noteq> 3 then Some 1
      else case socket_addr_from_str v6 (args ! 2) of
             None \<Rightarrow> Some 1
           | Some addr \<Rightarrow>
               (case load_config (args ! 1) of
                  Inl e \<Rightarrow> Some 1
                | Inr cfg \<Rightarrow> (case logger_made of Inl e \<Rightarrow> Some 1 | Inr _ \<Rightarrow> run cfg addr)))"

section \<open>The client's connections\<close>

text \<open>
  \<open>connect_tls\<close>: the certificate file (its certificates, each readable or not), adding one to the store, the
  server's name, the TCP connection and the TLS session.
\<close>

record ('c, 'v6) tls_env =
  te_file :: "string \<Rightarrow> string + (string + 'c) list"
  te_add :: "'c \<Rightarrow> string + unit"
  te_name :: "string \<Rightarrow> bool"
  te_tcp :: "'v6 socket_addr \<Rightarrow> string + unit"
  te_session :: "string + unit"

fun add_certs :: "('c \<Rightarrow> string + unit) \<Rightarrow> (string + 'c) list \<Rightarrow> controller_error + unit" where
  "add_certs store_add [] = Inr ()"
| "add_certs store_add (Inl e # rest) = Inl (CtlMapError (FromText e))"
| "add_certs store_add (Inr c # rest) =
     (case store_add c of Inl e \<Rightarrow> Inl (CtlMapError (FromText e)) | Inr _ \<Rightarrow> add_certs store_add rest)"

definition connect_tls :: "('c, 'v6) tls_env \<Rightarrow> 'v6 socket_addr \<Rightarrow> string \<Rightarrow> string \<Rightarrow> controller_error + unit" where
  "connect_tls te addr ca_cert_path server_name_str =
     result_bind (map_err (\<lambda>e. CtlMapError (FromText e)) (te_file te ca_cert_path)) (\<lambda>certs.
     result_bind (add_certs (te_add te) certs) (\<lambda>_.
     if \<not> te_name te server_name_str then Inl (CtlMapError (FromText ''Invalid server name''))
     else
       result_bind (map_err ConnectionSocketError (te_tcp te addr)) (\<lambda>_.
         map_err (\<lambda>e. CtlMapError (FromText e)) (te_session te))))"

text \<open>\<open>start_server_receiver\<close> before its thread: the argument \<open>second\<close> of \<open>log_in\<close>.\<close>

definition start_server_receiver :: "('c, 'v6) tls_env \<Rightarrow> 'f config \<Rightarrow> 'v6 socket_addr \<Rightarrow> controller_error + unit" where
  "start_server_receiver te cfg addr =
     connect_tls te addr (server_certification_file (server cfg)) (server_name (server cfg))"

definition client_send_response :: "string + unit \<Rightarrow> controller_error + unit" where
  "client_send_response written = map_err (\<lambda>e. CtlMapError (FromText e)) written"

section \<open>Clock and log\<close>

text \<open>Since elapsed time does not decrease, the clock never panics and never goes back.\<close>

lemma clock_monotone:
  assumes "e0 \<le> e1" and "e1 \<le> e2"
  shows "\<exists>t1 t2. clock_now e1 (clock_new e0) = Some t1 \<and> clock_now e2 (clock_new e0) = Some t2 \<and> t1 \<le> t2"
  using assms unfolding clock_now_def clock_new_def sub_chk_def
  by (simp add: word_le_nat_alt unat_sub)

text \<open>While writes succeed the file receives the lines in the order of the channel.\<close>

lemma logging_appends:
  "length ms \<le> n \<Longrightarrow> logging_thread ms (replicate n True) content = content @ concat (map log_line ms)"
proof (induction ms arbitrary: n content)
  case (Cons m ms)
  then show ?case by (cases n) simp_all
qed simp

text \<open>After a failed write nothing is logged any more, although sending still succeeds.\<close>

lemma logging_stops: "logging_thread (m # ms) (False # oks) content = content"
  by simp

text \<open>Contexts do not nest: the last one counts.\<close>

lemma context_replaced: "with_context b (with_context a l) = with_context b l"
  by (simp add: with_context_def)

section \<open>The server's process\<close>

lemma created_server_wf: "central_server_create v6 env cfg = Inr (s, a) \<Longrightarrow> server_wf s"
  by (auto simp: central_server_create_def result_bind_eq_Inr dest: central_server_new_wf)

text \<open>
  The address clients are sent to has the fixed port 8081, whatever address the listener for events is
  configured with.
\<close>

lemma event_port_fixed:
  assumes "central_server_create v6 env cfg = Inr (s, addr)"
  shows "\<exists>ip. get_server_ip (se_interfaces env) = Inr ip \<and> socket_addr_from_str v6 (ip @ '':8081'') = Some addr"
proof -
  have "show_nat 8081 = ''8081''" by (simp add: show_nat.simps)
  then show ?thesis
    using assms by (auto simp: central_server_create_def result_bind_eq_Inr server_addr_def split: option.splits)
qed

lemma event_port_ignores_config:
  "central_server_create v6 env (cfg\<lparr>server := (server cfg)\<lparr>server_client_addr := x\<rparr>\<rparr>) = central_server_create v6 env cfg"
  by (simp add: central_server_create_def generate_certs_and_key_def)

text \<open>
  A server whose listeners cannot be bound runs on like any other, accepting nothing, and its process ends
  with the code of success.
\<close>

lemma unbound_server_runs:
  assumes "\<not> bind_ok (client_server_addr (server cfg))"
  shows "server_start cfg bind_ok (replicate n (Inr 1)) \<lparr>sp_on = False, cs_listener = None, sc_listener = None\<rparr> = None"
    and "\<exists>p. server_start cfg bind_ok (replicate n (Inr 1) @ [Inr 0]) \<lparr>sp_on = False, cs_listener = None, sc_listener = None\<rparr> = Some p \<and>
      cs_listener p = None"
proof -
  have "read_stdin (replicate n (Inr 1)) p = None" for p :: server_process by (induction n) auto
  then show "server_start cfg bind_ok (replicate n (Inr 1)) \<lparr>sp_on = False, cs_listener = None, sc_listener = None\<rparr> = None"
    by (simp add: server_start_def)
  have "read_stdin (replicate n (Inr 1) @ [Inr 0]) p = Some (p\<lparr>sp_on := False\<rparr>)" for p :: server_process
    by (induction n) auto
  then show "\<exists>p. server_start cfg bind_ok (replicate n (Inr 1) @ [Inr 0]) \<lparr>sp_on = False, cs_listener = None, sc_listener = None\<rparr> = Some p \<and>
      cs_listener p = None"
    using assms by (simp add: server_start_def await_for_connections_def spawn_server_client_thread_def)
qed

text \<open>The process ends with success exactly when the set-up worked and the input has ended.\<close>

lemma server_main_success:
  "server_main provider args load_config logger_made new start = Some 0 \<longleftrightarrow>
     provider \<and> length args = 2 \<and>
     (\<exists>cfg l s p. load_config (args ! 1) = Inr cfg \<and> logger_made = Inr l \<and> new cfg = Inr s \<and> start cfg = Some p)"
  by (auto simp: server_main_def split: sum.splits option.splits)

section \<open>From the process to the invariant\<close>

text \<open>
  A server created from its configuration and files keeps its invariant whatever its clients do: the
  event address it hands out in login responses is its own with port 8081, and in every run of messages,
  disconnections and event channels, in any order, the user table stays well formed.
\<close>

theorem created_server_invariant:
  assumes "central_server_create v6 env cfg = Inr (s, addr)"
  shows "server_wf (fst (foldl (server_step addr) (s, \<lambda>_. None) ops)) \<and>
    (\<exists>ip. get_server_ip (se_interfaces env) = Inr ip \<and> socket_addr_from_str v6 (ip @ '':8081'') = Some addr)"
  using srv.run_inv[of "(s, \<lambda>_. None)"] created_server_wf[OF assms] event_port_fixed[OF assms] by simp

end
