(* ===== verification/Stun.thy ===== *)
theory Stun
  imports Ice
begin

text \<open>
  The STUN client of \<^verbatim>\<open>src/session/ice/stun_client.rs\<close>. Name resolution, the random transaction
  identifier and the results of the socket calls are arguments. The address found goes to
  \<open>gather_candidates\<close> of the ICE agent.
\<close>

unbundle bit_operations_syntax

section \<open>The client\<close>

definition stun_cookie :: bytes where
  "stun_cookie = [0x21, 0x12, 0xA4, 0x42]"

text \<open>\<open>format!("{ip}:{port}")\<close> of an attribute value, with the cookie's mask removed.\<close>

definition xor_address :: "bytes \<Rightarrow> string" where
  "xor_address v =
     (let prt = from_be_bytes [v ! 2 XOR 0x21, v ! 3 XOR 0x12] :: u16
      in show_nat (unat (v ! 4 XOR 0x21)) @ ''.'' @ show_nat (unat (v ! 5 XOR 0x12)) @ ''.'' @
           show_nat (unat (v ! 6 XOR 0xA4)) @ ''.'' @ show_nat (unat (v ! 7 XOR 0x42)) @ '':'' @ show_nat (unat prt))"

text \<open>The loop over the attributes; every index it uses is within the data.\<close>

function stun_attributes :: "bytes \<Rightarrow> nat \<Rightarrow> nat \<Rightarrow> string + string" where
  "stun_attributes data msg_len pos =
     (if pos < 20 + msg_len \<and> pos + 4 \<le> length data then
        (let attr_type = from_be_bytes [data ! pos, data ! (pos + 1)] :: u16;
             attr_len = unat (from_be_bytes [data ! (pos + 2), data ! (pos + 3)] :: u16);
             p = pos + 4;
             v = slice data p (p + attr_len);
             padding = (4 - attr_len mod 4) mod 4
         in if attr_type = 0x0020 \<and> p + attr_len \<le> length data \<and> 8 \<le> length v \<and> v ! 1 = 0x01
            then Inr (xor_address v)
            else stun_attributes data msg_len (p + attr_len + padding))
      else Inl ''XOR-MAPPED-ADDRESS (public IP) attribute not found in response'')"
  by pat_completeness auto
termination by (relation "measure (\<lambda>(data, msg_len, pos). length data - pos)") auto

declare stun_attributes.simps [simp del]

definition parse_stun_response :: "bytes \<Rightarrow> string + string" where
  "parse_stun_response data =
     (if length data < 20 then Inl ''Invalid STUN response (too short)''
      else if slice data 4 8 \<noteq> stun_cookie then Inl ''Invalid STUN response: Magic Cookie mismatch''
      else stun_attributes data (unat (from_be_bytes [data ! 2, data ! 3] :: u16)) 20)"

text \<open>The request with the random transaction identifier.\<close>

definition stun_request :: "bytes \<Rightarrow> bytes" where
  "stun_request transaction = [0x00, 0x01, 0x00, 0x00] @ stun_cookie @ transaction"

text \<open>
  The attempts: what \<open>send_to\<close> and \<open>recv_from\<close> returned. \<open>recv_from\<close> fills a buffer of 1024 bytes.
\<close>

fun stun_attempts :: "((string + unit) \<times> (string + bytes)) list \<Rightarrow> string + string" where
  "stun_attempts [] = Inl ''STUN Timeout: No response received from server''"
| "stun_attempts ((Inl e, r) # rest) = stun_attempts rest"
| "stun_attempts ((Inr _, Inl e) # rest) = stun_attempts rest"
| "stun_attempts ((Inr _, Inr datagram) # rest) = parse_stun_response (take 1024 datagram)"

text \<open>\<open>addrs\<close>: the resolved addresses of the server, \<open>True\<close> for an IPv4 address.\<close>

definition get_public_ip_and_port ::
  "string + unit \<Rightarrow> string + bool list \<Rightarrow> (nat \<Rightarrow> (string + unit) \<times> (string + bytes)) \<Rightarrow> string + string" where
  "get_public_ip_and_port timeout_set addrs attempt =
     (case timeout_set of
        Inl e \<Rightarrow> Inl e
      | Inr _ \<Rightarrow>
          (case addrs of
             Inl e \<Rightarrow> Inl e
           | Inr as \<Rightarrow>
               if find id as = None then Inl ''DNS Error: No IPv4 address found for STUN server''
               else stun_attempts (map attempt [1, 2, 3])))"

section \<open>Messages of the server\<close>

text \<open>An attribute and a message as RFC 5389 lays them out.\<close>

definition stun_attr :: "u16 \<Rightarrow> bytes \<Rightarrow> bytes" where
  "stun_attr t v =
     to_be_bytes 2 t @ to_be_bytes 2 (word_of_nat (length v) :: u16) @ v @ replicate ((4 - length v mod 4) mod 4) 0"

definition xor_mapped :: "u8 \<Rightarrow> u8 \<Rightarrow> u8 \<Rightarrow> u8 \<Rightarrow> u16 \<Rightarrow> bytes" where
  "xor_mapped a b c d prt =
     [0, 1] @ to_be_bytes 2 (prt XOR 0x2112) @ [a XOR 0x21, b XOR 0x12, c XOR 0xA4, d XOR 0x42]"

definition stun_message :: "bytes \<Rightarrow> bytes \<Rightarrow> bytes \<Rightarrow> bytes" where
  "stun_message msg_type transaction attrs =
     msg_type @ to_be_bytes 2 (word_of_nat (length attrs) :: u16) @ stun_cookie @ transaction @ attrs"

definition no_address :: "u16 \<times> bytes \<Rightarrow> bool" where
  "no_address a = (length (snd a) < 2 ^ 16 \<and> (fst a = 0x0020 \<longrightarrow> length (snd a) < 8 \<or> snd a ! 1 \<noteq> 0x01))"

lemma from_be_2: "from_be_bytes [x, y] = (word_of_nat (unat x * 256 + unat y) :: u16)"
  by (simp add: from_be_bytes_def nat_be_def)

lemma two_bytes: "length bs = 2 \<Longrightarrow> [bs ! 0, bs ! Suc 0] = bs"
  by (cases bs; cases "tl bs") auto

lemma attr_header:
  assumes "data = pre @ stun_attr t v @ rest" and "length v < 2 ^ 16"
  shows "from_be_bytes [data ! length pre, data ! (length pre + 1)] = t"
    "unat (from_be_bytes [data ! (length pre + 2), data ! (length pre + 3)] :: u16) = length v"
    "slice data (length pre + 4) (length pre + 4 + length v) = v" "length pre + 4 + length v \<le> length data"
proof -
  let ?t = "to_be_bytes 2 t" and ?l = "to_be_bytes 2 (word_of_nat (length v) :: u16)"
  have d: "data = pre @ ?t @ ?l @ v @ replicate ((4 - length v mod 4) mod 4) 0 @ rest"
    using assms(1) by (simp add: stun_attr_def)
  have "[data ! length pre, data ! (length pre + 1)] = ?t" 
    using two_bytes[of ?t] by (simp add: d nth_append)
  then show "from_be_bytes [data ! length pre, data ! (length pre + 1)] = t" by simp
  have "[data ! (length pre + 2), data ! (length pre + 3)] = ?l"
    using two_bytes[of ?l] by (simp add: d nth_append)
  then show "unat (from_be_bytes [data ! (length pre + 2), data ! (length pre + 3)] :: u16) = length v"
    using assms(2) by (simp add: unat_of_nat)
  show "slice data (length pre + 4) (length pre + 4 + length v) = v" "length pre + 4 + length v \<le> length data"
    by (simp_all add: d slice_def)
qed

lemma length_stun_attr: "length (stun_attr t v) = 4 + length v + (4 - length v mod 4) mod 4"
  by (simp add: stun_attr_def)

lemma stun_skip:
  assumes "data = pre @ stun_attr t v @ rest" and "no_address (t, v)" and "length pre < 20 + m"
  shows "stun_attributes data m (length pre) = stun_attributes data m (length (pre @ stun_attr t v))"
proof -
  have l: "length v < 2 ^ 16" using assms(2) by (simp add: no_address_def)
  note h = attr_header[OF assms(1) l]
  have "\<not> (t = 0x0020 \<and> 8 \<le> length v \<and> v ! 1 = 0x01)" using assms(2) by (auto simp: no_address_def)
  then show ?thesis
    using assms(3) h length_stun_attr[of t v]
    by (subst stun_attributes.simps) (auto simp: Let_def add.assoc)
qed

lemma stun_skips:
  assumes "data = pre @ concat (map (\<lambda>(t, v). stun_attr t v) as) @ rest" and "\<forall>a\<in>set as. no_address a"
    and "length data \<le> 20 + m + length rest"
  shows "stun_attributes data m (length pre) = stun_attributes data m (length (pre @ concat (map (\<lambda>(t, v). stun_attr t v) as)))"
  using assms
proof (induction as arbitrary: pre)
  case (Cons a as)
  obtain t v where a: "a = (t, v)" by (cases a)
  let ?r = "concat (map (\<lambda>(t, v). stun_attr t v) as)"
  have d: "data = pre @ stun_attr t v @ ?r @ rest" "data = (pre @ stun_attr t v) @ ?r @ rest" using Cons.prems(1) a by simp_all
  have "length pre < 20 + m" using Cons.prems(1,3) a length_stun_attr[of t v] by simp
  then have "stun_attributes data m (length pre) = stun_attributes data m (length (pre @ stun_attr t v))"
    using stun_skip[OF d(1)] Cons.prems(2) a by simp
  also have "\<dots> = stun_attributes data m (length ((pre @ stun_attr t v) @ ?r))"
    using Cons.IH[OF d(2)] Cons.prems(2,3) by simp
  finally show ?case using a by simp
qed simp

lemma from_be_word_cat: "from_be_bytes [x, y] = (word_cat x y :: u16)"
proof -
  have "(word_of_nat (unat x * 256 + unat y) :: u16) = push_bit 8 (ucast x) + ucast y"
    by (simp add: push_bit_eq_mult)
  then show ?thesis by (simp add: from_be_2 word_cat_eq)
qed

lemma word_cat_xor: "word_cat (x XOR k) (y XOR l) = (word_cat x y XOR word_cat k l :: u16)" for x y k l :: u8
  by (rule bit_word_eqI) (auto simp: bit_word_cat_iff bit_xor_iff)

lemma unmask_port:
  "from_be_bytes [to_be_bytes 2 (w XOR 0x2112) ! 0 XOR 0x21, to_be_bytes 2 (w XOR 0x2112) ! Suc 0 XOR 0x12] = w"
  for w :: u16
proof -
  let ?b = "to_be_bytes 2 (w XOR 0x2112)"
  have "(word_cat (?b ! 0) (?b ! Suc 0) :: u16) = w XOR 0x2112"
    using two_bytes[of ?b] by (simp flip: from_be_word_cat)
  moreover have "(word_cat (0x21 :: u8) (0x12 :: u8) :: u16) = 0x2112"
    by (simp add: word_cat_eq push_bit_eq_mult)
  ultimately show ?thesis by (simp add: from_be_word_cat word_cat_xor xor.assoc)
qed

lemma xor_address_mapped:
  "xor_address (xor_mapped a b c d prt) =
     show_nat (unat a) @ ''.'' @ show_nat (unat b) @ ''.'' @ show_nat (unat c) @ ''.'' @ show_nat (unat d) @ '':'' @
     show_nat (unat prt)"
  using unmask_port[of prt]
  by (simp add: xor_address_def xor_mapped_def Let_def nth_append xor.assoc numeral_2_eq_2 numeral_3_eq_3)

lemma length_xor_mapped: "length (xor_mapped a b c d prt) = 8" "xor_mapped a b c d prt ! 1 = 1"
  by (simp_all add: xor_mapped_def)

lemma stun_found:
  assumes "data = pre @ stun_attr 0x0020 (xor_mapped a b c d prt) @ rest" and "length pre < 20 + m"
  shows "stun_attributes data m (length pre) = Inr (xor_address (xor_mapped a b c d prt))"
proof -
  have l: "length (xor_mapped a b c d prt) < 2 ^ 16" by (simp add: length_xor_mapped)
  note h = attr_header[OF assms(1) l]
  then show ?thesis
    using assms(2) length_xor_mapped[of a b c d prt] by (subst stun_attributes.simps) (simp add: Let_def)
qed

lemma parse_stun_message:
  assumes "length msg_type = 2" and "length transaction = 12" and "\<forall>x\<in>set as. no_address x"
    and "length (concat (map (\<lambda>(t, v). stun_attr t v) as) @ stun_attr 0x0020 (xor_mapped a b c d prt) @ trailer) < 2 ^ 16"
  shows "parse_stun_response (stun_message msg_type transaction
       (concat (map (\<lambda>(t, v). stun_attr t v) as) @ stun_attr 0x0020 (xor_mapped a b c d prt) @ trailer)) =
     Inr (xor_address (xor_mapped a b c d prt))"
proof -
  let ?a = "concat (map (\<lambda>(t, v). stun_attr t v) as)" and ?x = "stun_attr 0x0020 (xor_mapped a b c d prt)"
  let ?l = "to_be_bytes 2 (word_of_nat (length (?a @ ?x @ trailer)) :: u16)"
  let ?pre = "msg_type @ ?l @ stun_cookie @ transaction"
  define data where "data = stun_message msg_type transaction (?a @ ?x @ trailer)"
  have d: "data = ?pre @ ?a @ ?x @ trailer" by (simp add: data_def stun_message_def)
  have lc: "length stun_cookie = 4" by (simp add: stun_cookie_def)
  have pre: "length ?pre = 20" using assms(1,2) lc by simp
  have "[data ! 2, data ! 3] = ?l"
    using two_bytes[of ?l] assms(1) by (simp add: d nth_append)
  then have m: "unat (from_be_bytes [data ! 2, data ! 3] :: u16) = length (?a @ ?x @ trailer)"
    using assms(4) by (simp add: unat_of_nat del: length_append)
  have "slice data 4 8 = stun_cookie" using assms(1) lc by (simp add: d)
  then have "parse_stun_response data = stun_attributes data (length (?a @ ?x @ trailer)) (length ?pre)"
    using pre m by (simp add: parse_stun_response_def d)
  also have "\<dots> = stun_attributes data (length (?a @ ?x @ trailer)) (length (?pre @ ?a))"
    by (rule stun_skips) (use d pre assms(3) in simp_all)
  also have "\<dots> = Inr (xor_address (xor_mapped a b c d prt))"
    by (rule stun_found[of _ _ _ _ _ _ _ trailer]) (use d pre in \<open>simp_all add: length_stun_attr\<close>)
  finally show ?thesis unfolding data_def .
qed

definition answered :: "(string + unit) \<times> (string + bytes) \<Rightarrow> bool" where
  "answered r = (case r of (Inr _, Inr _) \<Rightarrow> True | _ \<Rightarrow> False)"

lemma stun_attempts_first:
  "\<forall>x\<in>set pre. \<not> answered x \<Longrightarrow>
     stun_attempts (pre @ (Inr (), Inr dg) # rest) = parse_stun_response (take 1024 dg)"
  by (induction pre rule: stun_attempts.induct) (auto simp: answered_def)

lemma split_socket_text:
  "split_once (CHR '':'') (show_nat i @ ''.'' @ show_nat j @ ''.'' @ show_nat k @ ''.'' @ show_nat l @ '':'' @ show_nat q) =
     Some (show_nat i @ ''.'' @ show_nat j @ ''.'' @ show_nat k @ ''.'' @ show_nat l, show_nat q)"
proof -
  have n: "CHR '':'' \<notin> set (show_nat m)" for m using show_nat_digits[of "CHR '':''" m] by auto
  show ?thesis
    using split_once_append[of "CHR '':''" "show_nat i @ ''.'' @ show_nat j @ ''.'' @ show_nat k @ ''.'' @ show_nat l"] n
    by simp
qed

text \<open>
  C39. When one of the three requests is answered by a message that carries the address \<open>a.b.c.d\<close> and a port
  in XOR-MAPPED-ADDRESS form, after any other attributes with their padding, the client returns
  \<open>a.b.c.d:port\<close>, and gathering candidates with that result ends with the server-reflexive candidate
  for exactly this address and port.
\<close>
theorem stun_reflexive_candidate:
  fixes a b c d :: u8 and prt :: u16
  assumes "length msg_type = 2" and "length transaction = 12" and "\<forall>x\<in>set as. no_address x"
    and "dg = stun_message msg_type transaction
           (concat (map (\<lambda>(t, v). stun_attr t v) as) @ stun_attr 0x0020 (xor_mapped a b c d prt) @ trailer)"
    and "length dg \<le> 1024" and "True \<in> set addrs"
    and "k \<in> {1, 2, 3}" and "attempt k = (Inr (), Inr dg)" and "\<forall>i<k. \<not> answered (attempt i)"
    and "unat (srflx_priority_preference cfg) * 1000 < 2 ^ 32"
  shows "\<exists>ag'. gather_candidates ag ifs local_port (get_public_ip_and_port (Inr ()) (Inr addrs) attempt) cfg = Some ag' \<and>
     cand_type (last (local_candidates ag')) = ServerReflexive \<and>
     address (last (local_candidates ag')) =
       show_nat (unat a) @ ''.'' @ show_nat (unat b) @ ''.'' @ show_nat (unat c) @ ''.'' @ show_nat (unat d) \<and>
     cand_port (last (local_candidates ag')) = prt"
proof -
  have l: "length (concat (map (\<lambda>(t, v). stun_attr t v) as) @ stun_attr 0x0020 (xor_mapped a b c d prt) @ trailer) < 2 ^ 16"
    using assms(4,5) by (simp add: stun_message_def)
  have "stun_attempts (map attempt [1, 2, 3]) = parse_stun_response (take 1024 dg)"
    using assms(7-9) stun_attempts_first[of "[]" dg "[attempt 2, attempt 3]"]
      stun_attempts_first[of "[attempt 1]" dg "[attempt 3]"] stun_attempts_first[of "[attempt 1, attempt 2]" dg "[]"]
    by auto
  also have "\<dots> = Inr (xor_address (xor_mapped a b c d prt))"
    using parse_stun_message[OF assms(1-3) l] assms(4,5) by simp
  finally have g: "get_public_ip_and_port (Inr ()) (Inr addrs) attempt = Inr (xor_address (xor_mapped a b c d prt))"
    using assms(6) by (auto simp: get_public_ip_and_port_def find_None_iff)
  have "unat prt < 65536" using unsigned_less[of prt] by simp
  then have "parse_uint 10 65536 (show_nat (unat prt)) = Some (unat prt)" by (rule parse_show_nat)
  then show ?thesis
    using assms(10)
    by (simp only: g gather_candidates_def xor_address_mapped split_socket_text sum.case option.case prod.case Let_def)
       (simp add: candidate_new_def)
qed

text \<open>The second request is answered, with a software attribute before the address.\<close>

definition sample_stun_answer :: bytes where
  "sample_stun_answer = stun_message [1, 1] (replicate 12 7)
     (concat (map (\<lambda>(t, v). stun_attr t v) [(0x8022, [1, 2, 3, 4, 5])]) @ stun_attr 0x0020 (xor_mapped 200 100 50 25 8888) @ [])"

definition sample_attempts :: "nat \<Rightarrow> (string + unit) \<times> (string + bytes)" where
  "sample_attempts i = (Inr (), if i = 2 then Inr sample_stun_answer else Inl ''timed out'')"

definition sample_stun_cfg :: ice_config where
  "sample_stun_cfg = \<lparr>cfg_foundation = ''1'', cfg_transport = ''UDP'', cfg_component_id = 1,
     host_priority_preference = 126, srflx_priority_preference = 100, host_local_preference = 1\<rparr>"

theorem stun_reflexive_candidate_witness:
  "\<exists>ag'. gather_candidates ice_agent_new None None
       (get_public_ip_and_port (Inr ()) (Inr [False, True]) sample_attempts) sample_stun_cfg = Some ag' \<and>
     cand_type (last (local_candidates ag')) = ServerReflexive \<and>
     address (last (local_candidates ag')) = ''200.100.50.25'' \<and> cand_port (last (local_candidates ag')) = 8888"
proof -
  have l: "length sample_stun_answer \<le> 1024"
    by (simp add: sample_stun_answer_def stun_message_def stun_attr_def xor_mapped_def stun_cookie_def)
  have n: "\<forall>x\<in>set [(0x8022, [1, 2, 3, 4, 5])]. no_address x" by (simp add: no_address_def)
  have t: "show_nat 200 = ''200''" "show_nat 100 = ''100''" "show_nat 50 = ''50''" "show_nat 25 = ''25''"
    by (simp_all add: show_nat.simps)
  show ?thesis
    using stun_reflexive_candidate[OF _ _ n sample_stun_answer_def l, of "[False, True]" 2 sample_attempts sample_stun_cfg ice_agent_new None None]
    by (simp add: sample_attempts_def answered_def sample_stun_cfg_def t)
qed

text \<open>
  Neither the message type nor the transaction identifier of an answer is looked at: an error message,
  or one that answers no request of the client, sets the public address.
\<close>
theorem stun_unsolicited_accepted:
  "parse_stun_response (stun_message [0x01, 0x11] (replicate 12 0) (stun_attr 0x0020 (xor_mapped 6 6 6 6 666))) =
     Inr ''6.6.6.6:666''"
proof -
  have t: "show_nat 6 = ''6''" "show_nat 666 = ''666''" by (simp_all add: show_nat.simps)
  have "length (stun_attr 0x0020 (xor_mapped 6 6 6 6 666)) < 2 ^ 16" by (simp add: length_stun_attr length_xor_mapped)
  then show ?thesis
    using parse_stun_message[of "[0x01, 0x11]" "replicate 12 0" "[]" 6 6 6 6 666 "[]"] by (simp add: xor_address_mapped t)
qed

end
