(* ===== verification/Spec2Isabelle.thy ===== *)
theory Spec2Isabelle
  imports Call_Screens Call_Setup Frame_Path Mock_Socket Runtime Stun
begin

text \<open>
  RoomRTC: a video-calling client and its signalling server, written in Rust.

  \<^bold>\<open>The program.\<close> A client (\<^verbatim>\<open>src/controller\<close>) talks to the signalling server (\<^verbatim>\<open>src/server\<close>) over TLS with
  text messages (\<^verbatim>\<open>src/client_server_protocol\<close>) and shows its state on screen (\<^verbatim>\<open>src/ui\<close>): users
  sign up, log in and request calls; the server keeps the table of users and their states and forwards session descriptions. Two clients exchange an
  offer and an answer (\<^verbatim>\<open>src/session/call_session.rs\<close>, \<^verbatim>\<open>src/session/sdp\<close>), find a pair of addresses (\<^verbatim>\<open>src/session/ice\<close>),
  agree on keys by DTLS (\<^verbatim>\<open>src/dtls\<close>) and then send RTP packets protected by SRTP (\<^verbatim>\<open>src/srtp\<close>, \<^verbatim>\<open>src/transport\<close>), with RTCP reports
  beside them. Video frames are encoded, cut into packets, reordered by a jitter buffer and decoded
  (\<^verbatim>\<open>src/media\<close>, \<^verbatim>\<open>src/transport/jitter_buffer\<close>); files travel over SCTP data channels (\<^verbatim>\<open>src/sctp_transport\<close>, \<^verbatim>\<open>src/file\<close>).

  \<^bold>\<open>Conventions.\<close> Machine integers are words of their width. Arithmetic that Rust checks in debug
  builds returns \<open>None\<close> on overflow (\<open>add_chk\<close>, \<open>sub_chk\<close>), and \<open>None\<close> of an operation is a panic. \<open>Result\<close> is a sum
  with the error left. Strings are lists of UTF-8 bytes as characters. What a thread observes of its
  surroundings (reads of a socket, a clock, a lock, a flag another thread may clear) is an argument: a
  list with one entry per round for a loop, where the end of the list means that the loop still runs;
  a function of the reading's number for the clock. So a theorem about a loop covers every
  behaviour of the environment, and one that says a loop ends says so for a list of rounds. The
  \<open>while\<close> loops of the jitter buffer and of the microphone are \<open>while_option\<close> and \<open>partial_function (option)\<close>, the other
  bounded loops recursive functions with termination proofs; no fuel is used.

  \<^bold>\<open>Theories.\<close>
  \<^item> \<open>Rust_Prelude\<close>, \<open>Rust_Str\<close>: integers, byte encodings, ring indices, the locales \<open>codec\<close>, \<open>prefix_codec\<close>
    (a wire format) and \<open>step_system\<close> (a component with an invariant); text operations of Rust.
  \<^item> \<open>Rtp_Packet\<close>, \<open>Rtcp_Packet\<close>: the packet formats with their round trips.
  \<^item> \<open>Srtp\<close>: keys, initialisation vectors, \<open>protect\<close> and \<open>unprotect\<close>; what one side protects the other
    restores, and nothing without a valid tag is accepted. AES and HMAC are a parameter.
  \<^item> \<open>Ice\<close>, \<open>Stun\<close>: candidates, priorities, pairs and connectivity checks; the parser of STUN answers, up to
    the server-reflexive candidate it yields.
  \<^item> \<open>Sdp\<close>, \<open>Call_Session\<close>: descriptions with parser, printer and negotiation; the offer/answer exchange of two
    sessions with complementary DTLS roles.
  \<^item> \<open>Dtls\<close>, \<open>Secure_Call\<close>: certificates, fingerprints and the two handshakes; after an exchange a side accepts
    exactly the certificate the other announced, and the two media transports start on opposite sides of one
    SRTP context and the two file transferers on opposite ends of the association. The transferer's listener.
  \<^item> \<open>Call_Setup\<close>: the controller's operations that join a call, with the operations of session, transport and transferer
    in place of their outcomes, shown to refine those of \<open>Controller\<close>. A call between two clients is
    established when the environment answers, with media in both directions and separate file channels.
  \<^item> \<open>Protocol\<close>, \<open>Server\<close>, \<open>Server_Concurrency\<close>: messages; every request handler of the server with its user table,
    event streams and users file, the invariant of any sequence of operations; the interleavings
    that the locks allow, and the counter of connected users under overlapping handshakes.
  \<^item> \<open>Controller\<close>, \<open>Client_Server\<close>: the client's operations, with its media pipeline, and its receiving thread; login and call from the
    client through the bytes on the wire to the server and on to the called client. The locale
    \<open>signalling_link\<close> is what a client relies on, interpreted by the server's connection loop.
  \<^item> \<open>Error_Display\<close>, \<open>Widgets\<close>, \<open>User_Interface\<close>, \<open>Call_Screens\<close>: the messages of all errors; the elements of the views; the
    application with its views, controls, events, files and texture threads, its well-formedness in every
    run (an instance of \<open>step_system\<close>); login, call and the end of a call from the click to the server and to
    the screen of the other user.
  \<^item> \<open>Config\<close>, \<open>Runtime\<close>: the configuration file; creation and start of the server's process, the executables,
    TLS connections, logger and clock.
  \<^item> \<open>App_Event\<close>, \<open>Rtcp_Session\<close>, \<open>Media_Transport\<close>: the events for the interface; the RTCP handshake as a transition
    system of two peers whose datagrams arrive in any order, reports and the end of a silent call; the sending and receiving threads
    and the SRTP layers between them.
  \<^item> \<open>Jitter_Buffer\<close>, \<open>Media_Pipeline\<close>, \<open>Frame_Path\<close>: the buffer, its invariant and what \<open>pop\<close> delivers; chunking,
    packets and the reassembly thread; a whole frame from the encoder to the decoder.
  \<^item> \<open>Audio_Capture\<close>, \<open>Audio_Devices\<close>, \<open>Media_Devices\<close>: the ring buffer refines a bounded queue (locale \<open>frame_queue\<close>), and
    cutting frames from it loses nothing; conversion, resampling and the speaker, whose callbacks together play a prefix of
    the whole stream resampled at once; camera, codecs' wrappers, start and stop of the pipelines. A value of \<open>f32\<close> is a rational, and
    every operation is followed by a rounding that is a parameter.
  \<^item> \<open>Data_Channel\<close>, \<open>Sctp_Transport\<close>, \<open>File_Transfer\<close>: opening channels, stream numbers and the event loop; offers,
    the sending and the receiving loop of a file.
  \<^item> \<open>Mock_Socket\<close>: the socket trait as the locale \<open>datagram_source\<close>, interpreted by the mock socket; the RTP receiver reads from it what it was given.

  \<^bold>\<open>Deviations.\<close> Theorems outside the numbered properties show where the program misbehaves; their
  names say what happens, for instance \<open>early_window_rejects_next\<close>, \<open>comma_name_breaks_logins\<close>, \<open>lost_hello_deadlock\<close>, \<open>overtaken_hello_deadlock\<close>, \<open>capacity_exceeded\<close>,
  \<open>forged_datagram_stops_media\<close>, \<open>failed_open_reuses_stream\<close>, \<open>failed_event_channel_logged_in\<close>, \<open>native_rate_loses_sample\<close>, \<open>overshoot_lost\<close>, \<open>stale_timer_rejects_call\<close>.

  \<^bold>\<open>Not modelled.\<close> TLS, DTLS, SCTP, the video and audio codecs, the colour conversion, the devices, the ini
  parser and the calendar are libraries: what they return is an argument of the definitions that
  use it, with the laws the program relies on as named hypotheses (\<open>openssl_ok\<close>, \<open>dtls_lib_ok\<close>, \<open>exact_grid\<close>). Of the
  interface the geometry, fonts and colours of egui are left out; of the logger's messages only the one
  that misreports a delivery is kept. The implementation of
  the socket trait for UDP forwards to the standard library, and \<^verbatim>\<open>src/controller/mock_utils.rs\<close> is in no module of the program.
\<close>

end
